(* ===== verification/Prelude.thy ===== *)
theory Prelude
  imports Main "HOL-Library.Word"
begin

text \<open>
  Shared vocabulary of the development: Unicode text, results, machine integers, decimal
  numerals, and the contract \<open>codec\<close> that the keyword table, the opcode table and the
  little-endian operands all satisfy.

  A Rust \<open>char\<close> is a Unicode scalar value, here a natural number; a \<open>String\<close> is the
  list of its scalars. \<open>lit\<close> turns an ASCII literal into such a list.
\<close>

named_theorems lex_simps \<open>the cursor operations in terms of the unread text\<close>
named_theorems vm_simps \<open>the accessors of the virtual machine state\<close>

type_synonym uchar = nat
type_synonym str = "uchar list"
type_synonym u8 = "8 word"
type_synonym u16 = "16 word"
type_synonym u64 = "64 word"
type_synonym ('e, 'a) result = "'e + 'a"

abbreviation Err :: "'e \<Rightarrow> ('e, 'a) result" where "Err \<equiv> Inl"
abbreviation Ok :: "'a \<Rightarrow> ('e, 'a) result" where "Ok \<equiv> Inr"

section \<open>Text\<close>

definition lit :: "string \<Rightarrow> str" where
  "lit s = map of_char s"

definition chr :: "char \<Rightarrow> uchar" where
  "chr c = of_char c"

definition newline :: uchar where "newline = 10"
definition carriage_return :: uchar where "carriage_return = 13"
definition backslash :: uchar where "backslash = 92"
definition dquote :: uchar where "dquote = 34"
definition squote :: uchar where "squote = 39"

lemmas char_defs = chr_def newline_def carriage_return_def backslash_def dquote_def squote_def

lemma lit_eq_iff [simp]: "lit a = lit b \<longleftrightarrow> a = b"
  by (simp add: lit_def inj_map_eq_map inj_def)

lemma lit_Nil [simp]: "lit [] = []"
  by (simp add: lit_def)

lemma lit_Cons: "lit (c # s) = chr c # lit s"
  by (simp add: lit_def chr_def)

lemma lit_append: "lit (a @ b) = lit a @ lit b"
  by (simp add: lit_def)

lemma chr_eq_iff [simp]: "chr a = chr b \<longleftrightarrow> a = b"
  by (simp add: chr_def)

lemma length_lit [simp]: "length (lit s) = length s"
  by (simp add: lit_def)

text \<open>\<open>char::len_utf8\<close> of the standard library.\<close>

definition len_utf8 :: "uchar \<Rightarrow> nat" where
  "len_utf8 c = (if c < 0x80 then 1 else if c < 0x800 then 2 else if c < 0x10000 then 3 else 4)"

lemma len_utf8_bounds: "1 \<le> len_utf8 c \<and> len_utf8 c \<le> 4"
  by (simp add: len_utf8_def)

lemma len_utf8_pos [simp]: "0 < len_utf8 c"
  by (simp add: len_utf8_def)

definition byte_len :: "str \<Rightarrow> nat" where
  "byte_len s = sum_list (map len_utf8 s)"

lemma byte_len_simps [simp]:
  "byte_len [] = 0" "byte_len (c # s) = len_utf8 c + byte_len s"
  "byte_len (s @ t) = byte_len s + byte_len t"
  by (simp_all add: byte_len_def)

section \<open>Character classes\<close>

definition is_ascii_digit :: "uchar \<Rightarrow> bool" where
  "is_ascii_digit c \<longleftrightarrow> 48 \<le> c \<and> c \<le> 57"

definition is_ascii_alphabetic :: "uchar \<Rightarrow> bool" where
  "is_ascii_alphabetic c \<longleftrightarrow> 65 \<le> c \<and> c \<le> 90 \<or> 97 \<le> c \<and> c \<le> 122"

definition is_ascii_hexdigit :: "uchar \<Rightarrow> bool" where
  "is_ascii_hexdigit c \<longleftrightarrow> is_ascii_digit c \<or> 65 \<le> c \<and> c \<le> 70 \<or> 97 \<le> c \<and> c \<le> 102"

text \<open>The Unicode property \<open>White_Space\<close>, which \<open>char::is_whitespace\<close> tests.\<close>

definition is_whitespace :: "uchar \<Rightarrow> bool" where
  "is_whitespace c \<longleftrightarrow> 9 \<le> c \<and> c \<le> 13 \<or> c = 32 \<or> c = 0x85 \<or> c = 0xA0 \<or> c = 0x1680
     \<or> 0x2000 \<le> c \<and> c \<le> 0x200A \<or> c = 0x2028 \<or> c = 0x2029 \<or> c = 0x202F
     \<or> c = 0x205F \<or> c = 0x3000"

text \<open>
  \<open>char::from_u32\<close>: the scalar values are the code points below \<open>0x110000\<close> that are not
  surrogates.
\<close>

definition char_from_u32 :: "nat \<Rightarrow> uchar option" where
  "char_from_u32 n = (if n < 0xD800 \<or> 0xE000 \<le> n \<and> n < 0x110000 then Some n else None)"

definition hex_value :: "uchar \<Rightarrow> nat" where
  "hex_value c = (if is_ascii_digit c then c - 48 else if c \<le> 70 then c - 55 else c - 87)"

section \<open>Decimal numerals\<close>

fun show_nat :: "nat \<Rightarrow> str" where
  "show_nat n = (if n < 10 then [48 + n] else show_nat (n div 10) @ [48 + n mod 10])"

declare show_nat.simps [simp del]

definition show_int :: "int \<Rightarrow> str" where
  "show_int i = (if i < 0 then lit ''-'' @ show_nat (nat (- i)) else show_nat (nat i))"

text \<open>\<open>from_str_radix\<close> in base \<open>b\<close> on text all of whose characters are digits of that base.\<close>

definition digits_value :: "nat \<Rightarrow> str \<Rightarrow> nat" where
  "digits_value b s = foldl (\<lambda>n c. b * n + hex_value c) 0 s"

lemma show_nat_not_Nil [simp]: "show_nat n \<noteq> []"
  by (subst show_nat.simps) simp

lemma show_nat_digits: "c \<in> set (show_nat n) \<Longrightarrow> is_ascii_digit c"
proof (induction n rule: show_nat.induct)
  case (1 n)
  show ?case
  proof (cases "n < 10")
    case True
    with "1.prems" show ?thesis
      by (subst (asm) show_nat.simps) (auto simp: is_ascii_digit_def)
  next
    case False
    with "1.prems" "1.IH" show ?thesis
      by (subst (asm) show_nat.simps) (auto simp: is_ascii_digit_def)
  qed
qed

lemma digits_value_snoc [simp]: "digits_value b (s @ [c]) = b * digits_value b s + hex_value c"
  by (simp add: digits_value_def)

lemma digits_value_show_nat [simp]: "digits_value 10 (show_nat n) = n"
proof (induction n rule: show_nat.induct)
  case (1 n)
  show ?case
  proof (cases "n < 10")
    case True
    then show ?thesis
      by (subst show_nat.simps) (simp add: digits_value_def hex_value_def is_ascii_digit_def)
  next
    case False
    with "1.IH" show ?thesis
      by (subst show_nat.simps) (simp add: hex_value_def is_ascii_digit_def)
  qed
qed

section \<open>Results\<close>

fun bindE :: "('e, 'a) result \<Rightarrow> ('a \<Rightarrow> ('e, 'b) result) \<Rightarrow> ('e, 'b) result" where
  "bindE (Inl e) f = Err e"
| "bindE (Inr a) f = f a"

lemma bindE_cong [fundef_cong]:
  "m = m' \<Longrightarrow> (\<And>a. m' = Ok a \<Longrightarrow> f a = g a) \<Longrightarrow> bindE m f = bindE m' g"
  by (cases m') auto

lemma bindE_eq_Ok: "bindE m f = Ok b \<longleftrightarrow> (\<exists>a. m = Ok a \<and> f a = Ok b)"
  by (cases m) auto

lemma bindE_eq_Err: "bindE m f = Err e \<longleftrightarrow> m = Err e \<or> (\<exists>a. m = Ok a \<and> f a = Err e)"
  by (cases m) auto

lemma bindE_split: "P (bindE m f) \<longleftrightarrow> (\<forall>e. m = Err e \<longrightarrow> P (Err e)) \<and> (\<forall>a. m = Ok a \<longrightarrow> P (f a))"
  by (cases m) auto

text \<open>\<open>collect\<close> of an iterator of results: the first error wins.\<close>

fun collectE :: "('a \<Rightarrow> ('e, 'b) result) \<Rightarrow> 'a list \<Rightarrow> ('e, 'b list) result" where
  "collectE f [] = Ok []"
| "collectE f (x # xs) = bindE (f x) (\<lambda>y. bindE (collectE f xs) (\<lambda>ys. Ok (y # ys)))"

lemma collectE_cong [fundef_cong]:
  "xs = ys \<Longrightarrow> (\<And>x. x \<in> set ys \<Longrightarrow> f x = g x) \<Longrightarrow> collectE f xs = collectE g ys"
proof (induction xs arbitrary: ys)
  case Nil
  then show ?case by auto
next
  case (Cons a xs)
  then show ?case by (cases ys) (auto intro!: bindE_cong)
qed

lemma collectE_Ok_iff: "collectE f xs = Ok ys \<longleftrightarrow> list_all2 (\<lambda>x y. f x = Ok y) xs ys"
  by (induction xs arbitrary: ys) (auto simp: bindE_eq_Ok list_all2_Cons1)

lemma collectE_Ok_map: "(\<And>x. x \<in> set xs \<Longrightarrow> f x = Ok (g x)) \<Longrightarrow> collectE f xs = Ok (map g xs)"
  by (induction xs) auto

fun intercalate :: "str \<Rightarrow> str list \<Rightarrow> str" where
  "intercalate sep [] = []"
| "intercalate sep [x] = x"
| "intercalate sep (x # y # xs) = x @ sep @ intercalate sep (y # xs)"

section \<open>The contract of an encoding\<close>

text \<open>
  Several tables of the program are written twice, once in each direction: keyword and
  spelling, opcode and byte, operand and bytes. \<open>codec\<close> is what such a pair promises on
  the values \<open>good\<close> it is used for.
\<close>

locale codec =
  fixes encode :: "'a \<Rightarrow> 'b"
    and decode :: "'b \<Rightarrow> 'a option"
    and good :: "'a \<Rightarrow> bool"
  assumes decode_encode: "good x \<Longrightarrow> decode (encode x) = Some x"
    and decode_sound: "decode b = Some x \<Longrightarrow> good x \<and> encode x = b"
begin

lemma encode_inj: "good x \<Longrightarrow> good y \<Longrightarrow> encode x = encode y \<Longrightarrow> x = y"
  by (metis decode_encode option.inject)

lemma decode_iff: "decode b = Some x \<longleftrightarrow> good x \<and> encode x = b"
  using decode_encode decode_sound by blast

lemma decode_inj: "decode b = Some x \<Longrightarrow> decode c = Some x \<Longrightarrow> b = c"
  using decode_sound by metis

lemma decode_None_iff: "decode b = None \<longleftrightarrow> (\<forall>x. good x \<longrightarrow> encode x \<noteq> b)"
  using decode_iff by (metis not_None_eq)

end

end
