(* ===== verification/Source_Span.thy ===== *)
theory Source_Span
  imports Prelude
begin

text \<open>
  Source positions, spans and diagnostics: \<open>src/ast/span.rs\<close> and \<open>src/error.rs\<close>.

  \<open>offset\<close> is a byte offset (a \<open>usize\<close> that a source text cannot overflow); \<open>line\<close> and
  \<open>col\<close> are \<open>u32\<close> counters of a text of fewer than \<open>2 ^ 32\<close> characters. All three are
  natural numbers here.
\<close>

section \<open>Positions and spans\<close>

record pos =
  offset :: nat
  line :: nat
  col :: nat

record span =
  sp_start :: pos
  sp_end :: pos

definition pos_ZERO :: pos where
  "pos_ZERO = \<lparr>offset = 0, line = 1, col = 1\<rparr>"

definition advance :: "pos \<Rightarrow> uchar \<Rightarrow> pos" where
  "advance p ch =
     (if ch = newline then
        \<lparr>offset = offset p + len_utf8 ch, line = line p + 1, col = 1\<rparr>
      else if ch = carriage_return then
        \<lparr>offset = offset p + len_utf8 ch, line = line p, col = col p\<rparr>
      else
        \<lparr>offset = offset p + len_utf8 ch, line = line p, col = col p + 1\<rparr>)"

definition pos_show :: "pos \<Rightarrow> str" where
  "pos_show p = lit ''line '' @ show_nat (line p) @ lit '', col '' @ show_nat (col p)"

definition span_new :: "pos \<Rightarrow> pos \<Rightarrow> span" where
  "span_new s e = \<lparr>sp_start = s, sp_end = e\<rparr>"

definition span_at :: "pos \<Rightarrow> span" where
  "span_at p = \<lparr>sp_start = p, sp_end = p\<rparr>"

definition span_dummy :: span where
  "span_dummy = span_at pos_ZERO"

definition span_union :: "span \<Rightarrow> span \<Rightarrow> span" where
  "span_union s t =
     (let st = (if offset (sp_start s) < offset (sp_start t) then sp_start s else sp_start t);
          en = (if offset (sp_end t) < offset (sp_end s) then sp_end s else sp_end t)
      in \<lparr>sp_start = st, sp_end = en\<rparr>)"

definition span_show :: "span \<Rightarrow> str" where
  "span_show s =
     (if line (sp_start s) = line (sp_end s)
      then lit ''line '' @ show_nat (line (sp_start s)) @ lit '', col '' @ show_nat (col (sp_start s))
           @ lit ''-'' @ show_nat (col (sp_end s))
      else lit ''line '' @ show_nat (line (sp_start s)) @ lit '' col '' @ show_nat (col (sp_start s))
           @ lit '' - line '' @ show_nat (line (sp_end s)) @ lit '' col '' @ show_nat (col (sp_end s)))"

lemma offset_advance [simp]: "offset (advance p c) = offset p + len_utf8 c"
  by (simp add: advance_def)

lemma offset_foldl_advance [simp]: "offset (foldl advance p s) = offset p + byte_len s"
  by (induction s arbitrary: p) simp_all

lemma line_foldl_advance [simp]:
  "line (foldl advance p s) = line p + length (filter (\<lambda>c. c = newline) s)"
  by (induction s arbitrary: p) (simp_all add: advance_def)

lemma col_foldl_advance:
  assumes "newline \<notin> set s"
  shows "col (foldl advance p s) = col p + length (filter (\<lambda>c. c \<noteq> carriage_return) s)"
  using assms by (induction s arbitrary: p) (auto simp: advance_def)

definition span_le :: "span \<Rightarrow> span \<Rightarrow> bool" where
  "span_le s t \<longleftrightarrow> offset (sp_start t) \<le> offset (sp_start s) \<and> offset (sp_end s) \<le> offset (sp_end t)"

lemma span_union_covers: "span_le s (span_union s t) \<and> span_le t (span_union s t)"
  by (simp add: span_le_def span_union_def Let_def)

lemma span_union_least:
  "span_le s u \<Longrightarrow> span_le t u \<Longrightarrow> span_le (span_union s t) u"
  by (simp add: span_le_def span_union_def Let_def)

section \<open>Diagnostics\<close>

record source_error =
  err_span :: span
  message :: str
  hint :: "str option"

definition source_error_new :: "span \<Rightarrow> str \<Rightarrow> source_error" where
  "source_error_new sp msg = \<lparr>err_span = sp, message = msg, hint = None\<rparr>"

definition with_hint :: "source_error \<Rightarrow> str \<Rightarrow> source_error" where
  "with_hint e h = e\<lparr>hint := Some h\<rparr>"

definition full_message :: "source_error \<Rightarrow> str" where
  "full_message e =
     (case hint e of
        Some h \<Rightarrow> message e @ [newline] @ lit ''  hint: '' @ h
      | None \<Rightarrow> message e)"

text \<open>
  \<open>str::lines\<close>: the text between line feeds, without a final carriage return; a final line
  feed does not start another line.
\<close>

definition strip_cr :: "str \<Rightarrow> str" where
  "strip_cr s = (if s \<noteq> [] \<and> last s = carriage_return then butlast s else s)"

fun lines_from :: "str \<Rightarrow> str \<Rightarrow> str list" where
  "lines_from cur [] = (if cur = [] then [] else [cur])"
| "lines_from cur (c # s) = (if c = newline then strip_cr cur # lines_from [] s else lines_from (cur @ [c]) s)"

definition str_lines :: "str \<Rightarrow> str list" where
  "str_lines s = lines_from [] s"

definition nth_line :: "str \<Rightarrow> nat \<Rightarrow> str" where
  "nth_line s i = (if i < length (str_lines s) then str_lines s ! i else [])"

text \<open>
  The body that \<open>SourceError::render\<close> and \<open>InterpreterError::render\<close> share: the location,
  the source line and the carets under it. Subtraction on natural numbers saturates, as
  \<open>saturating_sub\<close> does.
\<close>

definition render_snippet :: "str \<Rightarrow> span \<Rightarrow> str \<Rightarrow> str" where
  "render_snippet msg sp src =
     (let line_idx = line (sp_start sp) - 1;
          line_str = nth_line src line_idx;
          start_col = max (col (sp_start sp)) 1;
          end_col = (if line (sp_start sp) = line (sp_end sp) then max (col (sp_end sp)) 1
                     else length line_str + 1);
          pad = replicate (start_col - 1) (chr CHR '' '');
          carets = replicate (max (end_col - start_col) 1) (chr CHR ''^'')
      in lit ''error: '' @ msg @ [newline]
         @ lit ''  --> '' @ span_show sp @ [newline]
         @ lit ''   | '' @ line_str @ [newline]
         @ lit ''   | '' @ pad @ carets @ [newline])"

definition render :: "source_error \<Rightarrow> str \<Rightarrow> str" where
  "render e src =
     render_snippet (message e) (err_span e) src
     @ (case hint e of Some h \<Rightarrow> lit ''   = hint: '' @ h @ [newline] | None \<Rightarrow> [])"

definition source_error_show :: "source_error \<Rightarrow> str" where
  "source_error_show e = lit ''error at '' @ span_show (err_span e) @ lit '': '' @ message e"

record error_report =
  errors :: "source_error list"

definition error_report_new :: error_report where
  "error_report_new = \<lparr>errors = []\<rparr>"

definition error_report_push :: "error_report \<Rightarrow> source_error \<Rightarrow> error_report" where
  "error_report_push r e = r\<lparr>errors := errors r @ [e]\<rparr>"

definition error_report_is_empty :: "error_report \<Rightarrow> bool" where
  "error_report_is_empty r \<longleftrightarrow> errors r = []"

definition into_result :: "error_report \<Rightarrow> 'a \<Rightarrow> (source_error list, 'a) result" where
  "into_result r x = (if errors r = [] then Ok x else Err (errors r))"

definition render_all :: "error_report \<Rightarrow> str \<Rightarrow> str" where
  "render_all r src = intercalate [newline] (map (\<lambda>e. render e src) (errors r))"

lemma into_result_push: "into_result (error_report_push r e) x = Err (errors r @ [e])"
  by (simp add: into_result_def error_report_push_def)

end
