(* ===== verification/Token.thy ===== *)
theory Token
  imports Source_Span
begin

text \<open>
  Tokens: \<open>src/lexer/token.rs\<close>. Decimal literals carry a value of the third-party type
  \<open>BigDecimal\<close>, the type parameter \<open>'d\<close>. Constructors take a prefix where the source's bare
  name is a constant of HOL.
\<close>

section \<open>Keywords\<close>

datatype (plugins only: size code) keyword =
  KLet | KFn | KIf | KElse | KMatch | KWhile | KFor | KIn | KBreak | KContinue | KLoop
| KEnum | KType | KStruct
| KActor | KState | KOn | KSpawn | KReply | KYield | KAwait | KShared | KTransact | KRetry
| KImport | KLazy | KAs
| KRaise | KTry | KRescue | KEnsure | KReturn
| KTrue | KFalse | KNil
| KAnd | KOr | KNot

definition from_ident :: "str \<Rightarrow> keyword option" where
  "from_ident ident =
     (if ident = lit ''let'' then Some KLet
      else if ident = lit ''fn'' then Some KFn
      else if ident = lit ''if'' then Some KIf
      else if ident = lit ''else'' then Some KElse
      else if ident = lit ''match'' then Some KMatch
      else if ident = lit ''while'' then Some KWhile
      else if ident = lit ''for'' then Some KFor
      else if ident = lit ''in'' then Some KIn
      else if ident = lit ''break'' then Some KBreak
      else if ident = lit ''continue'' then Some KContinue
      else if ident = lit ''loop'' then Some KLoop
      else if ident = lit ''enum'' then Some KEnum
      else if ident = lit ''type'' then Some KType
      else if ident = lit ''struct'' then Some KStruct
      else if ident = lit ''actor'' then Some KActor
      else if ident = lit ''state'' then Some KState
      else if ident = lit ''on'' then Some KOn
      else if ident = lit ''spawn'' then Some KSpawn
      else if ident = lit ''reply'' then Some KReply
      else if ident = lit ''yield'' then Some KYield
      else if ident = lit ''await'' then Some KAwait
      else if ident = lit ''shared'' then Some KShared
      else if ident = lit ''transact'' then Some KTransact
      else if ident = lit ''retry'' then Some KRetry
      else if ident = lit ''import'' then Some KImport
      else if ident = lit ''lazy'' then Some KLazy
      else if ident = lit ''as'' then Some KAs
      else if ident = lit ''raise'' then Some KRaise
      else if ident = lit ''try'' then Some KTry
      else if ident = lit ''rescue'' then Some KRescue
      else if ident = lit ''ensure'' then Some KEnsure
      else if ident = lit ''return'' then Some KReturn
      else if ident = lit ''true'' then Some KTrue
      else if ident = lit ''false'' then Some KFalse
      else if ident = lit ''nil'' then Some KNil
      else if ident = lit ''and'' then Some KAnd
      else if ident = lit ''or'' then Some KOr
      else if ident = lit ''not'' then Some KNot
      else None)"

fun keyword_as_str :: "keyword \<Rightarrow> str" where
  "keyword_as_str KLet = lit ''let''"
| "keyword_as_str KFn = lit ''fn''"
| "keyword_as_str KIf = lit ''if''"
| "keyword_as_str KElse = lit ''else''"
| "keyword_as_str KMatch = lit ''match''"
| "keyword_as_str KWhile = lit ''while''"
| "keyword_as_str KFor = lit ''for''"
| "keyword_as_str KIn = lit ''in''"
| "keyword_as_str KBreak = lit ''break''"
| "keyword_as_str KContinue = lit ''continue''"
| "keyword_as_str KLoop = lit ''loop''"
| "keyword_as_str KEnum = lit ''enum''"
| "keyword_as_str KType = lit ''type''"
| "keyword_as_str KStruct = lit ''struct''"
| "keyword_as_str KActor = lit ''actor''"
| "keyword_as_str KState = lit ''state''"
| "keyword_as_str KOn = lit ''on''"
| "keyword_as_str KSpawn = lit ''spawn''"
| "keyword_as_str KReply = lit ''reply''"
| "keyword_as_str KYield = lit ''yield''"
| "keyword_as_str KAwait = lit ''await''"
| "keyword_as_str KShared = lit ''shared''"
| "keyword_as_str KTransact = lit ''transact''"
| "keyword_as_str KRetry = lit ''retry''"
| "keyword_as_str KImport = lit ''import''"
| "keyword_as_str KLazy = lit ''lazy''"
| "keyword_as_str KAs = lit ''as''"
| "keyword_as_str KRaise = lit ''raise''"
| "keyword_as_str KTry = lit ''try''"
| "keyword_as_str KRescue = lit ''rescue''"
| "keyword_as_str KEnsure = lit ''ensure''"
| "keyword_as_str KReturn = lit ''return''"
| "keyword_as_str KTrue = lit ''true''"
| "keyword_as_str KFalse = lit ''false''"
| "keyword_as_str KNil = lit ''nil''"
| "keyword_as_str KAnd = lit ''and''"
| "keyword_as_str KOr = lit ''or''"
| "keyword_as_str KNot = lit ''not''"

lemma from_ident_as_str: "from_ident (keyword_as_str k) = Some k"
  by (cases k) (simp_all add: from_ident_def)

lemma as_str_from_ident: "from_ident s = Some k \<Longrightarrow> keyword_as_str k = s"
  by (auto simp: from_ident_def split: if_splits)

interpretation kw: codec keyword_as_str from_ident "\<lambda>_. True"
  by unfold_locales (auto simp: from_ident_as_str as_str_from_ident)

lemma keyword_spelling: "keyword_as_str k \<noteq> [] \<and> list_all (\<lambda>c. 97 \<le> c \<and> c \<le> 122) (keyword_as_str k)"
  by (cases k) (simp_all add: lit_def)

section \<open>Tokens\<close>

datatype str_part = PartLiteral str | PartExpr str span

datatype (plugins only: size code) 'd token_kind =
  TInt int | TDecimal 'd | TStr "str_part list"
| TIdent str | TKeyword keyword
| LParen | RParen | LBrace | RBrace | LBracket | RBracket | HashBrace
| Comma | Colon | DoubleColon | Semicolon | Dot | DotDot
| Arrow | FatArrow | Pipe | Bang | Question | Assign | TEq | Neq | Lt | Gt | Lte | Gte
| TPlus | TMinus | Star | Slash | Percent
| PlusAssign | MinusAssign | StarAssign | SlashAssign | PercentAssign
| TAnd | TOr | Pipe2 | Underscore | TEof

record 'd token =
  kind :: "'d token_kind"
  tok_span :: span

definition token_new :: "'d token_kind \<Rightarrow> span \<Rightarrow> 'd token" where
  "token_new k s = \<lparr>kind = k, tok_span = s\<rparr>"

fun describe :: "'d token_kind \<Rightarrow> str" where
  "describe (TInt _) = lit ''integer''"
| "describe (TDecimal _) = lit ''decimal''"
| "describe (TStr _) = lit ''string''"
| "describe (TIdent s) = lit ''identifier `'' @ s @ lit ''`''"
| "describe (TKeyword k) = lit ''keyword `'' @ keyword_as_str k @ lit ''`''"
| "describe LParen = lit ''`(`''"
| "describe RParen = lit ''`)`''"
| "describe LBrace = lit ''`{`''"
| "describe RBrace = lit ''`}`''"
| "describe LBracket = lit ''`[`''"
| "describe RBracket = lit ''`]`''"
| "describe HashBrace = lit ''`#{`''"
| "describe Comma = lit ''`,`''"
| "describe Colon = lit ''`:`''"
| "describe DoubleColon = lit ''`::`''"
| "describe Semicolon = lit ''`;`''"
| "describe Dot = lit ''`.`''"
| "describe DotDot = lit ''`..`''"
| "describe Arrow = lit ''`->`''"
| "describe FatArrow = lit ''`=>`''"
| "describe Pipe = lit ''`|>`''"
| "describe Bang = lit ''`!`''"
| "describe Question = lit ''`?`''"
| "describe Assign = lit ''`=`''"
| "describe TEq = lit ''`==`''"
| "describe Neq = lit ''`!=`''"
| "describe Lt = lit ''`<`''"
| "describe Gt = lit ''`>`''"
| "describe Lte = lit ''`<=`''"
| "describe Gte = lit ''`>=`''"
| "describe TPlus = lit ''`+`''"
| "describe TMinus = lit ''`-`''"
| "describe Star = lit ''`*`''"
| "describe Slash = lit ''`/`''"
| "describe Percent = lit ''`%`''"
| "describe PlusAssign = lit ''`+=`''"
| "describe MinusAssign = lit ''`-=`''"
| "describe StarAssign = lit ''`*=`''"
| "describe SlashAssign = lit ''`/=`''"
| "describe PercentAssign = lit ''`%=`''"
| "describe TAnd = lit ''`&&`''"
| "describe TOr = lit ''`||`''"
| "describe Pipe2 = lit ''`|`''"
| "describe Underscore = lit ''`_`''"
| "describe TEof = lit ''end of file''"

end
