(* ===== verification/External.thy ===== *)
theory External
  imports Prelude
begin

text \<open>
  Code outside the repository: the crate \<open>bigdecimal\<close> (a type parameter \<open>'d\<close> with its
  operations) and the tables behind the Unicode predicates of the standard library above
  ASCII. Definitions that use them take a record of type \<open>'d ext\<close> as first argument. The
  laws that theorems need of them are the predicate \<open>decimal_laws\<close>. \<open>BigInt\<close>, the crate
  \<open>num-bigint\<close>, is arbitrary-precision arithmetic and is modelled by \<open>int\<close>.
\<close>

datatype ordering = Less | Equal | Greater

record 'd ext =
  uni_alphabetic :: "uchar \<Rightarrow> bool"
  uni_alphanumeric :: "uchar \<Rightarrow> bool"
  uni_uppercase :: "uchar \<Rightarrow> bool"
  dec_parse :: "str \<Rightarrow> 'd option"
  dec_show :: "'d \<Rightarrow> str"
  dec_of_int :: "int \<Rightarrow> 'd"
  dec_add :: "'d \<Rightarrow> 'd \<Rightarrow> 'd"
  dec_sub :: "'d \<Rightarrow> 'd \<Rightarrow> 'd"
  dec_mul :: "'d \<Rightarrow> 'd \<Rightarrow> 'd"
  dec_div :: "'d \<Rightarrow> 'd \<Rightarrow> 'd"
  dec_neg :: "'d \<Rightarrow> 'd"
  dec_cmp :: "'d \<Rightarrow> 'd \<Rightarrow> ordering"
  dec_is_zero :: "'d \<Rightarrow> bool"
  dec_to_i64 :: "'d \<Rightarrow> int option"

definition dec_eq :: "'d ext \<Rightarrow> 'd \<Rightarrow> 'd \<Rightarrow> bool" where
  "dec_eq X a b \<longleftrightarrow> dec_cmp X a b = Equal"

definition is_alphabetic :: "'d ext \<Rightarrow> uchar \<Rightarrow> bool" where
  "is_alphabetic X c = (if c < 128 then is_ascii_alphabetic c else uni_alphabetic X c)"

definition is_alphanumeric :: "'d ext \<Rightarrow> uchar \<Rightarrow> bool" where
  "is_alphanumeric X c =
     (if c < 128 then is_ascii_alphabetic c \<or> is_ascii_digit c else uni_alphanumeric X c)"

definition is_uppercase :: "'d ext \<Rightarrow> uchar \<Rightarrow> bool" where
  "is_uppercase X c = (if c < 128 then 65 \<le> c \<and> c \<le> 90 else uni_uppercase X c)"

text \<open>\<open>std::cmp::Ordering\<close> of integers, as \<open>BigInt::cmp\<close> returns it.\<close>

definition int_cmp :: "int \<Rightarrow> int \<Rightarrow> ordering" where
  "int_cmp x y = (if x < y then Less else if x = y then Equal else Greater)"

fun flip_ordering :: "ordering \<Rightarrow> ordering" where
  "flip_ordering Less = Greater"
| "flip_ordering Equal = Equal"
| "flip_ordering Greater = Less"

text \<open>
  Documented behaviour of \<open>BigDecimal\<close>: exact conversion from integers, exact sums,
  differences and products, and a total comparison by numerical value.
\<close>

definition decimal_laws :: "'d ext \<Rightarrow> bool" where
  "decimal_laws X \<longleftrightarrow>
     (\<forall>a. dec_cmp X a a = Equal)
   \<and> (\<forall>a b. dec_cmp X b a = flip_ordering (dec_cmp X a b))
   \<and> (\<forall>a b c. dec_cmp X a b \<noteq> Greater \<longrightarrow> dec_cmp X b c \<noteq> Greater \<longrightarrow> dec_cmp X a c \<noteq> Greater)
   \<and> (\<forall>x y. dec_cmp X (dec_of_int X x) (dec_of_int X y) = int_cmp x y)
   \<and> (\<forall>x y. dec_eq X (dec_add X (dec_of_int X x) (dec_of_int X y)) (dec_of_int X (x + y)))
   \<and> (\<forall>x y. dec_eq X (dec_sub X (dec_of_int X x) (dec_of_int X y)) (dec_of_int X (x - y)))
   \<and> (\<forall>x y. dec_eq X (dec_mul X (dec_of_int X x) (dec_of_int X y)) (dec_of_int X (x * y)))
   \<and> (\<forall>a. dec_is_zero X a \<longleftrightarrow> dec_eq X a (dec_of_int X 0))"

text \<open>
  A concrete instance, used by witnesses only: a decimal is a mantissa with the number of its
  decimal places, no character above ASCII has a class, and a quotient keeps two more
  places than its dividend.
\<close>

type_synonym fixed = "int \<times> nat"

definition fixed_cmp :: "fixed \<Rightarrow> fixed \<Rightarrow> ordering" where
  "fixed_cmp a b = int_cmp (fst a * 10 ^ snd b) (fst b * 10 ^ snd a)"

definition fixed_ext :: "fixed ext" where
  "fixed_ext =
     \<lparr>uni_alphabetic = (\<lambda>_. False), uni_alphanumeric = (\<lambda>_. False), uni_uppercase = (\<lambda>_. False),
      dec_parse = (\<lambda>s. if s \<noteq> [] \<and> list_all is_ascii_digit (filter (\<lambda>c. c \<noteq> 46) s)
                       then Some (int (digits_value 10 (filter (\<lambda>c. c \<noteq> 46) s)),
                                  length s - length (takeWhile (\<lambda>c. c \<noteq> 46) s) - 1)
                       else None),
      dec_show = (\<lambda>d. show_int (fst d) @ lit ''e-'' @ show_nat (snd d)),
      dec_of_int = (\<lambda>i. (i, 0)),
      dec_add = (\<lambda>a b. (fst a * 10 ^ snd b + fst b * 10 ^ snd a, snd a + snd b)),
      dec_sub = (\<lambda>a b. (fst a * 10 ^ snd b - fst b * 10 ^ snd a, snd a + snd b)),
      dec_mul = (\<lambda>a b. (fst a * fst b, snd a + snd b)),
      dec_div = (\<lambda>a b. (fst a * 10 ^ (snd b + 2) div fst b, snd a + 2)),
      dec_neg = (\<lambda>a. (- fst a, snd a)),
      dec_cmp = fixed_cmp,
      dec_is_zero = (\<lambda>a. fst a = 0),
      dec_to_i64 = (\<lambda>a. let n = (if fst a < 0 then - (- fst a div 10 ^ snd a) else fst a div 10 ^ snd a)
                        in if - (2 ^ 63) \<le> n \<and> n < 2 ^ 63 then Some n else None)\<rparr>"

lemma fixed_cmp_trans:
  assumes "fixed_cmp a b \<noteq> Greater" and "fixed_cmp b c \<noteq> Greater"
  shows "fixed_cmp a c \<noteq> Greater"
proof -
  have ab: "fst a * 10 ^ snd b \<le> fst b * 10 ^ snd a" and bc: "fst b * 10 ^ snd c \<le> fst c * 10 ^ snd b"
    using assms by (auto simp: fixed_cmp_def int_cmp_def split: if_splits)
  have "(fst a * 10 ^ snd c) * 10 ^ snd b = (fst a * 10 ^ snd b) * 10 ^ snd c" by simp
  also have "\<dots> \<le> (fst b * 10 ^ snd a) * 10 ^ snd c" by (rule mult_right_mono [OF ab]) simp
  also have "\<dots> = (fst b * 10 ^ snd c) * 10 ^ snd a" by simp
  also have "\<dots> \<le> (fst c * 10 ^ snd b) * 10 ^ snd a" by (rule mult_right_mono [OF bc]) simp
  also have "\<dots> = (fst c * 10 ^ snd a) * 10 ^ snd b" by simp
  finally have "fst a * 10 ^ snd c \<le> fst c * 10 ^ snd a" by simp
  then show ?thesis by (simp add: fixed_cmp_def int_cmp_def)
qed

lemma fixed_ext_laws: "decimal_laws fixed_ext"
  unfolding decimal_laws_def
proof (intro conjI allI impI)
  fix a b :: fixed
  show "dec_cmp fixed_ext b a = flip_ordering (dec_cmp fixed_ext a b)"
    by (simp add: fixed_ext_def fixed_cmp_def int_cmp_def)
  fix c
  assume "dec_cmp fixed_ext a b \<noteq> Greater" and "dec_cmp fixed_ext b c \<noteq> Greater"
  then show "dec_cmp fixed_ext a c \<noteq> Greater"
    using fixed_cmp_trans by (simp add: fixed_ext_def)
qed (auto simp: fixed_ext_def fixed_cmp_def int_cmp_def dec_eq_def)

end
