(* ===== verification/Lexer.thy ===== *)
theory Lexer
  imports Token External
begin

text \<open>
  The lexer: \<open>src/lexer/mod.rs\<close>. The state is the source's: the unread characters, the
  lookahead buffer in front of them, the position and the recorded errors. Every operation
  is a function of the state; a loop is a recursion that ends because the unread text
  shrinks, which \<open>scans\<close> states for every operation at once: an operation consumes a prefix
  of the unread text, advances the position over exactly that prefix, and only appends to
  the errors.
\<close>

section \<open>The cursor\<close>

record lexer =
  chars :: str
  peek_buf :: str
  lpos :: pos
  lerrors :: "source_error list"

definition lexer_new :: "str \<Rightarrow> lexer" where
  "lexer_new src = \<lparr>chars = src, peek_buf = [], lpos = pos_ZERO, lerrors = []\<rparr>"

function fill :: "nat \<Rightarrow> lexer \<Rightarrow> lexer" where
  "fill n lx =
     (if length (peek_buf lx) < n then
        (case chars lx of
           [] \<Rightarrow> lx
         | c # cs \<Rightarrow> fill n (lx\<lparr>chars := cs, peek_buf := peek_buf lx @ [c]\<rparr>))
      else lx)"
  by pat_completeness auto
termination
  by (relation "measure (\<lambda>(n, lx). length (chars lx))") auto

declare fill.simps [simp del]

text \<open>
  \<open>peek\<close>, \<open>peek2\<close> and the third character that \<open>lex_triple_string\<close> looks at. The source
  leaves the filled buffer in the state; nothing can observe that (\<open>fill_unread\<close>), so these
  return the character only.
\<close>

definition peek_at :: "nat \<Rightarrow> lexer \<Rightarrow> uchar option" where
  "peek_at i lx =
     (let buf = peek_buf (fill (Suc i) lx) in if i < length buf then Some (buf ! i) else None)"

definition peek :: "lexer \<Rightarrow> uchar option" where
  "peek lx = peek_at 0 lx"

definition peek2 :: "lexer \<Rightarrow> uchar option" where
  "peek2 lx = peek_at 1 lx"

definition bump :: "lexer \<Rightarrow> uchar option \<times> lexer" where
  "bump lx =
     (let lx1 = fill 1 lx in
      case peek_buf lx1 of
        [] \<Rightarrow> (None, lx1)
      | c # cs \<Rightarrow> (Some c, lx1\<lparr>peek_buf := cs, lpos := advance (lpos lx1) c\<rparr>))"

abbreviation skip1 :: "lexer \<Rightarrow> lexer" where
  "skip1 lx \<equiv> snd (bump lx)"

definition lex_error :: "span \<Rightarrow> str \<Rightarrow> lexer \<Rightarrow> lexer" where
  "lex_error sp msg lx = lx\<lparr>lerrors := lerrors lx @ [source_error_new sp msg]\<rparr>"

definition tok :: "pos \<Rightarrow> 'd token_kind \<Rightarrow> lexer \<Rightarrow> 'd token" where
  "tok start k lx = token_new k (span_new start (lpos lx))"

subsection \<open>The unread text\<close>

definition unread :: "lexer \<Rightarrow> str" where
  "unread lx = peek_buf lx @ chars lx"

lemma fill_unread [simp]: "unread (fill n lx) = unread lx"
  and fill_lpos [simp]: "lpos (fill n lx) = lpos lx"
  and fill_lerrors [simp]: "lerrors (fill n lx) = lerrors lx"
proof (induction n lx rule: fill.induct)
  case (1 n lx)
  { case 1 with "1.IH" show ?case by (subst fill.simps) (auto simp: unread_def split: list.splits) }
  { case 2 with "1.IH" show ?case by (subst fill.simps) (auto split: list.splits) }
  { case 3 with "1.IH" show ?case by (subst fill.simps) (auto split: list.splits) }
qed

lemma fill_enough: "n \<le> length (peek_buf (fill n lx)) \<or> chars (fill n lx) = []"
proof (induction n lx rule: fill.induct)
  case (1 n lx)
  then show ?case by (subst (1 2) fill.simps) (auto split: list.splits)
qed

lemma peek_at_unread [lex_simps]:
  "peek_at i lx = (if i < length (unread lx) then Some (unread lx ! i) else None)"
proof -
  define f where "f = fill (Suc i) lx"
  have u: "unread lx = peek_buf f @ chars f" and e: "i < length (peek_buf f) \<or> chars f = []"
    using fill_enough [of "Suc i" lx] fill_unread [of "Suc i" lx]
    by (auto simp: f_def unread_def)
  show ?thesis
    using e by (auto simp: peek_at_def Let_def u nth_append simp flip: f_def)
qed

lemma peek_unread [lex_simps]: "peek lx = (case unread lx of [] \<Rightarrow> None | c # _ \<Rightarrow> Some c)"
  by (auto simp: peek_def peek_at_unread split: list.splits)

lemma peek2_unread [lex_simps]:
  "peek2 lx = (case unread lx of _ # c # _ \<Rightarrow> Some c | _ \<Rightarrow> None)"
  by (auto simp: peek2_def peek_at_unread split: list.splits)

lemma bump_Nil: "unread lx = [] \<Longrightarrow> bump lx = (None, fill 1 lx)"
  using fill_unread [of 1 lx] by (auto simp: bump_def unread_def Let_def split: list.splits)

lemma bump_Cons:
  assumes "unread lx = c # cs"
  obtains lx' where "bump lx = (Some c, lx')" and "unread lx' = cs"
    and "lpos lx' = advance (lpos lx) c" and "lerrors lx' = lerrors lx"
proof -
  have "peek_buf (fill 1 lx) \<noteq> []" and "peek_buf (fill 1 lx) @ chars (fill 1 lx) = c # cs"
    using fill_enough [of 1 lx] fill_unread [of 1 lx] assms by (auto simp: unread_def)
  then obtain b where "peek_buf (fill 1 lx) = c # b" and "b @ chars (fill 1 lx) = cs"
    by (cases "peek_buf (fill 1 lx)") auto
  then show thesis
    using that [of "snd (bump lx)"] by (simp add: bump_def Let_def unread_def)
qed

lemma bump_fst [lex_simps]: "fst (bump lx) = (case unread lx of [] \<Rightarrow> None | c # _ \<Rightarrow> Some c)"
  by (cases "unread lx") (auto simp: bump_Nil elim: bump_Cons)

lemma bump_unread [lex_simps]: "unread (skip1 lx) = tl (unread lx)"
  by (cases "unread lx") (auto simp: bump_Nil elim: bump_Cons)

lemma bump_lerrors [lex_simps]: "lerrors (skip1 lx) = lerrors lx"
  by (cases "unread lx") (auto simp: bump_Nil elim: bump_Cons)

lemma bump_lpos [lex_simps]:
  "lpos (skip1 lx) = (case unread lx of [] \<Rightarrow> lpos lx | c # _ \<Rightarrow> advance (lpos lx) c)"
  by (cases "unread lx") (auto simp: bump_Nil elim: bump_Cons)

lemma lex_error_simps [lex_simps]:
  "unread (lex_error sp msg lx) = unread lx" "lpos (lex_error sp msg lx) = lpos lx"
  "lerrors (lex_error sp msg lx) = lerrors lx @ [source_error_new sp msg]"
  by (simp_all add: lex_error_def unread_def)

subsection \<open>Scanning\<close>

definition scans :: "lexer \<Rightarrow> lexer \<Rightarrow> bool" where
  "scans lx lx' \<longleftrightarrow>
     (\<exists>s. unread lx = s @ unread lx' \<and> lpos lx' = foldl advance (lpos lx) s)
   \<and> (\<exists>es. lerrors lx' = lerrors lx @ es)"

lemma scans_refl [simp, intro]: "scans lx lx"
  by (auto simp: scans_def)

lemma scans_trans [trans]: "scans a b \<Longrightarrow> scans b c \<Longrightarrow> scans a c"
proof -
  assume "scans a b" and "scans b c"
  then obtain s t es fs where "unread a = s @ unread b" "lpos b = foldl advance (lpos a) s"
    "lerrors b = lerrors a @ es" "unread b = t @ unread c" "lpos c = foldl advance (lpos b) t"
    "lerrors c = lerrors b @ fs"
    unfolding scans_def by blast
  then have "unread a = (s @ t) @ unread c" "lpos c = foldl advance (lpos a) (s @ t)"
    "lerrors c = lerrors a @ (es @ fs)"
    by simp_all
  then show ?thesis unfolding scans_def by blast
qed

lemma scans_skip1 [simp, intro]: "scans lx (skip1 lx)"
proof (cases "unread lx")
  case Nil
  then show ?thesis by (simp add: scans_def lex_simps)
next
  case (Cons c cs)
  then have "unread lx = [c] @ unread (skip1 lx)" "lpos (skip1 lx) = foldl advance (lpos lx) [c]"
    by (simp_all add: lex_simps)
  then show ?thesis unfolding scans_def by (metis append_Nil2 bump_lerrors)
qed

lemma scans_lex_error [simp, intro]: "scans lx (lex_error sp msg lx)"
  by (auto simp: scans_def lex_simps)

lemma scans_lex_errorI: "scans a lx \<Longrightarrow> scans a (lex_error sp msg lx)"
  using scans_trans scans_lex_error by blast

lemma scans_skip1I: "scans a lx \<Longrightarrow> scans a (skip1 lx)"
  using scans_trans scans_skip1 by blast

lemma scans_length: "scans a b \<Longrightarrow> length (unread b) \<le> length (unread a)"
  by (auto simp: scans_def)

lemma skip1_length: "unread lx \<noteq> [] \<Longrightarrow> length (unread (skip1 lx)) < length (unread lx)"
  by (cases "unread lx") (simp_all add: lex_simps)

lemma peek_SomeD: "peek lx = Some c \<Longrightarrow> unread lx \<noteq> []"
  by (auto simp: lex_simps split: list.splits)

lemma bump_SomeD:
  "bump lx = (Some c, lx') \<Longrightarrow> unread lx = c # unread lx' \<and> lx' = skip1 lx"
  by (cases "unread lx") (auto simp: bump_Nil elim: bump_Cons)

lemma bump_NoneD: "bump lx = (None, lx') \<Longrightarrow> unread lx = [] \<and> lx' = skip1 lx"
  by (cases "unread lx") (auto simp: bump_Nil elim: bump_Cons)


text \<open>What the termination proofs use: a successful \<open>bump\<close> shortens the unread text.\<close>

lemma bump_less: "bump lx = (Some c, lx') \<Longrightarrow> length (unread lx') < length (unread lx)"
  by (drule bump_SomeD) simp

lemma skip1_le: "length (unread (skip1 lx)) \<le> length (unread lx)"
  by (simp add: lex_simps)

lemma bump_le: "bump lx = (o1, lx') \<Longrightarrow> length (unread lx') \<le> length (unread lx)"
  using skip1_le [of lx] by simp

lemma bump_measure:
  "bump lx = (o1, lx') \<Longrightarrow> length (unread lx') \<le> length (unread lx)
     \<and> (o1 \<noteq> None \<longrightarrow> length (unread lx') < length (unread lx))"
  using bump_le bump_less by (cases o1) auto

lemma skip1_bump_less: "bump lx = (Some c, lx') \<Longrightarrow> length (unread (skip1 lx')) < length (unread lx)"
  using bump_less skip1_le le_less_trans by blast

section \<open>Character classes of identifiers\<close>

definition is_ident_start :: "'d ext \<Rightarrow> uchar \<Rightarrow> bool" where
  "is_ident_start X c \<longleftrightarrow> is_alphabetic X c \<or> c = chr CHR ''_''"

definition is_ident_continue :: "'d ext \<Rightarrow> uchar \<Rightarrow> bool" where
  "is_ident_continue X c \<longleftrightarrow> is_alphanumeric X c \<or> c = chr CHR ''_''"

section \<open>Loops over characters\<close>

text \<open>
  \<open>while let Some(ch) = self.peek() { if p(ch) { self.bump(); acc.push(ch) } else { break } }\<close>,
  the shape of the identifier, line-comment and exponent loops.
\<close>

function eat_while :: "(uchar \<Rightarrow> bool) \<Rightarrow> lexer \<Rightarrow> str \<Rightarrow> str \<times> lexer" where
  "eat_while p lx acc =
     (case peek lx of
        Some ch \<Rightarrow> if p ch then eat_while p (skip1 lx) (acc @ [ch]) else (acc, lx)
      | None \<Rightarrow> (acc, lx))"
  by pat_completeness auto
termination
  by (relation "measure (\<lambda>(p, lx, acc). length (unread lx))") (auto dest: peek_SomeD intro: skip1_length)

declare eat_while.simps [simp del]

lemma scans_eat_while: "scans lx (snd (eat_while p lx acc))"
proof (induction p lx acc rule: eat_while.induct)
  case (1 p lx acc)
  then show ?case
    by (subst eat_while.simps) (auto split: option.splits intro: scans_trans [OF scans_skip1])
qed

lemma eat_while_result:
  "fst (eat_while p lx acc) = acc @ takeWhile p (unread lx)
   \<and> unread (snd (eat_while p lx acc)) = dropWhile p (unread lx)
   \<and> lpos (snd (eat_while p lx acc)) = foldl advance (lpos lx) (takeWhile p (unread lx))
   \<and> lerrors (snd (eat_while p lx acc)) = lerrors lx"
proof (induction p lx acc rule: eat_while.induct)
  case (1 p lx acc)
  then show ?case
    by (subst (1 2 3 4) eat_while.simps) (auto simp: lex_simps split: list.splits)
qed

text \<open>
  The digit loops of \<open>lex_number\<close>: an underscore is skipped when a digit follows it.
\<close>

definition digit_next :: "uchar option \<Rightarrow> bool" where
  "digit_next c = (case c of Some d \<Rightarrow> is_ascii_digit d | None \<Rightarrow> False)"

function eat_digits :: "lexer \<Rightarrow> str \<Rightarrow> str \<times> lexer" where
  "eat_digits lx acc =
     (case peek lx of
        Some ch \<Rightarrow>
          if is_ascii_digit ch then eat_digits (skip1 lx) (acc @ [ch])
          else if ch = chr CHR ''_'' \<and> digit_next (peek2 lx) then eat_digits (skip1 lx) acc
          else (acc, lx)
      | None \<Rightarrow> (acc, lx))"
  by pat_completeness auto
termination
  by (relation "measure (\<lambda>(lx, acc). length (unread lx))") (auto dest: peek_SomeD intro: skip1_length)

declare eat_digits.simps [simp del]

lemma scans_eat_digits: "scans lx (snd (eat_digits lx acc))"
proof (induction lx acc rule: eat_digits.induct)
  case (1 lx acc)
  then show ?case
    by (subst eat_digits.simps) (auto split: option.splits intro: scans_trans [OF scans_skip1])
qed

lemma eat_digits_digits:
  "list_all is_ascii_digit acc \<Longrightarrow> list_all is_ascii_digit (fst (eat_digits lx acc))"
proof (induction lx acc rule: eat_digits.induct)
  case (1 lx acc)
  then show ?case by (subst eat_digits.simps) (auto split: option.splits)
qed

lemma eat_digits_not_Nil: "acc \<noteq> [] \<Longrightarrow> fst (eat_digits lx acc) \<noteq> []"
proof (induction lx acc rule: eat_digits.induct)
  case (1 lx acc)
  then show ?case by (subst eat_digits.simps) (auto split: option.splits)
qed

section \<open>Comments\<close>

text \<open>
  \<open>eat_block_comment\<close>: block comments nest. The depth is a \<open>u32\<close> that only a text of
  \<open>2 ^ 32\<close> comment openings could overflow.
\<close>

function eat_block_comment :: "pos \<Rightarrow> nat \<Rightarrow> lexer \<Rightarrow> lexer" where
  "eat_block_comment start depth lx =
     (case bump lx of
        (None, lx1) \<Rightarrow>
          lex_error (span_new start (lpos lx1)) (lit ''unterminated block comment (missing `*/`)'') lx1
      | (Some ch, lx1) \<Rightarrow>
          if ch = chr CHR ''/'' \<and> peek lx1 = Some (chr CHR ''*'') then
            eat_block_comment start (depth + 1) (skip1 lx1)
          else if ch = chr CHR ''*'' \<and> peek lx1 = Some (chr CHR ''/'') then
            (if depth - 1 = 0 then skip1 lx1 else eat_block_comment start (depth - 1) (skip1 lx1))
          else eat_block_comment start depth lx1)"
  by pat_completeness auto
termination
  by (relation "measure (\<lambda>(start, depth, lx). length (unread lx))")
    (simp_all add: bump_less [OF sym] skip1_bump_less [OF sym])

declare eat_block_comment.simps [simp del]

lemma scans_eat_block_comment: "scans lx (eat_block_comment start depth lx)"
proof (induction start depth lx rule: eat_block_comment.induct)
  case (1 start depth lx)
  show ?case
  proof (cases "bump lx")
    case (Pair o' lx1)
    then have s: "scans lx lx1" and s2: "scans lx (skip1 lx1)"
      using scans_skip1 [of lx] scans_skip1 [of lx1] scans_trans by auto
    show ?thesis
      using "1.IH" [OF Pair [symmetric]] s s2 Pair
      by (subst eat_block_comment.simps)
        (auto split: option.splits intro: scans_lex_errorI scans_trans [OF s] scans_trans [OF s2])
  qed
qed


section \<open>Numbers\<close>

text \<open>
  \<open>maybe_exponent\<close>: \<open>None\<close> when no exponent follows. A marker without digits is recorded as
  an error and returned as text, which makes the literal malformed.
\<close>

definition maybe_exponent :: "lexer \<Rightarrow> str option \<times> lexer" where
  "maybe_exponent lx =
     (case peek lx of
        None \<Rightarrow> (None, lx)
      | Some e \<Rightarrow>
          if e \<noteq> chr CHR ''e'' \<and> e \<noteq> chr CHR ''E'' then (None, lx)
          else
            let saved_pos = lpos lx;
                buf = [e];
                lx1 = skip1 lx;
                (buf2, lx2) =
                  (case peek lx1 of
                     Some s \<Rightarrow> if s = chr CHR ''+'' \<or> s = chr CHR ''-'' then (buf @ [s], skip1 lx1) else (buf, lx1)
                   | None \<Rightarrow> (buf, lx1));
                (digits, lx3) = eat_while is_ascii_digit lx2 []
            in if digits = [] then
                 (Some buf2, lex_error (span_new saved_pos (lpos lx3)) (lit ''expected digits after exponent marker'') lx3)
               else (Some (buf2 @ digits), lx3))"

text \<open>\<open>BigInt::from_str_radix(s, 10)\<close>.\<close>

definition parse_int :: "str \<Rightarrow> int option" where
  "parse_int s = (if s \<noteq> [] \<and> list_all is_ascii_digit s then Some (int (digits_value 10 s)) else None)"

definition strip_underscores :: "str \<Rightarrow> str" where
  "strip_underscores s = filter (\<lambda>c. c \<noteq> chr CHR ''_'') s"

text \<open>The three places where \<open>lex_number\<close> turns a literal into a token.\<close>

definition decimal_token :: "'d ext \<Rightarrow> pos \<Rightarrow> string \<Rightarrow> str \<Rightarrow> lexer \<Rightarrow> 'd token \<times> lexer" where
  "decimal_token X start what literal lx =
     (let stripped = strip_underscores literal; sp = span_new start (lpos lx) in
      case dec_parse X stripped of
        Some d \<Rightarrow> (token_new (TDecimal d) sp, lx)
      | None \<Rightarrow>
          (token_new (TDecimal (dec_of_int X 0)) sp,
           lex_error sp (lit ''invalid '' @ lit what @ lit '' literal `'' @ stripped @ lit ''`'') lx))"

definition integer_token :: "pos \<Rightarrow> str \<Rightarrow> lexer \<Rightarrow> 'd token \<times> lexer" where
  "integer_token start int_part lx =
     (let stripped = strip_underscores int_part; sp = span_new start (lpos lx) in
      case parse_int stripped of
        Some n \<Rightarrow> (token_new (TInt n) sp, lx)
      | None \<Rightarrow>
          (token_new (TInt 0) sp,
           lex_error sp (lit ''invalid integer literal `'' @ stripped @ lit ''`'') lx))"

definition lex_number :: "'d ext \<Rightarrow> pos \<Rightarrow> uchar \<Rightarrow> lexer \<Rightarrow> 'd token \<times> lexer" where
  "lex_number X start first lx =
     (let (int_part, lx1) = eat_digits lx [first] in
      if peek lx1 = Some (chr CHR ''.'') \<and> digit_next (peek2 lx1) then
        let (frac, lx2) = eat_digits (skip1 lx1) [];
            literal = int_part @ [chr CHR ''.''] @ frac;
            (ex, lx3) = maybe_exponent lx2
        in decimal_token X start ''decimal'' (case ex of Some e \<Rightarrow> literal @ e | None \<Rightarrow> literal) lx3
      else
        let (ex, lx2) =
              (if peek lx1 = Some (chr CHR ''e'') \<or> peek lx1 = Some (chr CHR ''E'')
               then maybe_exponent lx1 else (None, lx1))
        in (case ex of
              Some e \<Rightarrow> decimal_token X start ''numeric'' (int_part @ e) lx2
            | None \<Rightarrow> integer_token start int_part lx2))"

lemma scans_maybe_exponent: "scans lx (snd (maybe_exponent lx))"
proof -
  have *: "scans lx (snd (eat_while p (skip1 lx) []))"
    "scans lx (snd (eat_while p (skip1 (skip1 lx)) []))" for p
    using scans_trans [OF scans_skip1 scans_eat_while]
      scans_trans [OF scans_skip1 scans_trans [OF scans_skip1 scans_eat_while]] by blast+
  show ?thesis
    using * by (auto simp: maybe_exponent_def Let_def split: option.splits prod.splits if_splits
        intro!: scans_lex_errorI) (metis snd_conv)+
qed

lemma scans_decimal_token: "scans lx (snd (decimal_token X start w l lx))"
  by (auto simp: decimal_token_def Let_def split: option.splits)

lemma scans_integer_token: "scans lx (snd (integer_token start l lx))"
  by (auto simp: integer_token_def Let_def split: option.splits)

lemma scans_lex_number: "scans lx (snd (lex_number X start c lx))"
proof -
  obtain i lx1 where d: "eat_digits lx [c] = (i, lx1)" by fastforce
  then have s1: "scans lx lx1" using scans_eat_digits [of lx "[c]"] by simp
  obtain f lx2 where f: "eat_digits (skip1 lx1) [] = (f, lx2)" by fastforce
  then have s2: "scans lx lx2"
    using scans_trans [OF s1 scans_trans [OF scans_skip1 scans_eat_digits [of "skip1 lx1" "[]"]]] by simp
  obtain e lx3 where e: "maybe_exponent lx2 = (e, lx3)" by fastforce
  obtain e' lx4 where e': "maybe_exponent lx1 = (e', lx4)" by fastforce
  have s3: "scans lx lx3" using scans_trans [OF s2 scans_maybe_exponent] e by (metis snd_conv)
  have s4: "scans lx lx4" using scans_trans [OF s1 scans_maybe_exponent] e' by (metis snd_conv)
  show ?thesis
    by (auto simp: lex_number_def Let_def d f e e' split: option.splits
        intro: scans_trans [OF s3 scans_decimal_token] scans_trans [OF s4 scans_decimal_token]
          scans_trans [OF s1 scans_integer_token] scans_trans [OF s4 scans_integer_token]
          scans_trans [OF s1 scans_decimal_token])
qed

section \<open>Strings\<close>

text \<open>
  \<open>lex_unicode_escape\<close>, after \<open>\u\<close>: hexadecimal digits between braces. A \<open>u32\<close> holds at
  most eight significant hexadecimal digits; a longer one is refused like any value that is
  not a scalar.
\<close>

function hex_loop :: "lexer \<Rightarrow> str \<Rightarrow> str \<times> lexer" where
  "hex_loop lx hex =
     (case peek lx of
        None \<Rightarrow> (hex, lx)
      | Some h \<Rightarrow>
          if h = chr CHR ''}'' then (hex, lx)
          else if is_ascii_hexdigit h then hex_loop (skip1 lx) (hex @ [h])
          else (hex, lex_error (span_new (lpos lx) (lpos lx))
                       (lit ''invalid hex digit `'' @ [h] @ lit ''` in '' @ [backslash] @ lit ''u escape'') lx))"
  by pat_completeness auto
termination
  by (relation "measure (\<lambda>(lx, hex). length (unread lx))") (auto dest: peek_SomeD intro: skip1_length)

declare hex_loop.simps [simp del]

definition parse_hex :: "str \<Rightarrow> uchar option" where
  "parse_hex hex =
     (if hex \<noteq> [] \<and> digits_value 16 hex < 2 ^ 32 then char_from_u32 (digits_value 16 hex) else None)"

definition lex_unicode_escape :: "pos \<Rightarrow> str \<Rightarrow> lexer \<Rightarrow> str \<times> lexer" where
  "lex_unicode_escape esc_start cur lx =
     (if peek lx \<noteq> Some (chr CHR ''{'') then
        (cur, lex_error (span_new esc_start (lpos lx)) (lit ''expected `{` after '' @ [backslash] @ lit ''u'') lx)
      else
        let (hex, lx1) = hex_loop (skip1 lx) [];
            lx2 = (if peek lx1 = Some (chr CHR ''}'') then skip1 lx1 else lx1)
        in (case parse_hex hex of
              Some c \<Rightarrow> (cur @ [c], lx2)
            | None \<Rightarrow>
                (cur, lex_error (span_new esc_start (lpos lx2))
                        (lit ''invalid unicode escape '' @ [backslash] @ lit ''u{'' @ hex @ lit ''}'') lx2)))"

lemma scans_hex_loop: "scans lx (snd (hex_loop lx hex))"
proof (induction lx hex rule: hex_loop.induct)
  case (1 lx hex)
  then show ?case
    by (subst hex_loop.simps) (auto split: option.splits intro: scans_trans [OF scans_skip1])
qed

lemma scans_lex_unicode_escape: "scans lx (snd (lex_unicode_escape p cur lx))"
proof -
  obtain h lx1 where h: "hex_loop (skip1 lx) [] = (h, lx1)" by fastforce
  then have s: "scans lx lx1" using scans_trans [OF scans_skip1 scans_hex_loop] by (metis snd_conv)
  show ?thesis
    using s by (auto simp: lex_unicode_escape_def h Let_def split: option.splits
        intro: scans_lex_errorI scans_skip1I)
qed


text \<open>\<open>skip_nested_string_into\<close>: copies a string literal inside an interpolation verbatim.\<close>

function skip_nested_string_into :: "str \<Rightarrow> lexer \<Rightarrow> str \<times> lexer" where
  "skip_nested_string_into raw lx =
     (case bump lx of
        (None, lx1) \<Rightarrow>
          (raw, lex_error (span_new (lpos lx1) (lpos lx1)) (lit ''unterminated string inside interpolation'') lx1)
      | (Some ch, lx1) \<Rightarrow>
          let raw1 = raw @ [ch] in
          if ch = backslash then
            (case bump lx1 of
               (Some e, lx2) \<Rightarrow> skip_nested_string_into (raw1 @ [e]) lx2
             | (None, lx2) \<Rightarrow> skip_nested_string_into raw1 lx2)
          else if ch = dquote then (raw1, lx1)
          else skip_nested_string_into raw1 lx1)"
  by pat_completeness auto
termination
  by (relation "measure (\<lambda>(raw, lx). length (unread lx))")
    (auto dest!: bump_measure [OF sym])

declare skip_nested_string_into.simps [simp del]

lemma bump_scans: "bump lx = (o1, lx1) \<Longrightarrow> scans lx lx1"
  using scans_skip1 [of lx] by simp

lemma scans_skip_nested: "scans lx (snd (skip_nested_string_into raw lx))"
proof (induction raw lx rule: skip_nested_string_into.induct)
  case (1 raw lx)
  obtain o1 lx1 where b: "bump lx = (o1, lx1)" by fastforce
  obtain o2 lx2 where b2: "bump lx1 = (o2, lx2)" by fastforce
  note s1 = bump_scans [OF b] and s2 = scans_trans [OF bump_scans [OF b] bump_scans [OF b2]]
  show ?case
    using "1.IH" [OF b [symmetric]] s1
    by (subst skip_nested_string_into.simps)
      (auto simp: b b2 Let_def split: option.splits intro: scans_lex_errorI scans_trans [OF s1] scans_trans [OF s2])
qed

lemma skip_nested_le:
  "skip_nested_string_into raw lx = (r, lx') \<Longrightarrow> length (unread lx') \<le> length (unread lx)"
  using scans_length [OF scans_skip_nested [of lx raw]] by simp

text \<open>
  \<open>collect_interpolation\<close>: the raw source of an interpolation, up to the brace that closes
  it. The loop returns the final depth, which is 0 exactly when that brace was found.
\<close>

function interp_loop :: "int \<Rightarrow> str \<Rightarrow> lexer \<Rightarrow> int \<times> str \<times> lexer" where
  "interp_loop depth raw lx =
     (case bump lx of
        (None, lx1) \<Rightarrow> (depth, raw, lx1)
      | (Some ch, lx1) \<Rightarrow>
          if ch = dquote then
            (case skip_nested_string_into (raw @ [dquote]) lx1 of
               (raw2, lx2) \<Rightarrow> interp_loop depth raw2 lx2)
          else if ch = chr CHR ''{'' then interp_loop (depth + 1) (raw @ [ch]) lx1
          else if ch = chr CHR ''}'' then
            (if depth - 1 = 0 then (0, raw, lx1) else interp_loop (depth - 1) (raw @ [ch]) lx1)
          else interp_loop depth (raw @ [ch]) lx1)"
  by pat_completeness auto
termination
  by (relation "measure (\<lambda>(depth, raw, lx). length (unread lx))")
    (auto dest!: bump_measure [OF sym] skip_nested_le skip_nested_le [OF sym] split: prod.splits)

declare interp_loop.simps [simp del]

definition collect_interpolation :: "pos \<Rightarrow> lexer \<Rightarrow> str \<times> lexer" where
  "collect_interpolation start lx =
     (case interp_loop 1 [] lx of
        (depth, raw, lx1) \<Rightarrow>
          if depth \<noteq> 0 then
            (raw, lex_error (span_new start (lpos lx1)) (lit ''unterminated interpolation `{` (missing `}`)'') lx1)
          else (raw, lx1))"

lemma scans_interp_loop: "scans lx (snd (snd (interp_loop depth raw lx)))"
proof (induction depth raw lx rule: interp_loop.induct)
  case (1 depth raw lx)
  obtain o1 lx1 where b: "bump lx = (o1, lx1)" by fastforce
  obtain r2 lx2 where n: "skip_nested_string_into (raw @ [dquote]) lx1 = (r2, lx2)" by fastforce
  note s1 = bump_scans [OF b]
  have s2: "scans lx lx2" using scans_trans [OF s1 scans_skip_nested] n by (metis snd_conv)
  show ?case
    using "1.IH" [OF b [symmetric]] s1
    by (subst interp_loop.simps)
      (auto simp: b n split: option.splits intro: scans_trans [OF s1] scans_trans [OF s2])
qed

lemma scans_collect_interpolation: "scans lx (snd (collect_interpolation p lx))"
proof -
  obtain d r lx1 where "interp_loop 1 [] lx = (d, r, lx1)" using prod_cases3 by blast
  then show ?thesis
    using scans_interp_loop [of lx 1 "[]"]
    by (auto simp: collect_interpolation_def intro: scans_lex_errorI)
qed

text \<open>What both string forms do at an opening brace, and after the loop.\<close>

definition flush :: "str_part list \<Rightarrow> str \<Rightarrow> str_part list" where
  "flush parts cur = (if cur \<noteq> [] then parts @ [PartLiteral cur] else parts)"

definition lex_interpolation :: "str_part list \<Rightarrow> str \<Rightarrow> lexer \<Rightarrow> str_part list \<times> lexer" where
  "lex_interpolation parts cur lx =
     (let expr_start = lpos lx;
          (raw, lx1) = collect_interpolation expr_start lx
      in (flush parts cur @ [PartExpr raw (span_new expr_start (lpos lx1))], lx1))"

definition finish_string :: "pos \<Rightarrow> str_part list \<Rightarrow> str \<Rightarrow> lexer \<Rightarrow> 'd token" where
  "finish_string start parts cur lx =
     (let parts1 = flush parts cur;
          parts2 = (if parts1 = [] then [PartLiteral []] else parts1)
      in token_new (TStr parts2) (span_new start (lpos lx)))"

lemma scans_lex_interpolation: "scans lx (snd (lex_interpolation parts cur lx))"
  using scans_collect_interpolation [of lx "lpos lx"]
  by (auto simp: lex_interpolation_def Let_def split: prod.splits)

text \<open>The escapes of both string forms; \<open>\0\<close> and the quote are known to the first only.\<close>

definition simple_escape :: "bool \<Rightarrow> uchar \<Rightarrow> uchar option" where
  "simple_escape triple e =
     (if e = chr CHR ''n'' then Some newline
      else if e = chr CHR ''t'' then Some 9
      else if e = chr CHR ''r'' then Some carriage_return
      else if e = chr CHR ''0'' \<and> \<not> triple then Some 0
      else if e = backslash then Some backslash
      else if e = dquote then Some dquote
      else if e = squote \<and> \<not> triple then Some squote
      else if e = chr CHR ''{'' then Some (chr CHR ''{'')
      else if e = chr CHR ''}'' then Some (chr CHR ''}'')
      else None)"

definition unknown_escape :: "pos \<Rightarrow> uchar \<Rightarrow> lexer \<Rightarrow> lexer" where
  "unknown_escape esc_start e lx =
     lex_error (span_new esc_start (lpos lx))
       (lit ''unknown escape sequence `'' @ [backslash, e] @ lit ''`'') lx"

definition lex_escape :: "pos \<Rightarrow> uchar \<Rightarrow> str \<Rightarrow> lexer \<Rightarrow> str \<times> lexer" where
  "lex_escape esc_start e cur lx =
     (case simple_escape False e of
        Some c \<Rightarrow> (cur @ [c], lx)
      | None \<Rightarrow>
          if e = chr CHR ''u'' then lex_unicode_escape esc_start cur lx
          else (cur, unknown_escape esc_start e lx))"

definition lex_triple_escape :: "pos \<Rightarrow> uchar \<Rightarrow> str \<Rightarrow> lexer \<Rightarrow> str \<times> lexer" where
  "lex_triple_escape esc_start e cur lx =
     (case simple_escape True e of
        Some c \<Rightarrow> (cur @ [c], lx)
      | None \<Rightarrow> (cur, unknown_escape esc_start e lx))"

lemma scans_lex_escape: "scans lx (snd (lex_escape p e cur lx))"
  by (auto simp: lex_escape_def unknown_escape_def scans_lex_unicode_escape split: option.splits)

lemma scans_lex_triple_escape: "scans lx (snd (lex_triple_escape p e cur lx))"
  by (auto simp: lex_triple_escape_def unknown_escape_def split: option.splits)


function string_loop :: "pos \<Rightarrow> str_part list \<Rightarrow> str \<Rightarrow> lexer \<Rightarrow> str_part list \<times> str \<times> lexer" where
  "string_loop start parts cur lx =
     (case bump lx of
        (None, lx1) \<Rightarrow> (parts, cur, lex_error (span_new start (lpos lx1)) (lit ''unterminated string literal'') lx1)
      | (Some ch, lx1) \<Rightarrow>
          if ch = dquote then (parts, cur, lx1)
          else if ch = backslash then
            (case bump lx1 of
               (None, lx2) \<Rightarrow>
                 (parts, cur, lex_error (span_new (lpos lx1) (lpos lx2)) (lit ''unterminated escape sequence'') lx2)
             | (Some e, lx2) \<Rightarrow>
                 (case lex_escape (lpos lx1) e cur lx2 of
                    (cur3, lx3) \<Rightarrow> string_loop start parts cur3 lx3))
          else if ch = chr CHR ''{'' then
            (case lex_interpolation parts cur lx1 of
               (parts2, lx2) \<Rightarrow> string_loop start parts2 [] lx2)
          else string_loop start parts (cur @ [ch]) lx1)"
  by pat_completeness auto

lemma lex_escape_le: "lex_escape p e cur lx = (r, lx') \<Longrightarrow> length (unread lx') \<le> length (unread lx)"
  using scans_length [OF scans_lex_escape [of lx p e cur]] by simp

lemma lex_triple_escape_le:
  "lex_triple_escape p e cur lx = (r, lx') \<Longrightarrow> length (unread lx') \<le> length (unread lx)"
  using scans_length [OF scans_lex_triple_escape [of lx p e cur]] by simp

lemma lex_interpolation_le:
  "lex_interpolation parts cur lx = (r, lx') \<Longrightarrow> length (unread lx') \<le> length (unread lx)"
  using scans_length [OF scans_lex_interpolation [of lx parts cur]] by simp

lemmas loop_measures = bump_measure [OF sym] lex_escape_le lex_escape_le [OF sym]
  lex_triple_escape_le lex_triple_escape_le [OF sym] lex_interpolation_le lex_interpolation_le [OF sym]

termination string_loop
  by (relation "measure (\<lambda>(start, parts, cur, lx). length (unread lx))")
    (auto dest!: loop_measures split: prod.splits)

declare string_loop.simps [simp del]

lemma scans_string_loop: "scans lx (snd (snd (string_loop start parts cur lx)))"
proof (induction start parts cur lx rule: string_loop.induct)
  case (1 start parts cur lx)
  obtain o1 lx1 where b: "bump lx = (o1, lx1)" by fastforce
  obtain o2 lx2 where b2: "bump lx1 = (o2, lx2)" by fastforce
  obtain ps lx4 where i: "lex_interpolation parts cur lx1 = (ps, lx4)" by fastforce
  note s1 = bump_scans [OF b] and s2 = scans_trans [OF bump_scans [OF b] bump_scans [OF b2]]
  have s4: "scans lx lx4" using scans_trans [OF s1 scans_lex_interpolation] i by (metis snd_conv)
  have s3: "scans lx lx3" if "lex_escape p e cur lx2 = (c3, lx3)" for p e c3 lx3
    using scans_trans [OF s2 scans_lex_escape [of lx2 p e cur]] that by simp
  show ?case
    using "1.IH" [OF b [symmetric]] s1 s2 s3
    by (subst string_loop.simps)
      (auto simp: b b2 i split: option.splits prod.splits
        intro: scans_lex_errorI scans_trans [OF s1] scans_trans [OF s4] scans_trans [OF s3])
qed

definition skip_opening_newline :: "lexer \<Rightarrow> lexer" where
  "skip_opening_newline lx =
     (if peek lx = Some newline then skip1 lx
      else if peek lx = Some carriage_return \<and> peek2 lx = Some newline then skip1 (skip1 lx)
      else lx)"

definition at_triple_quote :: "lexer \<Rightarrow> bool" where
  "at_triple_quote lx \<longleftrightarrow>
     peek lx = Some dquote \<and> peek2 lx = Some dquote \<and> peek_at 2 lx = Some dquote"

function triple_loop :: "pos \<Rightarrow> str_part list \<Rightarrow> str \<Rightarrow> lexer \<Rightarrow> str_part list \<times> str \<times> lexer" where
  "triple_loop start parts cur lx =
     (if at_triple_quote lx then (parts, cur, skip1 (skip1 (skip1 lx)))
      else case bump lx of
        (None, lx1) \<Rightarrow>
          (parts, cur, lex_error (span_new start (lpos lx1)) (lit ''unterminated triple-quoted string'') lx1)
      | (Some ch, lx1) \<Rightarrow>
          if ch = backslash then
            (case bump lx1 of
               (None, lx2) \<Rightarrow> (parts, cur, lx2)
             | (Some e, lx2) \<Rightarrow>
                 (case lex_triple_escape (lpos lx1) e cur lx2 of
                    (cur3, lx3) \<Rightarrow> triple_loop start parts cur3 lx3))
          else if ch = chr CHR ''{'' then
            (case lex_interpolation parts cur lx1 of
               (parts2, lx2) \<Rightarrow> triple_loop start parts2 [] lx2)
          else triple_loop start parts (cur @ [ch]) lx1)"
  by pat_completeness auto
termination
  by (relation "measure (\<lambda>(start, parts, cur, lx). length (unread lx))")
    (auto dest!: loop_measures split: prod.splits)

declare triple_loop.simps [simp del]

lemma scans_triple_loop: "scans lx (snd (snd (triple_loop start parts cur lx)))"
proof (induction start parts cur lx rule: triple_loop.induct)
  case (1 start parts cur lx)
  obtain o1 lx1 where b: "bump lx = (o1, lx1)" by fastforce
  obtain o2 lx2 where b2: "bump lx1 = (o2, lx2)" by fastforce
  obtain ps lx4 where i: "lex_interpolation parts cur lx1 = (ps, lx4)" by fastforce
  note s1 = bump_scans [OF b] and s2 = scans_trans [OF bump_scans [OF b] bump_scans [OF b2]]
  have s4: "scans lx lx4" using scans_trans [OF s1 scans_lex_interpolation] i by (metis snd_conv)
  have s3: "scans lx lx3" if "lex_triple_escape p e cur lx2 = (c3, lx3)" for p e c3 lx3
    using scans_trans [OF s2 scans_lex_triple_escape [of lx2 p e cur]] that by simp
  have s5: "scans lx (skip1 (skip1 (skip1 lx)))"
    by (intro scans_skip1I) simp
  show ?case
    using "1.IH" [OF _ b [symmetric]] s1 s2 s3 s5
    by (subst triple_loop.simps)
      (auto simp: b b2 i split: option.splits prod.splits
        intro: scans_lex_errorI scans_trans [OF s1] scans_trans [OF s4] scans_trans [OF s3])
qed

definition lex_triple_string :: "pos \<Rightarrow> lexer \<Rightarrow> 'd token \<times> lexer" where
  "lex_triple_string start lx =
     (case triple_loop start [] [] (skip_opening_newline lx) of
        (parts, cur, lx1) \<Rightarrow> (finish_string start parts cur lx1, lx1))"

definition lex_string :: "pos \<Rightarrow> lexer \<Rightarrow> 'd token \<times> lexer" where
  "lex_string start lx =
     (if peek lx = Some dquote \<and> peek2 lx = Some dquote then
        lex_triple_string start (skip1 (skip1 lx))
      else
        (case string_loop start [] [] lx of
           (parts, cur, lx1) \<Rightarrow> (finish_string start parts cur lx1, lx1)))"

lemma scans_skip_opening_newline: "scans lx (skip_opening_newline lx)"
  by (auto simp: skip_opening_newline_def intro!: scans_skip1I)

lemma scans_lex_triple_string: "scans lx (snd (lex_triple_string start lx))"
  using scans_trans [OF scans_skip_opening_newline [of lx] scans_triple_loop]
  by (auto simp: lex_triple_string_def split: prod.splits) (metis snd_conv)

lemma scans_lex_string: "scans lx (snd (lex_string start lx))"
proof -
  have "scans lx (snd (lex_triple_string start (skip1 (skip1 lx))))"
    by (rule scans_trans [OF _ scans_lex_triple_string]) (intro scans_skip1I scans_refl)
  moreover have "scans lx (snd (snd (string_loop start [] [] lx)))"
    by (rule scans_string_loop)
  ultimately show ?thesis
    by (auto simp: lex_string_def split: prod.splits)
qed


section \<open>Tokens\<close>

text \<open>
  One turn of the loop of \<open>next_token\<close>, after \<open>bump\<close> returned the character \<open>c\<close>: \<open>None\<close>
  is \<open>continue\<close>. \<open>one_tok\<close> and \<open>if_next\<close> are the shapes \<open>return self.tok(start, k)\<close> and
  \<open>if self.peek() == Some(c2) { self.bump(); return self.tok(start, k2); }\<close>.
\<close>

type_synonym 'd turn = "'d token option \<times> lexer"

definition one_tok :: "pos \<Rightarrow> 'd token_kind \<Rightarrow> lexer \<Rightarrow> 'd turn" where
  "one_tok start k lx = (Some (tok start k lx), lx)"

definition if_next :: "pos \<Rightarrow> char \<Rightarrow> 'd token_kind \<Rightarrow> lexer \<Rightarrow> 'd turn \<Rightarrow> 'd turn" where
  "if_next start c2 k2 lx other =
     (if peek lx = Some (chr c2) then one_tok start k2 (skip1 lx) else other)"

definition lex_punct :: "pos \<Rightarrow> uchar \<Rightarrow> lexer \<Rightarrow> 'd turn" where
  "lex_punct start c lx =
     (if c = chr CHR ''('' then one_tok start LParen lx
      else if c = chr CHR '')'' then one_tok start RParen lx
      else if c = chr CHR ''{'' then one_tok start LBrace lx
      else if c = chr CHR ''}'' then one_tok start RBrace lx
      else if c = chr CHR ''['' then one_tok start LBracket lx
      else if c = chr CHR '']'' then one_tok start RBracket lx
      else if c = chr CHR '','' then one_tok start Comma lx
      else if c = chr CHR '';'' then one_tok start Semicolon lx
      else if c = chr CHR '':'' then if_next start CHR '':'' DoubleColon lx (one_tok start Colon lx)
      else if c = chr CHR ''.'' then if_next start CHR ''.'' DotDot lx (one_tok start Dot lx)
      else if c = chr CHR ''-'' then
        if_next start CHR ''>'' Arrow lx (if_next start CHR ''='' MinusAssign lx (one_tok start TMinus lx))
      else if c = chr CHR ''='' then
        if_next start CHR ''>'' FatArrow lx (if_next start CHR ''='' TEq lx (one_tok start Assign lx))
      else if c = chr CHR ''!'' then if_next start CHR ''='' Neq lx (one_tok start Bang lx)
      else if c = chr CHR ''?'' then one_tok start Question lx
      else if c = chr CHR ''<'' then if_next start CHR ''='' Lte lx (one_tok start Lt lx)
      else if c = chr CHR ''>'' then if_next start CHR ''='' Gte lx (one_tok start Gt lx)
      else if c = chr CHR ''+'' then if_next start CHR ''='' PlusAssign lx (one_tok start TPlus lx)
      else if c = chr CHR ''*'' then if_next start CHR ''='' StarAssign lx (one_tok start Star lx)
      else if c = chr CHR ''/'' then if_next start CHR ''='' SlashAssign lx (one_tok start Slash lx)
      else if c = chr CHR ''%'' then if_next start CHR ''='' PercentAssign lx (one_tok start Percent lx)
      else if c = chr CHR ''&'' then
        if_next start CHR ''&'' TAnd lx
          (None, lex_error (span_new start (lpos lx))
                   (lit ''bare `&` is not a valid token (did you mean `&&`?)'') lx)
      else if c = chr CHR ''|'' then
        if_next start CHR ''|'' TOr lx (if_next start CHR ''>'' Pipe lx (one_tok start Pipe2 lx))
      else if c = chr CHR ''#'' then
        if_next start CHR ''{'' HashBrace lx
          (None, lex_error (span_new start (lpos lx))
                   (lit ''bare `#` is not valid (sets are written `#{ ... }`)'') lx)
      else (None, lex_error (span_new start (lpos lx))
                    (lit ''unexpected character `'' @ [c] @ lit ''`'') lx))"

definition ident_kind :: "str \<Rightarrow> 'd token_kind" where
  "ident_kind s =
     (if s = lit ''_'' then Underscore
      else case from_ident s of Some kw \<Rightarrow> TKeyword kw | None \<Rightarrow> TIdent s)"

definition lex_char :: "'d ext \<Rightarrow> pos \<Rightarrow> uchar \<Rightarrow> lexer \<Rightarrow> 'd turn" where
  "lex_char X start c lx =
     (if is_whitespace c then (None, lx)
      else if c = chr CHR ''/'' \<and> peek lx = Some (chr CHR ''/'') then
        (None, snd (eat_while (\<lambda>ch. ch \<noteq> newline) (skip1 lx) []))
      else if c = chr CHR ''/'' \<and> peek lx = Some (chr CHR ''*'') then
        (None, eat_block_comment start 1 (skip1 lx))
      else if is_ident_start X c then
        (case eat_while (is_ident_continue X) lx [c] of
           (s, lx1) \<Rightarrow> (Some (token_new (ident_kind s) (span_new start (lpos lx1))), lx1))
      else if is_ascii_digit c then
        (case lex_number X start c lx of (t, lx1) \<Rightarrow> (Some t, lx1))
      else if c = dquote then
        (case lex_string start lx of (t, lx1) \<Rightarrow> (Some t, lx1))
      else lex_punct start c lx)"

lemma scans_one_tok: "scans a lx \<Longrightarrow> scans a (snd (one_tok start k lx))"
  by (simp add: one_tok_def)

lemma scans_if_next: "scans a lx \<Longrightarrow> scans a (snd other) \<Longrightarrow> scans a (snd (if_next start c k lx other))"
  by (simp add: if_next_def one_tok_def scans_skip1I)

lemma scans_lex_punct: "scans lx (snd (lex_punct start c lx))"
  unfolding lex_punct_def
  by (simp add: scans_one_tok scans_if_next split del: if_split cong: if_cong, simp add: scans_one_tok scans_if_next)

lemma scans_lex_char: "scans lx (snd (lex_char X start c lx))"
proof -
  have "scans lx (snd (eat_while p (skip1 lx) []))" for p
    by (rule scans_trans [OF scans_skip1 scans_eat_while])
  moreover have "scans lx (eat_block_comment start d (skip1 lx))" for d
    by (rule scans_trans [OF scans_skip1 scans_eat_block_comment])
  ultimately show ?thesis
    by (simp add: lex_char_def case_prod_unfold scans_eat_while scans_lex_number scans_lex_string
        scans_lex_punct)
qed

function next_token :: "'d ext \<Rightarrow> lexer \<Rightarrow> 'd token \<times> lexer" where
  "next_token X lx =
     (let start = lpos lx in
      case bump lx of
        (None, lx1) \<Rightarrow> (token_new TEof (span_at start), lx1)
      | (Some c, lx1) \<Rightarrow>
          (case lex_char X start c lx1 of
             (Some t, lx2) \<Rightarrow> (t, lx2)
           | (None, lx2) \<Rightarrow> next_token X lx2))"
  by pat_completeness auto

lemma lex_char_le: "lex_char X p c lx = (r, lx') \<Longrightarrow> length (unread lx') \<le> length (unread lx)"
  using scans_length [OF scans_lex_char [of lx X p c]] by simp

termination next_token
  by (relation "measure (\<lambda>(X, lx). length (unread lx))")
    (auto dest!: bump_measure [OF sym] lex_char_le [OF sym])

declare next_token.simps [simp del]

text \<open>
  The three ways a turn can go, as equations, and the induction rule they give: a property
  of \<open>next_token\<close> has one case per way.
\<close>

lemma next_token_at_end:
  "bump lx = (None, lx1) \<Longrightarrow> next_token X lx = (token_new TEof (span_at (lpos lx)), lx1)"
  by (subst next_token.simps) (simp add: Let_def)

lemma next_token_token:
  "bump lx = (Some c, lx1) \<Longrightarrow> lex_char X (lpos lx) c lx1 = (Some t, lx2) \<Longrightarrow> next_token X lx = (t, lx2)"
  by (subst next_token.simps) (simp add: Let_def)

lemma next_token_skip:
  "bump lx = (Some c, lx1) \<Longrightarrow> lex_char X (lpos lx) c lx1 = (None, lx2)
     \<Longrightarrow> next_token X lx = next_token X lx2"
  by (subst next_token.simps) (simp add: Let_def)

lemma next_token_rule [case_names End Token Skip]:
  assumes End: "\<And>lx lx1. bump lx = (None, lx1) \<Longrightarrow> P lx (token_new TEof (span_at (lpos lx))) lx1"
    and Token: "\<And>lx c lx1 t lx2. bump lx = (Some c, lx1)
      \<Longrightarrow> lex_char X (lpos lx) c lx1 = (Some t, lx2) \<Longrightarrow> P lx t lx2"
    and Skip: "\<And>lx c lx1 lx2 t lx3. bump lx = (Some c, lx1)
      \<Longrightarrow> lex_char X (lpos lx) c lx1 = (None, lx2) \<Longrightarrow> P lx2 t lx3 \<Longrightarrow> P lx t lx3"
  shows "P lx (fst (next_token X lx)) (snd (next_token X lx))"
proof (induction "length (unread lx)" arbitrary: lx rule: less_induct)
  case less
  obtain o1 lx1 where b: "bump lx = (o1, lx1)" by fastforce
  show ?case
  proof (cases o1)
    case None
    then show ?thesis using End b by (simp add: next_token_at_end)
  next
    case (Some c)
    obtain r lx2 where l: "lex_char X (lpos lx) c lx1 = (r, lx2)" by fastforce
    have "length (unread lx2) < length (unread lx)"
      using bump_measure [OF b] lex_char_le [OF l] Some by simp
    then show ?thesis
      using less Token Skip b l Some
      by (cases r) (auto simp: next_token_token next_token_skip)
  qed
qed

lemma scans_next_token: "scans lx (snd (next_token X lx))"
proof (rule next_token_rule [where P = "\<lambda>lx t lx'. scans lx lx'"])
  fix lx lx1
  assume "bump lx = (None, lx1)"
  then show "scans lx lx1" by (rule bump_scans)
next
  fix lx c lx1 lx2 and t :: "'a token"
  assume "bump lx = (Some c, lx1)" and "lex_char X (lpos lx) c lx1 = (Some t, lx2)"
  then show "scans lx lx2"
    using scans_trans [OF bump_scans scans_lex_char] by (metis snd_conv)
next
  fix lx c lx1 lx2 lx3
  assume "bump lx = (Some c, lx1)" and "lex_char X (lpos lx) c lx1 = (None, lx2)" and "scans lx2 lx3"
  then show "scans lx lx3"
    using scans_trans [OF bump_scans scans_lex_char] scans_trans by (metis snd_conv)
qed

text \<open>Only the end of the text gives \<open>TEof\<close>; every other token consumes a character.\<close>

lemma lex_char_kind: "lex_char X p c lx = (Some t, lx') \<Longrightarrow> kind t \<noteq> TEof"
  by (auto simp: lex_char_def lex_punct_def if_next_def one_tok_def tok_def token_new_def
      ident_kind_def lex_number_def decimal_token_def integer_token_def lex_string_def
      lex_triple_string_def finish_string_def Let_def
      split: if_splits prod.splits option.splits)

lemma next_token_progress:
  "kind (fst (next_token X lx)) \<noteq> TEof \<longrightarrow> length (unread (snd (next_token X lx))) < length (unread lx)"
proof (rule next_token_rule [where P = "\<lambda>lx t lx'. kind t \<noteq> TEof \<longrightarrow> length (unread lx') < length (unread lx)"])
qed (auto simp: token_new_def dest!: bump_measure lex_char_le)

lemma next_token_end:
  "kind (fst (next_token X lx)) = TEof \<longrightarrow> unread (snd (next_token X lx)) = []
     \<and> tok_span (fst (next_token X lx)) = span_at (lpos (snd (next_token X lx)))"
proof (rule next_token_rule [where P = "\<lambda>lx t lx'. kind t = TEof \<longrightarrow> unread lx' = []
     \<and> tok_span t = span_at (lpos lx')"])
qed (auto simp: token_new_def lex_simps dest: bump_NoneD lex_char_kind)

section \<open>Tokenizing\<close>

record 'd lex_output =
  tokens :: "'d token list"
  lex_errors :: "source_error list"

function token_loop :: "'d ext \<Rightarrow> lexer \<Rightarrow> 'd token list \<Rightarrow> 'd token list \<times> lexer" where
  "token_loop X lx acc =
     (case next_token X lx of
        (t, lx1) \<Rightarrow>
          if kind t = TEof then (acc @ [t], lx1) else token_loop X lx1 (acc @ [t]))"
  by pat_completeness auto

lemma next_token_less:
  "next_token X lx = (t, lx') \<Longrightarrow> kind t \<noteq> TEof \<Longrightarrow> length (unread lx') < length (unread lx)"
  using next_token_progress [of X lx] by simp

termination token_loop
  by (relation "measure (\<lambda>(X, lx, acc). length (unread lx))") (auto simp: next_token_less [OF sym])

declare token_loop.simps [simp del]

definition tokenize :: "'d ext \<Rightarrow> str \<Rightarrow> 'd lex_output" where
  "tokenize X src =
     (case token_loop X (lexer_new src) [] of
        (ts, lx) \<Rightarrow> \<lparr>tokens = ts, lex_errors = lerrors lx\<rparr>)"

end
