(* ===== verification/Lexer_Spec.thy ===== *)
theory Lexer_Spec
  imports Lexer
begin

text \<open>
  What the lexer promises: the tokens tile the source text, identifiers and keywords are
  taken whole, integer and string literals keep their value, and comments and
  interpolations nest.
\<close>

section \<open>Tokens tile the source\<close>

definition pos_of :: "str \<Rightarrow> nat \<Rightarrow> pos" where
  "pos_of src n = foldl advance pos_ZERO (take n src)"

text \<open>
  From index \<open>n\<close> of the source on, the spans of the tokens are consecutive, disjoint ranges
  of characters, none but the end marker empty, and the last one ends the source.
\<close>

fun tiled :: "str \<Rightarrow> nat \<Rightarrow> 'd token list \<Rightarrow> bool" where
  "tiled src n [] \<longleftrightarrow> n = length src"
| "tiled src n (t # ts) \<longleftrightarrow>
     (\<exists>i j. n \<le> i \<and> i \<le> j \<and> j \<le> length src
        \<and> tok_span t = span_new (pos_of src i) (pos_of src j)
        \<and> (kind t \<noteq> TEof \<longrightarrow> i < j) \<and> tiled src j ts)"

lemma tiled_ConsI:
  "n \<le> i \<Longrightarrow> i \<le> j \<Longrightarrow> j \<le> length src \<Longrightarrow> tok_span t = span_new (pos_of src i) (pos_of src j)
     \<Longrightarrow> (kind t \<noteq> TEof \<Longrightarrow> i < j) \<Longrightarrow> tiled src j ts \<Longrightarrow> tiled src n (t # ts)"
  by auto

lemma lex_char_span:
  "lex_char X p c lx = (Some t, lx') \<Longrightarrow> tok_span t = span_new p (lpos lx')"
  by (auto simp: lex_char_def lex_punct_def if_next_def one_tok_def tok_def token_new_def
      lex_number_def decimal_token_def integer_token_def lex_string_def lex_error_simps
      lex_triple_string_def finish_string_def Let_def
      split: if_splits prod.splits option.splits)

lemma next_token_span:
  "\<exists>lx0. scans lx lx0 \<and> scans lx0 (snd (next_token X lx))
     \<and> tok_span (fst (next_token X lx)) = span_new (lpos lx0) (lpos (snd (next_token X lx)))
     \<and> (kind (fst (next_token X lx)) \<noteq> TEof \<longrightarrow> length (unread (snd (next_token X lx))) < length (unread lx0))"
proof (rule next_token_rule [where P = "\<lambda>lx t lx'. \<exists>lx0. scans lx lx0 \<and> scans lx0 lx'
     \<and> tok_span t = span_new (lpos lx0) (lpos lx')
     \<and> (kind t \<noteq> TEof \<longrightarrow> length (unread lx') < length (unread lx0))"])
  fix lx lx1
  assume "bump lx = (None, lx1)"
  then have "scans lx lx1" "lpos lx1 = lpos lx" by (auto simp: lex_simps dest: bump_NoneD)
  then show "\<exists>lx0. scans lx lx0 \<and> scans lx0 lx1
     \<and> tok_span (token_new TEof (span_at (lpos lx)) :: 'a token) = span_new (lpos lx0) (lpos lx1)
     \<and> (kind (token_new TEof (span_at (lpos lx)) :: 'a token) \<noteq> TEof \<longrightarrow> length (unread lx1) < length (unread lx0))"
    by (auto simp: token_new_def span_at_def span_new_def)
next
  fix lx c lx1 t lx2
  assume b: "bump lx = (Some c, lx1)" and l: "lex_char X (lpos lx) c lx1 = (Some t, lx2)"
  have "scans lx lx2" using scans_trans [OF bump_scans [OF b] scans_lex_char] l by (metis snd_conv)
  moreover have "length (unread lx2) < length (unread lx)"
    using bump_less [OF b] lex_char_le [OF l] by simp
  ultimately show "\<exists>lx0. scans lx lx0 \<and> scans lx0 lx2 \<and> tok_span t = span_new (lpos lx0) (lpos lx2)
     \<and> (kind t \<noteq> TEof \<longrightarrow> length (unread lx2) < length (unread lx0))"
    using lex_char_span [OF l] by blast
next
  fix lx c lx1 lx2 t lx3
  assume b: "bump lx = (Some c, lx1)" and l: "lex_char X (lpos lx) c lx1 = (None, lx2)"
    and "\<exists>lx0. scans lx2 lx0 \<and> scans lx0 lx3 \<and> tok_span t = span_new (lpos lx0) (lpos lx3)
     \<and> (kind t \<noteq> TEof \<longrightarrow> length (unread lx3) < length (unread lx0))"
  moreover have "scans lx lx2" using scans_trans [OF bump_scans [OF b] scans_lex_char] l by (metis snd_conv)
  ultimately show "\<exists>lx0. scans lx lx0 \<and> scans lx0 lx3 \<and> tok_span t = span_new (lpos lx0) (lpos lx3)
     \<and> (kind t \<noteq> TEof \<longrightarrow> length (unread lx3) < length (unread lx0))"
    using scans_trans by blast
qed

definition index_in :: "str \<Rightarrow> lexer \<Rightarrow> nat" where
  "index_in src lx = length src - length (unread lx)"

lemma scans_lexer_new:
  assumes "scans (lexer_new src) lx"
  shows "lpos lx = pos_of src (index_in src lx)" and "index_in src lx \<le> length src"
    and "unread lx = drop (index_in src lx) src"
proof -
  obtain s where "src = s @ unread lx" and "lpos lx = foldl advance pos_ZERO s"
    using assms by (auto simp: scans_def lexer_new_def unread_def)
  moreover from this(1) have "index_in src lx = length s"
    unfolding index_in_def by (metis add_diff_cancel_right' length_append)
  ultimately show "lpos lx = pos_of src (index_in src lx)" "index_in src lx \<le> length src"
    "unread lx = drop (index_in src lx) src"
    by (simp_all add: pos_of_def index_in_def)
qed

lemma index_in_mono: "scans a b \<Longrightarrow> index_in src a \<le> index_in src b"
  using scans_length [of a b] by (simp add: index_in_def)

lemma token_loop_tiled:
  assumes "scans (lexer_new src) lx"
  shows "\<exists>ts lx'. token_loop X lx acc = (acc @ ts, lx') \<and> tiled src (index_in src lx) ts
           \<and> ts \<noteq> [] \<and> kind (last ts) = TEof \<and> (\<forall>t \<in> set (butlast ts). kind t \<noteq> TEof)"
  using assms
proof (induction X lx acc rule: token_loop.induct)
  case (1 X lx acc)
  obtain t lx1 where n: "next_token X lx = (t, lx1)" by fastforce
  obtain lx0 where s0: "scans lx lx0" and s1: "scans lx0 lx1"
    and sp: "tok_span t = span_new (lpos lx0) (lpos lx1)"
    and lt: "kind t \<noteq> TEof \<Longrightarrow> length (unread lx1) < length (unread lx0)"
    using next_token_span [of lx X] n by auto
  have r0: "scans (lexer_new src) lx0" and r1: "scans (lexer_new src) lx1"
    using "1.prems" s0 s1 scans_trans by blast+
  let ?i = "index_in src lx0" and ?j = "index_in src lx1"
  have ij: "index_in src lx \<le> ?i" "?i \<le> ?j" "?j \<le> length src"
    "tok_span t = span_new (pos_of src ?i) (pos_of src ?j)"
    using index_in_mono [OF s0] index_in_mono [OF s1] scans_lexer_new [OF r0] scans_lexer_new [OF r1] sp
    by auto
  have strict: "kind t \<noteq> TEof \<Longrightarrow> ?i < ?j"
    using lt scans_lexer_new(2,3) [OF r0] scans_lexer_new(2,3) [OF r1] ij by fastforce
  show ?case
  proof (cases "kind t = TEof")
    case True
    then have "?j = length src"
      using next_token_end [of X lx] n scans_lexer_new(2,3) [OF r1] by auto
    then show ?thesis
      using tiled_ConsI [OF ij strict] True n
      by (intro exI [of _ "[t]"] exI [of _ lx1], subst token_loop.simps) (auto simp del: tiled.simps(2))
  next
    case False
    obtain ts lx' where "token_loop X lx1 (acc @ [t]) = ((acc @ [t]) @ ts, lx')"
      and "tiled src ?j ts" and "ts \<noteq> []" "kind (last ts) = TEof" "\<forall>t \<in> set (butlast ts). kind t \<noteq> TEof"
      using "1.IH" [OF n [symmetric] False r1] by blast
    then show ?thesis
      using tiled_ConsI [OF ij strict] False n
      by (intro exI [of _ "t # ts"] exI [of _ lx'], subst token_loop.simps) (auto simp del: tiled.simps(2))
  qed
qed

text \<open>
  C23. For every source text the lexer returns: its tokens are non-empty and end with the one
  \<open>Eof\<close> token; their spans are the positions of consecutive disjoint character ranges of the
  source, non-empty except for \<open>Eof\<close>, which sits at the end of the text.
\<close>

theorem tokenize_tiles:
  "let ts = tokens (tokenize X src) in
     ts \<noteq> [] \<and> kind (last ts) = TEof \<and> list_all (\<lambda>t. kind t \<noteq> TEof) (butlast ts) \<and> tiled src 0 ts"
proof -
  obtain ts lx' where "token_loop X (lexer_new src) [] = ([] @ ts, lx')"
    and "tiled src (index_in src (lexer_new src)) ts"
    and "ts \<noteq> []" "kind (last ts) = TEof" "\<forall>t \<in> set (butlast ts). kind t \<noteq> TEof"
    using token_loop_tiled [OF scans_refl] by blast
  then show ?thesis
    by (simp add: tokenize_def index_in_def lexer_new_def unread_def list_all_iff)
qed


section \<open>Identifiers, keywords and integers\<close>

lemma bump_lexer_new: "bump (lexer_new (c # s)) =
    (Some c, \<lparr>chars = s, peek_buf = [], lpos = advance pos_ZERO c, lerrors = []\<rparr>)"
  by (simp add: bump_def lexer_new_def fill.simps Let_def)

lemma next_token_empty:
  assumes "unread lx = []"
  obtains lx' where "next_token X lx = (token_new TEof (span_at (lpos lx)), lx')"
    and "lerrors lx' = lerrors lx"
  using assms bump_Nil [OF assms] bump_lerrors [of lx] by (auto simp: next_token_at_end)

text \<open>A text that is one token: the token loop adds the end marker and stops.\<close>

lemma tokenize_single:
  assumes "next_token X (lexer_new src) = (t, lx)" and "unread lx = []" and "lerrors lx = []"
    and "kind t \<noteq> TEof"
  shows "tokenize X src =
    \<lparr>tokens = [t, token_new TEof (span_at (pos_of src (length src)))], lex_errors = []\<rparr>"
proof -
  have "scans (lexer_new src) lx"
    using scans_next_token [of "lexer_new src" X] assms(1) by simp
  then have "lpos lx = pos_of src (length src)"
    using scans_lexer_new [of src lx] assms(2) by (simp add: index_in_def)
  moreover have "token_loop X (lexer_new src) [] = token_loop X lx [t]"
    using assms by (subst token_loop.simps) simp
  moreover obtain lx' where n: "next_token X lx = (token_new TEof (span_at (lpos lx)), lx')"
    and e: "lerrors lx' = []"
    using next_token_empty [OF assms(2)] assms(3) by metis
  moreover have "token_loop X lx [t] = ([t, token_new TEof (span_at (lpos lx))], lx')"
    by (subst token_loop.simps) (simp add: n token_new_def)
  ultimately show ?thesis
    by (simp add: tokenize_def)
qed

lemma next_token_word:
  assumes "is_ident_start X c" and "\<not> is_whitespace c" and "c \<noteq> chr CHR ''/''"
    and "unread lx = c # s @ rest" and "list_all (is_ident_continue X) s"
    and "rest = [] \<or> \<not> is_ident_continue X (hd rest)"
  obtains lx' where "next_token X lx = (token_new (ident_kind (c # s)) (span_new (lpos lx) (lpos lx')), lx')"
    and "unread lx' = rest" and "lerrors lx' = lerrors lx"
proof -
  obtain lx1 where b: "bump lx = (Some c, lx1)" and u: "unread lx1 = s @ rest" and e: "lerrors lx1 = lerrors lx"
    using bump_Cons [OF assms(4)] by metis
  obtain w lx2 where w: "eat_while (is_ident_continue X) lx1 [c] = (w, lx2)" by fastforce
  have "takeWhile (is_ident_continue X) (s @ rest) = s" "dropWhile (is_ident_continue X) (s @ rest) = rest"
    using assms(5,6) by (auto simp: takeWhile_append2 dropWhile_append2 list_all_iff takeWhile_eq_Nil_iff dropWhile_eq_self_iff)
  then have "w = c # s" "unread lx2 = rest" "lerrors lx2 = lerrors lx"
    using eat_while_result [of "is_ident_continue X" lx1 "[c]"] w u e by auto
  moreover have "lex_char X (lpos lx) c lx1 =
      (Some (token_new (ident_kind w) (span_new (lpos lx) (lpos lx2))), lx2)"
    using assms(1-3) by (simp add: lex_char_def w)
  ultimately show thesis
    using that next_token_token [OF b] by metis
qed

lemma lower_is_word:
  assumes "97 \<le> c" and "c \<le> 122"
  shows "is_ident_start X c \<and> is_ident_continue X c \<and> \<not> is_whitespace c \<and> c \<noteq> chr CHR ''/''"
  using assms
  by (auto simp: is_ident_start_def is_ident_continue_def is_alphabetic_def is_alphanumeric_def
      is_ascii_alphabetic_def is_whitespace_def chr_def)

text \<open>
  Every keyword, printed and lexed again, is one keyword token followed by \<open>Eof\<close>, with no
  diagnostics.
\<close>

theorem keyword_lexes:
  "\<exists>sp. tokenize X (keyword_as_str k) =
     \<lparr>tokens = [token_new (TKeyword k) sp,
                token_new TEof (span_at (pos_of (keyword_as_str k) (length (keyword_as_str k))))],
      lex_errors = []\<rparr>"
proof -
  obtain c s where cs: "keyword_as_str k = c # s" and lower: "list_all (\<lambda>c. 97 \<le> c \<and> c \<le> 122) (c # s)"
    using keyword_spelling [of k] by (cases "keyword_as_str k") auto
  then have l: "list_all (is_ident_continue X) s" and c: "97 \<le> c" "c \<le> 122"
    using lower_is_word by (auto simp: list_all_iff)
  have k: "ident_kind (c # s) = TKeyword k"
    using from_ident_as_str [of k] cs c by (auto simp: ident_kind_def lit_def)
  have "unread (lexer_new (c # s)) = c # s @ []" by (simp add: lexer_new_def unread_def)
  then obtain lx' where "next_token X (lexer_new (c # s)) = (token_new (ident_kind (c # s)) (span_new pos_ZERO (lpos lx')), lx')"
    and "unread lx' = []" and "lerrors lx' = []"
    using next_token_word [of X c "lexer_new (c # s)" s "[]"] lower_is_word [OF c] l
    by (auto simp: lexer_new_def)
  then have "tokenize X (c # s) =
      \<lparr>tokens = [token_new (TKeyword k) (span_new pos_ZERO (lpos lx')),
         token_new TEof (span_at (pos_of (c # s) (length (c # s))))], lex_errors = []\<rparr>"
    using k by (intro tokenize_single) (auto simp: token_new_def)
  then show ?thesis unfolding cs by blast
qed

text \<open>
  Maximal munch: a word of identifier characters that no identifier character follows is
  one token, a keyword, the wildcard or an identifier that keeps its spelling, and the
  lexer stops exactly behind it.
\<close>

theorem identifier_munch:
  assumes "is_ident_start X c" and "\<not> is_whitespace c" and "c \<noteq> chr CHR ''/''"
    and "unread lx = c # s @ rest" and "list_all (is_ident_continue X) s"
    and "rest = [] \<or> \<not> is_ident_continue X (hd rest)"
  shows "kind (fst (next_token X lx)) = ident_kind (c # s)
       \<and> unread (snd (next_token X lx)) = rest \<and> lerrors (snd (next_token X lx)) = lerrors lx"
  using next_token_word [OF assms] by (metis fst_conv snd_conv token.select_convs(1) token_new_def)

theorem identifier_munch_witness:
  "kind (fst (next_token fixed_ext (lexer_new (lit ''let_2+x'')))) = TIdent (lit ''let_2'')
   \<and> unread (snd (next_token fixed_ext (lexer_new (lit ''let_2+x'')))) = lit ''+x''"
proof -
  have "kind (fst (next_token fixed_ext (lexer_new (lit ''let_2+x'')))) = ident_kind (chr CHR ''l'' # lit ''et_2'')
     \<and> unread (snd (next_token fixed_ext (lexer_new (lit ''let_2+x'')))) = lit ''+x''
     \<and> lerrors (snd (next_token fixed_ext (lexer_new (lit ''let_2+x'')))) = lerrors (lexer_new (lit ''let_2+x''))"
    by (rule identifier_munch)
      (simp_all add: lit_Cons chr_def lexer_new_def unread_def is_ident_start_def is_ident_continue_def
        is_alphabetic_def is_alphanumeric_def is_ascii_alphabetic_def is_ascii_digit_def is_whitespace_def)
  then show ?thesis
    by (simp add: ident_kind_def from_ident_def lit_def chr_def)
qed


text \<open>
  The digits of an integer literal: an underscore is a separator when a digit follows it.
\<close>

fun digit_run :: "str \<Rightarrow> bool" where
  "digit_run [] \<longleftrightarrow> True"
| "digit_run (c # s) \<longleftrightarrow>
     (is_ascii_digit c \<or> c = chr CHR ''_'' \<and> (\<exists>d t. s = d # t \<and> is_ascii_digit d)) \<and> digit_run s"

definition ends_number :: "str \<Rightarrow> bool" where
  "ends_number rest \<longleftrightarrow> rest = [] \<or>
     \<not> is_ascii_digit (hd rest) \<and> hd rest \<notin> {chr CHR ''_'', chr CHR ''.'', chr CHR ''e'', chr CHR ''E''}"

lemma eat_digits_run:
  assumes "unread lx = s @ rest" and "digit_run s" and "ends_number rest"
  shows "\<exists>lx'. eat_digits lx acc = (acc @ strip_underscores s, lx')
            \<and> unread lx' = rest \<and> lerrors lx' = lerrors lx"
  using assms
proof (induction s arbitrary: lx acc)
  case Nil
  then show ?case
    by (subst eat_digits.simps)
      (auto simp: peek_unread ends_number_def strip_underscores_def split: list.splits)
next
  case (Cons c s)
  have u: "unread (skip1 lx) = s @ rest" and e: "lerrors (skip1 lx) = lerrors lx"
    and p: "peek lx = Some c"
    using Cons.prems(1) by (simp_all add: lex_simps)
  have d: "\<not> is_ascii_digit (chr CHR ''_'')" by (simp add: is_ascii_digit_def chr_def)
  show ?case
  proof (cases "is_ascii_digit c")
    case True
    then have "eat_digits lx acc = eat_digits (skip1 lx) (acc @ [c])"
      using p by (subst eat_digits.simps) simp
    moreover have "strip_underscores (c # s) = c # strip_underscores s"
      using True d by (auto simp: strip_underscores_def)
    ultimately show ?thesis
      using Cons.IH [OF u, of "acc @ [c]"] Cons.prems e by auto
  next
    case False
    then have c: "c = chr CHR ''_''" and n: "digit_next (peek2 lx)"
      using Cons.prems by (auto simp: peek2_unread digit_next_def)
    then have "eat_digits lx acc = eat_digits (skip1 lx) acc"
      using p False by (subst eat_digits.simps) simp
    moreover have "strip_underscores (c # s) = strip_underscores s"
      using c by (simp add: strip_underscores_def)
    ultimately show ?thesis
      using Cons.IH [OF u, of acc] Cons.prems e by auto
  qed
qed

lemma digit_not_other:
  assumes "is_ascii_digit c"
  shows "\<not> is_whitespace c" and "c \<noteq> chr CHR ''/''" and "\<not> is_ident_start X c"
  using assms by (auto simp: is_ascii_digit_def is_whitespace_def is_ident_start_def
      is_alphabetic_def is_ascii_alphabetic_def chr_def)

lemma digit_run_stripped:
  "digit_run s \<Longrightarrow> list_all is_ascii_digit (strip_underscores s)"
  by (induction s) (auto simp: strip_underscores_def)

lemma strip_underscores_idem [simp]: "strip_underscores (strip_underscores s) = strip_underscores s"
  by (simp add: strip_underscores_def)

lemma next_token_integer:
  assumes u: "unread lx = c # s @ rest" and c: "is_ascii_digit c" and s: "digit_run s"
    and rest: "ends_number rest"
  obtains lx' where "next_token X lx =
      (token_new (TInt (int (digits_value 10 (strip_underscores (c # s))))) (span_new (lpos lx) (lpos lx')), lx')"
    and "unread lx' = rest" and "lerrors lx' = lerrors lx"
proof -
  obtain lx1 where b: "bump lx = (Some c, lx1)" and u1: "unread lx1 = s @ rest" and e1: "lerrors lx1 = lerrors lx"
    using bump_Cons [OF u] by metis
  obtain lx' where d: "eat_digits lx1 [c] = ([c] @ strip_underscores s, lx')"
    and u': "unread lx' = rest" and e': "lerrors lx' = lerrors lx1"
    using eat_digits_run [OF u1 s rest, of "[c]"] by blast
  have "\<not> is_ascii_digit (chr CHR ''_'')" by (simp add: is_ascii_digit_def chr_def)
  then have strip: "strip_underscores (c # s) = c # strip_underscores s"
    using c by (auto simp: strip_underscores_def)
  have "\<not> digit_next (peek2 lx') \<or> peek lx' \<noteq> Some (chr CHR ''.'')"
    and "peek lx' \<noteq> Some (chr CHR ''e'')" and "peek lx' \<noteq> Some (chr CHR ''E'')"
    using rest u' by (auto simp: peek_unread ends_number_def split: list.splits)
  moreover have "parse_int (strip_underscores (c # s)) = Some (int (digits_value 10 (strip_underscores (c # s))))"
    using c digit_run_stripped [OF s] by (simp add: parse_int_def strip)
  moreover have "strip_underscores (c # strip_underscores s) = strip_underscores (c # s)"
    unfolding strip [symmetric] by simp
  ultimately have "lex_number X (lpos lx) c lx1 =
      (token_new (TInt (int (digits_value 10 (strip_underscores (c # s))))) (span_new (lpos lx) (lpos lx')), lx')"
    by (auto simp: lex_number_def d integer_token_def Let_def)
  then have "lex_char X (lpos lx) c lx1 =
      (Some (token_new (TInt (int (digits_value 10 (strip_underscores (c # s))))) (span_new (lpos lx) (lpos lx'))), lx')"
    using c by (simp add: lex_char_def digit_not_other)
  then show thesis
    using that next_token_token [OF b] u' e' e1 by metis
qed

text \<open>
  An integer literal with separators denotes the number its digits spell, at any size:
  the token carries the exact value, the text behind it is left unread and nothing is
  reported.
\<close>

theorem integer_literal:
  assumes "unread lx = c # s @ rest" and "is_ascii_digit c" and "digit_run s" and "ends_number rest"
  shows "kind (fst (next_token X lx)) = TInt (int (digits_value 10 (strip_underscores (c # s))))
       \<and> unread (snd (next_token X lx)) = rest \<and> lerrors (snd (next_token X lx)) = lerrors lx"
  using next_token_integer [OF assms] by (metis fst_conv snd_conv token.select_convs(1) token_new_def)

theorem integer_literal_witness:
  "kind (fst (next_token fixed_ext (lexer_new (lit ''1_000;'')))) = TInt 1000"
proof -
  have "kind (fst (next_token fixed_ext (lexer_new (lit ''1_000;''))))
        = TInt (int (digits_value 10 (strip_underscores (chr CHR ''1'' # lit ''_000''))))
     \<and> unread (snd (next_token fixed_ext (lexer_new (lit ''1_000;'')))) = lit '';''
     \<and> lerrors (snd (next_token fixed_ext (lexer_new (lit ''1_000;'')))) = lerrors (lexer_new (lit ''1_000;''))"
    by (rule integer_literal)
      (simp_all add: lit_Cons chr_def lexer_new_def unread_def is_ascii_digit_def ends_number_def)
  then show ?thesis
    by (simp add: digits_value_def strip_underscores_def lit_Cons chr_def hex_value_def is_ascii_digit_def)
qed

lemma digit_run_digits: "list_all is_ascii_digit s \<Longrightarrow> digit_run s"
  by (induction s) auto

text \<open>Printing a natural number and lexing the text gives the number back.\<close>

theorem integer_roundtrip:
  "\<exists>sp. tokenize X (show_nat n) =
     \<lparr>tokens = [token_new (TInt (int n)) sp,
                token_new TEof (span_at (pos_of (show_nat n) (length (show_nat n))))],
      lex_errors = []\<rparr>"
proof -
  have all: "list_all is_ascii_digit (show_nat n)" using show_nat_digits by (simp add: list_all_iff)
  then have strip: "strip_underscores (show_nat n) = show_nat n"
    by (auto simp: strip_underscores_def list_all_iff is_ascii_digit_def chr_def intro!: filter_True)
  obtain c s where cs: "show_nat n = c # s" by (cases "show_nat n") simp_all
  then have c: "is_ascii_digit c" and s: "digit_run s" using all digit_run_digits by simp_all
  have "unread (lexer_new (c # s)) = c # s @ []" by (simp add: lexer_new_def unread_def)
  then obtain lx' where "next_token X (lexer_new (c # s)) =
      (token_new (TInt (int (digits_value 10 (strip_underscores (c # s))))) (span_new pos_ZERO (lpos lx')), lx')"
    and "unread lx' = []" and "lerrors lx' = []"
    using next_token_integer [OF _ c s, of "lexer_new (c # s)" "[]" X]
    by (auto simp: lexer_new_def ends_number_def)
  moreover have "digits_value 10 (strip_underscores (c # s)) = n" using strip cs by (metis digits_value_show_nat)
  ultimately have "tokenize X (c # s) =
      \<lparr>tokens = [token_new (TInt (int n)) (span_new pos_ZERO (lpos lx')),
         token_new TEof (span_at (pos_of (c # s) (length (c # s))))], lex_errors = []\<rparr>"
    by (intro tokenize_single) (auto simp: token_new_def)
  then show ?thesis unfolding cs by blast
qed


section \<open>String literals\<close>

text \<open>The literal that spells a string: quotes, backslashes and braces are escaped.\<close>

definition escape_char :: "uchar \<Rightarrow> str" where
  "escape_char c =
     (if c = dquote \<or> c = backslash \<or> c = chr CHR ''{'' \<or> c = chr CHR ''}'' then [backslash, c]
      else if c = newline then [backslash, chr CHR ''n''] else [c])"

definition quote_text :: "str \<Rightarrow> str" where
  "quote_text s = dquote # concat (map escape_char s) @ [dquote]"

lemma string_loop_char:
  assumes u: "unread lx = escape_char c @ rest"
  obtains lx' where "string_loop start parts cur lx = string_loop start parts (cur @ [c]) lx'"
    and "unread lx' = rest" and "lerrors lx' = lerrors lx"
proof (cases "escape_char c = [c]")
  case True
  then have c: "c \<noteq> dquote" "c \<noteq> backslash" "c \<noteq> chr CHR ''{''"
    by (auto simp: escape_char_def split: if_splits)
  obtain lx' where b: "bump lx = (Some c, lx')" and u': "unread lx' = rest" and e: "lerrors lx' = lerrors lx"
    using bump_Cons [of lx c rest] u True by (metis append_Cons append_Nil)
  have "string_loop start parts cur lx = string_loop start parts (cur @ [c]) lx'"
    using b c by (subst string_loop.simps) simp
  with that u' e show thesis by blast
next
  case False
  define e where "e = (if c = newline then chr CHR ''n'' else c)"
  have esc: "escape_char c = [backslash, e]" and se: "simple_escape False e = Some c"
    using False by (auto simp: escape_char_def e_def simple_escape_def char_defs split: if_splits)
  obtain lx1 where b: "bump lx = (Some backslash, lx1)" and u1: "unread lx1 = e # rest" and e1: "lerrors lx1 = lerrors lx"
    using bump_Cons [of lx backslash "e # rest"] u esc by (metis append_Cons append_Nil)
  obtain lx' where b': "bump lx1 = (Some e, lx')" and u': "unread lx' = rest" and e': "lerrors lx' = lerrors lx1"
    using bump_Cons [OF u1] by metis
  have "string_loop start parts cur lx = string_loop start parts (cur @ [c]) lx'"
    using b b' by (subst string_loop.simps) (simp add: lex_escape_def se char_defs)
  with that u' e' e1 show thesis by simp
qed

lemma string_loop_text:
  assumes "unread lx = concat (map escape_char s) @ dquote # rest"
  shows "\<exists>lx'. string_loop start parts cur lx = (parts, cur @ s, lx')
           \<and> unread lx' = rest \<and> lerrors lx' = lerrors lx"
  using assms
proof (induction s arbitrary: cur lx)
  case Nil
  then obtain lx' where "bump lx = (Some dquote, lx')" "unread lx' = rest" "lerrors lx' = lerrors lx"
    using bump_Cons [of lx dquote rest] by (metis append_Nil concat.simps(1) list.map(1))
  then show ?case by (subst string_loop.simps) auto
next
  case (Cons c s)
  have "unread lx = escape_char c @ (concat (map escape_char s) @ dquote # rest)"
    using Cons.prems by simp
  then obtain lx1 where "string_loop start parts cur lx = string_loop start parts (cur @ [c]) lx1"
    and u: "unread lx1 = concat (map escape_char s) @ dquote # rest" and "lerrors lx1 = lerrors lx"
    using string_loop_char by metis
  then show ?case using Cons.IH [OF u, of "cur @ [c]"] by auto
qed

text \<open>
  C24. Every string is the value of a literal: the quoted and escaped text of \<open>s\<close> lexes to one
  string token whose only part is \<open>s\<close> itself, without diagnostics.
\<close>

theorem string_roundtrip:
  "\<exists>sp. tokenize X (quote_text s) =
     \<lparr>tokens = [token_new (TStr [PartLiteral s]) sp,
                token_new TEof (span_at (pos_of (quote_text s) (length (quote_text s))))],
      lex_errors = []\<rparr>"
proof -
  let ?body = "concat (map escape_char s) @ [dquote]"
  obtain lx1 where b: "bump (lexer_new (quote_text s)) = (Some dquote, lx1)"
    and u1: "unread lx1 = ?body" and e1: "lerrors lx1 = []"
    using bump_Cons [of "lexer_new (quote_text s)" dquote ?body]
    by (auto simp: lexer_new_def unread_def quote_text_def)
  obtain lx' where l: "string_loop pos_ZERO [] [] lx1 = ([], s, lx')" and u': "unread lx' = []"
    and e': "lerrors lx' = []"
    using string_loop_text [of lx1 s "[]" pos_ZERO "[]" "[]"] u1 e1 by auto
  have nt: "\<not> (peek lx1 = Some dquote \<and> peek2 lx1 = Some dquote)"
    using u1 by (cases s) (auto simp: peek_unread peek2_unread escape_char_def char_defs)
  have fin: "finish_string pos_ZERO [] s lx' = token_new (TStr [PartLiteral s]) (span_new pos_ZERO (lpos lx'))"
    by (simp add: finish_string_def flush_def)
  have "lex_char X pos_ZERO dquote lx1 = (Some (token_new (TStr [PartLiteral s]) (span_new pos_ZERO (lpos lx'))), lx')"
    using nt by (auto simp: lex_char_def lex_string_def l fin dquote_def is_whitespace_def chr_def
        is_ident_start_def is_alphabetic_def is_ascii_alphabetic_def is_ascii_digit_def)
  then have "next_token X (lexer_new (quote_text s)) =
      (token_new (TStr [PartLiteral s]) (span_new pos_ZERO (lpos lx')), lx')"
    using next_token_token [OF b] by (simp add: lexer_new_def)
  from tokenize_single [OF this u' e'] show ?thesis
    by (auto simp: token_new_def)
qed

section \<open>Nesting\<close>

text \<open>
  Text with nested groups: what a block comment or an interpolation contains. A quoted piece
  is a string literal in which a closing brace does not count.
\<close>

datatype nested = NChar uchar | NQuote str | NGroup "nested list"

fun nested_text :: "str \<Rightarrow> str \<Rightarrow> nested \<Rightarrow> str" where
  "nested_text op cl (NChar c) = [c]"
| "nested_text op cl (NQuote s) = dquote # s @ [dquote]"
| "nested_text op cl (NGroup ns) = op @ concat (map (nested_text op cl) ns) @ cl"

definition comment_open :: str where "comment_open = lit ''/*''"
definition comment_close :: str where "comment_close = lit ''*/''"

fun comment_ok :: "nested \<Rightarrow> bool" where
  "comment_ok (NChar c) \<longleftrightarrow> c \<noteq> chr CHR ''/'' \<and> c \<noteq> chr CHR ''*''"
| "comment_ok (NQuote s) \<longleftrightarrow> list_all (\<lambda>c. c \<noteq> chr CHR ''/'' \<and> c \<noteq> chr CHR ''*'') s"
| "comment_ok (NGroup ns) \<longleftrightarrow> list_all comment_ok ns"

text \<open>The comment scanner at depth \<open>d\<close> gets from one state to another over the text between.\<close>

definition comment_reaches :: "pos \<Rightarrow> nat \<Rightarrow> lexer \<Rightarrow> str \<Rightarrow> bool" where
  "comment_reaches st d lx rest \<longleftrightarrow>
     (\<exists>lx'. eat_block_comment st d lx = eat_block_comment st d lx'
        \<and> unread lx' = rest \<and> lerrors lx' = lerrors lx)"

lemma comment_reaches_trans:
  assumes "comment_reaches st d lx mid"
    and "\<And>lx'. unread lx' = mid \<Longrightarrow> comment_reaches st d lx' rest"
  shows "comment_reaches st d lx rest"
  using assms unfolding comment_reaches_def by metis

lemma comment_char:
  assumes "unread lx = c # rest" and "c \<noteq> chr CHR ''/''" and "c \<noteq> chr CHR ''*''"
  shows "comment_reaches st d lx rest"
proof -
  obtain lx' where "bump lx = (Some c, lx')" "unread lx' = rest" "lerrors lx' = lerrors lx"
    using bump_Cons [OF assms(1)] by metis
  then show ?thesis
    using assms(2,3) unfolding comment_reaches_def by (subst eat_block_comment.simps) auto
qed

lemma comment_chars:
  assumes "unread lx = s @ rest" and "list_all (\<lambda>c. c \<noteq> chr CHR ''/'' \<and> c \<noteq> chr CHR ''*'') s"
  shows "comment_reaches st d lx rest"
  using assms
proof (induction s arbitrary: lx)
  case Nil
  then show ?case unfolding comment_reaches_def by auto
next
  case (Cons c s)
  then show ?case
    using comment_reaches_trans [OF comment_char [of lx c "s @ rest" st d]] by simp
qed

lemma comment_pair:
  assumes "unread lx = a # b # rest"
  obtains lx1 where "bump lx = (Some a, lx1)" and "peek lx1 = Some b"
    and "unread (skip1 lx1) = rest" and "lerrors (skip1 lx1) = lerrors lx"
  using bump_Cons [OF assms] by (metis bump_lerrors bump_unread list.sel(3) list.simps(5) peek_unread)

lemma comment_opens:
  assumes "unread lx = comment_open @ rest"
  shows "\<exists>lx'. eat_block_comment st d lx = eat_block_comment st (d + 1) lx' \<and> unread lx' = rest \<and> lerrors lx' = lerrors lx"
proof -
  have u: "unread lx = chr CHR ''/'' # chr CHR ''*'' # rest"
    using assms by (simp add: comment_open_def lit_Cons)
  obtain lx1 where "bump lx = (Some (chr CHR ''/''), lx1)" and "peek lx1 = Some (chr CHR ''*'')"
    and "unread (skip1 lx1) = rest" and "lerrors (skip1 lx1) = lerrors lx"
    using comment_pair [OF u] by metis
  then show ?thesis
    by (subst eat_block_comment.simps) auto
qed

lemma comment_closes:
  assumes "unread lx = comment_close @ rest"
  shows "\<exists>lx'. eat_block_comment st (d + 1) lx = (if d = 0 then lx' else eat_block_comment st d lx')
           \<and> unread lx' = rest \<and> lerrors lx' = lerrors lx"
proof -
  have u: "unread lx = chr CHR ''*'' # chr CHR ''/'' # rest"
    using assms by (simp add: comment_close_def lit_Cons)
  obtain lx1 where "bump lx = (Some (chr CHR ''*''), lx1)" and "peek lx1 = Some (chr CHR ''/'')"
    and "unread (skip1 lx1) = rest" and "lerrors (skip1 lx1) = lerrors lx"
    using comment_pair [OF u] by metis
  then show ?thesis
    by (subst eat_block_comment.simps) auto
qed

lemma comment_nested:
  assumes "unread lx = nested_text comment_open comment_close n @ rest" and "comment_ok n" and "0 < d"
  shows "comment_reaches st d lx rest"
  using assms
proof (induction n arbitrary: lx rest d)
  case (NChar c)
  then show ?case by (simp add: comment_char)
next
  case (NQuote s)
  then show ?case
    by (intro comment_chars [of lx "dquote # s @ [dquote]"]) (auto simp: char_defs)
next
  case (NGroup ns)
  have seq: "comment_reaches st (d + 1) lx1 rest1"
    if "unread lx1 = concat (map (nested_text comment_open comment_close) ms) @ rest1"
      and "set ms \<subseteq> set ns" for ms lx1 rest1
    using that
  proof (induction ms arbitrary: lx1)
    case Nil
    then show ?case unfolding comment_reaches_def by auto
  next
    case (Cons m ms)
    have "comment_reaches st (d + 1) lx1 (concat (map (nested_text comment_open comment_close) ms) @ rest1)"
      using Cons.prems NGroup.prems by (intro NGroup.IH [of m]) (auto simp: list_all_iff)
    then show ?case
      by (rule comment_reaches_trans) (use Cons in simp)
  qed
  have u: "unread lx = comment_open @ concat (map (nested_text comment_open comment_close) ns) @ comment_close @ rest"
    using NGroup.prems(1) by simp
  obtain lx1 where "eat_block_comment st d lx = eat_block_comment st (d + 1) lx1"
    and u1: "unread lx1 = concat (map (nested_text comment_open comment_close) ns) @ comment_close @ rest"
    and "lerrors lx1 = lerrors lx"
    using comment_opens [OF u] by blast
  moreover obtain lx2 where "eat_block_comment st (d + 1) lx1 = eat_block_comment st (d + 1) lx2"
    and u2: "unread lx2 = comment_close @ rest" and "lerrors lx2 = lerrors lx1"
    using seq [OF u1] unfolding comment_reaches_def by blast
  moreover obtain lx3 where "eat_block_comment st (d + 1) lx2 = eat_block_comment st d lx3"
    and "unread lx3 = rest" and "lerrors lx3 = lerrors lx2"
    using comment_closes [OF u2, of st d] NGroup.prems(3) by auto
  ultimately show ?case unfolding comment_reaches_def by auto
qed

text \<open>
  Block comments nest: a comment whose text contains balanced inner comments is skipped
  as a whole, so the next token is the one behind its own closing mark, and nothing is
  reported.
\<close>

theorem nested_comment_skipped:
  assumes "unread lx = nested_text comment_open comment_close (NGroup ns) @ rest" and "comment_ok (NGroup ns)"
  shows "\<exists>lx'. next_token X lx = next_token X lx' \<and> unread lx' = rest \<and> lerrors lx' = lerrors lx"
proof -
  let ?text = "concat (map (nested_text comment_open comment_close) ns)"
  have u: "unread lx = chr CHR ''/'' # chr CHR ''*'' # ?text @ comment_close @ rest"
    using assms(1) by (simp add: comment_open_def lit_Cons)
  obtain lx1 where b: "bump lx = (Some (chr CHR ''/''), lx1)" and p: "peek lx1 = Some (chr CHR ''*'')"
    and u1: "unread (skip1 lx1) = ?text @ comment_close @ rest" and e1: "lerrors (skip1 lx1) = lerrors lx"
    using comment_pair [OF u] by metis
  have seq: "comment_reaches (lpos lx) 1 lx2 rest2"
    if "unread lx2 = concat (map (nested_text comment_open comment_close) ms) @ rest2"
      and "set ms \<subseteq> set ns" for ms lx2 rest2
    using that
  proof (induction ms arbitrary: lx2)
    case Nil
    then show ?case unfolding comment_reaches_def by auto
  next
    case (Cons m ms)
    have "comment_reaches (lpos lx) 1 lx2 (concat (map (nested_text comment_open comment_close) ms) @ rest2)"
      using Cons.prems assms(2) by (intro comment_nested [of lx2 m]) (auto simp: list_all_iff)
    then show ?case by (rule comment_reaches_trans) (use Cons in simp)
  qed
  obtain lx2 where "eat_block_comment (lpos lx) 1 (skip1 lx1) = eat_block_comment (lpos lx) 1 lx2"
    and u2: "unread lx2 = comment_close @ rest" and e2: "lerrors lx2 = lerrors (skip1 lx1)"
    using seq [OF u1] unfolding comment_reaches_def by auto
  moreover obtain lx3 where "eat_block_comment (lpos lx) 1 lx2 = lx3" and u3: "unread lx3 = rest"
    and e3: "lerrors lx3 = lerrors lx2"
    using comment_closes [OF u2, of "lpos lx" 0] by auto
  ultimately have "lex_char X (lpos lx) (chr CHR ''/'') lx1 = (None, lx3)"
    using p by (simp add: lex_char_def) (simp add: is_whitespace_def chr_def)
  then have "next_token X lx = next_token X lx3" by (rule next_token_skip [OF b])
  then show ?thesis using u3 e3 e2 e1 by auto
qed

theorem nested_comment_skipped_witness:
  "\<exists>lx'. next_token fixed_ext (lexer_new (lit ''/*a/*b*/c*/x'')) = next_token fixed_ext lx'
       \<and> unread lx' = lit ''x'' \<and> lerrors lx' = []"
proof -
  let ?ns = "[NChar (chr CHR ''a''), NGroup [NChar (chr CHR ''b'')], NChar (chr CHR ''c'')]"
  let ?lx = "lexer_new (lit ''/*a/*b*/c*/x'')"
  have "unread ?lx = nested_text comment_open comment_close (NGroup ?ns) @ lit ''x''" and "comment_ok (NGroup ?ns)"
    by (simp_all add: lexer_new_def unread_def comment_open_def comment_close_def lit_Cons)
  from nested_comment_skipped [OF this] show ?thesis by (simp add: lexer_new_def)
qed

end
