(* ===== verification/Ast.thy ===== *)
theory Ast
  imports Source_Span External
begin

text \<open>
  Abstract syntax (\<open>src/ast/mod.rs\<close>). Structures that hold expressions take the type of
  expressions as a parameter, so that \<open>expr\<close> and \<open>stmt\<close> are one mutual pair at the end.
  Constructors are prefixed by the Rust type: \<open>B\<close> for \<open>BinOp\<close>, \<open>P\<close> for \<open>Pattern\<close>, \<open>E\<close> for \<open>Expr\<close>,
  \<open>S\<close> for \<open>Stmt\<close>, \<open>T\<close> for \<open>TypeAnnot\<close>.
\<close>

datatype bin_op = BAdd | BSub | BMul | BDiv | BMod | BEq | BNeq | BLt | BGt | BLte | BGte | BAnd | BOr

fun bin_op_as_str :: "bin_op \<Rightarrow> str" where
  "bin_op_as_str BAdd = lit ''+''"
| "bin_op_as_str BSub = lit ''-''"
| "bin_op_as_str BMul = lit ''*''"
| "bin_op_as_str BDiv = lit ''/''"
| "bin_op_as_str BMod = lit ''%''"
| "bin_op_as_str BEq = lit ''==''"
| "bin_op_as_str BNeq = lit ''!=''"
| "bin_op_as_str BLt = lit ''<''"
| "bin_op_as_str BGt = lit ''>''"
| "bin_op_as_str BLte = lit ''<=''"
| "bin_op_as_str BGte = lit ''>=''"
| "bin_op_as_str BAnd = lit ''and''"
| "bin_op_as_str BOr = lit ''or''"

datatype unary_op = UNeg | UNot

datatype (plugins only: size) type_annot =
    TName str span
  | TGeneric str "type_annot list" span
  | TUnion "type_annot list" span
  | TFn "type_annot list" type_annot span

fun type_annot_span :: "type_annot \<Rightarrow> span" where
  "type_annot_span (TName n s) = s"
| "type_annot_span (TGeneric n args s) = s"
| "type_annot_span (TUnion vs s) = s"
| "type_annot_span (TFn ps r s) = s"

record param =
  pa_name :: str
  pa_type :: "type_annot option"
  pa_span :: span

record type_def =
  td_name :: str
  td_params :: "str list"
  td_fields :: "(str \<times> type_annot) list"
  td_span :: span

record variant_def =
  vd_name :: str
  vd_fields :: "type_annot list"
  vd_span :: span

record enum_def =
  ed_name :: str
  ed_params :: "str list"
  ed_variants :: "variant_def list"
  ed_span :: span

record import_def =
  im_path :: str
  im_alias :: "str option"
  im_lazy :: bool
  im_span :: span

section \<open>Structures over expressions\<close>

datatype (plugins only: size) 'e ast_str_part = LiteralPart str | ExprPart 'e

datatype (plugins only: size) ('d, 'e) lit_pattern =
    LPInt int | LPDecimal 'd | LPStr "'e ast_str_part list" | LPBool bool | LPNil

datatype (plugins only: size) ('d, 'e) pattern =
    PWildcard span
  | PLit "('d, 'e) lit_pattern" span
  | PBind str span
  | PVariant str "('d, 'e) pattern list" span
  | PStruct "(str \<times> ('d, 'e) pattern) list" bool span
  | PVec "('d, 'e) pattern list" bool span
  | POr "('d, 'e) pattern list" span
  | PGuard "('d, 'e) pattern" 'e span

datatype (plugins only: size) ('d, 'e) match_arm =
  MatchArm (arm_pattern: "('d, 'e) pattern") (arm_guard: "'e option") (arm_body: 'e) (arm_span: span)

datatype (plugins only: size) 'e rescue_clause =
  RescueClause (rc_type: "str option") (rc_bind: "str option") (rc_body: 'e) (rc_span: span)

text \<open>\<open>FuncDef\<close> and \<open>OnClause\<close> have the same fields.\<close>

datatype (plugins only: size) 'e func_def =
  FuncDef (fd_name: str) (fd_params: "param list") (fd_return: "type_annot option") (fd_body: 'e) (fd_span: span)

datatype (plugins only: size) 's actor_def =
  ActorDef (ad_name: str) (ad_body: "'s list") (ad_span: span)

section \<open>Expressions and statements\<close>

datatype (plugins only: size) 'd expr =
    EInt int span
  | EDecimal 'd span
  | EStr "'d expr ast_str_part list" span
  | EBool bool span
  | ENil span
  | EIdent str span
  | EVecLit "'d expr list" span
  | EMapLit "('d expr \<times> 'd expr) list" span
  | ESetLit "'d expr list" span
  | EBinOp bin_op "'d expr" "'d expr" span
  | EUnaryOp unary_op "'d expr" span
  | EPipe "'d expr" "'d expr" span
  | EIf "'d expr" "'d expr" "'d expr option" span
  | EMatch "'d expr" "('d, 'd expr) match_arm list" span
  | ELambda "param list" "type_annot option" "'d expr" span
  | EBlock "'d stmt list" "'d expr option" span
  | EParen "'d expr" span
  | ECall "'d expr" "'d expr list" span
  | EMethodCall "'d expr" str "'d expr list" span
  | EIndex "'d expr" "'d expr" span
  | EField "'d expr" str span
  | EActorSend "'d expr" "'d expr" span
  | EActorRequest "'d expr" "'d expr" span
  | ESpawn str "'d expr list" span
  | ERaise "'d expr" span
  | ETry "'d expr" "'d expr rescue_clause list" "'d expr option" span
  | ETransact "'d expr" span
  | ERetry span
  | EReturn "'d expr option" span
  | EReply "'d expr" span
  | EYield span
  | EAwait "'d expr" span
  | ESharedExpr "'d expr" span
  | EAssign "'d expr" "'d expr" span
  | ECompoundAssign bin_op "'d expr" "'d expr" span
  | EWhile "'d expr" "'d expr" span
  | EFor str "'d expr" "'d expr" span
  | ELoop "'d expr" span
  | EBreak "'d expr option" span
  | EContinue span
and 'd stmt =
    SLet str "type_annot option" "'d expr" span
  | SSharedDecl str "type_annot option" "'d expr" span
  | SStateDecl str "type_annot option" "'d expr" span
  | SOnClause "'d expr func_def"
  | SFuncDef "'d expr func_def"
  | STypeDef type_def
  | SEnumDef enum_def
  | SActorDef "'d stmt actor_def"
  | SImport import_def
  | SExpr "'d expr"
  | SSemi "'d expr"

record 'd program =
  pr_stmts :: "'d stmt list"
  pr_span :: span

fun expr_span :: "'d expr \<Rightarrow> span" where
  "expr_span (EInt n s) = s"
| "expr_span (EDecimal d s) = s"
| "expr_span (EStr ps s) = s"
| "expr_span (EBool b s) = s"
| "expr_span (ENil s) = s"
| "expr_span (EIdent x s) = s"
| "expr_span (EVecLit es s) = s"
| "expr_span (EMapLit es s) = s"
| "expr_span (ESetLit es s) = s"
| "expr_span (EBinOp oper a b s) = s"
| "expr_span (EUnaryOp oper a s) = s"
| "expr_span (EPipe a b s) = s"
| "expr_span (EIf c t e s) = s"
| "expr_span (EMatch e arms s) = s"
| "expr_span (ELambda ps r b s) = s"
| "expr_span (EBlock ss t s) = s"
| "expr_span (EParen e s) = s"
| "expr_span (ECall f es s) = s"
| "expr_span (EMethodCall r m es s) = s"
| "expr_span (EIndex a b s) = s"
| "expr_span (EField a n s) = s"
| "expr_span (EActorSend a b s) = s"
| "expr_span (EActorRequest a b s) = s"
| "expr_span (ESpawn n es s) = s"
| "expr_span (ERaise e s) = s"
| "expr_span (ETry b rs en s) = s"
| "expr_span (ETransact b s) = s"
| "expr_span (ERetry s) = s"
| "expr_span (EReturn v s) = s"
| "expr_span (EReply v s) = s"
| "expr_span (EYield s) = s"
| "expr_span (EAwait e s) = s"
| "expr_span (ESharedExpr e s) = s"
| "expr_span (EAssign a b s) = s"
| "expr_span (ECompoundAssign oper a b s) = s"
| "expr_span (EWhile c b s) = s"
| "expr_span (EFor x i b s) = s"
| "expr_span (ELoop b s) = s"
| "expr_span (EBreak v s) = s"
| "expr_span (EContinue s) = s"

fun stmt_span :: "'d stmt \<Rightarrow> span" where
  "stmt_span (SLet x t e s) = s"
| "stmt_span (SSharedDecl x t e s) = s"
| "stmt_span (SStateDecl x t e s) = s"
| "stmt_span (SOnClause f) = fd_span f"
| "stmt_span (SFuncDef f) = fd_span f"
| "stmt_span (STypeDef t) = td_span t"
| "stmt_span (SEnumDef e) = ed_span e"
| "stmt_span (SActorDef a) = ad_span a"
| "stmt_span (SImport i) = im_span i"
| "stmt_span (SExpr e) = expr_span e"
| "stmt_span (SSemi e) = expr_span e"

end
