(* ===== verification/Parser_State.thy ===== *)
theory Parser_State
  imports Lexer Ast
begin

text \<open>
  The parser (\<open>src/parser/mod.rs\<close>), its state: the tokens with a cursor and the recorded errors;
  computations on it; the cursor operations. A parse function returns a value or a diagnostic (\<open>?\<close> in
  the source); recorded errors do not stop it. \<open>PStop\<close> is the outcome of a computation cut off by its
  bound.
\<close>

section \<open>Computations\<close>

record 'd parser =
  ps_tokens :: "'d token list"
  ps_idx :: nat
  ps_errors :: "source_error list"

datatype (plugins only:) 'a parsed = POk 'a | PFail source_error | PStop

type_synonym ('d, 'a) pm = "'d parser \<Rightarrow> 'a parsed \<times> 'd parser"

definition retP :: "'a \<Rightarrow> ('d, 'a) pm" where
  "retP a = (\<lambda>p. (POk a, p))"

definition failP :: "source_error \<Rightarrow> ('d, 'a) pm" where
  "failP e = (\<lambda>p. (PFail e, p))"

definition bindP :: "('d, 'a) pm \<Rightarrow> ('a \<Rightarrow> ('d, 'b) pm) \<Rightarrow> ('d, 'b) pm" where
  "bindP m f = (\<lambda>p. case m p of (POk a, p') \<Rightarrow> f a p' | (PFail e, p') \<Rightarrow> (PFail e, p') | (PStop, p') \<Rightarrow> (PStop, p'))"

definition thenP :: "('d, 'a) pm \<Rightarrow> ('d, 'b) pm \<Rightarrow> ('d, 'b) pm" where
  "thenP m n = bindP m (\<lambda>_. n)"

definition getP :: "('d parser \<Rightarrow> 'a) \<Rightarrow> ('d, 'a) pm" where
  "getP f = (\<lambda>p. (POk (f p), p))"

definition modP :: "('d parser \<Rightarrow> 'd parser) \<Rightarrow> ('d, unit) pm" where
  "modP f = (\<lambda>p. (POk (), f p))"

text \<open>A \<open>match\<close> on the result, in which a diagnostic is a value.\<close>

definition handleP :: "('d, 'a) pm \<Rightarrow> ('a \<Rightarrow> ('d, 'b) pm) \<Rightarrow> (source_error \<Rightarrow> ('d, 'b) pm) \<Rightarrow> ('d, 'b) pm" where
  "handleP m f h = (\<lambda>p. case m p of (POk a, p') \<Rightarrow> f a p' | (PFail e, p') \<Rightarrow> h e p' | (PStop, p') \<Rightarrow> (PStop, p'))"

text \<open>
  A loop: its body goes round with a new accumulator or leaves with a result. The loops of the parser consume a token
  in every round, so that the number of tokens bounds the rounds.
\<close>

primrec rounds :: "nat \<Rightarrow> ('s \<Rightarrow> ('d, 's + 'a) pm) \<Rightarrow> 's \<Rightarrow> ('d, 'a) pm" where
  "rounds 0 f acc = (\<lambda>p. (PStop, p))"
| "rounds (Suc k) f acc = bindP (f acc) (\<lambda>r. case r of Inl acc' \<Rightarrow> rounds k f acc' | Inr a \<Rightarrow> retP a)"

definition loopP :: "('s \<Rightarrow> ('d, 's + 'a) pm) \<Rightarrow> 's \<Rightarrow> ('d, 'a) pm" where
  "loopP f acc = (\<lambda>p. rounds (Suc (length (ps_tokens p))) f acc p)"

section \<open>The cursor\<close>

definition parser_new :: "'d token list \<Rightarrow> 'd parser" where
  "parser_new ts = \<lparr>ps_tokens = ts, ps_idx = 0, ps_errors = []\<rparr>"

definition cur_kind :: "'d parser \<Rightarrow> 'd token_kind" where
  "cur_kind p = kind (ps_tokens p ! ps_idx p)"

definition kind_at :: "nat \<Rightarrow> 'd parser \<Rightarrow> 'd token_kind" where
  "kind_at n p = (if ps_idx p + n < length (ps_tokens p) then kind (ps_tokens p ! (ps_idx p + n)) else TEof)"

definition cur_span :: "'d parser \<Rightarrow> span" where
  "cur_span p = tok_span (ps_tokens p ! ps_idx p)"

text \<open>The span of the token consumed last.\<close>

definition prev_span :: "'d parser \<Rightarrow> span" where
  "prev_span p = (if ps_idx p = 0 then tok_span (ps_tokens p ! 0) else tok_span (ps_tokens p ! (ps_idx p - 1)))"

definition advanced :: "'d parser \<Rightarrow> 'd parser" where
  "advanced p = (if ps_idx p + 1 < length (ps_tokens p) then p\<lparr>ps_idx := ps_idx p + 1\<rparr> else p)"

definition bumpP :: "('d, unit) pm" where
  "bumpP = modP advanced"

definition hereP :: "('d, span) pm" where
  "hereP = getP cur_span"

definition peekP :: "('d, 'd token_kind) pm" where
  "peekP = getP cur_kind"

text \<open>\<open>start.union(self.prev_span())\<close>\<close>

definition sinceP :: "span \<Rightarrow> ('d, span) pm" where
  "sinceP start = getP (\<lambda>p. span_union start (prev_span p))"

definition errorP :: "span \<Rightarrow> str \<Rightarrow> ('d, unit) pm" where
  "errorP sp msg = modP (\<lambda>p. p\<lparr>ps_errors := ps_errors p @ [source_error_new sp msg]\<rparr>)"

text \<open>\<open>std::mem::discriminant\<close>: the payload of a token is not compared.\<close>

definition same_kind :: "'d token_kind \<Rightarrow> 'd token_kind \<Rightarrow> bool" where
  "same_kind a b = (case a of
     TInt _ \<Rightarrow> (case b of TInt _ \<Rightarrow> True | _ \<Rightarrow> False)
   | TDecimal _ \<Rightarrow> (case b of TDecimal _ \<Rightarrow> True | _ \<Rightarrow> False)
   | TStr _ \<Rightarrow> (case b of TStr _ \<Rightarrow> True | _ \<Rightarrow> False)
   | TIdent _ \<Rightarrow> (case b of TIdent _ \<Rightarrow> True | _ \<Rightarrow> False)
   | TKeyword _ \<Rightarrow> (case b of TKeyword _ \<Rightarrow> True | _ \<Rightarrow> False)
   | _ \<Rightarrow> a = b)"

definition eatP :: "'d token_kind \<Rightarrow> ('d, bool) pm" where
  "eatP k = bindP peekP (\<lambda>c. if same_kind c k then thenP bumpP (retP True) else retP False)"

definition eat_kwP :: "keyword \<Rightarrow> ('d, bool) pm" where
  "eat_kwP kw = bindP peekP (\<lambda>c. if c = TKeyword kw then thenP bumpP (retP True) else retP False)"

definition expected_text :: "string \<Rightarrow> 'd token_kind \<Rightarrow> str" where
  "expected_text what c = lit ''expected '' @ lit what @ lit '', found '' @ describe c"

definition missingP :: "string \<Rightarrow> ('d, unit) pm" where
  "missingP what = bindP hereP (\<lambda>sp. bindP peekP (\<lambda>c. errorP sp (expected_text what c)))"

definition expectP :: "'d token_kind \<Rightarrow> string \<Rightarrow> ('d, unit) pm" where
  "expectP k what = bindP (eatP k) (\<lambda>ok. if ok then retP () else missingP what)"

definition expect_kwP :: "keyword \<Rightarrow> string \<Rightarrow> ('d, unit) pm" where
  "expect_kwP kw what = bindP (eat_kwP kw) (\<lambda>ok. if ok then retP () else missingP what)"

definition expect_ident :: "string \<Rightarrow> ('d, str) pm" where
  "expect_ident what = bindP peekP (\<lambda>c. case c of
     TIdent s \<Rightarrow> thenP bumpP (retP s)
   | _ \<Rightarrow> bindP hereP (\<lambda>sp. failP (source_error_new sp (expected_text what c))))"

section \<open>Repetition\<close>

text \<open>Items up to one that no comma follows.\<close>

definition comma_round :: "('d, 'a) pm \<Rightarrow> 'a list \<Rightarrow> ('d, 'a list + 'a list) pm" where
  "comma_round item acc = bindP item (\<lambda>x. bindP (eatP Comma) (\<lambda>more.
     retP (if more then Inl (acc @ [x]) else Inr (acc @ [x]))))"

definition comma_items :: "('d, 'a) pm \<Rightarrow> ('d, 'a list) pm" where
  "comma_items item = loopP (comma_round item) []"

text \<open>Such items before a closing token, or none.\<close>

definition items_until :: "'d token_kind \<Rightarrow> ('d, 'a) pm \<Rightarrow> ('d, 'a list) pm" where
  "items_until closing item = bindP peekP (\<lambda>c. if c = closing then retP [] else comma_items item)"

definition optP :: "('d, bool) pm \<Rightarrow> ('d, 'a) pm \<Rightarrow> ('d, 'a option) pm" where
  "optP c m = bindP c (\<lambda>yes. if yes then bindP m (\<lambda>a. retP (Some a)) else retP None)"

text \<open>A pure lookahead: \<open>() =>\<close>, or identifiers separated by commas with \<open>) =>\<close> after them.\<close>

fun arrow_params :: "'d token list \<Rightarrow> bool" where
  "arrow_params (a # b # ts) = (case kind a of
     TIdent _ \<Rightarrow> (case kind b of
         Comma \<Rightarrow> arrow_params ts
       | RParen \<Rightarrow> (case ts of c # _ \<Rightarrow> kind c = FatArrow | [] \<Rightarrow> False)
       | _ \<Rightarrow> False)
   | _ \<Rightarrow> False)"
| "arrow_params _ = False"

definition looks_like_arrow_fn :: "'d parser \<Rightarrow> bool" where
  "looks_like_arrow_fn p =
     (if cur_kind p = RParen then kind_at 1 p = FatArrow else arrow_params (drop (ps_idx p) (ps_tokens p)))"

end
