(* ===== verification/Parser.thy ===== *)
theory Parser
  imports Parser_State
begin

text \<open>
  The parser (\<open>src/parser/mod.rs\<close>): types, patterns, expressions by precedence climbing, statements and blocks with
  recovery, interpolated strings, whole programs. The functions take the parsers of the nonterminals
  as an argument; \<open>parsers\<close> ties the knot with a bound on the depth of nesting.
\<close>

record 'd nonterminals =
  nt_type :: "('d, type_annot) pm"
  nt_pattern :: "('d, ('d, 'd expr) pattern) pm"
  nt_expr :: "nat \<Rightarrow> ('d, 'd expr) pm"
  nt_if :: "span \<Rightarrow> ('d, 'd expr) pm"
  nt_stmt :: "('d, 'd stmt) pm"
  nt_interp :: "str \<Rightarrow> 'd expr parsed"

section \<open>Types\<close>

text \<open>A name, or a name with arguments.\<close>

definition parse_type_atom :: "'d nonterminals \<Rightarrow> ('d, type_annot) pm" where
  "parse_type_atom R = bindP hereP (\<lambda>start. bindP (expect_ident ''type name'') (\<lambda>name.
     bindP (eatP Lt) (\<lambda>generic.
     if generic then
       bindP (items_until Gt (nt_type R)) (\<lambda>args. thenP (expectP Gt ''`>`'')
         (bindP (sinceP start) (\<lambda>sp. retP (TGeneric name args sp))))
     else retP (TName name start))))"

definition parse_fn_type :: "'d nonterminals \<Rightarrow> ('d, type_annot) pm" where
  "parse_fn_type R = thenP (expectP LParen ''`(`'') (bindP (items_until RParen (nt_type R)) (\<lambda>params.
     thenP (expectP RParen ''`)`'') (thenP (expectP Arrow ''`->`'') (bindP (nt_type R) (\<lambda>ret.
       bindP (getP prev_span) (\<lambda>sp. retP (TFn params ret sp)))))))"

text \<open>Further alternatives after a bar.\<close>

definition bar_round :: "('d, 'a) pm \<Rightarrow> 'a list \<Rightarrow> ('d, 'a list + 'a list) pm" where
  "bar_round item acc = bindP peekP (\<lambda>c.
     if c = Pipe2 then thenP bumpP (bindP item (\<lambda>x. retP (Inl (acc @ [x])))) else retP (Inr acc))"

definition parse_union :: "'d nonterminals \<Rightarrow> type_annot \<Rightarrow> ('d, type_annot) pm" where
  "parse_union R ty = bindP peekP (\<lambda>c. if c = Pipe2 then
       bindP (loopP (bar_round (parse_type_atom R)) [ty]) (\<lambda>vs.
         retP (TUnion vs (span_union (type_annot_span (hd vs)) (type_annot_span (last vs)))))
     else retP ty)"

definition parse_type :: "'d nonterminals \<Rightarrow> ('d, type_annot) pm" where
  "parse_type R = bindP (eat_kwP KFn) (\<lambda>is_fn.
     if is_fn then parse_fn_type R else bindP (parse_type_atom R) (parse_union R))"

section \<open>Interpolated strings\<close>

text \<open>The diagnostic of an interpolation gets the span of the interpolation if it has none.\<close>

definition surfaced :: "span \<Rightarrow> source_error \<Rightarrow> source_error" where
  "surfaced sp e = (if offset (sp_start (err_span e)) = 0 \<and> offset (sp_end (err_span e)) = 0 then e\<lparr>err_span := sp\<rparr> else e)"

fun build_string_parts :: "'d nonterminals \<Rightarrow> str_part list \<Rightarrow> 'd expr ast_str_part list parsed" where
  "build_string_parts R [] = POk []"
| "build_string_parts R (PartLiteral s # ps) = (case build_string_parts R ps of
     POk out \<Rightarrow> POk (LiteralPart s # out) | PFail e \<Rightarrow> PFail e | PStop \<Rightarrow> PStop)"
| "build_string_parts R (PartExpr raw sp # ps) = (case nt_interp R raw of
     PFail e \<Rightarrow> PFail (surfaced sp e)
   | PStop \<Rightarrow> PStop
   | POk x \<Rightarrow> (case build_string_parts R ps of
       POk out \<Rightarrow> POk (ExprPart x # out) | PFail e \<Rightarrow> PFail e | PStop \<Rightarrow> PStop))"

definition stringP :: "'d nonterminals \<Rightarrow> str_part list \<Rightarrow> ('d, 'd expr ast_str_part list) pm" where
  "stringP R ps = (\<lambda>p. (build_string_parts R ps, p))"

section \<open>Patterns\<close>

fun pattern_span :: "('d, 'e) pattern \<Rightarrow> span" where
  "pattern_span (PWildcard s) = s"
| "pattern_span (PLit l s) = s"
| "pattern_span (PBind x s) = s"
| "pattern_span (PVariant n ps s) = s"
| "pattern_span (PStruct fs r s) = s"
| "pattern_span (PVec ps r s) = s"
| "pattern_span (POr ps s) = s"
| "pattern_span (PGuard p g s) = s"

text \<open>Fields up to \<open>..\<close> or the last one; a field without a pattern binds its name.\<close>

definition field_round ::
  "'d nonterminals \<Rightarrow> span \<Rightarrow> (str \<times> ('d, 'd expr) pattern) list \<Rightarrow>
   ('d, (str \<times> ('d, 'd expr) pattern) list + (str \<times> ('d, 'd expr) pattern) list \<times> bool) pm" where
  "field_round R start acc = bindP (eatP DotDot) (\<lambda>rest.
     if rest then retP (Inr (acc, True))
     else bindP (expect_ident ''field name in struct pattern'') (\<lambda>fname.
       bindP (bindP (eatP Colon) (\<lambda>c. if c then nt_pattern R else retP (PBind fname start))) (\<lambda>fpat.
       bindP (eatP Comma) (\<lambda>more.
         retP (if more then Inl (acc @ [(fname, fpat)]) else Inr (acc @ [(fname, fpat)], False))))))"

definition parse_struct_pattern :: "'d nonterminals \<Rightarrow> span \<Rightarrow> ('d, ('d, 'd expr) pattern) pm" where
  "parse_struct_pattern R start = thenP bumpP (bindP peekP (\<lambda>c.
     bindP (if c = RBrace then retP ([], False) else loopP (field_round R start) []) (\<lambda>(fields, rest).
     thenP (expectP RBrace ''`}`'') (bindP (sinceP start) (\<lambda>sp. retP (PStruct fields rest sp))))))"

definition element_round ::
  "'d nonterminals \<Rightarrow> ('d, 'd expr) pattern list \<Rightarrow>
   ('d, ('d, 'd expr) pattern list + ('d, 'd expr) pattern list \<times> bool) pm" where
  "element_round R acc = bindP (eatP DotDot) (\<lambda>rest.
     if rest then
       bindP peekP (\<lambda>c. thenP (case c of TIdent _ \<Rightarrow> bumpP | _ \<Rightarrow> retP ()) (retP (Inr (acc, True))))
     else bindP (nt_pattern R) (\<lambda>x. bindP (eatP Comma) (\<lambda>more.
       retP (if more then Inl (acc @ [x]) else Inr (acc @ [x], False)))))"

definition parse_vec_pattern :: "'d nonterminals \<Rightarrow> span \<Rightarrow> ('d, ('d, 'd expr) pattern) pm" where
  "parse_vec_pattern R start = thenP bumpP (bindP peekP (\<lambda>c.
     bindP (if c = RBracket then retP ([], False) else loopP (element_round R) []) (\<lambda>(pats, rest).
     thenP (expectP RBracket ''`]`'') (bindP (sinceP start) (\<lambda>sp. retP (PVec pats rest sp))))))"

text \<open>An identifier: a variant or a struct if it starts with an upper-case letter, else a binding.\<close>

definition parse_named_pattern :: "'d ext \<Rightarrow> 'd nonterminals \<Rightarrow> span \<Rightarrow> str \<Rightarrow> ('d, ('d, 'd expr) pattern) pm" where
  "parse_named_pattern X R start name = thenP bumpP (
     if name \<noteq> [] \<and> is_uppercase X (hd name) then
       bindP peekP (\<lambda>c. if c = LBrace then parse_struct_pattern R start
         else bindP (bindP (eatP LParen) (\<lambda>open. if open
               then bindP (items_until RParen (nt_pattern R)) (\<lambda>args. thenP (expectP RParen ''`)`'') (retP args))
               else retP [])) (\<lambda>args.
           bindP (sinceP start) (\<lambda>sp. retP (PVariant name args sp))))
     else retP (PBind name start))"

definition lit_pat :: "span \<Rightarrow> ('d, 'd expr) lit_pattern \<Rightarrow> ('d, ('d, 'd expr) pattern) pm" where
  "lit_pat start l = thenP bumpP (retP (PLit l start))"

definition parse_negative :: "'d ext \<Rightarrow> span \<Rightarrow> ('d, ('d, 'd expr) pattern) pm" where
  "parse_negative X start = bindP (getP (kind_at 1)) (\<lambda>c. case c of
     TInt n \<Rightarrow> thenP bumpP (lit_pat start (LPInt (- n)))
   | TDecimal d \<Rightarrow> thenP bumpP (lit_pat start (LPDecimal (dec_neg X d)))
   | _ \<Rightarrow> failP (source_error_new start (lit ''unexpected '' @ describe (TMinus :: 'd token_kind) @ lit '' in pattern'')))"

definition parse_pattern_atomic :: "'d ext \<Rightarrow> 'd nonterminals \<Rightarrow> ('d, ('d, 'd expr) pattern) pm" where
  "parse_pattern_atomic X R = bindP hereP (\<lambda>start. bindP peekP (\<lambda>c. case c of
     Underscore \<Rightarrow> thenP bumpP (retP (PWildcard start))
   | TInt n \<Rightarrow> lit_pat start (LPInt n)
   | TDecimal d \<Rightarrow> lit_pat start (LPDecimal d)
   | TStr ps \<Rightarrow> thenP bumpP (bindP (stringP R ps) (\<lambda>parts. retP (PLit (LPStr parts) start)))
   | TKeyword KTrue \<Rightarrow> lit_pat start (LPBool True)
   | TKeyword KFalse \<Rightarrow> lit_pat start (LPBool False)
   | TKeyword KNil \<Rightarrow> lit_pat start LPNil
   | TMinus \<Rightarrow> parse_negative X start
   | TIdent name \<Rightarrow> parse_named_pattern X R start name
   | LBracket \<Rightarrow> parse_vec_pattern R start
   | LBrace \<Rightarrow> parse_struct_pattern R start
   | _ \<Rightarrow> failP (source_error_new start (lit ''unexpected '' @ describe c @ lit '' in pattern''))))"

definition parse_pattern :: "'d ext \<Rightarrow> 'd nonterminals \<Rightarrow> ('d, ('d, 'd expr) pattern) pm" where
  "parse_pattern X R = bindP (parse_pattern_atomic X R) (\<lambda>first. bindP peekP (\<lambda>c.
     if c = Pipe2 then bindP (loopP (bar_round (parse_pattern_atomic X R)) [first]) (\<lambda>alts.
       retP (POr alts (span_union (pattern_span (hd alts)) (pattern_span (last alts)))))
     else retP first))"

section \<open>Operators\<close>

datatype infix_op = OpPipeline | OpSend | OpRequest | OpBin bin_op

text \<open>The binding powers to the left and to the right, and the operator.\<close>

definition infix_of :: "'d token_kind \<Rightarrow> (nat \<times> nat \<times> infix_op) option" where
  "infix_of k = (case k of
     Pipe \<Rightarrow> Some (1, 2, OpPipeline)
   | Bang \<Rightarrow> Some (3, 4, OpSend)
   | Question \<Rightarrow> Some (3, 4, OpRequest)
   | TKeyword KOr \<Rightarrow> Some (5, 6, OpBin BOr)
   | TOr \<Rightarrow> Some (5, 6, OpBin BOr)
   | TKeyword KAnd \<Rightarrow> Some (7, 8, OpBin BAnd)
   | TAnd \<Rightarrow> Some (7, 8, OpBin BAnd)
   | TEq \<Rightarrow> Some (9, 10, OpBin BEq)
   | Neq \<Rightarrow> Some (9, 10, OpBin BNeq)
   | Lt \<Rightarrow> Some (9, 10, OpBin BLt)
   | Gt \<Rightarrow> Some (9, 10, OpBin BGt)
   | Lte \<Rightarrow> Some (9, 10, OpBin BLte)
   | Gte \<Rightarrow> Some (9, 10, OpBin BGte)
   | TPlus \<Rightarrow> Some (11, 12, OpBin BAdd)
   | TMinus \<Rightarrow> Some (11, 12, OpBin BSub)
   | Star \<Rightarrow> Some (13, 14, OpBin BMul)
   | Slash \<Rightarrow> Some (13, 14, OpBin BDiv)
   | Percent \<Rightarrow> Some (13, 14, OpBin BMod)
   | _ \<Rightarrow> None)"

definition compound_of :: "'d token_kind \<Rightarrow> bin_op option" where
  "compound_of k = (case k of
     PlusAssign \<Rightarrow> Some BAdd | MinusAssign \<Rightarrow> Some BSub | StarAssign \<Rightarrow> Some BMul
   | SlashAssign \<Rightarrow> Some BDiv | PercentAssign \<Rightarrow> Some BMod | _ \<Rightarrow> None)"

definition infix_expr :: "infix_op \<Rightarrow> 'd expr \<Rightarrow> 'd expr \<Rightarrow> 'd expr" where
  "infix_expr oper l r = (let sp = span_union (expr_span l) (expr_span r) in case oper of
     OpPipeline \<Rightarrow> EPipe l r sp
   | OpSend \<Rightarrow> EActorSend l r sp
   | OpRequest \<Rightarrow> EActorRequest l r sp
   | OpBin b \<Rightarrow> EBinOp b l r sp)"

text \<open>One turn of the loop of \<open>parse_expr\<close>; the assignments are parsed at the lowest level only.\<close>

definition assign_rest :: "'d nonterminals \<Rightarrow> ('d expr \<Rightarrow> span \<Rightarrow> 'd expr) \<Rightarrow> ('d, 'd expr + 'd expr) pm" where
  "assign_rest R f = bindP hereP (\<lambda>here. thenP bumpP (bindP (nt_expr R 0) (\<lambda>rhs.
     bindP (sinceP here) (\<lambda>sp. retP (Inl (f rhs sp))))))"

definition expr_round :: "'d nonterminals \<Rightarrow> nat \<Rightarrow> 'd expr \<Rightarrow> ('d, 'd expr + 'd expr) pm" where
  "expr_round R min_bp lhs = bindP peekP (\<lambda>c.
     if min_bp = 0 \<and> c = Assign then assign_rest R (EAssign lhs)
     else case (if min_bp = 0 then compound_of c else None) of
       Some b \<Rightarrow> assign_rest R (ECompoundAssign b lhs)
     | None \<Rightarrow> (case infix_of c of
         None \<Rightarrow> retP (Inr lhs)
       | Some (lbp, rbp, oper) \<Rightarrow>
           if lbp < min_bp then retP (Inr lhs)
           else thenP bumpP (bindP (nt_expr R rbp) (\<lambda>rhs. retP (Inl (infix_expr oper lhs rhs))))))"

section \<open>Calls, indices and fields\<close>

definition parse_args :: "'d nonterminals \<Rightarrow> ('d, 'd expr list) pm" where
  "parse_args R = bindP (items_until RParen (nt_expr R 0)) (\<lambda>args. thenP (expectP RParen ''`)`'') (retP args))"

text \<open>After a dot, a keyword is a name as well.\<close>

definition member_name :: "('d, str) pm" where
  "member_name = bindP peekP (\<lambda>c. case c of
     TIdent s \<Rightarrow> thenP bumpP (retP s)
   | TKeyword kw \<Rightarrow> thenP bumpP (retP (keyword_as_str kw))
   | _ \<Rightarrow> bindP hereP (\<lambda>sp. failP (source_error_new sp (expected_text ''field or method name'' c))))"

definition member_rest :: "'d nonterminals \<Rightarrow> 'd expr \<Rightarrow> ('d, 'd expr) pm" where
  "member_rest R lhs = bindP member_name (\<lambda>name. bindP (eatP LParen) (\<lambda>call.
     if call then bindP (parse_args R) (\<lambda>args. bindP (sinceP (expr_span lhs)) (\<lambda>sp. retP (EMethodCall lhs name args sp)))
     else bindP (sinceP (expr_span lhs)) (\<lambda>sp. retP (EField lhs name sp))))"

definition postfix_round :: "'d nonterminals \<Rightarrow> 'd expr \<Rightarrow> ('d, 'd expr + 'd expr) pm" where
  "postfix_round R lhs = bindP peekP (\<lambda>c. case c of
     LParen \<Rightarrow> thenP bumpP (bindP (parse_args R) (\<lambda>args.
       bindP (sinceP (expr_span lhs)) (\<lambda>sp. retP (Inl (ECall lhs args sp)))))
   | LBracket \<Rightarrow> thenP bumpP (bindP (nt_expr R 0) (\<lambda>i. thenP (expectP RBracket ''`]`'')
       (bindP (sinceP (expr_span lhs)) (\<lambda>sp. retP (Inl (EIndex lhs i sp))))))
   | Dot \<Rightarrow> thenP bumpP (bindP (member_rest R lhs) (\<lambda>e. retP (Inl e)))
   | _ \<Rightarrow> retP (Inr lhs))"

section \<open>Blocks and statement lists\<close>

definition is_stmt_start :: "keyword \<Rightarrow> bool" where
  "is_stmt_start k \<longleftrightarrow> k \<in> {KLet, KShared, KFn, KType, KEnum, KActor, KImport, KLazy, KState, KOn}"

text \<open>Recovery: on to the next \<open>;\<close>, \<open>}\<close> or keyword that starts a statement.\<close>

definition resync_round :: "bool \<Rightarrow> unit \<Rightarrow> ('d, unit + unit) pm" where
  "resync_round top_level u = bindP peekP (\<lambda>c. case c of
     TEof \<Rightarrow> retP (Inr ())
   | Semicolon \<Rightarrow> thenP bumpP (retP (Inr ()))
   | RBrace \<Rightarrow> if top_level then thenP bumpP (retP (Inl ())) else retP (Inr ())
   | TKeyword k \<Rightarrow> if is_stmt_start k then retP (Inr ()) else thenP bumpP (retP (Inl ()))
   | _ \<Rightarrow> thenP bumpP (retP (Inl ())))"

definition resync :: "bool \<Rightarrow> ('d, unit) pm" where
  "resync top_level = loopP (resync_round top_level) ()"

definition recover :: "bool \<Rightarrow> source_error \<Rightarrow> ('d, unit) pm" where
  "recover top_level e = thenP (modP (\<lambda>p. p\<lparr>ps_errors := ps_errors p @ [e]\<rparr>)) (resync top_level)"

definition semis_round :: "unit \<Rightarrow> ('d, unit + unit) pm" where
  "semis_round u = bindP peekP (\<lambda>c. if c = Semicolon then thenP bumpP (retP (Inl ())) else retP (Inr ()))"

definition stmt_round :: "'d nonterminals \<Rightarrow> bool \<Rightarrow> 'd stmt list \<Rightarrow> ('d, 'd stmt list + 'd stmt list) pm" where
  "stmt_round R top_level stmts = thenP (loopP semis_round ()) (bindP peekP (\<lambda>c.
     if c = TEof \<or> \<not> top_level \<and> c = RBrace then retP (Inr stmts)
     else handleP (nt_stmt R) (\<lambda>s. retP (Inl (stmts @ [s])))
       (\<lambda>e. thenP (recover top_level e) (retP (Inl stmts)))))"

definition parse_stmt_list :: "'d nonterminals \<Rightarrow> bool \<Rightarrow> ('d, 'd stmt list) pm" where
  "parse_stmt_list R top_level = loopP (stmt_round R top_level) []"

text \<open>The statements of a block and its tail, an expression without \<open>;\<close>.\<close>

definition block_round ::
  "'d nonterminals \<Rightarrow> 'd stmt list \<Rightarrow> ('d, 'd stmt list + 'd stmt list \<times> 'd expr option) pm" where
  "block_round R stmts = bindP peekP (\<lambda>c. if c = RBrace \<or> c = TEof then retP (Inr (stmts, None))
     else handleP (nt_stmt R)
       (\<lambda>s. case s of
          SExpr e \<Rightarrow> retP (Inr (stmts, Some e))
        | _ \<Rightarrow> bindP peekP (\<lambda>c'. thenP (if c' = Semicolon then bumpP else retP ()) (retP (Inl (stmts @ [s])))))
       (\<lambda>e. thenP (recover False e) (retP (Inl stmts))))"

definition finish_block :: "'d nonterminals \<Rightarrow> span \<Rightarrow> 'd stmt list \<Rightarrow> ('d, 'd expr) pm" where
  "finish_block R start stmts = bindP (loopP (block_round R) stmts) (\<lambda>(stmts', last_expr).
     thenP (expectP RBrace ''`}`'') (bindP (sinceP start) (\<lambda>sp. retP (EBlock stmts' last_expr sp))))"

text \<open>The entries of a map after the first one; a comma may end them.\<close>

definition entry_round ::
  "'d nonterminals \<Rightarrow> ('d expr \<times> 'd expr) list \<Rightarrow> ('d, ('d expr \<times> 'd expr) list + ('d expr \<times> 'd expr) list) pm" where
  "entry_round R entries = bindP (eatP Comma) (\<lambda>more. if \<not> more then retP (Inr entries)
     else bindP peekP (\<lambda>c. if c = RBrace then retP (Inr entries)
     else bindP (nt_expr R 0) (\<lambda>k. thenP (expectP Colon ''`:`'') (bindP (nt_expr R 0) (\<lambda>v.
       retP (Inl (entries @ [(k, v)])))))))"

definition finish_map :: "'d nonterminals \<Rightarrow> span \<Rightarrow> 'd expr \<Rightarrow> ('d, 'd expr) pm" where
  "finish_map R start k = thenP bumpP (bindP (nt_expr R 0) (\<lambda>v.
     bindP (loopP (entry_round R) [(k, v)]) (\<lambda>entries. thenP (expectP RBrace ''`}`'')
       (bindP (sinceP start) (\<lambda>sp. retP (EMapLit entries sp))))))"

definition single_tail :: "span \<Rightarrow> 'd expr \<Rightarrow> ('d, 'd expr) pm" where
  "single_tail start e = thenP (expectP RBrace ''`}`'') (bindP (sinceP start) (\<lambda>sp. retP (EBlock [] (Some e) sp)))"

text \<open>\<open>{\<close> opens a map if it is empty or a colon follows its first expression, else a block.\<close>

definition parse_brace_expr :: "'d nonterminals \<Rightarrow> span \<Rightarrow> ('d, 'd expr) pm" where
  "parse_brace_expr R start = thenP bumpP (bindP peekP (\<lambda>c.
     if c = RBrace then thenP bumpP (bindP (sinceP start) (\<lambda>sp. retP (EMapLit [] sp)))
     else if (case c of TKeyword k \<Rightarrow> is_stmt_start k | _ \<Rightarrow> False) then finish_block R start []
     else bindP (nt_expr R 0) (\<lambda>first. bindP peekP (\<lambda>c'.
       if c' = Colon then finish_map R start first
       else if c' = Semicolon then thenP bumpP (finish_block R start [SSemi first])
       else if c' = RBrace then single_tail start first
       else thenP (bindP hereP (\<lambda>sp. errorP sp (expected_text ''`;` or `}` in block'' c'))) (single_tail start first)))))"

section \<open>Parameters and control flow\<close>

definition type_annotation :: "'d nonterminals \<Rightarrow> ('d, type_annot option) pm" where
  "type_annotation R = optP (eatP Colon) (nt_type R)"

definition parse_param :: "'d nonterminals \<Rightarrow> ('d, param) pm" where
  "parse_param R = bindP hereP (\<lambda>sp. bindP (expect_ident ''parameter name'') (\<lambda>name.
     bindP (type_annotation R) (\<lambda>t. retP \<lparr>pa_name = name, pa_type = t, pa_span = sp\<rparr>)))"

definition parse_params :: "'d nonterminals \<Rightarrow> ('d, param list) pm" where
  "parse_params R = thenP (expectP LParen ''`(`'') (bindP (items_until RParen (parse_param R)) (\<lambda>params.
     thenP (expectP RParen ''`)`'') (retP params)))"

definition return_type :: "'d nonterminals \<Rightarrow> ('d, type_annot option) pm" where
  "return_type R = optP (eatP Arrow) (nt_type R)"

definition parse_lambda :: "'d nonterminals \<Rightarrow> span \<Rightarrow> ('d, 'd expr) pm" where
  "parse_lambda R start = thenP bumpP (bindP (parse_params R) (\<lambda>params. bindP (return_type R) (\<lambda>ret.
     bindP (nt_expr R 0) (\<lambda>body. bindP (sinceP start) (\<lambda>sp. retP (ELambda params ret body sp))))))"

definition parse_if :: "'d nonterminals \<Rightarrow> span \<Rightarrow> ('d, 'd expr) pm" where
  "parse_if R start = thenP bumpP (bindP (nt_expr R 0) (\<lambda>cond. bindP (nt_expr R 0) (\<lambda>yes.
     bindP (optP (eat_kwP KElse) (bindP peekP (\<lambda>c.
        if c = TKeyword KIf then bindP hereP (nt_if R) else nt_expr R 0))) (\<lambda>no.
     bindP (sinceP start) (\<lambda>sp. retP (EIf cond yes no sp))))))"

definition parse_while :: "'d nonterminals \<Rightarrow> span \<Rightarrow> ('d, 'd expr) pm" where
  "parse_while R start = thenP bumpP (bindP (nt_expr R 0) (\<lambda>cond. bindP (nt_expr R 0) (\<lambda>body.
     bindP (sinceP start) (\<lambda>sp. retP (EWhile cond body sp)))))"

definition parse_for :: "'d nonterminals \<Rightarrow> span \<Rightarrow> ('d, 'd expr) pm" where
  "parse_for R start = thenP bumpP (bindP (expect_ident ''loop variable after `for`'') (\<lambda>var.
     thenP (expect_kwP KIn ''`in`'') (bindP (nt_expr R 0) (\<lambda>items. bindP (nt_expr R 0) (\<lambda>body.
     bindP (sinceP start) (\<lambda>sp. retP (EFor var items body sp)))))))"

definition parse_arm :: "'d nonterminals \<Rightarrow> ('d, ('d, 'd expr) match_arm) pm" where
  "parse_arm R = bindP hereP (\<lambda>start. bindP (nt_pattern R) (\<lambda>pat.
     bindP (optP (eat_kwP KIf) (nt_expr R 0)) (\<lambda>guard. thenP (expectP FatArrow ''`=>`'')
     (bindP (nt_expr R 0) (\<lambda>body. bindP (sinceP start) (\<lambda>sp. retP (MatchArm pat guard body sp)))))))"

text \<open>The comma after an arm may be left out.\<close>

definition arm_round ::
  "'d nonterminals \<Rightarrow> ('d, 'd expr) match_arm list \<Rightarrow> ('d, ('d, 'd expr) match_arm list + ('d, 'd expr) match_arm list) pm" where
  "arm_round R arms = bindP peekP (\<lambda>c. if c = RBrace \<or> c = TEof then retP (Inr arms)
     else bindP (parse_arm R) (\<lambda>arm. bindP (eatP Comma) (\<lambda>comma. bindP peekP (\<lambda>c'.
       retP (if \<not> comma \<and> (c' = RBrace \<or> c' = TEof) then Inr (arms @ [arm]) else Inl (arms @ [arm])))))) "

definition parse_match :: "'d nonterminals \<Rightarrow> span \<Rightarrow> ('d, 'd expr) pm" where
  "parse_match R start = thenP bumpP (bindP (nt_expr R 0) (\<lambda>scrutinee. thenP (expectP LBrace ''`{`'')
     (bindP (loopP (arm_round R) []) (\<lambda>arms. thenP (expectP RBrace ''`}`'')
       (bindP (sinceP start) (\<lambda>sp. retP (EMatch scrutinee arms sp)))))))"

definition rescue_round ::
  "'d nonterminals \<Rightarrow> 'd expr rescue_clause list \<Rightarrow> ('d, 'd expr rescue_clause list + 'd expr rescue_clause list) pm" where
  "rescue_round R rs = bindP hereP (\<lambda>start. bindP (eat_kwP KRescue) (\<lambda>more. if \<not> more then retP (Inr rs)
     else bindP (bindP peekP (\<lambda>c. case c of TIdent s \<Rightarrow> thenP bumpP (retP (Some s)) | _ \<Rightarrow> retP None)) (\<lambda>ty.
       bindP (optP (eat_kwP KAs) (expect_ident ''binding name'')) (\<lambda>name. bindP (nt_expr R 0) (\<lambda>body.
       bindP (sinceP start) (\<lambda>sp. retP (Inl (rs @ [RescueClause ty name body sp]))))))))"

definition parse_try :: "'d nonterminals \<Rightarrow> span \<Rightarrow> ('d, 'd expr) pm" where
  "parse_try R start = thenP bumpP (bindP (nt_expr R 0) (\<lambda>body. bindP (loopP (rescue_round R) []) (\<lambda>rs.
     bindP (optP (eat_kwP KEnsure) (nt_expr R 0)) (\<lambda>ens. bindP (sinceP start) (\<lambda>sp. retP (ETry body rs ens sp))))))"

section \<open>Primary expressions\<close>

definition literalP :: "'d expr \<Rightarrow> ('d, 'd expr) pm" where
  "literalP e = thenP bumpP (retP e)"

definition keyword_alone :: "span \<Rightarrow> (span \<Rightarrow> 'd expr) \<Rightarrow> ('d, 'd expr) pm" where
  "keyword_alone start f = thenP bumpP (bindP (sinceP start) (\<lambda>sp. retP (f sp)))"

definition keyword_expr :: "'d nonterminals \<Rightarrow> span \<Rightarrow> ('d expr \<Rightarrow> span \<Rightarrow> 'd expr) \<Rightarrow> ('d, 'd expr) pm" where
  "keyword_expr R start f = thenP bumpP (bindP (nt_expr R 0) (\<lambda>e. bindP (sinceP start) (\<lambda>sp. retP (f e sp))))"

definition ends_value :: "'d token_kind \<Rightarrow> bool" where
  "ends_value c \<longleftrightarrow> c \<in> {Semicolon, RBrace, TEof, Comma}"

definition keyword_option :: "'d nonterminals \<Rightarrow> span \<Rightarrow> ('d expr option \<Rightarrow> span \<Rightarrow> 'd expr) \<Rightarrow> ('d, 'd expr) pm" where
  "keyword_option R start f = thenP bumpP (bindP (optP (getP (\<lambda>p. \<not> ends_value (cur_kind p))) (nt_expr R 0)) (\<lambda>e.
     bindP (sinceP start) (\<lambda>sp. retP (f e sp))))"

definition items_expr ::
  "'d nonterminals \<Rightarrow> span \<Rightarrow> 'd token_kind \<Rightarrow> string \<Rightarrow> ('d expr list \<Rightarrow> span \<Rightarrow> 'd expr) \<Rightarrow> ('d, 'd expr) pm" where
  "items_expr R start closing what f = thenP bumpP (bindP (items_until closing (nt_expr R 0)) (\<lambda>items.
     thenP (expectP closing what) (bindP (sinceP start) (\<lambda>sp. retP (f items sp)))))"

definition arrow_error :: "span \<Rightarrow> source_error" where
  "arrow_error sp = with_hint (source_error_new sp (lit ''arrow functions (`=>`) are not supported''))
     (lit ''1y uses `fn(params) { body }` for lambdas '' @ [8212] @ lit '' try `fn() { ... }` or `fn(x) { ... }`'')"

definition parse_paren :: "'d nonterminals \<Rightarrow> span \<Rightarrow> ('d, 'd expr) pm" where
  "parse_paren R start = thenP bumpP (bindP (getP looks_like_arrow_fn) (\<lambda>arrow.
     if arrow then failP (arrow_error start)
     else bindP (nt_expr R 0) (\<lambda>e. thenP (expectP RParen ''`)`'')
       (bindP (sinceP start) (\<lambda>sp. retP (EParen e sp))))))"

definition parse_spawn :: "'d nonterminals \<Rightarrow> span \<Rightarrow> ('d, 'd expr) pm" where
  "parse_spawn R start = thenP bumpP (bindP (expect_ident ''actor name after `spawn`'') (\<lambda>name.
     thenP (expectP LParen ''`(`'') (bindP (parse_args R) (\<lambda>args.
       bindP (sinceP start) (\<lambda>sp. retP (ESpawn name args sp))))))"

definition unexpected :: "span \<Rightarrow> 'd token_kind \<Rightarrow> ('d, 'd expr) pm" where
  "unexpected start c = failP (source_error_new start (lit ''unexpected '' @ describe c @ lit '' in expression''))"

definition parse_keyword :: "'d nonterminals \<Rightarrow> span \<Rightarrow> keyword \<Rightarrow> ('d, 'd expr) pm" where
  "parse_keyword R start k = (case k of
     KTrue \<Rightarrow> literalP (EBool True start)
   | KFalse \<Rightarrow> literalP (EBool False start)
   | KNil \<Rightarrow> literalP (ENil start)
   | KIf \<Rightarrow> parse_if R start
   | KMatch \<Rightarrow> parse_match R start
   | KFn \<Rightarrow> parse_lambda R start
   | KRaise \<Rightarrow> keyword_expr R start ERaise
   | KReturn \<Rightarrow> keyword_option R start EReturn
   | KReply \<Rightarrow> keyword_expr R start EReply
   | KYield \<Rightarrow> keyword_alone start EYield
   | KAwait \<Rightarrow> keyword_expr R start EAwait
   | KShared \<Rightarrow> keyword_expr R start ESharedExpr
   | KTransact \<Rightarrow> keyword_expr R start ETransact
   | KRetry \<Rightarrow> keyword_alone start ERetry
   | KTry \<Rightarrow> parse_try R start
   | KWhile \<Rightarrow> parse_while R start
   | KFor \<Rightarrow> parse_for R start
   | KLoop \<Rightarrow> keyword_expr R start ELoop
   | KBreak \<Rightarrow> keyword_option R start EBreak
   | KContinue \<Rightarrow> keyword_alone start EContinue
   | KSpawn \<Rightarrow> parse_spawn R start
   | _ \<Rightarrow> unexpected start (TKeyword k))"

definition parse_primary :: "'d nonterminals \<Rightarrow> ('d, 'd expr) pm" where
  "parse_primary R = bindP hereP (\<lambda>start. bindP peekP (\<lambda>c. case c of
     TInt n \<Rightarrow> literalP (EInt n start)
   | TDecimal d \<Rightarrow> literalP (EDecimal d start)
   | TStr ps \<Rightarrow> thenP bumpP (bindP (stringP R ps) (\<lambda>parts. retP (EStr parts start)))
   | TIdent x \<Rightarrow> literalP (EIdent x start)
   | LParen \<Rightarrow> parse_paren R start
   | LBracket \<Rightarrow> items_expr R start RBracket ''`]`'' EVecLit
   | HashBrace \<Rightarrow> items_expr R start RBrace ''`}`'' ESetLit
   | LBrace \<Rightarrow> parse_brace_expr R start
   | TKeyword k \<Rightarrow> parse_keyword R start k
   | _ \<Rightarrow> unexpected start c))"

definition parse_postfix :: "'d nonterminals \<Rightarrow> ('d, 'd expr) pm" where
  "parse_postfix R = bindP (parse_primary R) (loopP (postfix_round R))"

definition prefix_expr :: "'d nonterminals \<Rightarrow> span \<Rightarrow> unary_op \<Rightarrow> ('d, 'd expr) pm" where
  "prefix_expr R start u = thenP bumpP (bindP (nt_expr R 15) (\<lambda>e. bindP (sinceP start) (\<lambda>sp. retP (EUnaryOp u e sp))))"

definition parse_prefix :: "'d nonterminals \<Rightarrow> ('d, 'd expr) pm" where
  "parse_prefix R = bindP hereP (\<lambda>start. bindP peekP (\<lambda>c.
     if c = TMinus then prefix_expr R start UNeg
     else if c = TKeyword KNot then prefix_expr R start UNot
     else parse_postfix R))"

definition parse_expr :: "'d nonterminals \<Rightarrow> nat \<Rightarrow> ('d, 'd expr) pm" where
  "parse_expr R min_bp = bindP (parse_prefix R) (loopP (expr_round R min_bp))"

section \<open>Statements\<close>

text \<open>\<open>let\<close>, \<open>shared\<close> and \<open>state\<close> declarations have one shape, functions and handlers another.\<close>

definition parse_binding ::
  "'d nonterminals \<Rightarrow> span \<Rightarrow> string \<Rightarrow> (str \<Rightarrow> type_annot option \<Rightarrow> 'd expr \<Rightarrow> span \<Rightarrow> 'd stmt) \<Rightarrow> ('d, 'd stmt) pm" where
  "parse_binding R start what f = thenP bumpP (bindP (expect_ident what) (\<lambda>name. bindP (type_annotation R) (\<lambda>t.
     thenP (expectP Assign ''`=`'') (bindP (nt_expr R 0) (\<lambda>e. bindP (sinceP start) (\<lambda>sp. retP (f name t e sp)))))))"

definition parse_function ::
  "'d nonterminals \<Rightarrow> span \<Rightarrow> string \<Rightarrow> ('d expr func_def \<Rightarrow> 'd stmt) \<Rightarrow> ('d, 'd stmt) pm" where
  "parse_function R start what f = thenP bumpP (bindP (expect_ident what) (\<lambda>name. bindP (parse_params R) (\<lambda>params.
     bindP (return_type R) (\<lambda>ret. bindP (nt_expr R 0) (\<lambda>body.
       bindP (sinceP start) (\<lambda>sp. retP (f (FuncDef name params ret body sp))))))))"

definition parse_type_params :: "('d, str list) pm" where
  "parse_type_params = bindP (eatP Lt) (\<lambda>open. if open
     then bindP (items_until Gt (expect_ident ''type parameter'')) (\<lambda>ps. thenP (expectP Gt ''`>`'') (retP ps))
     else retP [])"

definition parse_field_def :: "'d nonterminals \<Rightarrow> ('d, str \<times> type_annot) pm" where
  "parse_field_def R = bindP (expect_ident ''field name'') (\<lambda>name. thenP (expectP Colon ''`:`'')
     (bindP (nt_type R) (\<lambda>t. retP (name, t))))"

definition parse_type_def :: "'d nonterminals \<Rightarrow> span \<Rightarrow> ('d, 'd stmt) pm" where
  "parse_type_def R start = thenP bumpP (bindP (expect_ident ''type name'') (\<lambda>name. bindP parse_type_params (\<lambda>ps.
     thenP (expectP Assign ''`=`'') (thenP (expectP LBrace ''`{`'')
     (bindP (items_until RBrace (parse_field_def R)) (\<lambda>fields. thenP (expectP RBrace ''`}`'')
     (bindP (sinceP start) (\<lambda>sp. retP (STypeDef \<lparr>td_name = name, td_params = ps, td_fields = fields, td_span = sp\<rparr>)))))))))"

definition parse_variant_def :: "'d nonterminals \<Rightarrow> ('d, variant_def) pm" where
  "parse_variant_def R = bindP hereP (\<lambda>sp. bindP (expect_ident ''variant name'') (\<lambda>name.
     bindP (bindP (eatP LParen) (\<lambda>open. if open
        then bindP (items_until RParen (nt_type R)) (\<lambda>ts. thenP (expectP RParen ''`)`'') (retP ts))
        else retP [])) (\<lambda>fields. retP \<lparr>vd_name = name, vd_fields = fields, vd_span = sp\<rparr>)))"

definition parse_enum_def :: "'d nonterminals \<Rightarrow> span \<Rightarrow> ('d, 'd stmt) pm" where
  "parse_enum_def R start = thenP bumpP (bindP (expect_ident ''enum name'') (\<lambda>name. bindP parse_type_params (\<lambda>ps.
     thenP (expectP LBrace ''`{`'') (bindP (items_until RBrace (parse_variant_def R)) (\<lambda>vs.
     thenP (expectP RBrace ''`}`'') (bindP (sinceP start) (\<lambda>sp.
       retP (SEnumDef \<lparr>ed_name = name, ed_params = ps, ed_variants = vs, ed_span = sp\<rparr>))))))))"

definition parse_actor_def :: "'d nonterminals \<Rightarrow> span \<Rightarrow> ('d, 'd stmt) pm" where
  "parse_actor_def R start = thenP bumpP (bindP (expect_ident ''actor name'') (\<lambda>name. thenP (expectP LBrace ''`{`'')
     (bindP (parse_stmt_list R False) (\<lambda>body. thenP (expectP RBrace ''`}`'')
     (bindP (sinceP start) (\<lambda>sp. retP (SActorDef (ActorDef name body sp))))))))"

definition path_round :: "str \<Rightarrow> ('d, str + str) pm" where
  "path_round path = bindP (eatP Dot) (\<lambda>more. if \<not> more then retP (Inr path)
     else bindP (expect_ident ''module path segment'') (\<lambda>seg. retP (Inl (path @ lit ''.'' @ seg))))"

definition parse_import :: "span \<Rightarrow> bool \<Rightarrow> ('d, 'd stmt) pm" where
  "parse_import start lazy = thenP bumpP (thenP (if lazy then expectP (TKeyword KImport) ''`import`'' else retP ())
     (bindP (expect_ident ''module path'') (\<lambda>seg. bindP (loopP path_round seg) (\<lambda>path.
     bindP (optP (eat_kwP KAs) (expect_ident ''alias name'')) (\<lambda>alias. bindP (sinceP start) (\<lambda>sp.
       retP (SImport \<lparr>im_path = path, im_alias = alias, im_lazy = lazy, im_span = sp\<rparr>)))))))"

definition parse_expr_stmt :: "'d nonterminals \<Rightarrow> ('d, 'd stmt) pm" where
  "parse_expr_stmt R = bindP (nt_expr R 0) (\<lambda>e. bindP (eatP Semicolon) (\<lambda>semi.
     retP (if semi then SSemi e else SExpr e)))"

definition is_ident :: "'d token_kind \<Rightarrow> bool" where
  "is_ident c = (case c of TIdent _ \<Rightarrow> True | _ \<Rightarrow> False)"

definition parse_stmt_keyword :: "'d nonterminals \<Rightarrow> span \<Rightarrow> keyword \<Rightarrow> ('d, 'd stmt) pm" where
  "parse_stmt_keyword R start k = (case k of
     KLet \<Rightarrow> parse_binding R start ''let binding name'' SLet
   | KShared \<Rightarrow> bindP (getP (\<lambda>p. is_ident (kind_at 1 p) \<and> kind_at 2 p \<in> {Assign, Colon})) (\<lambda>decl.
       if decl then parse_binding R start ''shared binding name'' SSharedDecl else parse_expr_stmt R)
   | KFn \<Rightarrow> bindP (getP (kind_at 1)) (\<lambda>c.
       if is_ident c then parse_function R start ''function name'' SFuncDef else parse_expr_stmt R)
   | KType \<Rightarrow> parse_type_def R start
   | KEnum \<Rightarrow> parse_enum_def R start
   | KActor \<Rightarrow> parse_actor_def R start
   | KImport \<Rightarrow> parse_import start False
   | KLazy \<Rightarrow> parse_import start True
   | KState \<Rightarrow> parse_binding R start ''state binding name'' SStateDecl
   | KOn \<Rightarrow> parse_function R start ''handler name'' SOnClause
   | _ \<Rightarrow> parse_expr_stmt R)"

definition parse_stmt :: "'d nonterminals \<Rightarrow> ('d, 'd stmt) pm" where
  "parse_stmt R = bindP hereP (\<lambda>start. bindP peekP (\<lambda>c. case c of
     TKeyword k \<Rightarrow> parse_stmt_keyword R start k
   | _ \<Rightarrow> parse_expr_stmt R))"

section \<open>Whole programs\<close>

text \<open>An interpolation is a source text of its own; diagnostics its parser has recorded are not looked at.\<close>

definition parse_interpolation :: "'d ext \<Rightarrow> 'd nonterminals \<Rightarrow> str \<Rightarrow> 'd expr parsed" where
  "parse_interpolation X R raw = (let lex = tokenize X raw in case lex_errors lex of
     e # _ \<Rightarrow> PFail e
   | [] \<Rightarrow> (case nt_expr R 0 (parser_new (tokens lex)) of
       (POk e, p) \<Rightarrow> if cur_kind p = TEof then POk e
         else PFail (source_error_new (cur_span p)
                (lit ''unexpected trailing tokens in interpolation: '' @ describe (cur_kind p)))
     | (PFail e, p) \<Rightarrow> PFail e
     | (PStop, p) \<Rightarrow> PStop))"

primrec parsers :: "'d ext \<Rightarrow> nat \<Rightarrow> 'd nonterminals" where
  "parsers X 0 = \<lparr>nt_type = (\<lambda>p. (PStop, p)), nt_pattern = (\<lambda>p. (PStop, p)), nt_expr = (\<lambda>_ p. (PStop, p)),
     nt_if = (\<lambda>_ p. (PStop, p)), nt_stmt = (\<lambda>p. (PStop, p)), nt_interp = (\<lambda>_. PStop)\<rparr>"
| "parsers X (Suc n) = (let R = parsers X n in
     \<lparr>nt_type = parse_type R, nt_pattern = parse_pattern X R, nt_expr = parse_expr R, nt_if = parse_if R,
      nt_stmt = parse_stmt R, nt_interp = parse_interpolation X R\<rparr>)"

record 'd parse_output =
  po_program :: "'d program"
  po_errors :: "source_error list"

text \<open>\<open>parse\<close>: the diagnostics are those of the parser only.\<close>

definition parse :: "'d ext \<Rightarrow> nat \<Rightarrow> str \<Rightarrow> 'd parse_output option" where
  "parse X n src = (case parse_stmt_list (parsers X n) True (parser_new (tokens (tokenize X src))) of
     (POk stmts, p) \<Rightarrow>
       (let sp = (case stmts of s # _ \<Rightarrow> stmt_span s | [] \<Rightarrow> span_dummy);
            end_sp = (if stmts = [] then sp else stmt_span (last stmts))
        in Some \<lparr>po_program = \<lparr>pr_stmts = stmts, pr_span = span_union sp end_sp\<rparr>, po_errors = ps_errors p\<rparr>)
   | _ \<Rightarrow> None)"

end
