(* ===== verification/Parser_Total.thy ===== *)
theory Parser_Total
  imports Parser "HOL-Library.Sublist"
begin

text \<open>
  The parser always returns: for every list of tokens that ends with the end marker, a bound linear in the number
  of tokens is enough, the cursor only moves forward and every token is consumed at most once.
\<close>

section \<open>Progress\<close>

text \<open>
  A state the lexer can give: one end marker, at the end of the tokens; the cursor on a token; the
  interpolations of its strings in a given set.
\<close>

definition raws :: "'d token_kind \<Rightarrow> str set" where
  "raws k = (case k of TStr ps \<Rightarrow> {raw. \<exists>sp. PartExpr raw sp \<in> set ps} | _ \<Rightarrow> {})"

definition ready :: "str set \<Rightarrow> 'd parser \<Rightarrow> bool" where
  "ready I p \<longleftrightarrow> ps_idx p < length (ps_tokens p) \<and> kind (last (ps_tokens p)) = TEof
     \<and> list_all (\<lambda>t. kind t \<noteq> TEof) (butlast (ps_tokens p)) \<and> (\<forall>t \<in> set (ps_tokens p). raws (kind t) \<subseteq> I)"

text \<open>The tokens before the end marker that are still to come.\<close>

definition left :: "'d parser \<Rightarrow> nat" where
  "left p = length (ps_tokens p) - 1 - ps_idx p"

definition goes :: "'d parser \<Rightarrow> 'd parser \<Rightarrow> bool" where
  "goes p p' \<longleftrightarrow> ps_tokens p' = ps_tokens p \<and> ps_idx p \<le> ps_idx p' \<and> ps_idx p' < length (ps_tokens p)
     \<and> prefix (ps_errors p) (ps_errors p')"

text \<open>
  A computation is good below a bound \<open>L\<close> on the tokens left, for current tokens in \<open>K\<close>: it returns, never moves back, consumes a token when its
  result satisfies \<open>c\<close>, and, if \<open>F\<close>, consumes one as well when it fails.
\<close>

definition good ::
  "str set \<Rightarrow> ('d token_kind \<Rightarrow> bool) \<Rightarrow> bool \<Rightarrow> nat \<Rightarrow> ('a \<Rightarrow> bool) \<Rightarrow> ('d, 'a) pm \<Rightarrow> bool" where
  "good I K F L c m \<longleftrightarrow> (\<forall>p. ready I p \<longrightarrow> left p < L \<longrightarrow> K (cur_kind p) \<longrightarrow> (case m p of
     (POk a, p') \<Rightarrow> goes p p' \<and> (c a \<longrightarrow> left p' < left p)
   | (PFail e, p') \<Rightarrow> goes p p' \<and> (F \<longrightarrow> left p' < left p)
   | (PStop, p') \<Rightarrow> False))"

abbreviation any :: "'a \<Rightarrow> bool" where "any \<equiv> \<lambda>_. True"
abbreviation none :: "'a \<Rightarrow> bool" where "none \<equiv> \<lambda>_. False"

lemma goes_refl [simp]: "ready I p \<Longrightarrow> goes p p"
  by (simp add: goes_def ready_def)

lemma goes_trans: "goes p q \<Longrightarrow> goes q r \<Longrightarrow> goes p r"
  unfolding goes_def by (auto intro: prefix_order.trans)

lemma ready_mono: "ready I p \<Longrightarrow> I \<subseteq> J \<Longrightarrow> ready J p"
  by (fastforce simp: ready_def)

lemma goes_ready: "goes p q \<Longrightarrow> ready I p \<Longrightarrow> ready I q"
  by (simp add: goes_def ready_def)

lemma goes_left: "goes p q \<Longrightarrow> left q \<le> left p"
  by (auto simp: goes_def left_def)

lemma goodI:
  assumes "\<And>p. ready I p \<Longrightarrow> left p < L \<Longrightarrow> K (cur_kind p) \<Longrightarrow> (case m p of
     (POk a, p') \<Rightarrow> goes p p' \<and> (c a \<longrightarrow> left p' < left p)
   | (PFail e, p') \<Rightarrow> goes p p' \<and> (F \<longrightarrow> left p' < left p)
   | (PStop, p') \<Rightarrow> False)"
  shows "good I K F L c m"
  using assms by (simp add: good_def)

lemma good_returns: "good I K F L c m \<Longrightarrow> ready I p \<Longrightarrow> left p < L \<Longrightarrow> K (cur_kind p) \<Longrightarrow> fst (m p) \<noteq> PStop"
  by (cases "m p") (auto simp: good_def)

lemma good_weaken:
  "good I K F L c m \<Longrightarrow> (\<And>k. K' k \<Longrightarrow> K k) \<Longrightarrow> (F' \<Longrightarrow> F) \<Longrightarrow> L' \<le> L \<Longrightarrow> (\<And>a. c' a \<Longrightarrow> c a) \<Longrightarrow> good I K' F' L' c' m"
  unfolding good_def by (force split: parsed.splits prod.splits)

lemma good_ret [simp]: "(\<not> c a) \<Longrightarrow> good I K F L c (retP a)"
  by (simp add: good_def retP_def)

lemma good_fail: "\<not> F \<Longrightarrow> good I K F L c (failP e)"
  by (simp add: good_def failP_def)

lemma good_get: "(\<And>a. c a \<Longrightarrow> False) \<Longrightarrow> good I K F L c (getP g)"
  by (auto simp: good_def getP_def)

lemma good_bind_get:
  "(\<And>a. good I K F L c (f a)) \<Longrightarrow> good I K F L c (bindP (getP g) f)"
  by (simp add: good_def getP_def bindP_def)

lemma good_bind_peek:
  "(\<And>k. K k \<Longrightarrow> good I (\<lambda>x. x = k) F L c (f k)) \<Longrightarrow> good I K F L c (bindP peekP f)"
  by (simp add: good_def peekP_def getP_def bindP_def)

lemma good_bind_here:
  "(\<And>a. good I K F L c (f a)) \<Longrightarrow> good I K F L c (bindP hereP f)"
  unfolding hereP_def by (rule good_bind_get)

text \<open>
  Most computations only have to return and not to move back; progress is owed by the rounds of loops and by
  the nonterminals.
\<close>

definition fine :: "str set \<Rightarrow> nat \<Rightarrow> ('d, 'a) pm \<Rightarrow> bool" where
  "fine I L m \<longleftrightarrow> good I any False L none m"

named_theorems fines

lemma good_fine: "good I any F L c m \<Longrightarrow> fine I L m"
  unfolding fine_def by (erule good_weaken) auto

lemma fine_good: "fine I L m \<Longrightarrow> (\<And>a. \<not> c a) \<Longrightarrow> good I K False L c m"
  unfolding fine_def by (erule good_weaken) auto

lemma fine_less: "fine I L m \<Longrightarrow> L' \<le> L \<Longrightarrow> fine I L' m"
  unfolding fine_def by (erule good_weaken) auto

text \<open>
  After a computation that has consumed a token, everything that follows needs to be good below the
  smaller bound only and owes no progress.
\<close>

lemma good_bind:
  assumes m: "good I K F L c1 m"
    and moved: "\<And>a. c1 a \<Longrightarrow> fine I (L - 1) (f a)"
    and stayed: "\<And>a. \<not> c1 a \<Longrightarrow> good I any F L c (f a)"
  shows "good I K F L c (bindP m f)"
proof (rule goodI)
  fix p assume p: "ready I p" "left p < L" "K (cur_kind p)"
  show "case bindP m f p of
     (POk a, p') \<Rightarrow> goes p p' \<and> (c a \<longrightarrow> left p' < left p)
   | (PFail e, p') \<Rightarrow> goes p p' \<and> (F \<longrightarrow> left p' < left p)
   | (PStop, p') \<Rightarrow> False"
  proof (cases "m p")
    case (Pair r q)
    show ?thesis
    proof (cases r)
      case (POk a)
      then have q: "goes p q" "c1 a \<longrightarrow> left q < left p"
        using m [unfolded good_def, rule_format, OF p] Pair by simp_all
      then have rq: "ready I q" "left q \<le> left p" using goes_ready p(1) goes_left by blast+
      show ?thesis
      proof (cases "c1 a")
        case True
        then have "left q < L - 1" "left q < left p" using q p(2) by simp_all
        then show ?thesis
          using moved [OF True, unfolded fine_def good_def, rule_format, OF rq(1)] Pair POk q(1)
          by (auto simp: bindP_def split: parsed.splits prod.splits dest: goes_trans goes_left)
      next
        case False
        then show ?thesis
          using stayed [OF False, unfolded good_def, rule_format, OF rq(1)] Pair POk q(1) rq(2) p(2)
          by (auto simp: bindP_def split: parsed.splits prod.splits dest: goes_trans)
      qed
    qed (use m [unfolded good_def, rule_format, OF p] Pair in \<open>simp_all add: bindP_def\<close>)
  qed
qed

lemma good_bind_fine:
  assumes "good I K F L any m" and "\<And>a. fine I (L - 1) (f a)"
  shows "good I K F L c (bindP m f)"
  using good_bind [OF assms(1), of f c] assms(2) by simp

lemma fine_bind [fines]:
  assumes "fine I L m" and "\<And>a. fine I L (f a)"
  shows "fine I L (bindP m f)"
  using good_bind [of I any False L none m f none] assms by (simp add: fine_def)

lemma fine_then [fines]: "fine I L m \<Longrightarrow> fine I L n \<Longrightarrow> fine I L (thenP m n)"
  unfolding thenP_def by (rule fine_bind)

text \<open>A computation before that neither consumes nor fails.\<close>

lemma good_after:
  assumes "fine I L m" and "\<And>a. good I any False L c (f a)"
  shows "good I K False L c (bindP m f)"
  by (rule good_bind [of I K False L none m]) (use assms in \<open>auto intro: fine_good\<close>)

section \<open>The operations of the cursor\<close>

lemma bump_good: "(\<And>k. K k \<Longrightarrow> k \<noteq> TEof) \<Longrightarrow> good I K F L any bumpP"
proof (rule goodI)
  fix p :: "'a parser" assume K: "\<And>k. K k \<Longrightarrow> k \<noteq> TEof" and p: "ready I p" "K (cur_kind p)"
  have "ps_idx p \<noteq> length (ps_tokens p) - 1"
  proof
    assume at: "ps_idx p = length (ps_tokens p) - 1"
    have "ps_tokens p \<noteq> []" using p(1) by (auto simp: ready_def)
    then have "cur_kind p = kind (last (ps_tokens p))"
      unfolding cur_kind_def at by (simp add: last_conv_nth)
    then show False using K [OF p(2)] p(1) by (simp add: ready_def)
  qed
  moreover have "ps_idx p < length (ps_tokens p)" using p(1) by (simp add: ready_def)
  ultimately have "ps_idx p + 1 < length (ps_tokens p)" by linarith
  then show "case bumpP p of
     (POk a, p') \<Rightarrow> goes p p' \<and> (True \<longrightarrow> left p' < left p)
   | (PFail e, p') \<Rightarrow> goes p p' \<and> (F \<longrightarrow> left p' < left p)
   | (PStop, p') \<Rightarrow> False"
    by (auto simp: bumpP_def modP_def advanced_def goes_def left_def)
qed

lemma good_bump_then:
  "(\<And>k. K k \<Longrightarrow> k \<noteq> TEof) \<Longrightarrow> fine I (L - 1) m \<Longrightarrow> good I K F L c (thenP bumpP m)"
  unfolding thenP_def by (rule good_bind_fine) (auto intro: bump_good)

lemma fine_ret [fines]: "fine I L (retP a)"
  by (simp add: fine_def)

lemma fine_fail [fines]: "fine I L (failP e)"
  by (simp add: fine_def good_fail)

lemma fine_get [fines]: "fine I L (getP g)"
  by (simp add: fine_def good_get)

lemma fine_peek [fines]: "fine I L peekP"
  and fine_here [fines]: "fine I L hereP"
  and fine_since [fines]: "fine I L (sinceP sp)"
  by (simp_all add: fines peekP_def hereP_def sinceP_def)

lemma fine_bump [fines]: "fine I L bumpP"
  by (auto simp: fine_def good_def bumpP_def modP_def advanced_def goes_def ready_def)

lemma fine_errors [fines]: "fine I L (modP (\<lambda>p. p\<lparr>ps_errors := ps_errors p @ es\<rparr>))"
  by (auto simp: fine_def good_def modP_def goes_def ready_def left_def)

lemma good_errors_then:
  assumes "good I K F L c m"
  shows "good I K F L c (thenP (modP (\<lambda>p. p\<lparr>ps_errors := ps_errors p @ es\<rparr>)) m)"
proof (rule goodI)
  fix p assume p: "ready I p" "left p < L" "K (cur_kind p)"
  let ?q = "p\<lparr>ps_errors := ps_errors p @ es\<rparr>"
  have q: "ready I ?q" "left ?q = left p" "K (cur_kind ?q)" "goes p ?q"
    using p by (simp_all add: ready_def left_def cur_kind_def goes_def)
  have "case m ?q of
     (POk a, p') \<Rightarrow> goes ?q p' \<and> (c a \<longrightarrow> left p' < left ?q)
   | (PFail e, p') \<Rightarrow> goes ?q p' \<and> (F \<longrightarrow> left p' < left ?q)
   | (PStop, p') \<Rightarrow> False"
    using assms [unfolded good_def, rule_format, of ?q] q p(2) by simp
  then show "case thenP (modP (\<lambda>p. p\<lparr>ps_errors := ps_errors p @ es\<rparr>)) m p of
     (POk a, p') \<Rightarrow> goes p p' \<and> (c a \<longrightarrow> left p' < left p)
   | (PFail e, p') \<Rightarrow> goes p p' \<and> (F \<longrightarrow> left p' < left p)
   | (PStop, p') \<Rightarrow> False"
    using q(2,4) by (auto simp: thenP_def bindP_def modP_def split: parsed.splits prod.splits dest: goes_trans)
qed

lemma fine_error [fines]: "fine I L (errorP sp msg)"
  by (simp add: errorP_def fines)

lemma fine_if [fines]: "fine I L m \<Longrightarrow> fine I L n \<Longrightarrow> fine I L (if b then m else n)"
  by simp

lemma same_kind_TEof: "same_kind TEof k \<Longrightarrow> k = TEof"
  by (simp add: same_kind_def)

lemma eat_good: "k \<noteq> TEof \<Longrightarrow> good I K F L id (eatP k)"
  unfolding eatP_def
  by (rule good_bind_peek) (auto simp: same_kind_TEof intro!: good_bump_then fines)

lemma eat_kw_good: "good I K F L id (eat_kwP kw)"
  unfolding eat_kwP_def
  by (rule good_bind_peek) (auto intro!: good_bump_then fines)

lemma expect_ident_good: "good I K False L any (expect_ident what)"
  unfolding expect_ident_def
  by (rule good_bind_peek)
    (auto intro!: good_bump_then fines good_bind_get good_fail simp: hereP_def split: token_kind.splits)

lemma fine_eat [fines]: "fine I L (eatP k)"
  unfolding eatP_def by (intro fines)

lemma fine_eat_kw [fines]: "fine I L (eat_kwP kw)"
  unfolding eat_kwP_def by (intro fines)

lemma fine_expect_ident [fines]: "fine I L (expect_ident what)"
  using expect_ident_good by (rule good_fine)

lemma fine_missing [fines]: "fine I L (missingP what)"
  unfolding missingP_def by (intro fines)

lemma fine_expect [fines]: "fine I L (expectP k what)"
  unfolding expectP_def by (intro fines)

lemma fine_expect_kw [fines]: "fine I L (expect_kwP kw what)"
  unfolding expect_kwP_def by (intro fines)

section \<open>Loops\<close>

lemma rounds_total:
  assumes "\<And>acc. good I any False L isl (f acc)"
  shows "ready I p \<Longrightarrow> left p < L \<Longrightarrow> left p < n \<Longrightarrow> (case rounds n f acc p of
     (POk a, p') \<Rightarrow> goes p p' | (PFail e, p') \<Rightarrow> goes p p' | (PStop, p') \<Rightarrow> False)"
proof (induction n arbitrary: acc p)
  case (Suc n)
  show ?case
  proof (cases "f acc p")
    case (Pair r q)
    have one: "case (r, q) of (POk a, p') \<Rightarrow> goes p p' \<and> (isl a \<longrightarrow> left p' < left p)
      | (PFail e, p') \<Rightarrow> goes p p' | (PStop, p') \<Rightarrow> False"
      using assms [of acc, unfolded good_def, rule_format, OF Suc.prems(1,2)] Pair
      by (auto split: parsed.splits)
    show ?thesis
    proof (cases r)
      case (POk x)
      show ?thesis
      proof (cases x)
        case (Inl acc')
        then have "goes p q" "left q < left p" using one POk by simp_all
        then show ?thesis
          using Suc.IH [of q acc'] goes_ready Suc.prems POk Inl Pair
          by (fastforce simp: bindP_def split: parsed.splits prod.splits dest: goes_trans)
      qed (use one POk Pair in \<open>simp add: bindP_def retP_def\<close>)
    qed (use one Pair in \<open>simp_all add: bindP_def\<close>)
  qed
qed simp

lemma fine_loop:
  assumes "\<And>acc. good I any False L isl (f acc)"
  shows "fine I L (loopP f acc)"
proof -
  have "case loopP f acc p of (POk a, p') \<Rightarrow> goes p p' | (PFail e, p') \<Rightarrow> goes p p' | (PStop, p') \<Rightarrow> False"
    if "ready I p" "left p < L" for p
    unfolding loopP_def by (rule rounds_total [OF assms that]) (simp add: left_def)
  then show ?thesis unfolding fine_def good_def by (simp cong: prod.case_cong parsed.case_cong)
qed

lemma fine_comma_items [fines]:
  assumes "fine I L item" shows "fine I L (comma_items item)"
proof -
  have "good I any False L isl (comma_round item acc)" for acc
    unfolding comma_round_def
    by (rule good_after [OF assms], rule good_bind [OF eat_good])
      (auto intro: fines)
  then show ?thesis unfolding comma_items_def by (rule fine_loop)
qed

lemma fine_items_until [fines]: "fine I L item \<Longrightarrow> fine I L (items_until c item)"
  unfolding items_until_def by (intro fines)

lemma fine_opt [fines]: "fine I L c \<Longrightarrow> fine I L m \<Longrightarrow> fine I L (optP c m)"
  unfolding optP_def by (intro fines)

lemma fine_bars: "fine I L item \<Longrightarrow> fine I L (loopP (bar_round item) acc)"
  by (rule fine_loop, unfold bar_round_def, rule good_bind_peek)
    (auto intro!: good_bump_then fines intro: fine_less)

text \<open>A loop whose first round consumes a token.\<close>

lemma good_loop_first:
  assumes f: "\<And>acc. good I any False L isl (f acc)" and first: "good I K False L any (f acc)"
  shows "good I K False L any (loopP f acc)"
proof (rule goodI)
  fix p assume p: "ready I p" "left p < L" "K (cur_kind p)"
  show "case loopP f acc p of
     (POk a, p') \<Rightarrow> goes p p' \<and> (True \<longrightarrow> left p' < left p)
   | (PFail e, p') \<Rightarrow> goes p p' \<and> (False \<longrightarrow> left p' < left p)
   | (PStop, p') \<Rightarrow> False"
  proof (cases "f acc p")
    case (Pair r q)
    show ?thesis
    proof (cases r)
      case (POk x)
      then have q: "goes p q" "left q < left p"
        using first [unfolded good_def, rule_format, OF p] Pair by simp_all
      then have rq: "ready I q" "left q < L" "left q < length (ps_tokens p)"
        using goes_ready p(1,2) by (auto simp: left_def)
      show ?thesis
      proof (cases x)
        case (Inl acc')
        then show ?thesis
          using rounds_total [where f = f and acc = acc', OF f rq] q POk Pair
          by (auto simp: loopP_def bindP_def split: parsed.splits prod.splits dest: goes_trans goes_left)
      qed (use q POk Pair in \<open>simp add: loopP_def bindP_def retP_def\<close>)
    qed (use first [unfolded good_def, rule_format, OF p] Pair in \<open>simp_all add: loopP_def bindP_def\<close>)
  qed
qed

text \<open>
  A handled failure: the handler owes the progress that the failed computation has not made, and sees the same token.
\<close>

lemma good_handle:
  assumes m: "good I (\<lambda>x. x = k) F L any m"
    and f: "\<And>a. fine I L (f a)" and h: "\<And>e. fine I L (h e)"
    and first: "\<And>e. \<not> F \<Longrightarrow> good I (\<lambda>x. x = k) False L any (h e)"
  shows "good I (\<lambda>x. x = k) False L any (handleP m f h)"
proof (rule goodI)
  fix p assume p: "ready I p" "left p < L" "cur_kind p = k"
  show "case handleP m f h p of
     (POk a, p') \<Rightarrow> goes p p' \<and> (True \<longrightarrow> left p' < left p)
   | (PFail e, p') \<Rightarrow> goes p p' \<and> (False \<longrightarrow> left p' < left p)
   | (PStop, p') \<Rightarrow> False"
  proof (cases "m p")
    case (Pair r q)
    have one: "case (r, q) of (POk a, p') \<Rightarrow> goes p p' \<and> left p' < left p
      | (PFail e, p') \<Rightarrow> goes p p' \<and> (F \<longrightarrow> left p' < left p) | (PStop, p') \<Rightarrow> False"
      using m [unfolded good_def, rule_format, OF p] Pair by (simp cong: parsed.case_cong)
    show ?thesis
    proof (cases r)
      case (POk a)
      then have "goes p q" "left q < left p" "ready I q" "left q < L"
        using one goes_ready p(1,2) by auto
      then show ?thesis
        using f [of a, unfolded fine_def good_def, rule_format, of q] POk Pair
        by (auto simp: handleP_def split: parsed.splits prod.splits dest: goes_trans goes_left)
    next
      case (PFail e)
      then have "goes p q" "F \<longrightarrow> left q < left p" using one by auto
      moreover from this(1) have "ready I q" "left q \<le> left p" using goes_ready goes_left p(1) by blast+
      ultimately have q: "goes p q" "F \<longrightarrow> left q < left p" "ready I q" "left q \<le> left p" "left q < L"
        using p(2) by auto
      show ?thesis
      proof (cases "left q < left p")
        case True
        then show ?thesis
          using h [of e, unfolded fine_def good_def, rule_format, of q] PFail Pair q
          by (auto simp: handleP_def split: parsed.splits prod.splits dest: goes_trans goes_left)
      next
        case False
        then have "ps_idx q = ps_idx p" "ps_tokens q = ps_tokens p"
          using q(1) p(1) by (auto simp: goes_def left_def ready_def)
        then have "cur_kind q = k" using p(3) by (simp add: cur_kind_def)
        moreover have "\<not> F" using False q(2) by blast
        ultimately show ?thesis
          using first [of e, unfolded good_def, rule_format, of q] PFail Pair q
          by (auto simp: handleP_def split: parsed.splits prod.splits dest: goes_trans goes_left)
      qed
    qed (use one in simp)
  qed
qed

section \<open>The functions of the parser\<close>

text \<open>
  What the parsers of the nonterminals owe: they return and consume a token when they succeed, below a bound \<open>E\<close> for
  expressions and \<open>S\<close> for the others; a keyword that starts a statement is consumed even on failure.
\<close>

locale total_parsers =
  fixes I :: "str set" and R :: "'d nonterminals" and E S :: nat
  assumes type_good: "good I any False S any (nt_type R)"
    and pattern_good: "good I any False S any (nt_pattern R)"
    and expr_start: "good I (\<lambda>c. F \<longrightarrow> c \<in> {TKeyword KShared, TKeyword KFn}) F E any (nt_expr R b)"
    and if_good: "good I (\<lambda>c. c = TKeyword KIf) False S any (nt_if R sp)"
    and stmt_start: "good I (\<lambda>c. F \<longrightarrow> (\<exists>k. is_stmt_start k \<and> c = TKeyword k)) F S any (nt_stmt R)"
    and interp_returns: "raw \<in> I \<Longrightarrow> nt_interp R raw \<noteq> PStop"
    and S_le: "S \<le> E" and E_le: "E \<le> Suc S"
begin

lemma expr_good: "good I any False E any (nt_expr R b)"
  by (rule good_weaken [OF expr_start [of False]]) auto

lemma stmt_good: "good I any False S any (nt_stmt R)"
  by (rule good_weaken [OF stmt_start [of False]]) auto

lemma fine_nt [fines]:
  "L \<le> S \<Longrightarrow> fine I L (nt_type R)" "L \<le> S \<Longrightarrow> fine I L (nt_pattern R)"
  "L \<le> S \<Longrightarrow> fine I L (nt_expr R b)" "L \<le> S \<Longrightarrow> fine I L (nt_stmt R)"
  using type_good pattern_good stmt_good expr_good [of b] S_le by (auto intro: good_fine fine_less)

subsection \<open>Types and patterns\<close>

lemma type_atom_good: "good I any False (Suc S) any (parse_type_atom R)"
  unfolding parse_type_atom_def
  by (rule good_after [OF fine_here], rule good_bind_fine [OF expect_ident_good]) (auto intro!: fines)

lemma parse_type_good: "good I any False (Suc S) any (parse_type R)"
  unfolding parse_type_def parse_fn_type_def parse_union_def
  by (rule good_bind [OF eat_kw_good])
    (auto intro!: fines good_bind_fine [OF type_atom_good] fine_bars good_fine [OF type_atom_good]
      intro: fine_less [OF good_fine [OF type_atom_good]])

lemma string_parts_return:
  "(\<forall>raw sp. PartExpr raw sp \<in> set ps \<longrightarrow> raw \<in> I) \<Longrightarrow> build_string_parts R ps \<noteq> PStop"
proof (induction ps)
  case (Cons q ps)
  then show ?case using interp_returns by (cases q) (auto split: parsed.splits)
qed simp

lemma field_round_good: "good I any False S isl (field_round R start acc)"
  unfolding field_round_def
  by (rule good_after [OF fine_eat]) (auto intro!: good_ret good_bind_fine [OF expect_ident_good] fines intro: fine_less fine_nt)

lemma element_round_good: "good I any False S isl (element_round R acc)"
  unfolding element_round_def
  by (rule good_bind [OF eat_good])
    (auto intro!: good_bind_fine [OF pattern_good] fines split: token_kind.splits)

lemma struct_pattern_good: "c \<noteq> TEof \<Longrightarrow> good I (\<lambda>x. x = c) False (Suc S) any (parse_struct_pattern R start)"
  unfolding parse_struct_pattern_def
  by (rule good_bump_then) (auto intro!: fines fine_loop field_round_good)

lemma named_pattern_good:
  "good I (\<lambda>c. c = TIdent name) False (Suc S) any (parse_named_pattern X R start name)"
  unfolding parse_named_pattern_def
  by (rule good_bump_then)
    (auto intro!: fines fine_loop field_round_good simp: parse_struct_pattern_def)

lemma negative_good: "good I (\<lambda>c. c = TMinus) False (Suc S) any (parse_negative X start)"
  unfolding parse_negative_def lit_pat_def
  by (rule good_bind_get) (auto intro!: good_bump_then good_fail fines split: token_kind.splits)

lemma stringP_good: "\<forall>raw sp. PartExpr raw sp \<in> set ps \<longrightarrow> raw \<in> I \<Longrightarrow> fine I L (stringP R ps)"
  using string_parts_return [of ps]
  by (auto simp: fine_def good_def stringP_def split: parsed.splits)

text \<open>The interpolations of the current string token are among those of the parser.\<close>

lemma string_then:
  assumes "\<And>x. fine I L (f x)"
  shows "good I (\<lambda>c. c = TStr ps) F (Suc L) c (thenP bumpP (bindP (stringP R ps) f))"
proof (rule goodI)
  fix p :: "'d parser" assume p: "ready I p" "left p < Suc L" "cur_kind p = TStr ps"
  then have "ps_tokens p ! ps_idx p \<in> set (ps_tokens p)" by (simp add: ready_def)
  then have "raws (cur_kind p) \<subseteq> I" using p(1) by (simp add: ready_def cur_kind_def)
  then have "\<forall>raw sp. PartExpr raw sp \<in> set ps \<longrightarrow> raw \<in> I" using p(3) by (auto simp: raws_def)
  then have "good I (\<lambda>c. c = TStr ps) F (Suc L) c (thenP bumpP (bindP (stringP R ps) f))"
    by (intro good_bump_then) (auto intro!: fines stringP_good assms)
  from this [unfolded good_def, rule_format, OF p]
  show "case thenP bumpP (bindP (stringP R ps) f) p of
     (POk a, p') \<Rightarrow> goes p p' \<and> (c a \<longrightarrow> left p' < left p)
   | (PFail e, p') \<Rightarrow> goes p p' \<and> (F \<longrightarrow> left p' < left p)
   | (PStop, p') \<Rightarrow> False" .
qed

lemma keyword_pattern_good:
  "good I (\<lambda>c. c = TKeyword k) False L any (case k of
     KTrue \<Rightarrow> lit_pat start (LPBool True)
   | KFalse \<Rightarrow> lit_pat start (LPBool False)
   | KNil \<Rightarrow> lit_pat start LPNil
   | _ \<Rightarrow> failP e)"
  by (cases k) (auto intro!: good_bump_then good_fail fines simp: lit_pat_def)

lemma pattern_atomic_good: "good I any False (Suc S) any (parse_pattern_atomic X R)"
  unfolding parse_pattern_atomic_def
proof (rule good_after [OF fine_here], rule good_bind_peek, goal_cases)
  case (1 start k)
  show ?case
    by (cases k)
      (simp_all add: keyword_pattern_good good_fail negative_good named_pattern_good struct_pattern_good,
        auto intro!: string_then [OF fine_ret] good_bump_then fines fine_loop element_round_good
          simp: lit_pat_def parse_vec_pattern_def)
qed

lemma parse_pattern_good: "good I any False (Suc S) any (parse_pattern X R)"
  unfolding parse_pattern_def
  by (rule good_bind_fine [OF pattern_atomic_good])
    (auto intro!: fines fine_bars intro: fine_less [OF good_fine [OF pattern_atomic_good]])

subsection \<open>Expressions\<close>

lemma fine_args [fines]: "L \<le> S \<Longrightarrow> fine I L (parse_args R)"
  unfolding parse_args_def by (intro fines)

lemma expr_round_good: "good I any False S isl (expr_round R b lhs)"
  unfolding expr_round_def assign_rest_def
  by (rule good_bind_peek)
    (auto intro!: good_bind_here good_bump_then fines split: option.splits prod.splits simp: infix_of_def compound_of_def)

lemma fine_member [fines]: "L \<le> S \<Longrightarrow> fine I L (member_rest R lhs)"
  unfolding member_rest_def member_name_def
  by (intro fines) (auto intro!: fines split: token_kind.splits)

lemma postfix_round_good: "good I any False S isl (postfix_round R lhs)"
  unfolding postfix_round_def
  by (rule good_bind_peek) (auto intro!: good_bump_then fines split: token_kind.splits)

lemma fine_resync: "fine I L (resync t)"
  and resync_good: "k \<noteq> TEof \<Longrightarrow> t \<or> k \<noteq> RBrace \<Longrightarrow> (\<And>kw. k = TKeyword kw \<Longrightarrow> \<not> is_stmt_start kw)
    \<Longrightarrow> good I (\<lambda>x. x = k) False L any (resync t)"
proof -
  have round: "good I any False L isl (resync_round t u)" for u
    unfolding resync_round_def
    by (rule good_bind_peek) (auto intro!: good_bump_then fines split: token_kind.splits)
  then show "fine I L (resync t)" unfolding resync_def by (rule fine_loop)
  assume "k \<noteq> TEof" "t \<or> k \<noteq> RBrace" "\<And>kw. k = TKeyword kw \<Longrightarrow> \<not> is_stmt_start kw"
  then have "good I (\<lambda>x. x = k) False L any (resync_round t ())"
    unfolding resync_round_def
    by (intro good_bind_peek) (auto intro!: good_bump_then fines split: token_kind.splits)
  with round show "good I (\<lambda>x. x = k) False L any (resync t)"
    unfolding resync_def by (rule good_loop_first)
qed

subsection \<open>Statement lists and blocks\<close>

lemma fine_recover: "fine I L (recover t e)"
  unfolding recover_def by (intro fines fine_resync)

lemma recover_good:
  assumes "k \<noteq> TEof" "t \<or> k \<noteq> RBrace" "\<And>kw. k = TKeyword kw \<Longrightarrow> \<not> is_stmt_start kw"
  shows "good I (\<lambda>x. x = k) False L any (recover t e)"
  unfolding recover_def by (rule good_errors_then) (rule resync_good [OF assms])

text \<open>A statement, or recovery from its diagnostic, consumes a token.\<close>

lemma stmt_or_recover:
  assumes f: "\<And>s. fine I S (f s)" and k: "k \<noteq> TEof" "t \<or> k \<noteq> RBrace"
  shows "good I (\<lambda>x. x = k) False S any (handleP (nt_stmt R) f (\<lambda>e. thenP (recover t e) (retP x)))"
proof (cases "\<exists>kw. k = TKeyword kw \<and> is_stmt_start kw")
  case True
  then show ?thesis
    by (intro good_handle [of I k True]) (auto intro!: f fines fine_recover intro: good_weaken [OF stmt_start [of True]])
next
  case False
  then have r: "good I (\<lambda>x. x = k) False S any (recover t e)" for e
    using recover_good [OF k] by blast
  show ?thesis
    by (rule good_handle [of I k False])
      (auto intro!: f fines fine_recover good_bind_fine [OF r] intro: good_weaken [OF stmt_good] simp: thenP_def)
qed

lemma fine_semis: "fine I L (loopP semis_round ())"
  by (rule fine_loop, unfold semis_round_def, rule good_bind_peek) (auto intro!: good_bump_then fines)

lemma stmt_round_good: "good I any False S isl (stmt_round R t stmts)"
  unfolding stmt_round_def thenP_def [of "loopP semis_round ()"]
  by (rule good_after [OF fine_semis], rule good_bind_peek)
    (auto intro!: fines intro: good_weaken [OF stmt_or_recover])

lemma parse_stmt_list_fine: "fine I S (parse_stmt_list R t)"
  unfolding parse_stmt_list_def by (rule fine_loop) (rule stmt_round_good)

lemma block_round_good: "good I any False S isl (block_round R stmts)"
proof -
  have "fine I S (case s of
      SExpr e \<Rightarrow> retP (Inr (stmts, Some e))
    | _ \<Rightarrow> bindP peekP (\<lambda>c'. thenP (if c' = Semicolon then bumpP else retP ()) (retP (Inl (stmts @ [s])))))" for s
    by (cases s) (auto intro!: fines)
  then show ?thesis
    unfolding block_round_def
    by (intro good_bind_peek) (auto intro: good_weaken [OF stmt_or_recover])
qed

lemma fine_block [fines]: "fine I S (finish_block R start stmts)"
  unfolding finish_block_def by (intro fines fine_loop block_round_good) (auto intro!: fines)

lemma entry_round_good: "good I any False S isl (entry_round R entries)"
  unfolding entry_round_def by (rule good_bind [OF eat_good]) (auto intro!: fines)

lemma fine_map [fines]: "fine I S (finish_map R start k)"
  unfolding finish_map_def by (intro fines fine_loop entry_round_good) auto

lemma brace_expr_good: "good I (\<lambda>c. c = LBrace) F (Suc S) any (parse_brace_expr R start)"
  unfolding parse_brace_expr_def single_tail_def
  by (rule good_bump_then) (auto intro!: fines split: token_kind.splits)

subsection \<open>Keywords and primary expressions\<close>

lemma fine_annotation [fines]: "L \<le> S \<Longrightarrow> fine I L (type_annotation R)"
  unfolding type_annotation_def by (intro fines)

lemma fine_params [fines]: "L \<le> S \<Longrightarrow> fine I L (parse_params R)"
  unfolding parse_params_def parse_param_def by (intro fines)

lemma fine_return_type [fines]: "L \<le> S \<Longrightarrow> fine I L (return_type R)"
  unfolding return_type_def by (intro fines)

lemma parse_if_good: "good I (\<lambda>c. c = TKeyword KIf) F (Suc S) any (parse_if R start)"
proof -
  have "fine I S (bindP peekP (\<lambda>c. if c = TKeyword KIf then bindP hereP (nt_if R) else nt_expr R 0))"
    unfolding fine_def
    by (rule good_bind_peek) (auto intro!: good_bind_here intro: good_weaken [OF if_good] fine_good fines)
  then show ?thesis
    unfolding parse_if_def by (intro good_bump_then) (auto intro!: fines)
qed

lemma arm_round_good: "good I any False S isl (arm_round R arms)"
  unfolding arm_round_def parse_arm_def
  by (rule good_bind_peek)
    (auto intro!: good_ret good_bind_fine [OF good_bind_here] good_bind_fine [OF good_weaken [OF pattern_good]] fines)

lemma rescue_round_good: "good I any False S isl (rescue_round R rs)"
  unfolding rescue_round_def
  by (rule good_bind_here, rule good_bind [OF eat_kw_good]) (auto intro!: fines split: token_kind.splits)

lemma keyword_good:
  "good I (\<lambda>c. c = TKeyword k) (k \<in> {KShared, KFn}) (Suc S) any (parse_keyword R start k)"
  unfolding parse_keyword_def
  by (cases k)
    (auto intro!: parse_if_good good_bump_then good_fail fines fine_loop arm_round_good rescue_round_good
       simp: literalP_def unexpected_def keyword_alone_def keyword_expr_def keyword_option_def parse_lambda_def
         parse_match_def parse_try_def parse_while_def parse_for_def parse_spawn_def)

lemma primary_good:
  "good I (\<lambda>c. F \<longrightarrow> c \<in> {TKeyword KShared, TKeyword KFn}) F (Suc S) any (parse_primary R)"
  unfolding parse_primary_def
proof (rule good_bind_here, rule good_bind_peek, goal_cases)
  case (1 start k)
  then show ?case
    by (cases k)
      (auto intro!: string_then [OF fine_ret] brace_expr_good good_bump_then fines good_fail
         intro: good_weaken [OF keyword_good]
         simp: literalP_def unexpected_def parse_paren_def items_expr_def)
qed

lemma parse_expr_good:
  "good I (\<lambda>c. F \<longrightarrow> c \<in> {TKeyword KShared, TKeyword KFn}) F (Suc S) any (parse_expr R b)"
proof -
  have postfix_good: "good I K F (Suc S) any (parse_postfix R)"
    if "\<And>c. K c \<Longrightarrow> F \<longrightarrow> c \<in> {TKeyword KShared, TKeyword KFn}" for K
    unfolding parse_postfix_def using that
    by (intro good_bind_fine [OF good_weaken [OF primary_good [of F]]])
      (auto intro!: fine_loop postfix_round_good)
  have "good I (\<lambda>c. F \<longrightarrow> c \<in> {TKeyword KShared, TKeyword KFn}) F (Suc S) any (parse_prefix R)"
    unfolding parse_prefix_def
  proof (rule good_bind_here, rule good_bind_peek, goal_cases)
    case (1 start k)
    then show ?case
      by (auto simp: prefix_expr_def intro!: good_bump_then fines postfix_good)
  qed
  then show ?thesis
    unfolding parse_expr_def by (rule good_bind_fine) (auto intro!: fine_loop expr_round_good)
qed

subsection \<open>Statements\<close>

lemma binding_good: "good I (\<lambda>c. c = TKeyword k) F (Suc S) any (parse_binding R start what g)"
  unfolding parse_binding_def by (rule good_bump_then) (auto intro!: fines)

lemma function_good: "good I (\<lambda>c. c = TKeyword k) F (Suc S) any (parse_function R start what g)"
  unfolding parse_function_def by (rule good_bump_then) (auto intro!: fines)

lemma fine_type_params [fines]: "fine I L parse_type_params"
  unfolding parse_type_params_def by (intro fines)

lemma type_def_good: "good I (\<lambda>c. c = TKeyword k) F (Suc S) any (parse_type_def R start)"
  unfolding parse_type_def_def parse_field_def_def by (rule good_bump_then) (auto intro!: fines)

lemma enum_def_good: "good I (\<lambda>c. c = TKeyword k) F (Suc S) any (parse_enum_def R start)"
  unfolding parse_enum_def_def parse_variant_def_def by (rule good_bump_then) (auto intro!: fines)

lemma actor_def_good: "good I (\<lambda>c. c = TKeyword k) F (Suc S) any (parse_actor_def R start)"
  unfolding parse_actor_def_def by (rule good_bump_then) (auto intro!: fines parse_stmt_list_fine)

lemma path_round_good: "good I any False L isl (path_round path)"
  unfolding path_round_def by (rule good_bind [OF eat_good]) (auto intro!: fines)

lemma import_good: "good I (\<lambda>c. c = TKeyword k) F (Suc S) any (parse_import start lazy)"
  unfolding parse_import_def by (rule good_bump_then) (auto intro!: fines fine_loop path_round_good)

lemma expr_stmt_good:
  "good I (\<lambda>c. F \<longrightarrow> c \<in> {TKeyword KShared, TKeyword KFn}) F E any (parse_expr_stmt R)"
  unfolding parse_expr_stmt_def by (rule good_bind_fine [OF expr_start]) (intro fines)

lemma stmt_keyword_good:
  "good I (\<lambda>c. c = TKeyword k) (is_stmt_start k) E any (parse_stmt_keyword R start k)"
  unfolding parse_stmt_keyword_def
  by (cases k)
    (auto intro!: good_bind_get good_weaken [OF binding_good] good_weaken [OF function_good] good_weaken [OF type_def_good]
       good_weaken [OF enum_def_good] good_weaken [OF actor_def_good] good_weaken [OF import_good] E_le
     intro: good_weaken [OF expr_stmt_good [of True]] good_weaken [OF expr_stmt_good [of False]] simp: is_stmt_start_def)

lemma parse_stmt_good:
  "good I (\<lambda>c. F \<longrightarrow> (\<exists>k. is_stmt_start k \<and> c = TKeyword k)) F E any (parse_stmt R)"
  unfolding parse_stmt_def
proof (rule good_bind_here, rule good_bind_peek, goal_cases)
  case (1 start k)
  then show ?case
    by (cases k)
      (auto intro: good_weaken [OF stmt_keyword_good] good_weaken [OF expr_stmt_good [of False]])
qed

end

section \<open>The bound on the nesting\<close>

text \<open>
  Two levels per token: a statement that is an expression calls the expression parser on the same token, every
  other call comes after a token has been consumed.
\<close>

lemma parsers_total:
  assumes interp: "\<And>raw m. raw \<in> I \<Longrightarrow> k \<le> m \<Longrightarrow> nt_interp (parsers X m) raw \<noteq> PStop"
  shows "total_parsers I (parsers X (k + n)) ((n + 1) div 2) (n div 2)"
proof (induction n)
  case 0
  show ?case using interp [of _ k] by unfold_locales (simp_all add: good_def)
next
  case (Suc n)
  let ?R = "parsers X (k + n)"
  note step = total_parsers.parse_type_good [OF Suc] total_parsers.parse_pattern_good [OF Suc, of X]
    total_parsers.parse_if_good [OF Suc, of False] total_parsers.parse_expr_good [OF Suc]
    total_parsers.parse_stmt_good [OF Suc]
  have "(n + 1) div 2 \<le> Suc (n div 2)" "(Suc n + 1) div 2 = Suc (n div 2)" "n div 2 \<le> (n + 1) div 2" by linarith+
  then show ?case
    using interp [of _ "k + Suc n"]
    by unfold_locales (auto simp: Let_def intro: good_weaken [OF step(1)] good_weaken [OF step(2)]
      good_weaken [OF step(3)] good_weaken [OF step(4)] good_weaken [OF step(5)])
qed

end
