(* ===== verification/Parser_Spec.thy ===== *)
theory Parser_Spec
  imports Parser_Total Lexer_Spec
begin

text \<open>
  Properties of the parser (\<open>src/parser/mod.rs\<close>) on source texts: it returns on every one.
\<close>

section \<open>Interpolations are shorter than the text\<close>

definition parts_below :: "nat \<Rightarrow> str_part list \<Rightarrow> bool" where
  "parts_below B ps \<longleftrightarrow> (\<forall>raw sp. PartExpr raw sp \<in> set ps \<longrightarrow> length raw < B)"

abbreviation gathered :: "str \<times> lexer \<Rightarrow> nat" where
  "gathered x \<equiv> length (fst x) + length (unread (snd x))"

lemma skip_nested_length:
  "gathered (skip_nested_string_into raw lx) \<le> length raw + length (unread lx)"
proof (induction "length (unread lx)" arbitrary: raw lx rule: less_induct)
  case less
  obtain o1 lx1 where b: "bump lx = (o1, lx1)" by fastforce
  obtain o2 lx2 where b2: "bump lx1 = (o2, lx2)" by fastforce
  show ?case
    using bump_measure [OF b] bump_measure [OF b2]
    unfolding skip_nested_string_into.simps [of raw lx]
    by (auto simp: b b2 Let_def lex_simps split: option.splits intro!: order.trans [OF less])
qed

lemma interp_loop_length:
  "gathered (snd (interp_loop d raw lx)) \<le> length raw + length (unread lx)"
proof (induction "length (unread lx)" arbitrary: d raw lx rule: less_induct)
  case less
  obtain o1 lx1 where b: "bump lx = (o1, lx1)" by fastforce
  obtain r2 lx2 where n: "skip_nested_string_into (raw @ [dquote]) lx1 = (r2, lx2)" by fastforce
  show ?case
    using bump_measure [OF b] skip_nested_length [of "raw @ [dquote]" lx1] skip_nested_le [OF n]
    unfolding interp_loop.simps [of d raw lx]
    by (auto simp: b n split: option.splits intro!: order.trans [OF less])
qed

lemma lex_interpolation_below:
  "parts_below B parts \<Longrightarrow> length (unread lx) < B \<Longrightarrow> parts_below B (fst (lex_interpolation parts cur lx))"
  using interp_loop_length [of 1 "[]" lx]
  by (fastforce simp: lex_interpolation_def collect_interpolation_def flush_def parts_below_def Let_def
      split: prod.splits if_splits)

lemma string_loop_below:
  "parts_below B parts \<Longrightarrow> length (unread lx) \<le> B \<Longrightarrow> parts_below B (fst (string_loop start parts cur lx))"
proof (induction start parts cur lx rule: string_loop.induct)
  case (1 start parts cur lx)
  obtain o1 lx1 where b: "bump lx = (o1, lx1)" by fastforce
  obtain o2 lx2 where b2: "bump lx1 = (o2, lx2)" by fastforce
  obtain qs lx4 where i: "lex_interpolation parts cur lx1 = (qs, lx4)" by fastforce
  have le: "length (unread lx1) \<le> B" "length (unread lx2) \<le> B" "length (unread lx4) \<le> B"
    using bump_measure [OF b] bump_measure [OF b2] lex_interpolation_le [OF i] "1.prems" by auto
  have le3: "length (unread lx3) \<le> B" if "lex_escape p e cur lx2 = (c, lx3)" for p e c lx3
    using lex_escape_le [OF that] le by simp
  have qs: "o1 \<noteq> None \<Longrightarrow> parts_below B qs"
    using lex_interpolation_below [of B parts lx1 cur] bump_measure [OF b] "1.prems" i by auto
  show ?case
    using "1.IH" [OF b [symmetric]] "1.prems" le le3 qs
    by (subst string_loop.simps) (auto simp: b b2 i split: option.splits prod.splits)
qed

lemma triple_loop_below:
  "parts_below B parts \<Longrightarrow> length (unread lx) \<le> B \<Longrightarrow> parts_below B (fst (triple_loop start parts cur lx))"
proof (induction start parts cur lx rule: triple_loop.induct)
  case (1 start parts cur lx)
  obtain o1 lx1 where b: "bump lx = (o1, lx1)" by fastforce
  obtain o2 lx2 where b2: "bump lx1 = (o2, lx2)" by fastforce
  obtain qs lx4 where i: "lex_interpolation parts cur lx1 = (qs, lx4)" by fastforce
  have le: "length (unread lx1) \<le> B" "length (unread lx2) \<le> B" "length (unread lx4) \<le> B"
    using bump_measure [OF b] bump_measure [OF b2] lex_interpolation_le [OF i] "1.prems" by auto
  have le3: "length (unread lx3) \<le> B" if "lex_triple_escape p e cur lx2 = (c, lx3)" for p e c lx3
    using lex_triple_escape_le [OF that] le by simp
  have qs: "o1 \<noteq> None \<Longrightarrow> parts_below B qs"
    using lex_interpolation_below [of B parts lx1 cur] bump_measure [OF b] "1.prems" i by auto
  show ?case
    using "1.IH" [OF _ b [symmetric]] "1.prems" le le3 qs
    by (subst triple_loop.simps) (auto simp: b b2 i split: option.splits prod.splits)
qed

definition token_below :: "nat \<Rightarrow> 'd token_kind \<Rightarrow> bool" where
  "token_below B k \<longleftrightarrow> (\<forall>raw \<in> raws k. length raw < B)"

lemma not_string_below: "(\<And>ps. k \<noteq> TStr ps) \<Longrightarrow> token_below B k"
  by (cases k) (auto simp: token_below_def raws_def)

lemma finish_string_below:
  "parts_below B parts \<Longrightarrow> token_below B (kind (finish_string start parts cur lx))"
  by (auto simp: finish_string_def token_below_def raws_def parts_below_def flush_def token_new_def Let_def)

lemma lex_string_below:
  assumes "length (unread lx) \<le> B" shows "token_below B (kind (fst (lex_string start lx)))"
proof -
  have "length (unread (skip_opening_newline (skip1 (skip1 lx)))) \<le> B"
    using scans_length [OF scans_skip_opening_newline, of "skip1 (skip1 lx)"] assms
    by (simp add: lex_simps)
  then show ?thesis
    using string_loop_below [of B "[]" lx start "[]"] assms
      triple_loop_below [of B "[]" "skip_opening_newline (skip1 (skip1 lx))" start "[]"]
    by (auto simp: lex_string_def lex_triple_string_def parts_below_def finish_string_below split: prod.splits)
qed

lemma lex_char_string:
  "lex_char X p c lx = (Some t, lx') \<Longrightarrow> kind t = TStr ps \<Longrightarrow> t = fst (lex_string p lx)"
  by (auto simp: lex_char_def lex_punct_def if_next_def one_tok_def tok_def token_new_def
      ident_kind_def lex_number_def decimal_token_def integer_token_def Let_def
      split: if_splits prod.splits option.splits)

lemma lex_char_below:
  "lex_char X p c lx = (Some t, lx') \<Longrightarrow> length (unread lx) \<le> B \<Longrightarrow> token_below B (kind t)"
  using lex_string_below [of lx B p] lex_char_string [of X p c lx t lx'] not_string_below [of "kind t" B] by blast

lemma next_token_below:
  "length (unread lx) \<le> B \<longrightarrow> token_below B (kind (fst (next_token X lx)))"
proof (rule next_token_rule [where P = "\<lambda>lx t lx'. length (unread lx) \<le> B \<longrightarrow> token_below B (kind t)"], goal_cases)
  case (1 lx lx1)
  show ?case by (auto simp: token_new_def intro!: not_string_below)
next
  case (2 lx c lx1 t lx2)
  then show ?case using bump_measure [OF 2(1)] lex_char_below [OF 2(2), of B] by auto
next
  case (3 lx c lx1 lx2 t lx3)
  then show ?case using bump_measure [OF 3(1)] lex_char_le [OF 3(2)] by auto
qed

lemma token_loop_below:
  "length (unread lx) \<le> B \<Longrightarrow> \<forall>t \<in> set acc. token_below B (kind t)
     \<Longrightarrow> \<forall>t \<in> set (fst (token_loop X lx acc)). token_below B (kind t)"
proof (induction X lx acc rule: token_loop.induct)
  case (1 X lx acc)
  obtain t lx1 where n: "next_token X lx = (t, lx1)" by fastforce
  have t: "token_below B (kind t)" using next_token_below [of lx B X] "1.prems"(1) n by simp
  have "length (unread lx1) \<le> B" using scans_length [OF scans_next_token [of lx X]] n "1.prems"(1) by simp
  then show ?case
    using "1.IH" [OF n [symmetric]] "1.prems" t n by (subst token_loop.simps) auto
qed

section \<open>The parser returns\<close>

lemma tiled_length: "tiled src n ts \<Longrightarrow> \<forall>t \<in> set (butlast ts). kind t \<noteq> TEof \<Longrightarrow> length ts - 1 + n \<le> length src"
proof (induction ts arbitrary: n)
  case (Cons t ts)
  then show ?case by (cases ts) fastforce+
qed simp

text \<open>What the lexer hands to the parser.\<close>

lemma tokens_ready:
  "ready {raw. length raw < length src} (parser_new (tokens (tokenize X src)))
     \<and> left (parser_new (tokens (tokenize X src))) \<le> length src"
proof -
  let ?lx = "lexer_new src"
  obtain ts lx' where l: "token_loop X ?lx [] = ([] @ ts, lx')"
    and ts: "tiled src (index_in src ?lx) ts" "ts \<noteq> []" "kind (last ts) = TEof" "\<forall>t \<in> set (butlast ts). kind t \<noteq> TEof"
    using token_loop_tiled [OF scans_refl] by blast
  have "length (unread ?lx) \<le> length src" by (simp add: lexer_new_def unread_def)
  then have "\<forall>t \<in> set ts. token_below (length src) (kind t)"
    using token_loop_below [of ?lx "length src" "[]" X] l by simp
  then show ?thesis
    using ts tiled_length [OF ts(1,4)] l
    by (auto simp: ready_def tokenize_def parser_new_def left_def list_all_iff token_below_def)
qed

lemma interpolation_returns:
  assumes R: "total_parsers {raw. length raw < N} R E S" and len: "length raw \<le> N" "length raw < E"
  shows "parse_interpolation X R raw \<noteq> PStop"
proof -
  let ?p = "parser_new (tokens (tokenize X raw))"
  have "ready {raw. length raw < N} ?p" "left ?p < E"
    using tokens_ready [of raw X] len by (auto elim: ready_mono)
  then have "fst (nt_expr R 0 ?p) \<noteq> PStop"
    using good_returns [OF total_parsers.expr_good [OF R]] by blast
  then show ?thesis
    by (auto simp: parse_interpolation_def Let_def split: list.splits parsed.splits prod.splits)
qed

lemma interp_bound: "length raw < N \<Longrightarrow> N * (N + 2) \<le> m \<Longrightarrow> nt_interp (parsers X m) raw \<noteq> PStop"
proof (induction N arbitrary: raw m)
  case (Suc N)
  define n where "n = m - 1 - N * (N + 2)"
  have m: "m = Suc (N * (N + 2) + n)" and n: "2 * (N + 1) \<le> n" using Suc.prems(2) by (auto simp: n_def algebra_simps)
  have "total_parsers {raw. length raw < N} (parsers X (N * (N + 2) + n)) ((n + 1) div 2) (n div 2)"
    by (rule parsers_total) (use Suc.IH in auto)
  then have "parse_interpolation X (parsers X (N * (N + 2) + n)) raw \<noteq> PStop"
    by (rule interpolation_returns) (use Suc.prems n in auto)
  then show ?case by (simp add: m Let_def)
qed simp

text \<open>The contract on the parsers of the model, at the bound for a text of length \<open>N\<close>.\<close>

lemma parsers_at_bound:
  "total_parsers {raw. length raw < N} (parsers X (N * (N + 2) + n)) ((n + 1) div 2) (n div 2)"
  by (rule parsers_total) (rule interp_bound, simp_all)

interpretation bounded: total_parsers "{raw. length raw < N}" "parsers X (N * (N + 2) + n)" "(n + 1) div 2" "n div 2"
  for N n :: nat and X :: "'d ext"
  by (rule parsers_at_bound)

text \<open>A statement list does not fail: its diagnostics are recorded.\<close>

definition calm :: "('d, 'a) pm \<Rightarrow> bool" where
  "calm m \<longleftrightarrow> (\<forall>p e p'. m p \<noteq> (PFail e, p'))"

lemma calm_bind: "calm m \<Longrightarrow> (\<And>a. calm (f a)) \<Longrightarrow> calm (bindP m f)"
  by (auto simp: calm_def bindP_def split: prod.splits parsed.splits)

lemma calm_rounds: "(\<And>acc. calm (f acc)) \<Longrightarrow> calm (rounds n f acc)"
proof (induction n arbitrary: acc)
  case (Suc n)
  then have "calm (case r of Inl acc' \<Rightarrow> rounds n f acc' | Inr a \<Rightarrow> retP a)" for r
    by (cases r) (auto simp: calm_def retP_def)
  then show ?case using Suc.prems by (simp add: calm_bind)
qed (simp add: calm_def)

lemma calm_loop:
  assumes "\<And>acc. calm (f acc)" shows "calm (loopP f acc)"
  using calm_rounds [of f, OF assms] by (simp add: calm_def loopP_def del: rounds.simps)

lemma calm_basic: "calm (retP a)" "calm (getP g)" "calm (modP h)" "calm peekP" "calm bumpP"
  by (simp_all add: calm_def retP_def getP_def modP_def peekP_def bumpP_def)

lemma calm_handle: "(\<And>a. calm (f a)) \<Longrightarrow> (\<And>e. calm (h e)) \<Longrightarrow> calm (handleP m f h)"
  by (auto simp: calm_def handleP_def split: prod.splits parsed.splits)

lemma stmt_list_calm: "calm (parse_stmt_list R t)"
  unfolding parse_stmt_list_def stmt_round_def semis_round_def recover_def resync_def resync_round_def thenP_def
  by (auto intro!: calm_loop calm_bind calm_handle calm_basic split: token_kind.splits)

lemma parse_total:
  assumes "(length src + 2) * (length src + 2) \<le> m"
  shows "\<exists>out. parse X m src = Some out"
proof -
  let ?N = "length src" and ?p = "parser_new (tokens (tokenize X src))"
  define n where "n = m - ?N * (?N + 2)"
  have m: "m = ?N * (?N + 2) + n" and n: "?N < n div 2" using assms by (auto simp: n_def algebra_simps)
  have "fine {raw. length raw < ?N} (n div 2) (parse_stmt_list (parsers X m) True)"
    unfolding m by (rule bounded.parse_stmt_list_fine)
  then have "fst (parse_stmt_list (parsers X m) True ?p) \<noteq> PStop"
    using good_returns [of _ any] tokens_ready [of src X] n unfolding fine_def by fastforce
  then show ?thesis
    using stmt_list_calm [of "parsers X m" True]
    by (auto simp: parse_def calm_def Let_def split: prod.splits parsed.splits)
qed

text \<open>
  C3. The parser returns on every source text, however broken it is: a bound on the nesting quadratic in the length of
  the text is enough, and every larger one.
\<close>

theorem parse_returns:
  assumes "(length src + 2) * (length src + 2) \<le> m"
  shows "\<exists>out. parse X m src = Some out"
  using assms by (rule parse_total)

theorem parse_returns_witness:
  "(length (lit ''let x = ('') + 2) * (length (lit ''let x = ('') + 2) \<le> 200
     \<and> (\<exists>out. parse fixed_ext 200 (lit ''let x = ('') = Some out)"
  using parse_returns [of "lit ''let x = (''" 200 fixed_ext] by (simp add: lit_def)

end
