(* ===== verification/Parser_Grammar.thy ===== *)
theory Parser_Grammar
  imports Parser
begin

text \<open>
  The grammar of expressions, as the table at the head of \<open>src/parser/mod.rs\<close> documents it, stated without the
  parser: phrases, the tokens they are written with, and which phrases need no parentheses where. The
  parser reads the tokens of every such phrase back as the phrase.
\<close>

section \<open>Phrases\<close>

datatype (plugins only: size code) 'd phrase =
    Atom "'d token_kind"
  | Group "'d phrase"
  | Items "'d token_kind" "'d phrase list"
  | Braces "'d phrase"
  | Apply "'d phrase" "'d phrase list"
  | At "'d phrase" "'d phrase"
  | is_Member: Member "'d phrase" str
  | Method "'d phrase" str "'d phrase list"
  | Spawns str "'d phrase list"
  | Unary "'d token_kind" "'d phrase"
  | Binary "'d token_kind" "'d phrase" "'d phrase"
  | Assigns "'d token_kind" "'d phrase" "'d phrase"
  | Word keyword "'d phrase"
  | Cond "'d phrase" "'d phrase" "'d phrase option"
  | While "'d phrase" "'d phrase"
  | Each str "'d phrase" "'d phrase"

text \<open>The tokens of a phrase, nothing added: parentheses are phrases of their own.\<close>

fun commas :: "'d token_kind list list \<Rightarrow> 'd token_kind list" where
  "commas [] = []"
| "commas [ks] = ks"
| "commas (ks # kss) = ks @ Comma # commas kss"

definition closing :: "'d token_kind \<Rightarrow> 'd token_kind" where
  "closing k = (if k = HashBrace then RBrace else RBracket)"

primrec fringe :: "'d phrase \<Rightarrow> 'd token_kind list" where
  "fringe (Atom k) = [k]"
| "fringe (Group t) = LParen # fringe t @ [RParen]"
| "fringe (Items k ts) = k # commas (map fringe ts) @ [closing k]"
| "fringe (Braces t) = LBrace # fringe t @ [RBrace]"
| "fringe (Apply t ts) = fringe t @ LParen # commas (map fringe ts) @ [RParen]"
| "fringe (At t i) = fringe t @ LBracket # fringe i @ [RBracket]"
| "fringe (Member t x) = fringe t @ [Dot, TIdent x]"
| "fringe (Method t x ts) = fringe t @ Dot # TIdent x # LParen # commas (map fringe ts) @ [RParen]"
| "fringe (Spawns x ts) = TKeyword KSpawn # TIdent x # LParen # commas (map fringe ts) @ [RParen]"
| "fringe (Unary k t) = k # fringe t"
| "fringe (Binary k a b) = fringe a @ k # fringe b"
| "fringe (Assigns k a b) = fringe a @ k # fringe b"
| "fringe (Word k t) = TKeyword k # fringe t"
| "fringe (Cond c y z) = TKeyword KIf # fringe c @ fringe y @
     (case map_option fringe z of None \<Rightarrow> [] | Some ks \<Rightarrow> TKeyword KElse # ks)"
| "fringe (While c b) = TKeyword KWhile # fringe c @ fringe b"
| "fringe (Each x c b) = TKeyword KFor # TIdent x # TKeyword KIn # fringe c @ fringe b"

section \<open>The documented table\<close>

text \<open>The levels of the binary operators; assignments are level 0, prefix operators level 8.\<close>

definition level :: "'d token_kind \<Rightarrow> nat option" where
  "level k =
    (if k = Pipe then Some 1
     else if k \<in> {Bang, Question} then Some 2
     else if k \<in> {TKeyword KOr, TOr} then Some 3
     else if k \<in> {TKeyword KAnd, TAnd} then Some 4
     else if k \<in> {TEq, Neq, Lt, Gt, Lte, Gte} then Some 5
     else if k \<in> {TPlus, TMinus} then Some 6
     else if k \<in> {Star, Slash, Percent} then Some 7
     else None)"

definition assignment :: "'d token_kind \<Rightarrow> bool" where
  "assignment k \<longleftrightarrow> k \<in> {Assign, PlusAssign, MinusAssign, StarAssign, SlashAssign, PercentAssign}"

text \<open>
  How strongly a token binds what stands before it: \<open>else\<close> least, then the assignments, then the levels. A phrase has
  an edge: tokens weaker than it may follow. Operators are left-associative, assignments
  right-associative; an \<open>else\<close> belongs to the nearest \<open>if\<close>.
\<close>

definition strength :: "'d token_kind \<Rightarrow> nat option" where
  "strength k = (if k = TKeyword KElse then Some 0 else if assignment k then Some 1 else map_option Suc (level k))"

definition stops :: "nat \<Rightarrow> 'd token_kind \<Rightarrow> bool" where
  "stops e k \<longleftrightarrow> k \<notin> {LParen, LBracket, Dot, FatArrow} \<and> (case strength k of None \<Rightarrow> True | Some s \<Rightarrow> s < e)"

primrec edge :: "'d phrase \<Rightarrow> nat" where
  "edge (Atom k) = 9"
| "edge (Group t) = 9"
| "edge (Items k ts) = 9"
| "edge (Braces t) = 9"
| "edge (Apply t ts) = 9"
| "edge (At t i) = 9"
| "edge (Member t x) = 9"
| "edge (Method t x ts) = 9"
| "edge (Spawns x ts) = 9"
| "edge (Unary k t) = edge t"
| "edge (Binary k a b) = min (case level k of None \<Rightarrow> 0 | Some i \<Rightarrow> i + 2) (edge b)"
| "edge (Assigns k a b) = min 1 (edge b)"
| "edge (Word k t) = min 1 (edge t)"
| "edge (Cond c y z) = (case map_option edge z of None \<Rightarrow> 0 | Some e \<Rightarrow> min 1 e)"
| "edge (While c b) = min 1 (edge b)"
| "edge (Each x c b) = min 1 (edge b)"

text \<open>What calls, indices and fields may follow.\<close>

primrec closed :: "'d phrase \<Rightarrow> bool" where
  "closed (Atom k) = True"
| "closed (Group t) = True"
| "closed (Items k ts) = True"
| "closed (Braces t) = True"
| "closed (Apply t ts) = True"
| "closed (At t i) = True"
| "closed (Member t x) = True"
| "closed (Method t x ts) = True"
| "closed (Spawns x ts) = True"
| "closed (Unary k t) = False"
| "closed (Binary k a b) = False"
| "closed (Assigns k a b) = False"
| "closed (Word k t) = False"
| "closed (Cond c y z) = False"
| "closed (While c b) = False"
| "closed (Each x c b) = False"

definition atom :: "'d token_kind \<Rightarrow> bool" where
  "atom k \<longleftrightarrow> (case k of
     TInt n \<Rightarrow> True | TDecimal d \<Rightarrow> True | TIdent x \<Rightarrow> True
   | TKeyword w \<Rightarrow> w \<in> {KTrue, KFalse, KNil, KYield, KRetry, KContinue}
   | _ \<Rightarrow> False)"

definition word :: "keyword \<Rightarrow> bool" where
  "word k \<longleftrightarrow> k \<in> {KRaise, KReturn, KReply, KAwait, KShared, KTransact, KLoop, KBreak}"

text \<open>
  A phrase that needs no parentheses where operands of level \<open>m\<close> and above are expected. The call of a
  field is a method call.
\<close>

primrec fits :: "'d phrase \<Rightarrow> nat \<Rightarrow> bool" where
  "fits (Atom k) m = atom k"
| "fits (Group t) m = fits t 0"
| "fits (Items k ts) m = (k \<in> {LBracket, HashBrace} \<and> list_all (\<lambda>f. f 0) (map fits ts))"
| "fits (Braces t) m = (fits t 0 \<and> hd (fringe t) \<noteq> TKeyword KShared)"
| "fits (Apply t ts) m = (closed t \<and> \<not> is_Member t \<and> fits t m \<and> list_all (\<lambda>f. f 0) (map fits ts))"
| "fits (At t i) m = (closed t \<and> fits t m \<and> fits i 0)"
| "fits (Member t x) m = (closed t \<and> fits t m)"
| "fits (Method t x ts) m = (closed t \<and> fits t m \<and> list_all (\<lambda>f. f 0) (map fits ts))"
| "fits (Spawns x ts) m = list_all (\<lambda>f. f 0) (map fits ts)"
| "fits (Unary k t) m = (k \<in> {TMinus, TKeyword KNot} \<and> fits t 8)"
| "fits (Binary k a b) m = (case level k of None \<Rightarrow> False
     | Some i \<Rightarrow> m \<le> i \<and> fits a m \<and> stops (edge a) k \<and> fits b (Suc i))"
| "fits (Assigns k a b) m = (assignment k \<and> m = 0 \<and> fits a 0 \<and> stops (edge a) k \<and> fits b 0)"
| "fits (Word k t) m = (word k \<and> fits t 0)"
| "fits (Cond c y z) m = (fits c 0 \<and> stops (min 1 (edge c)) (hd (fringe y)) \<and> fits y 0
     \<and> (case map_option fits z of None \<Rightarrow> True | Some f \<Rightarrow> stops (min 1 (edge y)) (TKeyword KElse :: 'd token_kind) \<and> f 0))"
| "fits (While c b) m = (fits c 0 \<and> stops (min 1 (edge c)) (hd (fringe b)) \<and> fits b 0)"
| "fits (Each x c b) m = (fits c 0 \<and> stops (min 1 (edge c)) (hd (fringe b)) \<and> fits b 0)"

section \<open>The expressions of a phrase\<close>

text \<open>The same tree, with source spans.\<close>

definition atom_expr :: "'d token_kind \<Rightarrow> span \<Rightarrow> 'd expr" where
  "atom_expr k sp = (case k of
     TInt n \<Rightarrow> EInt n sp | TDecimal d \<Rightarrow> EDecimal d sp | TIdent x \<Rightarrow> EIdent x sp
   | TKeyword w \<Rightarrow> (if w = KTrue then EBool True sp else if w = KFalse then EBool False sp
       else if w = KYield then EYield sp else if w = KRetry then ERetry sp else if w = KContinue then EContinue sp
       else ENil sp)
   | _ \<Rightarrow> ENil sp)"

definition binary_expr :: "'d token_kind \<Rightarrow> 'd expr \<Rightarrow> 'd expr \<Rightarrow> span \<Rightarrow> 'd expr" where
  "binary_expr k a b sp =
    (if k = Pipe then EPipe a b sp
     else if k = Bang then EActorSend a b sp
     else if k = Question then EActorRequest a b sp
     else EBinOp (if k \<in> {TKeyword KOr, TOr} then BOr else if k \<in> {TKeyword KAnd, TAnd} then BAnd
       else if k = TEq then BEq else if k = Neq then BNeq else if k = Lt then BLt else if k = Gt then BGt
       else if k = Lte then BLte else if k = Gte then BGte else if k = TPlus then BAdd else if k = TMinus then BSub
       else if k = Star then BMul else if k = Slash then BDiv else BMod) a b sp)"

definition assign_expr :: "'d token_kind \<Rightarrow> 'd expr \<Rightarrow> 'd expr \<Rightarrow> span \<Rightarrow> 'd expr" where
  "assign_expr k a b sp =
    (if k = Assign then EAssign a b sp
     else ECompoundAssign (if k = PlusAssign then BAdd else if k = MinusAssign then BSub else if k = StarAssign then BMul
       else if k = SlashAssign then BDiv else BMod) a b sp)"

definition word_expr :: "keyword \<Rightarrow> 'd expr \<Rightarrow> span \<Rightarrow> 'd expr" where
  "word_expr k e sp = (case k of
     KRaise \<Rightarrow> ERaise e sp | KReturn \<Rightarrow> EReturn (Some e) sp | KReply \<Rightarrow> EReply e sp | KAwait \<Rightarrow> EAwait e sp
   | KShared \<Rightarrow> ESharedExpr e sp | KTransact \<Rightarrow> ETransact e sp | KBreak \<Rightarrow> EBreak (Some e) sp | _ \<Rightarrow> ELoop e sp)"

inductive spells :: "'d phrase \<Rightarrow> 'd expr \<Rightarrow> bool" where
  "spells (Atom k) (atom_expr k sp)"
| "spells t e \<Longrightarrow> spells (Group t) (EParen e sp)"
| "list_all2 spells ts es \<Longrightarrow> spells (Items LBracket ts) (EVecLit es sp)"
| "list_all2 spells ts es \<Longrightarrow> spells (Items HashBrace ts) (ESetLit es sp)"
| "spells t e \<Longrightarrow> spells (Braces t) (EBlock [] (Some e) sp)"
| "spells t e \<Longrightarrow> list_all2 spells ts es \<Longrightarrow> spells (Apply t ts) (ECall e es sp)"
| "spells t e \<Longrightarrow> spells i j \<Longrightarrow> spells (At t i) (EIndex e j sp)"
| "spells t e \<Longrightarrow> spells (Member t x) (EField e x sp)"
| "spells t e \<Longrightarrow> list_all2 spells ts es \<Longrightarrow> spells (Method t x ts) (EMethodCall e x es sp)"
| "list_all2 spells ts es \<Longrightarrow> spells (Spawns x ts) (ESpawn x es sp)"
| "spells t e \<Longrightarrow> spells (Unary k t) (EUnaryOp (if k = TMinus then UNeg else UNot) e sp)"
| "spells a c \<Longrightarrow> spells b d \<Longrightarrow> spells (Binary k a b) (binary_expr k c d sp)"
| "spells a c \<Longrightarrow> spells b d \<Longrightarrow> spells (Assigns k a b) (assign_expr k c d sp)"
| "spells t e \<Longrightarrow> spells (Word k t) (word_expr k e sp)"
| "spells c e \<Longrightarrow> spells y f \<Longrightarrow> rel_option spells z g \<Longrightarrow> spells (Cond c y z) (EIf e f g sp)"
| "spells c e \<Longrightarrow> spells b f \<Longrightarrow> spells (While c b) (EWhile e f sp)"
| "spells c e \<Longrightarrow> spells b f \<Longrightarrow> spells (Each x c b) (EFor x e f sp)"

end
