(* ===== verification/Parser_Reads.thy ===== *)
theory Parser_Reads
  imports Parser_Grammar
begin

text \<open>
  The parser reads the tokens of a phrase: rules for what a computation reads in front of given tokens, and the
  Pratt loops by them.
\<close>

section \<open>Reading\<close>

definition seen :: "'d parser \<Rightarrow> 'd token_kind list \<Rightarrow> bool" where
  "seen p ks \<longleftrightarrow> map kind (drop (ps_idx p) (ps_tokens p)) = ks"

definition ahead :: "nat \<Rightarrow> 'd parser \<Rightarrow> 'd parser" where
  "ahead n p = p\<lparr>ps_idx := ps_idx p + n\<rparr>"

text \<open>Before the tokens \<open>ks\<close> the computation reads exactly \<open>us\<close>, records no diagnostic and returns a result in \<open>P\<close>.\<close>

definition accepts ::
  "('d, 'a) pm \<Rightarrow> 'd token_kind list \<Rightarrow> 'd token_kind list \<Rightarrow> ('a \<Rightarrow> bool) \<Rightarrow> bool" where
  "accepts m us ks P \<longleftrightarrow> (\<forall>p. seen p (us @ ks) \<longrightarrow> (\<exists>a. m p = (POk a, ahead (length us) p) \<and> P a))"

lemma accepts_mono [mono]: "P \<le> Q \<Longrightarrow> accepts m us ks P \<le> accepts m us ks Q"
  by (auto simp: accepts_def) (metis predicate1D)

lemma accepts_weaken: "accepts m us ks P \<Longrightarrow> (\<And>a. P a \<Longrightarrow> Q a) \<Longrightarrow> accepts m us ks Q"
  unfolding accepts_def by blast

lemma ahead_simps [simp]: "ahead 0 p = p" "ahead n (ahead m p) = ahead (m + n) p" "ps_tokens (ahead n p) = ps_tokens p"
  by (simp_all add: ahead_def)

lemma seen_ahead: "seen p (us @ ks) \<Longrightarrow> seen (ahead (length us) p) ks"
proof -
  assume "seen p (us @ ks)"
  then have "drop (length us) (map kind (drop (ps_idx p) (ps_tokens p))) = ks" by (simp add: seen_def)
  then show ?thesis by (simp add: seen_def ahead_def drop_map add.commute)
qed

lemma seen_Cons: "seen p (k # ks) \<Longrightarrow> cur_kind p = k \<and> ps_idx p < length (ps_tokens p)"
proof -
  assume p: "seen p (k # ks)"
  then have "drop (ps_idx p) (ps_tokens p) \<noteq> []" by (auto simp: seen_def)
  then have lt: "ps_idx p < length (ps_tokens p)" by (meson drop_eq_Nil not_le)
  then show ?thesis using p by (simp add: seen_def cur_kind_def Cons_nth_drop_Suc [symmetric])
qed

lemma seen_length: "seen p ks \<Longrightarrow> length ks \<le> length (ps_tokens p)"
  by (auto simp: seen_def)

lemma accepts_ret: "P a \<Longrightarrow> accepts (retP a) [] ks P"
  by (simp add: accepts_def retP_def)

lemma accepts_bind:
  assumes "accepts m us (vs @ ks) P" and "\<And>a. P a \<Longrightarrow> accepts (f a) vs ks Q"
  shows "accepts (bindP m f) (us @ vs) ks Q"
  unfolding accepts_def
proof (intro allI impI)
  fix p :: "'a parser" assume p: "seen p ((us @ vs) @ ks)"
  then obtain a where a: "m p = (POk a, ahead (length us) p)" "P a"
    using assms(1) by (auto simp: accepts_def)
  have "seen (ahead (length us) p) (vs @ ks)" using p seen_ahead [of p us "vs @ ks"] by simp
  then obtain b where "f a (ahead (length us) p) = (POk b, ahead (length vs) (ahead (length us) p))" "Q b"
    using assms(2) [OF a(2)] unfolding accepts_def by blast
  then show "\<exists>b. bindP m f p = (POk b, ahead (length (us @ vs)) p) \<and> Q b"
    using a by (simp add: bindP_def)
qed

lemma accepts_last:
  "accepts m us ks P \<Longrightarrow> (\<And>a. P a \<Longrightarrow> accepts (f a) [] ks Q) \<Longrightarrow> accepts (bindP m f) us ks Q"
  using accepts_bind [of m us "[]" ks P f Q] by simp

lemma accepts_get: "(\<And>a. accepts (f a) us ks P) \<Longrightarrow> accepts (bindP (getP g) f) us ks P"
  by (simp add: accepts_def bindP_def getP_def)

lemma accepts_here: "(\<And>a. accepts (f a) us ks P) \<Longrightarrow> accepts (bindP hereP f) us ks P"
  and accepts_since: "(\<And>a. accepts (f a) us ks P) \<Longrightarrow> accepts (bindP (sinceP sp) f) us ks P"
  by (simp_all add: hereP_def sinceP_def accepts_get)

lemma accepts_peek:
  "accepts (f k) us ks P \<Longrightarrow> us @ ks = k # r \<Longrightarrow> accepts (bindP peekP f) us ks P"
  using seen_Cons [of _ k r] by (auto simp: accepts_def bindP_def peekP_def getP_def)

lemma accepts_peek_Cons: "accepts (f k) (k # us) ks P \<Longrightarrow> accepts (bindP peekP f) (k # us) ks P"
  by (rule accepts_peek) simp_all

lemma seen_bump:
  assumes "seen p (k # k' # ks)" shows "bumpP p = (POk (), ahead 1 p)"
proof -
  have "length (map kind (drop (ps_idx p) (ps_tokens p))) = Suc (Suc (length ks))" using assms by (simp add: seen_def)
  then have "ps_idx p + 1 < length (ps_tokens p)" by simp
  then show ?thesis by (simp add: bumpP_def modP_def advanced_def ahead_def)
qed

lemma accepts_bump: "ks \<noteq> [] \<Longrightarrow> accepts bumpP [k] ks (\<lambda>_. True)"
  by (cases ks) (auto simp: accepts_def seen_bump)

lemma accepts_bump_then:
  assumes "us @ ks \<noteq> []" "accepts m us ks P"
  shows "accepts (thenP bumpP m) (k # us) ks P"
  using accepts_bind [of bumpP "[k]" us ks "\<lambda>_. True" "\<lambda>_. m" P] assms by (simp add: thenP_def accepts_bump)

lemma accepts_eat_yes:
  assumes "same_kind c k" "us @ ks \<noteq> []" "accepts (f True) us ks P"
  shows "accepts (bindP (eatP k) f) (c # us) ks P"
proof -
  have "accepts (eatP k) [c] (us @ ks) (\<lambda>b. b)"
    unfolding eatP_def
    by (rule accepts_peek) (use assms in \<open>auto intro!: accepts_bump_then accepts_ret\<close>)
  then show ?thesis
    using accepts_bind [of "eatP k" "[c]" us ks "\<lambda>b. b" f P] assms(3) by simp
qed

lemma accepts_eat_no:
  assumes "\<not> same_kind c k" "us @ ks = c # r" "accepts (f False) us ks P"
  shows "accepts (bindP (eatP k) f) us ks P"
proof -
  have "accepts (eatP k) [] (us @ ks) (\<lambda>b. \<not> b)"
    unfolding eatP_def
    by (rule accepts_peek [where k = c and r = r]) (use assms in \<open>auto intro!: accepts_ret\<close>)
  then show ?thesis
    using accepts_bind [of "eatP k" "[]" us ks "\<lambda>b. \<not> b" f P] assms(3) by simp
qed

lemma same_kind_refl [simp]: "same_kind k k"
  by (cases k) (simp_all add: same_kind_def)

lemma accepts_expect:
  assumes "us @ ks \<noteq> []" "accepts m us ks P"
  shows "accepts (thenP (expectP k what) m) (k # us) ks P"
proof -
  have "accepts (expectP k what) [k] (us @ ks) (\<lambda>_. True)"
    unfolding expectP_def
    by (rule accepts_eat_yes) (use assms in \<open>auto intro!: accepts_ret\<close>)
  then show ?thesis
    using accepts_bind [of _ "[k]" us ks "\<lambda>_. True" "\<lambda>_. m" P] assms by (simp add: thenP_def)
qed

lemma accepts_eat_kw_yes:
  assumes "us @ ks \<noteq> []" "accepts (f True) us ks P"
  shows "accepts (bindP (eat_kwP w) f) (TKeyword w # us) ks P"
proof -
  have "accepts (eat_kwP w) [TKeyword w] (us @ ks) (\<lambda>b. b)"
    unfolding eat_kwP_def
    by (rule accepts_peek) (use assms in \<open>auto intro!: accepts_bump_then accepts_ret\<close>)
  then show ?thesis
    using accepts_bind [of _ "[TKeyword w]" us ks "\<lambda>b. b" f P] assms(2) by simp
qed

lemma accepts_eat_kw_no:
  assumes "c \<noteq> TKeyword w" "us @ ks = c # r" "accepts (f False) us ks P"
  shows "accepts (bindP (eat_kwP w) f) us ks P"
proof -
  have "accepts (eat_kwP w) [] (us @ ks) (\<lambda>b. \<not> b)"
    unfolding eat_kwP_def
    by (rule accepts_peek [where k = c and r = r]) (use assms in \<open>auto intro!: accepts_ret\<close>)
  then show ?thesis
    using accepts_bind [of _ "[]" us ks "\<lambda>b. \<not> b" f P] assms(3) by simp
qed

lemma accepts_ident:
  assumes "us @ ks \<noteq> []" "accepts (f x) us ks P"
  shows "accepts (bindP (expect_ident what) f) (TIdent x # us) ks P"
proof -
  have "accepts (expect_ident what) [TIdent x] (us @ ks) (\<lambda>y. y = x)"
    unfolding expect_ident_def
    by (rule accepts_peek) (use assms in \<open>auto intro!: accepts_bump_then accepts_ret\<close>)
  then show ?thesis
    using accepts_bind [of _ "[TIdent x]" us ks "\<lambda>y. y = x" f P] assms(2) by simp
qed

lemma accepts_handle:
  assumes "accepts m us (vs @ ks) P" and "\<And>a. P a \<Longrightarrow> accepts (f a) vs ks Q"
  shows "accepts (handleP m f h) (us @ vs) ks Q"
proof -
  have "accepts (bindP m f) (us @ vs) ks Q" using assms by (rule accepts_bind)
  moreover have "\<exists>a. m p = (POk a, ahead (length us) p)" if "seen p ((us @ vs) @ ks)" for p
    using assms(1) that by (auto simp: accepts_def)
  ultimately show ?thesis by (fastforce simp: accepts_def bindP_def handleP_def)
qed

section \<open>Loops\<close>

inductive runs ::
  "('s \<Rightarrow> ('d, 's + 'a) pm) \<Rightarrow> 'd token_kind list \<Rightarrow> ('a \<Rightarrow> bool) \<Rightarrow> 's \<Rightarrow> 'd token_kind list \<Rightarrow> bool"
  for f :: "'s \<Rightarrow> ('d, 's + 'a) pm" and ks :: "'d token_kind list" and P :: "'a \<Rightarrow> bool" where
  finishes: "accepts (f acc) us ks (\<lambda>r. \<exists>a. r = Inr a \<and> P a) \<Longrightarrow> runs f ks P acc us"
| continues: "us \<noteq> [] \<Longrightarrow> accepts (f acc) us (vs @ ks) (\<lambda>r. \<exists>acc'. r = Inl acc' \<and> runs f ks P acc' vs)
    \<Longrightarrow> runs f ks P acc (us @ vs)"

lemma runs_weaken: "runs f ks P acc us \<Longrightarrow> (\<And>a. P a \<Longrightarrow> Q a) \<Longrightarrow> runs f ks Q acc us"
proof (induction rule: runs.induct)
  case (finishes acc us)
  then show ?case by (intro runs.finishes) (auto elim!: accepts_weaken)
next
  case (continues us acc vs)
  then show ?case by (intro runs.continues) (auto elim!: accepts_weaken)
qed

lemma runs_rounds:
  "runs f ks P acc us \<Longrightarrow> seen p (us @ ks) \<Longrightarrow> length us < n
     \<Longrightarrow> \<exists>a. rounds n f acc p = (POk a, ahead (length us) p) \<and> P a"
proof (induction arbitrary: p n rule: runs.induct)
  case (finishes acc us)
  then obtain a where "f acc p = (POk (Inr a), ahead (length us) p)" "P a" by (auto simp: accepts_def)
  then show ?case using finishes(3) by (cases n) (simp_all add: bindP_def retP_def)
next
  case (continues us acc vs)
  have p: "seen p (us @ vs @ ks)" using continues.prems(1) by simp
  then obtain acc' where r: "f acc p = (POk (Inl acc'), ahead (length us) p)"
    and IH: "\<And>p n. seen p (vs @ ks) \<Longrightarrow> length vs < n \<Longrightarrow> \<exists>a. rounds n f acc' p = (POk a, ahead (length vs) p) \<and> P a"
    using continues.IH by (auto simp: accepts_def)
  obtain n' where n: "n = Suc n'" using continues.prems(2) by (cases n) auto
  have "length vs < n'" using continues.prems(2) continues.hyps(1) n by (cases us) auto
  then obtain a where "rounds n' f acc' (ahead (length us) p) = (POk a, ahead (length vs) (ahead (length us) p))" "P a"
    using IH [OF seen_ahead [OF p]] by blast
  then show ?case using r n by (simp add: bindP_def)
qed

lemma accepts_loop: "runs f ks P acc us \<Longrightarrow> accepts (loopP f acc) us ks P"
  unfolding accepts_def loopP_def
proof (intro allI impI)
  fix p assume r: "runs f ks P acc us" and p: "seen p (us @ ks)"
  then have "length us < Suc (length (ps_tokens p))" using seen_length [OF p] by simp
  then show "\<exists>a. rounds (Suc (length (ps_tokens p))) f acc p = (POk a, ahead (length us) p) \<and> P a"
    by (rule runs_rounds [OF r p])
qed

text \<open>Lists of phrases between commas.\<close>

lemma commas_snoc: "commas (ks # kss) = ks @ (if kss = [] then [] else Comma # commas kss)"
  by (cases kss) simp_all

lemma runs_commas:
  assumes "\<not> same_kind cl Comma" "ts \<noteq> []"
    and "\<And>t c ks. t \<in> set ts \<Longrightarrow> c \<in> {Comma, cl} \<Longrightarrow> accepts item (fr t) (c # ks) (Q t)"
  shows "list_all2 Q ss acc \<Longrightarrow>
     runs (comma_round item) (cl # ks) (list_all2 Q (ss @ ts)) acc (commas (map fr ts))"
  using assms(2,3)
proof (induction ts arbitrary: ss acc)
  case (Cons t ts)
  show ?case
  proof (cases ts)
    case Nil
    have "accepts (comma_round item acc) (fr t @ []) (cl # ks) (\<lambda>r. \<exists>a. r = Inr a \<and> list_all2 Q (ss @ [t]) a)"
      unfolding comma_round_def
      by (rule accepts_bind [where P = "Q t"])
        (use assms(1) Cons.prems Nil in \<open>auto intro!: accepts_eat_no accepts_ret list_all2_appendI\<close>)
    then show ?thesis using Nil by (simp add: runs.finishes)
  next
    case (Cons t' ts')
    let ?us = "fr t @ [Comma]" and ?vs = "commas (map fr ts)"
    have "runs (comma_round item) (cl # ks) (list_all2 Q (ss @ t # ts)) (acc @ [x]) ?vs" if "Q t x" for x
      using Cons.IH [of "ss @ [t]" "acc @ [x]"] Cons.prems that Cons by (auto intro!: list_all2_appendI)
    then have "accepts (comma_round item acc) ?us (?vs @ cl # ks)
       (\<lambda>r. \<exists>acc'. r = Inl acc' \<and> runs (comma_round item) (cl # ks) (list_all2 Q (ss @ t # ts)) acc' ?vs)"
      unfolding comma_round_def
      by (intro accepts_bind [where P = "Q t"])
        (use Cons.prems in \<open>auto intro!: accepts_eat_yes accepts_ret\<close>)
    then have "runs (comma_round item) (cl # ks) (list_all2 Q (ss @ t # ts)) acc (?us @ ?vs)"
      by (rule runs.continues [rotated]) simp
    then show ?thesis using Cons by simp
  qed
qed simp

lemma accepts_items:
  assumes "\<not> same_kind cl Comma"
    and "\<And>t c ks. t \<in> set ts \<Longrightarrow> c \<in> {Comma, cl} \<Longrightarrow> accepts item (fr t) (c # ks) (Q t)"
    and "\<And>t. t \<in> set ts \<Longrightarrow> fr t \<noteq> [] \<and> hd (fr t) \<noteq> cl"
  shows "accepts (items_until cl item) (commas (map fr ts)) (cl # ks) (list_all2 Q ts)"
proof (cases ts)
  case Nil
  then show ?thesis
    unfolding items_until_def by (auto intro!: accepts_peek accepts_ret)
next
  case (Cons t ts')
  then obtain k r where k: "fr t = k # r" "k \<noteq> cl" using assms(3) [of t] by (cases "fr t") auto
  have "runs (comma_round item) (cl # ks) (list_all2 Q ([] @ ts)) [] (commas (map fr ts))"
    by (rule runs_commas) (use assms Cons in auto)
  then have "accepts (comma_items item) (commas (map fr ts)) (cl # ks) (list_all2 Q ts)"
    unfolding comma_items_def using accepts_loop by fastforce
  moreover obtain r' where "commas (map fr ts) @ cl # ks = k # r'"
    using Cons k by (simp add: commas_snoc)
  ultimately show ?thesis
    unfolding items_until_def using k(2) by (intro accepts_peek) auto
qed

text \<open>A test whose outcome the tokens decide.\<close>

lemma accepts_test:
  "(\<And>p. seen p (us @ ks) \<Longrightarrow> g p = v) \<Longrightarrow> accepts (f v) us ks P \<Longrightarrow> accepts (bindP (getP g) f) us ks P"
  by (simp add: accepts_def bindP_def getP_def)

end
