(* ===== verification/Lexer_Text.thy ===== *)
theory Lexer_Text
  imports Lexer_Spec
begin

text \<open>
  Token kinds as text: what a printer would write for them, with a space after each, and the lexer reads the text back.
  The kinds are all but decimals, whose text is not fixed, and strings with interpolated expressions.
\<close>

definition punct_text :: "'d token_kind \<Rightarrow> string option" where
  "punct_text k = (case k of
     LParen \<Rightarrow> Some ''('' | RParen \<Rightarrow> Some '')'' | LBrace \<Rightarrow> Some ''{'' | RBrace \<Rightarrow> Some ''}''
   | LBracket \<Rightarrow> Some ''['' | RBracket \<Rightarrow> Some '']'' | HashBrace \<Rightarrow> Some ''#{'' | Comma \<Rightarrow> Some '',''
   | Colon \<Rightarrow> Some '':'' | DoubleColon \<Rightarrow> Some ''::'' | Semicolon \<Rightarrow> Some '';'' | Dot \<Rightarrow> Some ''.'' | DotDot \<Rightarrow> Some ''..''
   | Arrow \<Rightarrow> Some ''->'' | FatArrow \<Rightarrow> Some ''=>'' | Pipe \<Rightarrow> Some ''|>'' | Bang \<Rightarrow> Some ''!'' | Question \<Rightarrow> Some ''?''
   | Assign \<Rightarrow> Some ''='' | TEq \<Rightarrow> Some ''=='' | Neq \<Rightarrow> Some ''!='' | Lt \<Rightarrow> Some ''<'' | Gt \<Rightarrow> Some ''>''
   | Lte \<Rightarrow> Some ''<='' | Gte \<Rightarrow> Some ''>='' | TPlus \<Rightarrow> Some ''+'' | TMinus \<Rightarrow> Some ''-'' | Star \<Rightarrow> Some ''*''
   | Slash \<Rightarrow> Some ''/'' | Percent \<Rightarrow> Some ''%'' | PlusAssign \<Rightarrow> Some ''+='' | MinusAssign \<Rightarrow> Some ''-=''
   | StarAssign \<Rightarrow> Some ''*='' | SlashAssign \<Rightarrow> Some ''/='' | PercentAssign \<Rightarrow> Some ''%=''
   | TAnd \<Rightarrow> Some ''&&'' | TOr \<Rightarrow> Some ''||'' | Pipe2 \<Rightarrow> Some ''|'' | _ \<Rightarrow> None)"

definition token_text :: "'d token_kind \<Rightarrow> str" where
  "token_text k = (case k of
     TInt n \<Rightarrow> show_nat (nat n) | TIdent x \<Rightarrow> x | TKeyword w \<Rightarrow> keyword_as_str w | Underscore \<Rightarrow> lit ''_''
   | TStr [PartLiteral s] \<Rightarrow> quote_text s | _ \<Rightarrow> (case punct_text k of Some s \<Rightarrow> lit s | None \<Rightarrow> []))"

text \<open>A name: a word that is neither a keyword nor the wildcard.\<close>

definition name_text :: "'d ext \<Rightarrow> str \<Rightarrow> bool" where
  "name_text X x \<longleftrightarrow> (case x of [] \<Rightarrow> False
     | c # s \<Rightarrow> is_ident_start X c \<and> \<not> is_whitespace c \<and> c \<noteq> chr CHR ''/'' \<and> list_all (is_ident_continue X) s
         \<and> (ident_kind x :: unit token_kind) = TIdent x)"

definition printable :: "'d ext \<Rightarrow> 'd token_kind \<Rightarrow> bool" where
  "printable X k \<longleftrightarrow> (case k of
     TInt n \<Rightarrow> 0 \<le> n | TIdent x \<Rightarrow> name_text X x | TKeyword w \<Rightarrow> True | Underscore \<Rightarrow> True
   | TStr ps \<Rightarrow> (\<exists>s. ps = [PartLiteral s]) | _ \<Rightarrow> punct_text k \<noteq> None)"

definition printed :: "'d token_kind list \<Rightarrow> str" where
  "printed ks = concat (map (\<lambda>k. token_text k @ [32]) ks)"

text \<open>The next token is \<open>k\<close>, and the text behind it is left.\<close>

definition reads_token :: "'d ext \<Rightarrow> lexer \<Rightarrow> 'd token_kind \<Rightarrow> str \<Rightarrow> bool" where
  "reads_token X lx k rest \<longleftrightarrow> kind (fst (next_token X lx)) = k \<and> unread (snd (next_token X lx)) = rest
     \<and> lerrors (snd (next_token X lx)) = lerrors lx"

lemma space_stops [simp]: "\<not> is_ident_continue X 32" "ends_number (32 # r)"
  by (simp_all add: is_ident_continue_def is_alphanumeric_def is_ascii_alphabetic_def is_ascii_digit_def ends_number_def chr_def)

lemma reads_word:
  assumes "is_ident_start X c" "\<not> is_whitespace c" "c \<noteq> chr CHR ''/''" "unread lx = c # s @ 32 # r" "list_all (is_ident_continue X) s"
  shows "reads_token X lx (ident_kind (c # s)) (32 # r)"
proof -
  obtain lx' where "next_token X lx = (token_new (ident_kind (c # s)) (span_new (lpos lx) (lpos lx')), lx')"
    "unread lx' = 32 # r" "lerrors lx' = lerrors lx"
    by (rule next_token_word [OF assms]) simp_all
  then show ?thesis by (simp add: reads_token_def token_new_def)
qed

lemma reads_lower:
  assumes "w \<noteq> []" "list_all (\<lambda>c. 97 \<le> c \<and> c \<le> 122) w" "unread lx = w @ 32 # r"
  shows "reads_token X lx (ident_kind w) (32 # r)"
proof (cases w)
  case (Cons c s)
  then have c: "97 \<le> c" "c \<le> 122" and s: "list_all (is_ident_continue X) s"
    using assms(2) lower_is_word by (auto simp: list_all_iff)
  show ?thesis unfolding Cons by (rule reads_word) (use lower_is_word [OF c, of X] s assms(3) Cons in simp_all)
qed (use assms in simp)

lemma reads_integer:
  assumes n: "0 \<le> n" and u: "unread lx = show_nat (nat n) @ 32 # r"
  shows "reads_token X lx (TInt n) (32 # r)"
proof -
  have all: "list_all is_ascii_digit (show_nat (nat n))" using show_nat_digits by (simp add: list_all_iff)
  then have strip: "strip_underscores (show_nat (nat n)) = show_nat (nat n)"
    by (auto simp: strip_underscores_def list_all_iff is_ascii_digit_def chr_def intro!: filter_True)
  obtain c s where cs: "show_nat (nat n) = c # s" by (cases "show_nat (nat n)") simp_all
  then have c: "is_ascii_digit c" and s: "digit_run s" using all digit_run_digits by simp_all
  have v: "digits_value 10 (strip_underscores (c # s)) = nat n" using strip cs by (metis digits_value_show_nat)
  have u: "unread lx = c # s @ 32 # r" using u cs by simp
  obtain lx' where "next_token X lx =
      (token_new (TInt (int (digits_value 10 (strip_underscores (c # s))))) (span_new (lpos lx) (lpos lx')), lx')"
    "unread lx' = 32 # r" "lerrors lx' = lerrors lx"
    by (rule next_token_integer [OF u c s]) simp_all
  then show ?thesis using n unfolding v by (simp add: reads_token_def token_new_def)
qed

lemma chr_eq [simp]: "chr a = chr b \<longleftrightarrow> a = b"
  by (simp add: chr_def)

lemma space_chr: "(32 :: uchar) = chr CHR '' ''"
  by (simp add: chr_def)

lemma punct_char:
  assumes "punct_text k = Some s" "lit s = c # cs"
  shows "\<not> is_whitespace c \<and> \<not> is_ident_start X c \<and> \<not> is_ascii_digit c \<and> c \<noteq> dquote
     \<and> (c = chr CHR ''/'' \<longrightarrow> hd (cs @ [chr CHR '' '']) \<notin> {chr CHR ''/'', chr CHR ''*''})"
  using assms
  by (cases k; simp only: punct_text_def token_kind.case option.inject option.distinct; hypsubst;
      simp only: lit_Cons lit_Nil list.inject append_Nil append_Cons; elim conjE; hypsubst;
      simp add: chr_def is_whitespace_def is_ident_start_def is_alphabetic_def is_ascii_alphabetic_def is_ascii_digit_def dquote_def)

lemma lex_punct_text:
  assumes "punct_text k = Some s" "lit s = c # cs" "unread lx = cs @ chr CHR '' '' # r"
  shows "\<exists>t lx2. lex_punct start c lx = (Some t, lx2) \<and> kind t = k \<and> unread lx2 = chr CHR '' '' # r \<and> lerrors lx2 = lerrors lx"
  using assms
  apply (cases k; simp only: punct_text_def token_kind.case option.inject option.distinct; hypsubst;
      simp only: lit_Cons lit_Nil list.inject append_Nil append_Cons; elim conjE; hypsubst)
  apply (simp_all add: lex_punct_def if_next_def one_tok_def tok_def token_new_def lex_simps)
  done

lemma reads_punct:
  assumes "punct_text k = Some s" "unread lx = lit s @ 32 # r"
  shows "reads_token X lx k (32 # r)"
proof -
  obtain c cs where s: "lit s = c # cs" using assms(1) by (cases k) (auto simp: punct_text_def lit_def)
  obtain lx1 where b: "bump lx = (Some c, lx1)" and u: "unread lx1 = cs @ 32 # r" and e: "lerrors lx1 = lerrors lx"
    using bump_Cons [of lx c "cs @ 32 # r"] assms(2) s by auto
  have "peek lx1 = Some (hd (cs @ [chr CHR '' '']))" using u by (cases cs) (simp_all add: peek_unread space_chr)
  then have "lex_char X (lpos lx) c lx1 = lex_punct (lpos lx) c lx1"
    using punct_char [OF assms(1) s, of X] by (auto simp: lex_char_def)
  then obtain t lx2 where "lex_char X (lpos lx) c lx1 = (Some t, lx2)" "kind t = k" "unread lx2 = 32 # r" "lerrors lx2 = lerrors lx1"
    using lex_punct_text [OF assms(1) s, of lx1 r "lpos lx"] u e by (auto simp: space_chr)
  then show ?thesis using next_token_token [OF b, of X t lx2] e by (simp add: reads_token_def)
qed

lemma reads_string:
  assumes u: "unread lx = quote_text s @ 32 # r"
  shows "reads_token X lx (TStr [PartLiteral s]) (32 # r)"
proof -
  let ?body = "concat (map escape_char s) @ dquote # 32 # r"
  obtain lx1 where b: "bump lx = (Some dquote, lx1)" and u1: "unread lx1 = ?body" and e1: "lerrors lx1 = lerrors lx"
    using bump_Cons [of lx dquote ?body] u by (auto simp: quote_text_def)
  obtain lx' where l: "string_loop (lpos lx) [] [] lx1 = ([], s, lx')" and u': "unread lx' = 32 # r"
    and e': "lerrors lx' = lerrors lx"
    using string_loop_text [OF u1, of "lpos lx" "[]" "[]"] e1 by auto
  have "\<not> (peek lx1 = Some dquote \<and> peek2 lx1 = Some dquote)"
    using u1 by (cases s) (auto simp: peek_unread peek2_unread escape_char_def char_defs)
  moreover have "finish_string (lpos lx) [] s lx' = token_new (TStr [PartLiteral s]) (span_new (lpos lx) (lpos lx'))"
    by (simp add: finish_string_def flush_def)
  ultimately have "lex_char X (lpos lx) dquote lx1 = (Some (token_new (TStr [PartLiteral s]) (span_new (lpos lx) (lpos lx'))), lx')"
    by (auto simp: lex_char_def lex_string_def l dquote_def is_whitespace_def chr_def
        is_ident_start_def is_alphabetic_def is_ascii_alphabetic_def is_ascii_digit_def)
  then show ?thesis using next_token_token [OF b, of X _ lx'] u' e' by (simp add: reads_token_def token_new_def)
qed

lemma ident_kind_type: "(ident_kind x :: unit token_kind) = TIdent x \<Longrightarrow> (ident_kind x :: 'd token_kind) = TIdent x"
  by (auto simp: ident_kind_def split: if_splits option.splits)

lemma reads_printable:
  assumes "printable X k" "unread lx = token_text k @ 32 # r"
  shows "reads_token X lx k (32 # r)"
proof (cases "punct_text k")
  case (Some s)
  then have "token_text k = lit s" by (cases k) (simp_all add: token_text_def punct_text_def)
  then show ?thesis using Some assms(2) by (simp add: reads_punct)
next
  case None
  then consider n where "k = TInt n" | x where "k = TIdent x" | w where "k = TKeyword w" | "k = Underscore"
    | s where "k = TStr [PartLiteral s]"
    using assms(1) by (cases k) (auto simp: printable_def punct_text_def)
  then show ?thesis
  proof cases
    case (1 n)
    then show ?thesis using assms by (simp add: printable_def token_text_def reads_integer)
  next
    case (2 x)
    then obtain c s where "x = c # s" "is_ident_start X c" "\<not> is_whitespace c" "c \<noteq> chr CHR ''/''"
      "list_all (is_ident_continue X) s" "(ident_kind x :: 'a token_kind) = TIdent x"
      using assms(1) ident_kind_type [of x] by (cases x) (auto simp: printable_def name_text_def)
    then show ?thesis using assms(2) 2 reads_word [of X c lx s r] by (simp add: token_text_def)
  next
    case (3 w)
    then have "reads_token X lx (ident_kind (keyword_as_str w)) (32 # r)"
      using assms(2) keyword_spelling [of w] by (intro reads_lower) (auto simp: token_text_def)
    moreover have "(ident_kind (keyword_as_str w) :: 'a token_kind) = TKeyword w"
      using from_ident_as_str [of w] keyword_spelling [of w] by (auto simp: ident_kind_def lit_def)
    ultimately show ?thesis using 3 by simp
  next
    case 4
    have "reads_token X lx (ident_kind [chr CHR ''_'']) (32 # r)"
      using assms(2) 4 by (intro reads_word) (auto simp: token_text_def lit_def chr_def is_ident_start_def is_whitespace_def)
    then show ?thesis using 4 by (simp add: ident_kind_def lit_def chr_def)
  next
    case (5 s)
    then show ?thesis using assms(2) by (simp add: token_text_def reads_string)
  qed
qed

lemma skip_space: "unread lx = 32 # r \<Longrightarrow> \<exists>lx'. unread lx' = r \<and> lerrors lx' = lerrors lx \<and> next_token X lx = next_token X lx'"
proof -
  assume u: "unread lx = 32 # r"
  obtain lx1 where b: "bump lx = (Some 32, lx1)" "unread lx1 = r" "lerrors lx1 = lerrors lx"
    using bump_Cons [OF u] by metis
  have "lex_char X (lpos lx) 32 lx1 = (None, lx1)" by (simp add: lex_char_def is_whitespace_def)
  then show ?thesis using b next_token_skip [OF b(1)] by auto
qed

lemma token_loop_reads:
  assumes "next_token X lx = next_token X lx1" "reads_token X lx1 k r" "k \<noteq> TEof"
  obtains t lx2 where "token_loop X lx acc = token_loop X lx2 (acc @ [t])" "kind t = k" "unread lx2 = r" "lerrors lx2 = lerrors lx1"
proof -
  obtain t lx2 where n: "next_token X lx1 = (t, lx2)" by fastforce
  then have "token_loop X lx acc = token_loop X lx2 (acc @ [t])"
    using assms by (subst token_loop.simps) (simp add: reads_token_def)
  then show thesis using that [of lx2 t] n assms(2) by (simp add: reads_token_def)
qed

text \<open>Every token after the first one has a space before it.\<close>

lemma token_loop_printed:
  assumes "list_all (printable X) ks" "next_token X lx = next_token X lx1" "unread lx1 = printed ks"
  shows "\<exists>ts lx'. token_loop X lx acc = (acc @ ts, lx') \<and> map kind ts = ks @ [TEof] \<and> lerrors lx' = lerrors lx1"
  using assms
proof (induction ks arbitrary: lx lx1 acc)
  case Nil
  then have "unread lx1 = []" by (simp add: printed_def)
  then obtain lx' where "next_token X lx1 = (token_new TEof (span_at (lpos lx1)), lx')" "lerrors lx' = lerrors lx1"
    by (rule next_token_empty)
  then show ?case using Nil by (subst token_loop.simps) (simp add: token_new_def)
next
  case (Cons k ks)
  have "reads_token X lx1 k (32 # printed ks)"
    using Cons.prems by (intro reads_printable) (auto simp: printed_def)
  moreover have "k \<noteq> TEof" using Cons.prems by (auto simp: printable_def punct_text_def)
  ultimately obtain t lx2 where l: "token_loop X lx acc = token_loop X lx2 (acc @ [t])" "kind t = k"
    "unread lx2 = 32 # printed ks" "lerrors lx2 = lerrors lx1"
    by (rule token_loop_reads [OF Cons.prems(2)])
  obtain lx3 where "unread lx3 = printed ks" "lerrors lx3 = lerrors lx2" "next_token X lx2 = next_token X lx3"
    using skip_space [OF l(3), of X] by auto
  then obtain ts lx' where "token_loop X lx2 (acc @ [t]) = ((acc @ [t]) @ ts, lx')" "map kind ts = ks @ [TEof]" "lerrors lx' = lerrors lx1"
    using Cons.IH [of lx2 lx3 "acc @ [t]"] Cons.prems l(4) by auto
  then show ?case using l by (intro exI [of _ "t # ts"] exI [of _ lx']) simp
qed

lemma tokenize_printed:
  assumes "list_all (printable X) ks"
  shows "map kind (tokens (tokenize X (printed ks))) = ks @ [TEof] \<and> lex_errors (tokenize X (printed ks)) = []"
proof -
  have "unread (lexer_new (printed ks)) = printed ks" by (simp add: lexer_new_def unread_def)
  then show ?thesis
    using token_loop_printed [OF assms refl, of "lexer_new (printed ks)" "[]"]
    by (auto simp: tokenize_def lexer_new_def)
qed

text \<open>
  C20. Printing tokens and lexing the text gives the tokens back, with no diagnostic. The tokens are the names, the
  keywords, the natural numbers, the strings without interpolation, the wildcard, the operators and the punctuation; not
  the decimals.
\<close>

theorem tokens_roundtrip:
  assumes "list_all (printable X) ks"
  shows "map kind (tokens (tokenize X (printed ks))) = ks @ [TEof] \<and> lex_errors (tokenize X (printed ks)) = []"
  using assms by (rule tokenize_printed)

theorem tokens_roundtrip_witness:
  "map kind (tokens (tokenize fixed_ext (lit ''let x_1 = 42 |> '' @ quote_text (lit ''a{b'') @ lit '' ''))) =
     [TKeyword KLet, TIdent (lit ''x_1''), Assign, TInt 42, Pipe, TStr [PartLiteral (lit ''a{b'')], TEof]"
proof -
  let ?ks = "[TKeyword KLet, TIdent (lit ''x_1''), Assign, TInt 42, Pipe, TStr [PartLiteral (lit ''a{b'')]] :: fixed token_kind list"
  have "list_all (printable fixed_ext) ?ks"
    by (simp add: printable_def punct_text_def name_text_def lit_def is_ident_start_def is_ident_continue_def is_alphabetic_def
        is_alphanumeric_def is_ascii_alphabetic_def is_ascii_digit_def is_whitespace_def chr_def ident_kind_def from_ident_def)
  moreover have "printed ?ks = lit ''let x_1 = 42 |> '' @ quote_text (lit ''a{b'') @ lit '' ''"
    by (simp add: printed_def token_text_def punct_text_def lit_def show_nat.simps)
  ultimately show ?thesis using tokens_roundtrip [of fixed_ext ?ks] by simp
qed

end
