(* ===== verification/Parser_Correct.thy ===== *)
theory Parser_Correct
  imports Parser_Reads Lexer_Text
begin

text \<open>
  The parser implements the documented grammar: it reads the tokens of every phrase that needs no parentheses
  as that phrase.
\<close>

section \<open>The tokens of a phrase\<close>

lemma stops_neutral [simp]:
  "stops e RParen" "stops e RBracket" "stops e RBrace" "stops e Comma" "stops e TEof" "stops e Semicolon" "stops e LBrace"
  "stops e Colon"
  by (simp_all add: stops_def strength_def assignment_def level_def)

lemma stops_weaken: "stops e k \<Longrightarrow> e \<le> e' \<Longrightarrow> stops e' k"
  by (auto simp: stops_def split: option.splits)

lemma stops_FatArrow: "stops e k \<Longrightarrow> k \<noteq> FatArrow"
  by (auto simp: stops_def)

definition starter :: "'d token_kind \<Rightarrow> bool" where
  "starter k \<longleftrightarrow> k \<notin> {RParen, RBracket, RBrace, Comma, Semicolon, TEof, FatArrow}"

lemma fringe_starts: "fits t m \<Longrightarrow> fringe t \<noteq> [] \<and> starter (hd (fringe t))"
proof (induction t arbitrary: m)
  case (Atom k)
  then show ?case by (cases k) (auto simp: atom_def starter_def)
qed (auto simp: starter_def split: option.splits)

lemma fringe_not_decl:
  "fits t m \<Longrightarrow> hd (fringe t) \<noteq> TKeyword KShared \<Longrightarrow> \<not> (case hd (fringe t) of TKeyword w \<Rightarrow> is_stmt_start w | _ \<Rightarrow> False)"
proof (induction t arbitrary: m)
  case (Atom k)
  then show ?case by (cases k) (auto simp: atom_def is_stmt_start_def)
qed (auto simp: is_stmt_start_def word_def fringe_starts split: option.splits)

lemma edge_open: "fits t m \<Longrightarrow> hd (fringe t) = TKeyword KIf \<Longrightarrow> \<exists>c y z. t = Cond c y z"
proof (induction t arbitrary: m)
  case (Binary k a b)
  then obtain i where i: "level k = Some i" "fits a m" "stops (edge a) k" by (auto split: option.splits)
  then obtain c y z where "a = Cond c y z"
    using Binary.IH(1) [of m] Binary.prems(2) fringe_starts [of a m] by auto
  then have "edge a \<le> 1" by (auto split: option.splits)
  then show ?case using i(1,3) by (auto simp: stops_def strength_def level_def split: if_splits)
next
  case (Assigns k a b)
  then obtain c y z where "a = Cond c y z"
    using Assigns.IH(1) [of 0] fringe_starts [of a 0] by auto
  then have "edge a \<le> 1" by (auto split: option.splits)
  then show ?case using Assigns.prems(1) by (auto simp: stops_def strength_def level_def assignment_def split: if_splits)
next
  case (Atom k)
  then show ?case by (cases k) (auto simp: atom_def)
qed (use fringe_starts in \<open>fastforce simp: word_def\<close>)+

lemma set_commas: "k \<in> set (commas kss) \<Longrightarrow> k = Comma \<or> (\<exists>ks \<in> set kss. k \<in> set ks)"
  by (induction kss rule: commas.induct) auto

lemma set_commas_fringe: "k \<in> set (commas (map f ts)) \<Longrightarrow> k = Comma \<or> (\<exists>t \<in> set ts. k \<in> set (f t))"
  using set_commas by fastforce

lemma no_arrow: "fits t m \<Longrightarrow> FatArrow \<notin> set (fringe t)"
proof (induction t arbitrary: m)
  case (Atom k)
  then show ?case by (cases k) (auto simp: atom_def)
next
  case (Cond c y z)
  then show ?case by (cases z) auto
qed (auto simp: closing_def list_all_iff level_def assignment_def dest!: set_commas_fringe split: option.splits if_splits)

lemma arrow_params_phrase:
  "map kind ts = us @ RParen # k # ks \<Longrightarrow> FatArrow \<notin> set us \<Longrightarrow> k \<noteq> FatArrow \<Longrightarrow> \<not> arrow_params ts"
proof (induction ts arbitrary: us rule: arrow_params.induct)
  case (1 a b ts)
  show ?case
  proof (cases us)
    case Nil
    then show ?thesis using 1(2) by auto
  next
    case (Cons c vs)
    note c = this
    show ?thesis
    proof (cases vs)
      case Nil
      then show ?thesis using 1(2-) c by (auto split: token_kind.splits list.splits)
    next
      case (Cons d ws)
      then have ts: "map kind ts = ws @ RParen # k # ks" "kind a = c" "kind b = d" using 1(2) c by auto
      have "\<not> arrow_params ts" if "kind a = TIdent x" "kind b = Comma" for x
        using 1(1) [OF that ts(1)] 1(3,4) c Cons by auto
      moreover have "kind (hd ts) \<noteq> FatArrow" if "ts \<noteq> []"
        using ts(1) 1(3) c Cons that by (cases ws; cases ts) auto
      ultimately show ?thesis by (auto split: token_kind.splits list.splits)
    qed
  qed
qed auto

section \<open>The loops read operators\<close>

text \<open>The binding power with which operands of level \<open>m\<close> and above are parsed.\<close>

definition power :: "nat \<Rightarrow> nat \<Rightarrow> bool" where
  "power m b \<longleftrightarrow> m = 0 \<and> b = 0 \<or> 2 \<le> m \<and> m \<le> 8 \<and> b = 2 * m - 2 \<or> m = 8 \<and> b = 15"

lemma power_simps [simp]: "power 0 0" "power 8 15" "1 \<le> i \<Longrightarrow> i \<le> 7 \<Longrightarrow> power (Suc i) (2 * i)"
  by (auto simp: power_def)

lemma level_infix:
  "level k = Some i \<Longrightarrow> 1 \<le> i \<and> i \<le> 7 \<and> (\<exists>oper. infix_of k = Some (2 * i - 1, 2 * i, oper)
     \<and> (\<forall>l r. infix_expr oper l r = binary_expr k l r (span_union (expr_span l) (expr_span r))))"
  by (auto simp: level_def infix_of_def infix_expr_def binary_expr_def Let_def split: if_splits)

lemma level_none: "level k = None \<Longrightarrow> infix_of k = None"
  by (cases k) (auto simp: level_def infix_of_def split: if_splits keyword.splits)

lemma compound_assignment:
  "k \<noteq> Assign \<Longrightarrow> assignment k \<Longrightarrow> \<exists>b. compound_of k = Some b \<and> (\<forall>l r sp. ECompoundAssign b l r sp = assign_expr k l r sp)"
  by (auto simp: assignment_def compound_of_def assign_expr_def)

lemma compound_none: "\<not> assignment k \<Longrightarrow> compound_of k = None"
  by (cases k) (auto simp: assignment_def compound_of_def)

lemma level_not_assignment: "level k = Some i \<Longrightarrow> \<not> assignment k"
  by (auto simp: level_def assignment_def split: if_splits)

lemma assignment_level: "assignment k \<Longrightarrow> level k = None"
  by (auto simp: level_def assignment_def)

lemma round_stops:
  assumes "stops (Suc m) k" "power m b" "P (Inr e)"
  shows "accepts (expr_round R b e) [] (k # ks) P"
proof -
  have a: "\<not> assignment k" if "b = 0"
    using assms(1,2) that by (auto simp: stops_def strength_def power_def assignment_def split: if_splits)
  have "infix_of k = None \<or> (\<exists>l r oper. infix_of k = Some (l, r, oper) \<and> l < b)"
  proof (cases "level k")
    case None
    then show ?thesis using level_none by blast
  next
    case (Some i)
    then have "i < m" using assms(1) level_not_assignment [OF Some]
      by (auto simp: stops_def strength_def level_def split: if_splits)
    then have "2 * i - 1 < b" using assms(2) level_infix [OF Some] by (auto simp: power_def)
    then show ?thesis using level_infix [OF Some] by auto
  qed
  then show ?thesis
    using a compound_none [of k] assms(3) unfolding expr_round_def
    by (intro accepts_peek [where k = k and r = ks]) (auto simp: assignment_def intro!: accepts_ret)
qed

lemma round_binary:
  assumes "level k = Some i" "power m b" "m \<le> i" and us: "us \<noteq> []"
    and r: "accepts (nt_expr R (2 * i)) us ks Q"
  shows "accepts (expr_round R b e) (k # us) ks (\<lambda>r. \<exists>sp e'. r = Inl (binary_expr k e e' sp) \<and> Q e')"
proof -
  obtain oper where o: "1 \<le> i" "i \<le> 7" "infix_of k = Some (2 * i - 1, 2 * i, oper)"
    "\<And>l r. infix_expr oper l r = binary_expr k l r (span_union (expr_span l) (expr_span r))"
    using level_infix [OF assms(1)] by blast
  have b: "\<not> 2 * i - 1 < b" using assms(2,3) o(1,2) by (auto simp: power_def)
  have k: "k \<noteq> Assign" "compound_of k = None"
    using level_not_assignment [OF assms(1)] compound_none by (auto simp: assignment_def)
  have "accepts (thenP bumpP (bindP (nt_expr R (2 * i)) (\<lambda>rhs. retP (Inl (infix_expr oper e rhs))))) (k # us) ks
     (\<lambda>r. \<exists>sp e'. r = Inl (binary_expr k e e' sp) \<and> Q e')"
    by (rule accepts_bump_then)
      (use us o(4) in \<open>auto intro!: accepts_last [OF r] accepts_ret\<close>)
  then show ?thesis
    unfolding expr_round_def by (intro accepts_peek [where k = k and r = "us @ ks"]) (use o b k in auto)
qed

lemma round_assign:
  assumes "assignment k" and us: "us \<noteq> []" and r: "accepts (nt_expr R 0) us ks Q"
  shows "accepts (expr_round R 0 e) (k # us) ks (\<lambda>r. \<exists>sp e'. r = Inl (assign_expr k e e' sp) \<and> Q e')"
proof -
  have rest: "accepts (assign_rest R f) (k # us) ks (\<lambda>r. \<exists>sp e'. r = Inl (assign_expr k e e' sp) \<and> Q e')"
    if "\<And>r sp. f r sp = assign_expr k e r sp" for f
    unfolding assign_rest_def
    by (rule accepts_here, rule accepts_bump_then)
      (use us that in \<open>auto intro!: accepts_last [OF r] accepts_ret accepts_since\<close>)
  show ?thesis
  proof (cases "k = Assign")
    case True
    then show ?thesis
      unfolding expr_round_def
      by (intro accepts_peek [where k = k and r = "us @ ks"]) (use rest [of "EAssign e"] in \<open>auto simp: assign_expr_def\<close>)
  next
    case False
    then obtain b where "compound_of k = Some b" "\<And>l r sp. ECompoundAssign b l r sp = assign_expr k l r sp"
      using compound_assignment assms(1) by blast
    then show ?thesis
      unfolding expr_round_def
      by (intro accepts_peek [where k = k and r = "us @ ks"]) (use rest [of "ECompoundAssign b e"] False in auto)
  qed
qed

lemma postfix_stops:
  "k \<notin> {LParen, LBracket, Dot} \<Longrightarrow> P (Inr e) \<Longrightarrow> accepts (postfix_round R e) [] (k # ks) P"
  unfolding postfix_round_def
  by (rule accepts_peek [where k = k and r = ks]) (cases k; auto intro!: accepts_ret)+

section \<open>Primary expressions\<close>

text \<open>The phrases that the parser reads without a loop.\<close>

primrec simple :: "'d phrase \<Rightarrow> bool" where
  "simple (Atom k) = True"
| "simple (Group t) = True"
| "simple (Items k ts) = True"
| "simple (Braces t) = True"
| "simple (Apply t ts) = False"
| "simple (At t i) = False"
| "simple (Member t x) = False"
| "simple (Method t x ts) = False"
| "simple (Spawns x ts) = True"
| "simple (Unary k t) = False"
| "simple (Binary k a b) = False"
| "simple (Assigns k a b) = False"
| "simple (Word k t) = True"
| "simple (Cond c y z) = True"
| "simple (While c b) = True"
| "simple (Each x c b) = True"

text \<open>
  Parsers of expressions that read the phrases up to a size: what the functions of the parser owe for the phrases of the
  next size.
\<close>

locale reader =
  fixes R :: "'d nonterminals" and N :: nat
  assumes reads: "size t < N \<Longrightarrow> fits t m \<Longrightarrow> power m b \<Longrightarrow> ks \<noteq> [] \<Longrightarrow> stops (min (Suc m) (edge t)) (hd ks)
      \<Longrightarrow> accepts (nt_expr R b) (fringe t) ks (spells t)"
    and reads_if: "size (Cond c y z) < N \<Longrightarrow> fits (Cond c y z) 0 \<Longrightarrow> ks \<noteq> [] \<Longrightarrow> stops (edge (Cond c y z)) (hd ks)
      \<Longrightarrow> accepts (nt_if R sp) (fringe (Cond c y z)) ks (spells (Cond c y z))"
begin

lemma reads0:
  "size t < N \<Longrightarrow> fits t 0 \<Longrightarrow> ks \<noteq> [] \<Longrightarrow> stops (min 1 (edge t)) (hd ks) \<Longrightarrow> accepts (nt_expr R 0) (fringe t) ks (spells t)"
  using reads [of t 0 0 ks] by simp

lemma reads_items:
  assumes "\<And>t. t \<in> set ts \<Longrightarrow> size t < N" "list_all (\<lambda>f. f 0) (map fits ts)" "cl \<in> {RParen, RBracket, RBrace}"
  shows "accepts (items_until cl (nt_expr R 0)) (commas (map fringe ts)) (cl # ks) (list_all2 spells ts)"
proof (rule accepts_items)
  show "\<not> same_kind cl Comma" using assms(3) by (auto simp: same_kind_def)
next
  fix t c ks assume "t \<in> set ts" "c \<in> {Comma, cl}"
  then show "accepts (nt_expr R 0) (fringe t) (c # ks) (spells t)"
    using assms by (intro reads0) (auto simp: list_all_iff)
next
  fix t assume "t \<in> set ts"
  then have "fringe t \<noteq> [] \<and> starter (hd (fringe t))" using assms(2) fringe_starts by (auto simp: list_all_iff)
  then show "fringe t \<noteq> [] \<and> hd (fringe t) \<noteq> cl" using assms(3) by (auto simp: starter_def)
qed

lemma reads_args:
  assumes "\<And>t. t \<in> set ts \<Longrightarrow> size t < N" "list_all (\<lambda>f. f 0) (map fits ts)" "ks \<noteq> []"
  shows "accepts (parse_args R) (commas (map fringe ts) @ [RParen]) ks (list_all2 spells ts)"
  unfolding parse_args_def
  by (rule accepts_bind [where P = "list_all2 spells ts"])
    (use assms reads_items [OF assms(1,2)] in \<open>auto intro!: accepts_expect accepts_ret\<close>)

lemma size_items: "t \<in> set ts \<Longrightarrow> size t < Suc (size_list size ts)"
  by (induction ts) auto

text \<open>The first token selects the case.\<close>

lemma primary_case:
  "(\<And>sp. accepts (parse_keyword R sp w) (TKeyword w # us) ks P) \<Longrightarrow> accepts (parse_primary R) (TKeyword w # us) ks P"
  "(\<And>sp. accepts (parse_paren R sp) (LParen # us) ks P) \<Longrightarrow> accepts (parse_primary R) (LParen # us) ks P"
  "(\<And>sp. accepts (parse_brace_expr R sp) (LBrace # us) ks P) \<Longrightarrow> accepts (parse_primary R) (LBrace # us) ks P"
  "(\<And>sp. accepts (items_expr R sp RBracket ''`]`'' EVecLit) (LBracket # us) ks P) \<Longrightarrow> accepts (parse_primary R) (LBracket # us) ks P"
  "(\<And>sp. accepts (items_expr R sp RBrace ''`}`'' ESetLit) (HashBrace # us) ks P) \<Longrightarrow> accepts (parse_primary R) (HashBrace # us) ks P"
  unfolding parse_primary_def by (rule accepts_here, rule accepts_peek_Cons, simp)+

lemma primary_atom: "atom k \<Longrightarrow> ks \<noteq> [] \<Longrightarrow> accepts (parse_primary R) [k] ks (spells (Atom k))"
  unfolding parse_primary_def
proof (rule accepts_here, rule accepts_peek_Cons, goal_cases)
  case (1 sp)
  have "spells (Atom k) (atom_expr k s)" for s by (rule spells.intros)
  then show ?case using 1
    by (auto simp: atom_def atom_expr_def literalP_def parse_keyword_def keyword_alone_def split: token_kind.splits
        intro!: accepts_bump_then accepts_ret accepts_since)
qed

lemma primary_group:
  assumes "size t < N" "fits t 0" "ks \<noteq> []" "hd ks \<noteq> FatArrow"
  shows "accepts (parse_primary R) (fringe (Group t)) ks (spells (Group t))"
proof -
  have start: "fringe t \<noteq> []" "starter (hd (fringe t))" "FatArrow \<notin> set (fringe t)"
    using fringe_starts no_arrow assms(2) by blast+
  have arrow: "looks_like_arrow_fn p = False" if p: "seen p ((fringe t @ [RParen]) @ ks)" for p :: "'d parser"
  proof -
    have "map kind (drop (ps_idx p) (ps_tokens p)) = fringe t @ RParen # hd ks # tl ks"
      using p assms(3) by (simp add: seen_def)
    moreover have "cur_kind p = hd (fringe t)"
      using p start(1) seen_Cons [of p "hd (fringe t)" "tl (fringe t) @ RParen # ks"]
      by (cases "fringe t") auto
    ultimately show ?thesis
      using arrow_params_phrase start(2,3) assms(4) by (fastforce simp: looks_like_arrow_fn_def starter_def)
  qed
  have inner: "accepts (nt_expr R 0) (fringe t) ([RParen] @ ks) (spells t)"
    using assms by (intro reads0) auto
  have "accepts (parse_paren R sp) (LParen # (fringe t @ [RParen])) ks (spells (Group t))" for sp
    unfolding parse_paren_def
    by (rule accepts_bump_then, simp, rule accepts_test [where v = False], erule arrow, simp, rule accepts_bind [OF inner],
      rule accepts_expect) (use assms(3) in \<open>auto intro!: accepts_since accepts_ret spells.intros\<close>)
  then show ?thesis by (auto intro: primary_case)
qed

lemma primary_items:
  assumes "fits (Items k ts) m" "size (Items k ts) \<le> N" "ks \<noteq> []"
  shows "accepts (parse_primary R) (fringe (Items k ts)) ks (spells (Items k ts))"
proof -
  have "size t < N" if "t \<in> set ts" for t using size_items [OF that] assms(2) by simp
  then have "accepts (items_until cl (nt_expr R 0)) (commas (map fringe ts)) (cl # ks) (list_all2 spells ts)"
    if "cl \<in> {RParen, RBracket, RBrace}" for cl
    using reads_items that assms(1) by simp
  then have "accepts (items_until (closing k) (nt_expr R 0)) (commas (map fringe ts)) (closing k # ks) (list_all2 spells ts)"
    by (simp add: closing_def)
  then have items: "accepts (items_expr R start (closing k) what f) (k # commas (map fringe ts) @ [closing k]) ks Q"
    if "\<And>es sp. list_all2 spells ts es \<Longrightarrow> Q (f es sp)" for start what f Q
    unfolding items_expr_def
    by (intro accepts_bump_then accepts_bind [where P = "list_all2 spells ts"])
      (use that assms(3) in \<open>auto intro!: accepts_expect accepts_since accepts_ret\<close>)
  from assms(1) consider "k = LBracket" | "k = HashBrace" by auto
  then show ?thesis
  proof cases
    case 1
    then show ?thesis using items by (simp add: closing_def primary_case(4) spells.intros)
  next
    case 2
    then show ?thesis using items by (simp add: closing_def primary_case(5) spells.intros)
  qed
qed

lemma primary_braces:
  assumes "size t < N" "fits (Braces t) m" "ks \<noteq> []"
  shows "accepts (parse_primary R) (fringe (Braces t)) ks (spells (Braces t))"
proof -
  obtain k us where k: "fringe t = k # us" "starter k" "k \<noteq> TKeyword KShared"
    using fringe_starts [of t 0] assms(2) by (cases "fringe t") auto
  have decl: "\<not> (case k of TKeyword w \<Rightarrow> is_stmt_start w | _ \<Rightarrow> False)"
    using fringe_not_decl [of t 0] k assms(2) by simp
  have inner: "accepts (nt_expr R 0) (fringe t) ([RBrace] @ ks) (spells t)"
    using assms by (intro reads0) auto
  have tail: "accepts (single_tail sp e) [RBrace] ks (spells (Braces t))" if "spells t e" for sp e
    unfolding single_tail_def
    by (rule accepts_expect) (use assms(3) that in \<open>auto intro!: accepts_since accepts_ret spells.intros\<close>)
  have "accepts (parse_brace_expr R sp) (LBrace # (fringe t @ [RBrace])) ks (spells (Braces t))" for sp
    unfolding parse_brace_expr_def
  proof (rule accepts_bump_then, simp)
    let ?f = "\<lambda>first. bindP peekP (\<lambda>c'.
       if c' = Colon then finish_map R sp first
       else if c' = Semicolon then thenP bumpP (finish_block R sp [SSemi first])
       else if c' = RBrace then single_tail sp first
       else thenP (bindP hereP (\<lambda>s. errorP s (expected_text ''`;` or `}` in block'' c'))) (single_tail sp first))"
    have "accepts (bindP (nt_expr R 0) ?f) (fringe t @ [RBrace]) ks (spells (Braces t))"
      by (rule accepts_bind [OF inner], rule accepts_peek_Cons) (simp add: tail)
    then show "accepts (bindP peekP (\<lambda>c.
     if c = RBrace then thenP bumpP (bindP (sinceP sp) (\<lambda>s. retP (EMapLit [] s)))
     else if (case c of TKeyword k \<Rightarrow> is_stmt_start k | _ \<Rightarrow> False) then finish_block R sp []
     else bindP (nt_expr R 0) ?f)) (fringe t @ [RBrace]) ks (spells (Braces t))"
      unfolding k(1) append_Cons
      by (intro accepts_peek_Cons) (use k(2) decl in \<open>simp add: starter_def\<close>)
  qed
  then show ?thesis by (auto intro: primary_case)
qed

lemma primary_spawns:
  assumes "\<And>t. t \<in> set ts \<Longrightarrow> size t < N" "fits (Spawns x ts) m" "ks \<noteq> []"
  shows "accepts (parse_primary R) (fringe (Spawns x ts)) ks (spells (Spawns x ts))"
proof -
  have args: "accepts (parse_args R) (commas (map fringe ts) @ [RParen]) ks (list_all2 spells ts)"
    using assms by (intro reads_args) auto
  have "accepts (parse_keyword R sp KSpawn) (fringe (Spawns x ts)) ks (spells (Spawns x ts))" for sp
    unfolding parse_keyword_def keyword.case parse_spawn_def fringe.simps
    by (rule accepts_bump_then, simp, rule accepts_ident, simp, rule accepts_expect, simp, rule accepts_last [OF args])
      (auto intro!: accepts_since accepts_ret spells.intros)
  then show ?thesis by (auto intro: primary_case)
qed

lemma primary_word:
  assumes "size t < N" "fits (Word w t) m" "ks \<noteq> []" "stops (min 1 (edge t)) (hd ks)"
  shows "accepts (parse_primary R) (fringe (Word w t)) ks (spells (Word w t))"
proof -
  have inner: "accepts (nt_expr R 0) (fringe t) ks (spells t)" using assms by (intro reads0) auto
  have w: "word w" using assms(2) by simp
  obtain k us where k: "fringe t = k # us" "starter k" using fringe_starts [of t 0] assms(2) by (cases "fringe t") auto
  have plain: "accepts (keyword_expr R sp f) (TKeyword w # fringe t) ks (spells (Word w t))"
    if "\<And>e s. f e s = word_expr w e s" for sp f
    unfolding keyword_expr_def
    by (rule accepts_bump_then, simp add: k(1), rule accepts_last [OF inner])
      (auto intro!: accepts_since accepts_ret spells.intros simp: that)
  have "\<not> ends_value (cur_kind p)" if "seen p (fringe t @ ks)" for p :: "'d parser"
    using seen_Cons [of p k "us @ ks"] that k by (auto simp: ends_value_def starter_def)
  then have opt: "accepts (optP (getP (\<lambda>p. \<not> ends_value (cur_kind p))) (nt_expr R 0)) (fringe t) ks
     (\<lambda>v. \<exists>e. v = Some e \<and> spells t e)"
    unfolding optP_def
    by (intro accepts_test [where v = True] accepts_last [OF inner]) (auto intro: accepts_ret accepts_last [OF inner])
  have option: "accepts (keyword_option R sp f) (TKeyword w # fringe t) ks (spells (Word w t))"
    if "\<And>e s. f (Some e) s = word_expr w e s" for sp f
    unfolding keyword_option_def
    by (rule accepts_bump_then, simp add: k(1), rule accepts_last [OF opt])
      (auto intro!: accepts_since accepts_ret spells.intros simp: that)
  have "accepts (parse_keyword R sp w) (TKeyword w # fringe t) ks (spells (Word w t))" for sp
    using w plain [of ERaise sp] plain [of EReply sp] plain [of EAwait sp] plain [of ESharedExpr sp] plain [of ETransact sp]
      plain [of ELoop sp] option [of EReturn sp] option [of EBreak sp]
    by (auto simp: word_def parse_keyword_def word_expr_def)
  then show ?thesis by (auto intro: primary_case)
qed

lemma reads_branch:
  assumes "size t < N" "fits t 0" "ks \<noteq> []" "stops (min 1 (edge t)) (hd ks)"
  shows "accepts (bindP peekP (\<lambda>c. if c = TKeyword KIf then bindP hereP (nt_if R) else nt_expr R 0)) (fringe t) ks (spells t)"
proof -
  obtain k us where k: "fringe t = k # us" using fringe_starts [of t 0] assms(2) by (cases "fringe t") auto
  have "accepts (bindP hereP (nt_if R)) (fringe t) ks (spells t)" if kif: "k = TKeyword KIf"
  proof -
    obtain c y z where "t = Cond c y z" using edge_open [of t 0] assms(2) k kif by auto
    then show ?thesis using reads_if assms stops_weaken [OF assms(4), of "edge t"] by (intro accepts_here) auto
  qed
  moreover have "accepts (nt_expr R 0) (fringe t) ks (spells t)" using assms by (rule reads0)
  ultimately show ?thesis unfolding k by (intro accepts_peek_Cons) auto
qed

lemma reads_then:
  assumes "size t < N" "fits t 0" "vs @ ks \<noteq> []" "stops (min 1 (edge t)) (hd (vs @ ks))"
    and "\<And>e. spells t e \<Longrightarrow> accepts (f e) vs ks P"
  shows "accepts (bindP (nt_expr R 0) f) (fringe t @ vs) ks P"
  by (rule accepts_bind [OF reads0]) (use assms in auto)

lemma parse_if_reads:
  assumes "size (Cond c y z) \<le> N" "fits (Cond c y z) 0" "ks \<noteq> []" "stops (edge (Cond c y z)) (hd ks)"
  shows "accepts (parse_if R sp) (fringe (Cond c y z)) ks (spells (Cond c y z))"
proof -
  define vs where "vs = (case z of None \<Rightarrow> [] | Some t \<Rightarrow> TKeyword KElse # fringe t)"
  have y: "fringe y \<noteq> []" using fringe_starts [of y 0] assms(2) by simp
  let ?opt = "optP (eat_kwP KElse) (bindP peekP (\<lambda>c. if c = TKeyword KIf then bindP hereP (nt_if R) else nt_expr R 0))"
  have opt: "accepts ?opt vs ks (rel_option spells z)"
  proof (cases z)
    case None
    then have "hd ks \<noteq> TKeyword KElse" using assms(4) by (auto simp: stops_def strength_def)
    then show ?thesis
      using None assms(3) unfolding optP_def vs_def
      by (auto intro!: accepts_eat_kw_no [where c = "hd ks" and r = "tl ks"] accepts_ret)
  next
    case (Some t)
    then have branch: "accepts (bindP peekP (\<lambda>c. if c = TKeyword KIf then bindP hereP (nt_if R) else nt_expr R 0)) (fringe t) ks (spells t)"
      using assms by (intro reads_branch) auto
    then show ?thesis
      using Some assms(3) unfolding optP_def vs_def
      by (auto intro!: accepts_eat_kw_yes accepts_ret accepts_last [OF branch])
  qed
  have ys: "vs @ ks \<noteq> []" "stops (min 1 (edge y)) (hd (vs @ ks))"
    using assms stops_weaken [OF assms(4), of "min 1 (edge y)"] by (auto simp: vs_def split: option.splits)
  have "accepts (parse_if R sp) (TKeyword KIf # (fringe c @ (fringe y @ vs))) ks (spells (Cond c y z))"
    unfolding parse_if_def
    by (rule accepts_bump_then, simp add: y, rule reads_then, (use assms y in simp_all)[4], rule reads_then,
      (use assms ys in simp_all)[4], rule accepts_last [OF opt]) (auto intro!: accepts_since accepts_ret spells.intros)
  moreover have "fringe (Cond c y z) = TKeyword KIf # (fringe c @ (fringe y @ vs))"
    by (auto simp: vs_def split: option.splits)
  ultimately show ?thesis by simp
qed

lemma parse_while_reads:
  assumes "size (While c b) \<le> N" "fits (While c b) m" "ks \<noteq> []" "stops (edge (While c b)) (hd ks)"
  shows "accepts (parse_while R sp) (fringe (While c b)) ks (spells (While c b))"
proof -
  have b: "fringe b \<noteq> []" using fringe_starts [of b 0] assms(2) by simp
  have body: "accepts (nt_expr R 0) (fringe b) ks (spells b)" using assms by (intro reads0) auto
  show ?thesis
    unfolding parse_while_def fringe.simps
    by (rule accepts_bump_then, simp add: b, rule reads_then, (use assms b in simp_all)[4], rule accepts_last [OF body])
      (auto intro!: accepts_since accepts_ret spells.intros)
qed

lemma parse_for_reads:
  assumes "size (Each x c b) \<le> N" "fits (Each x c b) m" "ks \<noteq> []" "stops (edge (Each x c b)) (hd ks)"
  shows "accepts (parse_for R sp) (fringe (Each x c b)) ks (spells (Each x c b))"
proof -
  have b: "fringe b \<noteq> []" using fringe_starts [of b 0] assms(2) by simp
  have body: "accepts (nt_expr R 0) (fringe b) ks (spells b)" using assms by (intro reads0) auto
  have kw: "accepts (thenP (expect_kwP KIn w) n) (TKeyword KIn # us) ks P" if "us \<noteq> []" "accepts n us ks P" for w n us P
  proof -
    have "accepts (expect_kwP KIn w) [TKeyword KIn] (us @ ks) (\<lambda>_. True)"
      unfolding expect_kwP_def by (rule accepts_eat_kw_yes) (use that in \<open>auto intro: accepts_ret\<close>)
    then show ?thesis
      using accepts_bind [of _ "[TKeyword KIn]" us ks "\<lambda>_. True" "\<lambda>_. n" P] that by (simp add: thenP_def)
  qed
  show ?thesis
    unfolding parse_for_def fringe.simps
    by (rule accepts_bump_then, simp, rule accepts_ident, simp, rule kw, simp add: b, rule reads_then,
      (use assms b in simp_all)[4], rule accepts_last [OF body]) (auto intro!: accepts_since accepts_ret spells.intros)
qed

lemma primary_reads:
  assumes "simple t" "fits t m" "size t \<le> N" "ks \<noteq> []" "hd ks \<noteq> FatArrow" "closed t \<or> stops (edge t) (hd ks)"
  shows "accepts (parse_primary R) (fringe t) ks (spells t)"
proof (cases t)
  case (Atom k)
  then show ?thesis using assms by (simp add: primary_atom)
next
  case (Group u)
  then show ?thesis using assms by (intro primary_group [of u, folded Group]) auto
next
  case (Items k ts)
  then show ?thesis using assms primary_items [of k ts m ks] by simp
next
  case (Braces u)
  then show ?thesis using assms primary_braces [of u m ks] by simp
next
  case (Spawns x ts)
  then show ?thesis using assms primary_spawns [of ts x m ks] size_items by fastforce
next
  case (Word w u)
  then show ?thesis using assms primary_word [of u w m ks] by simp
next
  case (Cond c y z)
  then have "accepts (parse_if R sp) (fringe t) ks (spells t)" for sp
    using assms parse_if_reads [of c y z ks] by simp
  then show ?thesis using Cond by (auto intro!: primary_case simp: parse_keyword_def)
next
  case (While c b)
  then have "accepts (parse_while R sp) (fringe t) ks (spells t)" for sp
    using assms parse_while_reads [of c b m ks] by simp
  then show ?thesis using While by (auto intro!: primary_case simp: parse_keyword_def)
next
  case (Each x c b)
  then have "accepts (parse_for R sp) (fringe t) ks (spells t)" for sp
    using assms parse_for_reads [of x c b m ks] by simp
  then show ?thesis using Each by (auto intro!: primary_case simp: parse_keyword_def)
qed (use assms in auto)

section \<open>Loops over the left spine\<close>

text \<open>One turn of the loop reads one call, index or field.\<close>

lemma round_apply:
  assumes "\<And>u. u \<in> set ts \<Longrightarrow> size u < N" "list_all (\<lambda>f. f 0) (map fits ts)" "ks \<noteq> []" "spells t e"
  shows "accepts (postfix_round R e) (LParen # commas (map fringe ts) @ [RParen]) ks (\<lambda>r. \<exists>e'. r = Inl e' \<and> spells (Apply t ts) e')"
  unfolding postfix_round_def
  by (rule accepts_peek_Cons, simp, rule accepts_bump_then, simp, rule accepts_last [OF reads_args], (use assms in simp_all)[3],
    rule accepts_since, rule accepts_ret) (use assms(4) in \<open>auto intro!: spells.intros\<close>)

lemma round_at:
  assumes "size i < N" "fits i 0" "ks \<noteq> []" "spells t e"
  shows "accepts (postfix_round R e) (LBracket # fringe i @ [RBracket]) ks (\<lambda>r. \<exists>e'. r = Inl e' \<and> spells (At t i) e')"
  unfolding postfix_round_def
  by (rule accepts_peek_Cons, simp, rule accepts_bump_then, simp, rule reads_then, (use assms in simp_all)[4],
    rule accepts_expect, use assms in simp, rule accepts_since, rule accepts_ret)
   (use assms in \<open>auto intro!: spells.intros\<close>)

lemma round_dot:
  assumes "us \<noteq> []" "accepts (member_rest R e) us ks (spells u)"
  shows "accepts (postfix_round R e) (Dot # us) ks (\<lambda>r. \<exists>e'. r = Inl e' \<and> spells u e')"
  unfolding postfix_round_def
  by (rule accepts_peek_Cons, simp, rule accepts_bump_then, simp add: assms, rule accepts_last [OF assms(2)]) (auto intro: accepts_ret)

lemma member_named:
  assumes "us @ ks \<noteq> []" "accepts (f x) us ks P"
  shows "accepts (bindP member_name f) (TIdent x # us) ks P"
proof -
  have "accepts member_name [TIdent x] (us @ ks) (\<lambda>y. y = x)"
    unfolding member_name_def
    by (rule accepts_peek_Cons) (use assms in \<open>auto intro!: accepts_bump_then accepts_ret\<close>)
  then show ?thesis
    using accepts_bind [of member_name "[TIdent x]" us ks "\<lambda>y. y = x" f P] assms(2) by simp
qed

lemma round_member:
  assumes "ks \<noteq> []" "hd ks \<noteq> LParen" "spells t e"
  shows "accepts (postfix_round R e) [Dot, TIdent x] ks (\<lambda>r. \<exists>e'. r = Inl e' \<and> spells (Member t x) e')"
proof (rule round_dot)
  have "\<not> same_kind (hd ks) LParen" using assms(2) by (cases "hd ks") (auto simp: same_kind_def)
  then show "accepts (member_rest R e) [TIdent x] ks (spells (Member t x))"
    unfolding member_rest_def
    by (intro member_named accepts_eat_no [where c = "hd ks" and r = "tl ks"])
      (use assms in \<open>auto intro!: accepts_since accepts_ret spells.intros\<close>)
qed simp

lemma round_method:
  assumes "\<And>u. u \<in> set ts \<Longrightarrow> size u < N" "list_all (\<lambda>f. f 0) (map fits ts)" "ks \<noteq> []" "spells t e"
  shows "accepts (postfix_round R e) (Dot # TIdent x # LParen # commas (map fringe ts) @ [RParen]) ks
     (\<lambda>r. \<exists>e'. r = Inl e' \<and> spells (Method t x ts) e')"
proof (rule round_dot)
  have args: "accepts (parse_args R) (commas (map fringe ts) @ [RParen]) ks (list_all2 spells ts)"
    using assms by (intro reads_args) auto
  show "accepts (member_rest R e) (TIdent x # LParen # commas (map fringe ts) @ [RParen]) ks (spells (Method t x ts))"
    unfolding member_rest_def
    by (rule member_named, simp, rule accepts_eat_yes, simp, simp, simp, rule accepts_last [OF args])
      (use assms(4) in \<open>auto intro!: accepts_since accepts_ret spells.intros\<close>)
qed simp

text \<open>
  A phrase is read up to its left spine; what follows is a run of the loop from every expression
  of the phrase.
\<close>

lemma spine_step:
  assumes "\<And>e. spells t e \<Longrightarrow> accepts (f e) us (vs @ ks) (\<lambda>r. \<exists>e'. r = Inl e' \<and> spells u e')" "us \<noteq> []"
    and "\<And>e. spells u e \<Longrightarrow> runs f ks P e vs" and "spells t e"
  shows "runs f ks P e (us @ vs)"
  by (rule runs.continues [OF assms(2)], rule accepts_weaken [OF assms(1)]) (use assms in auto)

lemma postfix_spine:
  assumes "closed t" "fits t m" "size t \<le> N" "vs @ ks \<noteq> []" "hd (vs @ ks) \<noteq> FatArrow" "is_Member t \<Longrightarrow> hd (vs @ ks) \<noteq> LParen"
    and "\<And>e. spells t e \<Longrightarrow> runs (postfix_round R) ks P e vs"
  shows "accepts (parse_postfix R) (fringe t @ vs) ks P"
  using assms
proof (induction t arbitrary: vs)
  case (Apply t ts)
  have small: "\<And>u. u \<in> set ts \<Longrightarrow> size u < N" using Apply.prems(3) size_items by fastforce
  have "runs (postfix_round R) ks P e ((LParen # commas (map fringe ts) @ [RParen]) @ vs)" if "spells t e" for e
    by (rule spine_step [OF round_apply _ Apply.prems(7) that]) (use small Apply.prems in auto)
  then show ?case using Apply.IH(1) Apply.prems by simp
next
  case (At t i)
  have "runs (postfix_round R) ks P e ((LBracket # fringe i @ [RBracket]) @ vs)" if "spells t e" for e
    by (rule spine_step [OF round_at _ At.prems(7) that]) (use At.prems in auto)
  then show ?case using At.IH(1) At.prems by simp
next
  case (Member t x)
  have "runs (postfix_round R) ks P e ([Dot, TIdent x] @ vs)" if "spells t e" for e
    by (rule spine_step [OF round_member _ Member.prems(7) that]) (use Member.prems in auto)
  then show ?case using Member.IH(1) Member.prems by simp
next
  case (Method t x ts)
  have small: "\<And>u. u \<in> set ts \<Longrightarrow> size u < N" using Method.prems(3) size_items by fastforce
  have "runs (postfix_round R) ks P e ((Dot # TIdent x # LParen # commas (map fringe ts) @ [RParen]) @ vs)" if "spells t e" for e
    by (rule spine_step [OF round_method _ Method.prems(7) that]) (use small Method.prems in auto)
  then show ?case using Method.IH(1) Method.prems by simp
next
  case (Atom k)
  show ?case unfolding parse_postfix_def
    by (rule accepts_bind [OF primary_reads accepts_loop]) (use Atom in auto)
next
  case (Group t)
  show ?case unfolding parse_postfix_def
    by (rule accepts_bind [OF primary_reads accepts_loop]) (use Group in auto)
next
  case (Items k t)
  show ?case unfolding parse_postfix_def
    by (rule accepts_bind [OF primary_reads accepts_loop]) (use Items in auto)
next
  case (Braces t)
  show ?case unfolding parse_postfix_def
    by (rule accepts_bind [OF primary_reads accepts_loop]) (use Braces in auto)
next
  case (Spawns x t)
  show ?case unfolding parse_postfix_def
    by (rule accepts_bind [OF primary_reads accepts_loop]) (use Spawns in auto)
qed auto

lemma postfix_reads:
  assumes "closed t \<or> simple t" "fits t m" "size t \<le> N" "ks \<noteq> []" "stops (edge t) (hd ks)"
  shows "accepts (parse_postfix R) (fringe t) ks (spells t)"
proof -
  have ks: "hd ks \<notin> {LParen, LBracket, Dot, FatArrow}" "ks = hd ks # tl ks" using assms(4,5) by (simp_all add: stops_def)
  have run: "runs (postfix_round R) ks (spells t) e []" if "spells t e" for e
    by (rule runs.finishes, subst ks(2), rule postfix_stops) (use ks that in auto)
  have "accepts (parse_postfix R) (fringe t @ []) ks (spells t)"
  proof (cases "closed t")
    case True
    then show ?thesis by (rule postfix_spine) (use assms ks run in auto)
  next
    case False
    then show ?thesis unfolding parse_postfix_def
      by (intro accepts_bind [OF primary_reads accepts_loop]) (use assms ks run in auto)
  qed
  then show ?thesis by simp
qed

lemma not_prefix: "closed t \<or> simple t \<Longrightarrow> fits t m \<Longrightarrow> hd (fringe t) \<notin> {TMinus, TKeyword KNot}"
proof (induction t arbitrary: m)
  case (Atom k)
  then show ?case by (cases k) (auto simp: atom_def)
qed (auto simp: fringe_starts word_def)

lemma prefix_reads:
  assumes "closed t \<or> simple t" "fits t m" "size t \<le> N" "ks \<noteq> []" "stops (edge t) (hd ks)"
  shows "accepts (parse_prefix R) (fringe t) ks (spells t)"
proof -
  obtain k us where k: "fringe t = k # us" using fringe_starts assms(2) by (cases "fringe t") auto
  show ?thesis
    unfolding parse_prefix_def k
    by (rule accepts_here, rule accepts_peek_Cons) (use postfix_reads [OF assms] not_prefix [OF assms(1,2)] k in auto)
qed

lemma edge_le: "edge t \<le> 9"
  by (induction t) (auto split: option.splits)

lemma unary_reads:
  assumes "fits (Unary k t) m" "size t < N" "ks \<noteq> []" "stops (edge t) (hd ks)"
  shows "accepts (parse_prefix R) (fringe (Unary k t)) ks (spells (Unary k t))"
proof -
  have inner: "accepts (nt_expr R 15) (fringe t) ks (spells t)"
    using assms edge_le [of t] by (intro reads [where m = 8]) (auto simp: min_def)
  have t: "fringe t \<noteq> []" using fringe_starts [of t 8] assms(1) by simp
  have "accepts (prefix_expr R start (if k = TMinus then UNeg else UNot)) (k # fringe t) ks (spells (Unary k t))" for start
    unfolding prefix_expr_def
    by (rule accepts_bump_then, simp add: t, rule accepts_last [OF inner], rule accepts_since, rule accepts_ret)
      (rule spells.intros)
  then show ?thesis
    unfolding parse_prefix_def fringe.simps
    by (intro accepts_here accepts_peek_Cons) (use assms(1) in auto)
qed

lemma simple_spine:
  assumes "closed t \<or> simple t" "fits t m" "size t \<le> N" "vs @ ks \<noteq> []" "stops (edge t) (hd (vs @ ks))"
    and "\<And>e. spells t e \<Longrightarrow> runs (expr_round R b) ks P e vs"
  shows "accepts (parse_expr R b) (fringe t @ vs) ks P"
  unfolding parse_expr_def by (rule accepts_bind [OF prefix_reads accepts_loop]) (use assms in auto)

lemma expr_spine:
  assumes "fits t m" "power m b" "size t \<le> N" "vs @ ks \<noteq> []" "stops (edge t) (hd (vs @ ks))"
    and "\<And>e. spells t e \<Longrightarrow> runs (expr_round R b) ks P e vs"
  shows "accepts (parse_expr R b) (fringe t @ vs) ks P"
  using assms
proof (induction t arbitrary: vs)
  case (Binary k l r)
  then obtain i where i: "level k = Some i" "m \<le> i" "fits l m" "stops (edge l) k" "fits r (Suc i)"
    by (auto split: option.splits)
  have inner: "accepts (nt_expr R (2 * i)) (fringe r) (vs @ ks) (spells r)"
    by (rule reads [OF _ i(5)]) (use Binary.prems i(1) level_infix [OF i(1)] in auto)
  have "fringe r \<noteq> []" using fringe_starts [OF i(5)] by simp
  then have round: "accepts (expr_round R b e) (k # fringe r) (vs @ ks) (\<lambda>a. \<exists>e'. a = Inl e' \<and> spells (Binary k l r) e')"
    if "spells l e" for e
    by (rule accepts_weaken [OF round_binary [OF i(1) Binary.prems(2) i(2) _ inner]]) (use that in \<open>auto intro: spells.intros\<close>)
  have "runs (expr_round R b) ks P e ((k # fringe r) @ vs)" if "spells l e" for e
    by (rule spine_step [OF round _ Binary.prems(6) that]) simp_all
  then show ?case using Binary.IH(1) Binary.prems i by simp
next
  case (Assigns k l r)
  then have i: "assignment k" "m = 0" "b = 0" "fits l 0" "stops (edge l) k" "fits r 0" by (auto simp: power_def)
  have inner: "accepts (nt_expr R 0) (fringe r) (vs @ ks) (spells r)"
    by (rule reads0) (use Assigns.prems i in auto)
  have "fringe r \<noteq> []" using fringe_starts [OF i(6)] by simp
  then have round: "accepts (expr_round R b e) (k # fringe r) (vs @ ks) (\<lambda>a. \<exists>e'. a = Inl e' \<and> spells (Assigns k l r) e')"
    if "spells l e" for e
    unfolding i(3) by (rule accepts_weaken [OF round_assign [OF i(1) _ inner]]) (use that in \<open>auto intro: spells.intros\<close>)
  have "runs (expr_round R b) ks P e ((k # fringe r) @ vs)" if "spells l e" for e
    by (rule spine_step [OF round _ Assigns.prems(6) that]) simp_all
  then show ?case using Assigns.IH(1) Assigns.prems i by simp
next
  case (Unary k t)
  show ?case unfolding parse_expr_def
    by (rule accepts_bind [OF unary_reads accepts_loop]) (use Unary in auto)
qed (rule simple_spine, simp, assumption, assumption, assumption, assumption, blast)+

lemma expr_reads:
  assumes "fits t m" "power m b" "size t \<le> N" "ks \<noteq> []" "stops (min (Suc m) (edge t)) (hd ks)"
  shows "accepts (parse_expr R b) (fringe t) ks (spells t)"
proof -
  have "runs (expr_round R b) ks (spells t) e []" if "spells t e" for e
  proof (rule runs.finishes)
    have "accepts (expr_round R b e) [] (hd ks # tl ks) (\<lambda>r. \<exists>a. r = Inr a \<and> spells t a)"
      by (rule round_stops [OF _ assms(2)]) (use that stops_weaken [OF assms(5), of "Suc m"] in auto)
    then show "accepts (expr_round R b e) [] ks (\<lambda>r. \<exists>a. r = Inr a \<and> spells t a)" using assms(4) by simp
  qed
  then have "accepts (parse_expr R b) (fringe t @ []) ks (spells t)"
    using assms stops_weaken [OF assms(5), of "edge t"] by (intro expr_spine) auto
  then show ?thesis by simp
qed

end

theorem parsers_reader: "reader (parsers X n) n"
proof (induction n)
  case 0
  show ?case by unfold_locales auto
next
  case (Suc n)
  show ?case
    using reader.expr_reads [OF Suc] reader.parse_if_reads [OF Suc]
    by unfold_locales (simp_all add: Let_def less_Suc_eq_le)
qed

interpretation reading: reader "parsers X n" n for X n
  by (rule parsers_reader)

section \<open>Programs of expressions\<close>

text \<open>Statements that are phrases, each ended by a semicolon, and a last phrase without one.\<close>

definition script :: "'d phrase list \<Rightarrow> 'd phrase \<Rightarrow> 'd token_kind list" where
  "script ts t = concat (map (\<lambda>u. fringe u @ [Semicolon]) ts) @ fringe t"

text \<open>A phrase that a statement may start with: \<open>shared\<close> there may start a declaration.\<close>

definition fits_stmt :: "'d phrase \<Rightarrow> bool" where
  "fits_stmt t \<longleftrightarrow> fits t 0 \<and> hd (fringe t) \<noteq> TKeyword KShared"

definition states :: "'d phrase \<Rightarrow> bool \<Rightarrow> 'd stmt \<Rightarrow> bool" where
  "states t semi s \<longleftrightarrow> (\<exists>e. s = (if semi then SSemi e else SExpr e) \<and> spells t e)"

lemma stmt_reads:
  assumes "fits_stmt t" "size t < n" "us = (if semi then [Semicolon] else [])" "ks \<noteq> []" "\<not> semi \<Longrightarrow> hd ks = TEof"
  shows "accepts (nt_stmt (parsers X (Suc n))) (fringe t @ us) ks (states t semi)"
proof -
  have "accepts (bindP (eatP Semicolon) (\<lambda>b. retP (if b then SSemi e else SExpr e))) us ks (states t semi)" if "spells t e" for e
  proof (cases semi)
    case True
    then show ?thesis using assms(3,4) that by (auto intro!: accepts_eat_yes accepts_ret simp: states_def)
  next
    case False
    then have "ks = TEof # tl ks" using assms(4,5) by (metis list.collapse)
    then show ?thesis
      using False assms(3) that
      by (auto intro!: accepts_eat_no [where c = TEof and r = "tl ks"] accepts_ret simp: states_def same_kind_def)
  qed
  then have expr: "accepts (parse_expr_stmt (parsers X n)) (fringe t @ us) ks (states t semi)"
    unfolding parse_expr_stmt_def
    by (intro reading.reads_then) (use assms in \<open>auto simp: fits_stmt_def\<close>)
  obtain k r where k: "fringe t = k # r" using fringe_starts [of t 0] assms(1) by (cases "fringe t") (auto simp: fits_stmt_def)
  have decl: "\<not> (case k of TKeyword w \<Rightarrow> is_stmt_start w | _ \<Rightarrow> False)"
    using fringe_not_decl [of t 0] k assms(1) by (simp add: fits_stmt_def)
  have "accepts (parse_stmt (parsers X n)) (k # r @ us) ks (states t semi)"
    unfolding parse_stmt_def
    by (rule accepts_here, rule accepts_peek_Cons)
      (use expr decl k in \<open>auto simp: parse_stmt_keyword_def is_stmt_start_def split: token_kind.splits keyword.splits\<close>)
  then show ?thesis by (simp add: Let_def k)
qed

lemma round_stmt:
  assumes "accepts (nt_stmt R) us ks P" "us \<noteq> []" "starter (hd us)"
  shows "accepts (stmt_round R True acc) us ks (\<lambda>r. \<exists>s. r = Inl (acc @ [s]) \<and> P s)"
proof -
  have us: "us @ ks = hd us # tl us @ ks" using assms(2) by simp
  have hd: "hd us \<noteq> Semicolon" "hd us \<noteq> TEof" using assms(3) by (simp_all add: starter_def)
  have "accepts (semis_round ()) [] (us @ ks) (\<lambda>r. \<exists>a. r = Inr a \<and> True)"
    unfolding semis_round_def
    by (rule accepts_peek [where k = "hd us" and r = "tl us @ ks"]) (use us hd in \<open>auto intro: accepts_ret\<close>)
  then have semis: "accepts (loopP semis_round ()) [] (us @ ks) (\<lambda>_. True)"
    by (intro accepts_loop runs.finishes)
  have "accepts (handleP (nt_stmt R) (\<lambda>s. retP (Inl (acc @ [s]))) h) (us @ []) ks (\<lambda>r. \<exists>s. r = Inl (acc @ [s]) \<and> P s)" for h
    by (rule accepts_handle [where P = P]) (use assms(1) in \<open>auto intro: accepts_ret\<close>)
  then have "accepts (bindP (loopP semis_round ()) (\<lambda>_. bindP peekP (\<lambda>c.
     if c = TEof \<or> \<not> True \<and> c = RBrace then retP (Inr acc)
     else handleP (nt_stmt R) (\<lambda>s. retP (Inl (acc @ [s])))
       (\<lambda>e. thenP (recover True e) (retP (Inl acc)))))) ([] @ us) ks (\<lambda>r. \<exists>s. r = Inl (acc @ [s]) \<and> P s)"
    by (intro accepts_bind [OF semis] accepts_peek [where k = "hd us" and r = "tl us @ ks"]) (use us hd in auto)
  then show ?thesis by (simp add: stmt_round_def thenP_def)
qed

lemma stmts_end: "P acc \<Longrightarrow> runs (stmt_round R True) [TEof] P acc []"
proof (rule runs.finishes)
  assume P: "P acc"
  have "accepts (semis_round ()) [] [TEof] (\<lambda>r. \<exists>a. r = Inr a \<and> True)"
    unfolding semis_round_def by (rule accepts_peek [where k = TEof and r = "[]"]) (auto intro: accepts_ret)
  then have semis: "accepts (loopP semis_round ()) [] ([] @ [TEof]) (\<lambda>_. True)"
    unfolding append_Nil by (intro accepts_loop runs.finishes)
  have "accepts (stmt_round R True acc) ([] @ []) [TEof] (\<lambda>r. \<exists>a. r = Inr a \<and> P a)"
    unfolding stmt_round_def thenP_def
    by (rule accepts_bind [OF semis], rule accepts_peek [where k = TEof and r = "[]"]) (use P in \<open>auto intro: accepts_ret\<close>)
  then show "accepts (stmt_round R True acc) [] [TEof] (\<lambda>r. \<exists>a. r = Inr a \<and> P a)" by simp
qed

lemma stmts_step:
  assumes "fits_stmt t" "size t < n" "us = (if semi then [Semicolon] else [])" "\<not> semi \<Longrightarrow> vs = []"
    and "\<And>s. states t semi s \<Longrightarrow> runs (stmt_round (parsers X (Suc n)) True) [TEof] P (acc @ [s]) vs"
  shows "runs (stmt_round (parsers X (Suc n)) True) [TEof] P acc ((fringe t @ us) @ vs)"
proof (rule runs.continues)
  have t: "fringe t \<noteq> []" "starter (hd (fringe t))" using fringe_starts [of t 0] assms(1) by (simp_all add: fits_stmt_def)
  then show "fringe t @ us \<noteq> []" by simp
  have "accepts (nt_stmt (parsers X (Suc n))) (fringe t @ us) (vs @ [TEof]) (states t semi)"
    by (rule stmt_reads [OF assms(1-3)]) (use assms(4) in auto)
  then have "accepts (stmt_round (parsers X (Suc n)) True acc) (fringe t @ us) (vs @ [TEof])
     (\<lambda>r. \<exists>s. r = Inl (acc @ [s]) \<and> states t semi s)"
    by (rule round_stmt) (use t in auto)
  then show "accepts (stmt_round (parsers X (Suc n)) True acc) (fringe t @ us) (vs @ [TEof])
     (\<lambda>r. \<exists>acc'. r = Inl acc' \<and> runs (stmt_round (parsers X (Suc n)) True) [TEof] P acc' vs)"
    by (rule accepts_weaken) (use assms(5) in auto)
qed

lemma stmts_read:
  assumes "list_all (\<lambda>u. fits_stmt u \<and> size u < n) (ts @ [t])"
  shows "runs (stmt_round (parsers X (Suc n)) True) [TEof]
     (\<lambda>ss. \<exists>xs x. ss = acc @ xs @ [x] \<and> list_all2 (\<lambda>u. states u True) ts xs \<and> states t False x) acc (script ts t)"
  using assms
proof (induction ts arbitrary: acc)
  case Nil
  have "runs (stmt_round (parsers X (Suc n)) True) [TEof]
     (\<lambda>ss. \<exists>xs x. ss = acc @ xs @ [x] \<and> list_all2 (\<lambda>u. states u True) [] xs \<and> states t False x) acc ((fringe t @ []) @ [])"
    by (rule stmts_step [where semi = False]) (use Nil in \<open>auto intro: stmts_end\<close>)
  then show ?case by (simp add: script_def)
next
  case (Cons u us)
  have run: "runs (stmt_round (parsers X (Suc n)) True) [TEof]
     (\<lambda>ss. \<exists>xs x. ss = acc @ xs @ [x] \<and> list_all2 (\<lambda>u. states u True) (u # us) xs \<and> states t False x) (acc @ [s]) (script us t)"
    if s: "states u True s" for s
  proof (rule runs_weaken [OF Cons.IH [of "acc @ [s]"]])
    show "list_all (\<lambda>u. fits_stmt u \<and> size u < n) (us @ [t])" using Cons.prems by simp
    fix ss assume "\<exists>xs x. ss = (acc @ [s]) @ xs @ [x] \<and> list_all2 (\<lambda>u. states u True) us xs \<and> states t False x"
    then obtain xs x where "ss = (acc @ [s]) @ xs @ [x]" "list_all2 (\<lambda>u. states u True) us xs" "states t False x" by blast
    then show "\<exists>xs x. ss = acc @ xs @ [x] \<and> list_all2 (\<lambda>u. states u True) (u # us) xs \<and> states t False x"
      using s by (intro exI [of _ "s # xs"] exI [of _ x]) simp
  qed
  have "runs (stmt_round (parsers X (Suc n)) True) [TEof]
     (\<lambda>ss. \<exists>xs x. ss = acc @ xs @ [x] \<and> list_all2 (\<lambda>u. states u True) (u # us) xs \<and> states t False x) acc
     ((fringe u @ [Semicolon]) @ script us t)"
    by (rule stmts_step [where semi = True]) (use Cons.prems run in auto)
  then show ?case by (simp add: script_def)
qed

text \<open>
  C4. The parser implements the documented table of precedence and associativity: given the tokens of phrases that need no
  parentheses, it returns these phrases, and no diagnostic.
\<close>

theorem parser_implements_grammar:
  assumes "map kind (tokens (tokenize X src)) = script ts t @ [TEof]"
    and "list_all (\<lambda>u. fits_stmt u \<and> size u + 2 \<le> m) (ts @ [t])"
  shows "\<exists>out es e. parse X m src = Some out \<and> po_errors out = []
     \<and> pr_stmts (po_program out) = map SSemi es @ [SExpr e] \<and> list_all2 spells ts es \<and> spells t e"
proof -
  obtain n where m: "m = Suc n" using assms(2) by (cases m) auto
  let ?p = "parser_new (tokens (tokenize X src))"
  have "accepts (parse_stmt_list (parsers X m) True) (script ts t) [TEof]
     (\<lambda>ss. \<exists>xs x. ss = [] @ xs @ [x] \<and> list_all2 (\<lambda>u. states u True) ts xs \<and> states t False x)"
    unfolding parse_stmt_list_def m
    by (rule accepts_loop, rule stmts_read) (use assms(2) m in \<open>simp add: Suc_le_eq\<close>)
  moreover have "seen ?p (script ts t @ [TEof])" using assms(1) by (simp add: seen_def parser_new_def)
  ultimately obtain xs x where r: "parse_stmt_list (parsers X m) True ?p = (POk (xs @ [x]), ahead (length (script ts t)) ?p)"
    "list_all2 (\<lambda>u. states u True) ts xs" "states t False x"
    unfolding accepts_def by fastforce
  have "\<exists>es. xs = map SSemi es \<and> list_all2 spells ts es"
    using r(2) by (induction rule: list_all2_induct) (auto simp: states_def intro: exI [of _ "_ # _"])
  then show ?thesis
    using r(1,3) by (auto simp: parse_def states_def Let_def ahead_def parser_new_def)
qed

theorem parser_implements_grammar_witness:
  "\<exists>out es e. parse fixed_ext 20 (lit ''a = b - c * 2 ; - f ( x ) . y [ 0 ] '') = Some out \<and> po_errors out = []
     \<and> pr_stmts (po_program out) = map SSemi es @ [SExpr e] \<and> length es = 1 \<and> spells (Unary TMinus (At
         (Member (Apply (Atom (TIdent (lit ''f''))) [Atom (TIdent (lit ''x''))]) (lit ''y'')) (Atom (TInt 0)))) e"
proof -
  let ?t = "Assigns Assign (Atom (TIdent (lit ''a''))) (Binary TMinus (Atom (TIdent (lit ''b'')))
     (Binary Star (Atom (TIdent (lit ''c''))) (Atom (TInt 2)))) :: fixed phrase"
  let ?u = "Unary TMinus (At
         (Member (Apply (Atom (TIdent (lit ''f''))) [Atom (TIdent (lit ''x''))]) (lit ''y'')) (Atom (TInt 0))) :: fixed phrase"
  have "list_all (printable fixed_ext) (script [?t] ?u)"
    by (simp add: script_def printable_def punct_text_def name_text_def lit_def is_ident_start_def is_ident_continue_def is_alphabetic_def
        is_alphanumeric_def is_ascii_alphabetic_def is_ascii_digit_def is_whitespace_def chr_def ident_kind_def from_ident_def)
  moreover have "printed (script [?t] ?u) = lit ''a = b - c * 2 ; - f ( x ) . y [ 0 ] ''"
    by (simp add: script_def printed_def token_text_def punct_text_def lit_def show_nat.simps)
  ultimately have "map kind (tokens (tokenize fixed_ext (lit ''a = b - c * 2 ; - f ( x ) . y [ 0 ] ''))) = script [?t] ?u @ [TEof]"
    using tokenize_printed [of fixed_ext "script [?t] ?u"] by simp
  moreover have "list_all (\<lambda>u. fits_stmt u \<and> size u + 2 \<le> 20) ([?t] @ [?u])"
    by (simp add: fits_stmt_def atom_def stops_def strength_def assignment_def level_def)
  ultimately have "\<exists>out es e. parse fixed_ext 20 (lit ''a = b - c * 2 ; - f ( x ) . y [ 0 ] '') = Some out \<and> po_errors out = []
     \<and> pr_stmts (po_program out) = map SSemi es @ [SExpr e] \<and> list_all2 spells [?t] es \<and> spells ?u e"
    by (rule parser_implements_grammar)
  then show ?thesis by (metis list_all2_lengthD list.size(3,4) One_nat_def add.right_neutral add_Suc_right)
qed

end
