(* ===== verification/Value.thy ===== *)
theory Value
  imports External
begin

text \<open>
  Runtime values (\<open>src/value.rs\<close>): the value type, its equality, truth and type name, its
  printed form, and the sendable subset that crosses threads.

  \<open>BigInt\<close> is \<open>int\<close>. \<open>im::Vector\<close> is a list; \<open>im::HashMap\<close>, \<open>im::HashSet\<close> and the field map of
  a struct are lists of entries without duplicate keys, in an iteration order the code leaves
  open. What the program shares by reference (closures, cells, actors, modules, resources,
  tasks) is an address.
\<close>

section \<open>Values\<close>

datatype (plugins only: size) 'd rt_value =
    VInt int | VDecimal 'd | VStr str | VBytes "u8 list" | VBool bool | VNil
  | VVec "'d rt_value list" | VMap "('d rt_value \<times> 'd rt_value) list" | VSet "'d rt_value list"
  | VFunc nat | VClosure nat | VNative str
  | VVariant str "'d rt_value list" | VStruct str "(str \<times> 'd rt_value) list"
  | VActor nat | VShared nat | VModule nat | VOpaque nat | VLazyImport str | VTask nat

declare list.rel_cong [fundef_cong]

lemma size_entry_fst [termination_simp]:
  "p \<in> set m \<Longrightarrow> size (fst p) < Suc (size_list (size_prod size size) m)"
  by (induction m) auto

lemma size_entry_snd [termination_simp]:
  "p \<in> set m \<Longrightarrow> size (snd p) < Suc (size_list (size_prod size size) m)"
  by (induction m) auto

lemma size_field [termination_simp]:
  "p \<in> set m \<Longrightarrow> size (snd p) < Suc (n + size_list (size_prod f size) m)"
  by (induction m) auto

fun value_eq :: "'d ext \<Rightarrow> 'd rt_value \<Rightarrow> 'd rt_value \<Rightarrow> bool" where
  "value_eq X (VInt a) w = (case w of VInt b \<Rightarrow> a = b | _ \<Rightarrow> False)"
| "value_eq X (VDecimal a) w = (case w of VDecimal b \<Rightarrow> dec_eq X a b | _ \<Rightarrow> False)"
| "value_eq X (VStr a) w = (case w of VStr b \<Rightarrow> a = b | _ \<Rightarrow> False)"
| "value_eq X (VBytes a) w = (case w of VBytes b \<Rightarrow> a = b | _ \<Rightarrow> False)"
| "value_eq X (VBool a) w = (case w of VBool b \<Rightarrow> a = b | _ \<Rightarrow> False)"
| "value_eq X VNil w = (case w of VNil \<Rightarrow> True | _ \<Rightarrow> False)"
| "value_eq X (VVec a) w = (case w of VVec b \<Rightarrow> list_all2 (value_eq X) a b | _ \<Rightarrow> False)"
| "value_eq X (VMap a) w =
     (case w of VMap b \<Rightarrow> length a = length b
        \<and> list_all (\<lambda>p. list_ex (\<lambda>q. value_eq X (fst p) (fst q) \<and> value_eq X (snd p) (snd q)) b) a
      | _ \<Rightarrow> False)"
| "value_eq X (VSet a) w =
     (case w of VSet b \<Rightarrow> length a = length b \<and> list_all (\<lambda>x. list_ex (value_eq X x) b) a | _ \<Rightarrow> False)"
| "value_eq X (VFunc a) w = (case w of VFunc b \<Rightarrow> a = b | _ \<Rightarrow> False)"
| "value_eq X (VClosure a) w = (case w of VClosure b \<Rightarrow> a = b | _ \<Rightarrow> False)"
| "value_eq X (VNative a) w = (case w of VNative b \<Rightarrow> a = b | _ \<Rightarrow> False)"
| "value_eq X (VVariant n a) w =
     (case w of VVariant n' b \<Rightarrow> n = n' \<and> list_all2 (value_eq X) a b | _ \<Rightarrow> False)"
| "value_eq X (VStruct n a) w =
     (case w of VStruct n' b \<Rightarrow> n = n' \<and> length a = length b
        \<and> list_all (\<lambda>p. list_ex (\<lambda>q. fst p = fst q \<and> value_eq X (snd p) (snd q)) b) a
      | _ \<Rightarrow> False)"
| "value_eq X (VActor a) w = (case w of VActor b \<Rightarrow> a = b | _ \<Rightarrow> False)"
| "value_eq X (VShared a) w = (case w of VShared b \<Rightarrow> a = b | _ \<Rightarrow> False)"
| "value_eq X (VModule a) w = (case w of VModule b \<Rightarrow> a = b | _ \<Rightarrow> False)"
| "value_eq X (VOpaque a) w = (case w of VOpaque b \<Rightarrow> a = b | _ \<Rightarrow> False)"
| "value_eq X (VLazyImport a) w = (case w of VLazyImport b \<Rightarrow> a = b | _ \<Rightarrow> False)"
| "value_eq X (VTask a) w = (case w of VTask b \<Rightarrow> a = b | _ \<Rightarrow> False)"

text \<open>
  \<open>HashMap\<close> and \<open>HashSet\<close> operations, with key equality as a parameter: an insertion replaces
  the entry of an equal key.
\<close>

fun entry_insert :: "('k \<Rightarrow> 'k \<Rightarrow> bool) \<Rightarrow> 'k \<Rightarrow> 'v \<Rightarrow> ('k \<times> 'v) list \<Rightarrow> ('k \<times> 'v) list" where
  "entry_insert eq k v [] = [(k, v)]"
| "entry_insert eq k v (p # m) = (if eq (fst p) k then (k, v) # m else p # entry_insert eq k v m)"

fun entry_get :: "('k \<Rightarrow> 'k \<Rightarrow> bool) \<Rightarrow> 'k \<Rightarrow> ('k \<times> 'v) list \<Rightarrow> 'v option" where
  "entry_get eq k [] = None"
| "entry_get eq k (p # m) = (if eq (fst p) k then Some (snd p) else entry_get eq k m)"

lemma map_of_entry_insert [simp]: "map_of (entry_insert (=) x v m) = (map_of m)(x \<mapsto> v)"
  by (induction m) auto

definition entry_remove :: "('k \<Rightarrow> 'k \<Rightarrow> bool) \<Rightarrow> 'k \<Rightarrow> ('k \<times> 'v) list \<Rightarrow> ('k \<times> 'v) list" where
  "entry_remove eq k m = filter (\<lambda>p. \<not> eq (fst p) k) m"

definition entries_of :: "('k \<Rightarrow> 'k \<Rightarrow> bool) \<Rightarrow> ('k \<times> 'v) list \<Rightarrow> ('k \<times> 'v) list" where
  "entries_of eq ps = foldl (\<lambda>m p. entry_insert eq (fst p) (snd p) m) [] ps"

fun item_insert :: "('k \<Rightarrow> 'k \<Rightarrow> bool) \<Rightarrow> 'k \<Rightarrow> 'k list \<Rightarrow> 'k list" where
  "item_insert eq k [] = [k]"
| "item_insert eq k (x # xs) = (if eq x k then k # xs else x # item_insert eq k xs)"

definition items_of :: "('k \<Rightarrow> 'k \<Rightarrow> bool) \<Rightarrow> 'k list \<Rightarrow> 'k list" where
  "items_of eq xs = foldl (\<lambda>s x. item_insert eq x s) [] xs"

definition value_map :: "'d ext \<Rightarrow> ('d rt_value \<times> 'd rt_value) list \<Rightarrow> 'd rt_value" where
  "value_map X ps = VMap (entries_of (value_eq X) ps)"

definition value_set :: "'d ext \<Rightarrow> 'd rt_value list \<Rightarrow> 'd rt_value" where
  "value_set X xs = VSet (items_of (value_eq X) xs)"

fun is_truthy :: "'d ext \<Rightarrow> 'd rt_value \<Rightarrow> bool" where
  "is_truthy X (VBool b) = b"
| "is_truthy X VNil = False"
| "is_truthy X (VInt n) = (n \<noteq> 0)"
| "is_truthy X (VDecimal d) = (\<not> dec_eq X d (dec_of_int X 0))"
| "is_truthy X (VStr s) = (s \<noteq> [])"
| "is_truthy X (VBytes b) = (b \<noteq> [])"
| "is_truthy X (VVec v) = (v \<noteq> [])"
| "is_truthy X (VMap m) = (m \<noteq> [])"
| "is_truthy X (VSet s) = (s \<noteq> [])"
| "is_truthy X _ = True"

fun type_name :: "'d rt_value \<Rightarrow> str" where
  "type_name (VInt _) = lit ''Int''"
| "type_name (VDecimal _) = lit ''Decimal''"
| "type_name (VStr _) = lit ''String''"
| "type_name (VBytes _) = lit ''Bytes''"
| "type_name (VBool _) = lit ''Bool''"
| "type_name VNil = lit ''Nil''"
| "type_name (VVec _) = lit ''Vec''"
| "type_name (VMap _) = lit ''Map''"
| "type_name (VSet _) = lit ''Set''"
| "type_name (VFunc _) = lit ''Func''"
| "type_name (VClosure _) = lit ''Closure''"
| "type_name (VNative _) = lit ''NativeFunc''"
| "type_name (VVariant _ _) = lit ''Variant''"
| "type_name (VStruct _ _) = lit ''Struct''"
| "type_name (VActor _) = lit ''Actor''"
| "type_name (VShared _) = lit ''Shared''"
| "type_name (VModule _) = lit ''Module''"
| "type_name (VOpaque _) = lit ''Opaque''"
| "type_name (VLazyImport _) = lit ''LazyImport''"
| "type_name (VTask _) = lit ''Task''"

fun is_number :: "'d rt_value \<Rightarrow> bool" where
  "is_number (VInt _) = True"
| "is_number (VDecimal _) = True"
| "is_number _ = False"

fun to_decimal :: "'d ext \<Rightarrow> 'd rt_value \<Rightarrow> 'd option" where
  "to_decimal X (VInt n) = Some (dec_of_int X n)"
| "to_decimal X (VDecimal d) = Some d"
| "to_decimal X _ = None"

lemma to_decimal_None_iff: "to_decimal X v = None \<longleftrightarrow> \<not> is_number v"
  by (cases v) simp_all


section \<open>Printing\<close>

datatype native_resource = TcpListener | TcpStream | Serial | TlsStream | SharedLib | ParallelHandle

text \<open>What printing reads behind an address: names, the version of a cell, the kind of a resource.\<close>

record heap_view =
  func_name :: "nat \<Rightarrow> str option"
  closure_name :: "nat \<Rightarrow> str option"
  cell_version :: "nat \<Rightarrow> u64"
  module_label :: "nat \<Rightarrow> str"
  resource_kind :: "nat \<Rightarrow> native_resource"

fun resource_label :: "native_resource \<Rightarrow> str" where
  "resource_label TcpListener = lit ''<tcp-listener>''"
| "resource_label TcpStream = lit ''<tcp-stream>''"
| "resource_label Serial = lit ''<serial-port>''"
| "resource_label TlsStream = lit ''<tls-stream>''"
| "resource_label SharedLib = lit ''<shared-lib>''"
| "resource_label ParallelHandle = lit ''<parallel-handle>''"

definition fn_label :: "str option \<Rightarrow> str" where
  "fn_label n = (case n of Some n \<Rightarrow> lit ''<fn '' @ n @ lit ''>'' | None \<Rightarrow> lit ''<fn>'')"

definition comma_list :: "str list \<Rightarrow> str" where
  "comma_list ss = intercalate (lit '', '') ss"

fun value_show :: "'d ext \<Rightarrow> heap_view \<Rightarrow> 'd rt_value \<Rightarrow> str" where
  "value_show X H (VInt n) = show_int n"
| "value_show X H (VDecimal d) = dec_show X d"
| "value_show X H (VStr s) = [dquote] @ s @ [dquote]"
| "value_show X H (VBytes b) = lit ''<bytes len='' @ show_nat (length b) @ lit ''>''"
| "value_show X H (VBool b) = (if b then lit ''true'' else lit ''false'')"
| "value_show X H VNil = lit ''nil''"
| "value_show X H (VVec v) = lit ''['' @ comma_list (map (value_show X H) v) @ lit '']''"
| "value_show X H (VMap m) =
     lit ''{'' @ comma_list (map (\<lambda>p. value_show X H (fst p) @ lit '': '' @ value_show X H (snd p)) m) @ lit ''}''"
| "value_show X H (VSet s) = lit ''#{'' @ comma_list (map (value_show X H) s) @ lit ''}''"
| "value_show X H (VFunc a) = fn_label (func_name H a)"
| "value_show X H (VClosure a) = fn_label (closure_name H a)"
| "value_show X H (VNative n) = lit ''<builtin '' @ n @ lit ''>''"
| "value_show X H (VVariant n args) =
     (if args = [] then n else n @ lit ''('' @ comma_list (map (value_show X H) args) @ lit '')'')"
| "value_show X H (VStruct n fs) =
     n @ lit '' { '' @ comma_list (map (\<lambda>p. fst p @ lit '': '' @ value_show X H (snd p)) fs) @ lit '' }''"
| "value_show X H (VActor _) = lit ''<actor>''"
| "value_show X H (VShared a) = lit ''<shared v'' @ show_nat (unat (cell_version H a)) @ lit ''>''"
| "value_show X H (VModule a) = lit ''<module '' @ module_label H a @ lit ''>''"
| "value_show X H (VOpaque a) = resource_label (resource_kind H a)"
| "value_show X H (VLazyImport p) = lit ''<lazy-import '' @ p @ lit ''>''"
| "value_show X H (VTask _) = lit ''<task>''"

section \<open>Equality\<close>

lemma dec_laws:
  assumes "decimal_laws X"
  shows "dec_cmp X a a = Equal" and "dec_cmp X b a = flip_ordering (dec_cmp X a b)"
    and "dec_cmp X a b \<noteq> Greater \<Longrightarrow> dec_cmp X b c \<noteq> Greater \<Longrightarrow> dec_cmp X a c \<noteq> Greater"
    and "dec_cmp X (dec_of_int X x) (dec_of_int X y) = int_cmp x y"
    and "dec_is_zero X a \<longleftrightarrow> dec_eq X a (dec_of_int X 0)"
  using assms unfolding decimal_laws_def by blast+

lemma dec_eq_refl: "decimal_laws X \<Longrightarrow> dec_eq X a a"
  by (simp add: dec_eq_def dec_laws(1))

lemma dec_eq_trans:
  assumes "decimal_laws X" and "dec_eq X a b" and "dec_eq X b c"
  shows "dec_eq X a c"
proof -
  have "dec_cmp X a c \<noteq> Greater" and "dec_cmp X c a \<noteq> Greater"
    using assms dec_laws(3) [OF assms(1)] dec_laws(2) [OF assms(1)]
    by (metis dec_eq_def flip_ordering.simps(2) ordering.distinct(5))+
  then show ?thesis
    using dec_laws(2) [OF assms(1), of a c] unfolding dec_eq_def
    by (cases "dec_cmp X a c"; cases "dec_cmp X c a") auto
qed

theorem value_eq_refl:
  assumes "decimal_laws X"
  shows "value_eq X v v"
proof (induction v)
  case (VDecimal d)
  then show ?case by (simp add: dec_eq_refl [OF assms])
qed (auto simp: list_all_iff list_ex_iff list.rel_refl_strong intro!: bexI intro: prod_set_simps)

end
