(* ===== verification/Interp_Error.thy ===== *)
theory Interp_Error
  imports Value Source_Span
begin

text \<open>
  Runtime errors (\<open>src/interpreter/error.rs\<close>). The control signals \<open>return\<close>, \<open>reply\<close>,
  \<open>retry\<close>, \<open>break\<close> and \<open>continue\<close> travel as errors too.
\<close>

datatype (plugins only: size) 'd interp_error =
    UserException "'d rt_value" "span option"
  | NameError str "span option"
  | TypeError (te_expected: str) (te_got: str) (te_op: str) "span option"
  | ArityError (ae_expected: nat) (ae_got: nat) (ae_callee: str) "span option"
  | IndexError str "span option"
  | PatternMatchFail "'d rt_value" "span option"
  | DivisionByZero "span option"
  | RuntimeError str "span option"
  | ReturnSignal "'d rt_value" "span option"
  | ReplySignal "'d rt_value" "span option"
  | RetrySignal "span option"
  | BreakSignal "'d rt_value option" "span option"
  | ContinueSignal "span option"
  | ImportError str str "span option"

type_synonym ('d, 'a) outcome = "('d interp_error, 'a) result"

fun error_span :: "'d interp_error \<Rightarrow> span option" where
  "error_span (UserException v s) = s"
| "error_span (NameError n s) = s"
| "error_span (TypeError e g oper s) = s"
| "error_span (ArityError e g c s) = s"
| "error_span (IndexError m s) = s"
| "error_span (PatternMatchFail v s) = s"
| "error_span (DivisionByZero s) = s"
| "error_span (RuntimeError m s) = s"
| "error_span (ReturnSignal v s) = s"
| "error_span (ReplySignal v s) = s"
| "error_span (RetrySignal s) = s"
| "error_span (BreakSignal v s) = s"
| "error_span (ContinueSignal s) = s"
| "error_span (ImportError p m s) = s"

text \<open>\<open>with_span\<close> fills in a span that is missing and keeps one that is there.\<close>

definition fill_span :: "span \<Rightarrow> span option \<Rightarrow> span option" where
  "fill_span sp s = (case s of None \<Rightarrow> Some sp | Some _ \<Rightarrow> s)"

fun with_span :: "span \<Rightarrow> 'd interp_error \<Rightarrow> 'd interp_error" where
  "with_span sp (UserException v s) = UserException v (fill_span sp s)"
| "with_span sp (NameError n s) = NameError n (fill_span sp s)"
| "with_span sp (TypeError e g oper s) = TypeError e g oper (fill_span sp s)"
| "with_span sp (ArityError e g c s) = ArityError e g c (fill_span sp s)"
| "with_span sp (IndexError m s) = IndexError m (fill_span sp s)"
| "with_span sp (PatternMatchFail v s) = PatternMatchFail v (fill_span sp s)"
| "with_span sp (DivisionByZero s) = DivisionByZero (fill_span sp s)"
| "with_span sp (RuntimeError m s) = RuntimeError m (fill_span sp s)"
| "with_span sp (ReturnSignal v s) = ReturnSignal v (fill_span sp s)"
| "with_span sp (ReplySignal v s) = ReplySignal v (fill_span sp s)"
| "with_span sp (RetrySignal s) = RetrySignal (fill_span sp s)"
| "with_span sp (BreakSignal v s) = BreakSignal v (fill_span sp s)"
| "with_span sp (ContinueSignal s) = ContinueSignal (fill_span sp s)"
| "with_span sp (ImportError p m s) = ImportError p m (fill_span sp s)"

fun is_user_exception :: "'d interp_error \<Rightarrow> bool" where
  "is_user_exception (UserException v s) = True"
| "is_user_exception _ = False"

fun as_exception_value :: "'d interp_error \<Rightarrow> 'd rt_value option" where
  "as_exception_value (UserException v s) = Some v"
| "as_exception_value _ = None"

fun interp_error_show :: "'d ext \<Rightarrow> heap_view \<Rightarrow> 'd interp_error \<Rightarrow> str" where
  "interp_error_show X H (UserException v s) = lit ''uncaught exception: '' @ value_show X H v"
| "interp_error_show X H (NameError n s) = lit ''name `'' @ n @ lit ''` is not defined''"
| "interp_error_show X H (TypeError e g oper s) =
     lit ''type error in `'' @ oper @ lit ''`: expected '' @ e @ lit '', got '' @ g"
| "interp_error_show X H (ArityError e g c s) =
     lit ''`'' @ c @ lit ''` expects '' @ show_nat e @ lit '' argument(s), got '' @ show_nat g"
| "interp_error_show X H (IndexError m s) = lit ''index error: '' @ m"
| "interp_error_show X H (PatternMatchFail v s) = lit ''no pattern matched '' @ value_show X H v"
| "interp_error_show X H (DivisionByZero s) = lit ''division by zero''"
| "interp_error_show X H (RuntimeError m s) = lit ''runtime error: '' @ m"
| "interp_error_show X H (ReturnSignal v s) = lit ''return''"
| "interp_error_show X H (ReplySignal v s) = lit ''reply''"
| "interp_error_show X H (RetrySignal s) = lit ''retry''"
| "interp_error_show X H (BreakSignal v s) = lit ''break''"
| "interp_error_show X H (ContinueSignal s) = lit ''continue''"
| "interp_error_show X H (ImportError p m s) = lit ''import error: '' @ p @ lit '': '' @ m"

definition interp_error_render :: "'d ext \<Rightarrow> heap_view \<Rightarrow> 'd interp_error \<Rightarrow> str \<Rightarrow> str" where
  "interp_error_render X H e src =
     (case error_span e of
        Some sp \<Rightarrow> render_snippet (interp_error_show X H e) sp src
      | None \<Rightarrow> lit ''error: '' @ interp_error_show X H e @ [newline])"

lemma error_span_with_span: "error_span (with_span sp e) = Some (case error_span e of None \<Rightarrow> sp | Some s \<Rightarrow> s)"
  by (cases e) (simp_all add: fill_span_def split: option.splits)

lemma with_span_idem: "with_span sp' (with_span sp e) = with_span sp e"
  by (cases e) (simp_all add: fill_span_def split: option.splits)

lemma with_span_is_user_exception [simp]: "is_user_exception (with_span sp e) = is_user_exception e"
  by (cases e) simp_all

end
