(* ===== verification/Ops.thy ===== *)
theory Ops
  imports Interp_Error "HOL-Library.Signed_Division"
begin

text \<open>
  Built-in operations on values (\<open>src/interpreter/ops.rs\<close>): arithmetic with promotion from
  \<open>Int\<close> to \<open>Decimal\<close>, comparison, and updates of the persistent collections. \<open>sdiv\<close> and
  \<open>smod\<close> are the truncating division and remainder of \<open>BigInt\<close>.
\<close>

definition type_err :: "string \<Rightarrow> string \<Rightarrow> 'd rt_value \<Rightarrow> 'd rt_value \<Rightarrow> 'd interp_error" where
  "type_err category oper a b =
     TypeError (lit category) (type_name a) (lit oper @ lit '' ('' @ type_name b @ lit '')'') None"

definition expected :: "string \<Rightarrow> 'd rt_value \<Rightarrow> string \<Rightarrow> 'd interp_error" where
  "expected what v oper = TypeError (lit what) (type_name v) (lit oper) None"

section \<open>Arithmetic\<close>

text \<open>The mixed case that the binary operations share: both operands as decimals, or a type error.\<close>

definition promoted ::
  "'d ext \<Rightarrow> string \<Rightarrow> string \<Rightarrow> 'd rt_value \<Rightarrow> 'd rt_value \<Rightarrow> ('d \<Rightarrow> 'd \<Rightarrow> ('d, 'a) outcome) \<Rightarrow> ('d, 'a) outcome" where
  "promoted X category oper a b f =
     (case (to_decimal X a, to_decimal X b) of
        (Some x, Some y) \<Rightarrow> f x y
      | _ \<Rightarrow> Err (type_err category oper a b))"

definition op_add :: "'d ext \<Rightarrow> 'd rt_value \<Rightarrow> 'd rt_value \<Rightarrow> ('d, 'd rt_value) outcome" where
  "op_add X a b =
     (let mixed = promoted X ''arithmetic'' ''+'' a b (\<lambda>x y. Ok (VDecimal (dec_add X x y))) in
      case a of
        VInt x \<Rightarrow> (case b of VInt y \<Rightarrow> Ok (VInt (x + y)) | _ \<Rightarrow> mixed)
      | VDecimal x \<Rightarrow> (case b of VDecimal y \<Rightarrow> Ok (VDecimal (dec_add X x y)) | _ \<Rightarrow> mixed)
      | VStr x \<Rightarrow> (case b of VStr y \<Rightarrow> Ok (VStr (x @ y)) | _ \<Rightarrow> mixed)
      | _ \<Rightarrow> mixed)"

definition op_sub :: "'d ext \<Rightarrow> 'd rt_value \<Rightarrow> 'd rt_value \<Rightarrow> ('d, 'd rt_value) outcome" where
  "op_sub X a b =
     (let mixed = promoted X ''arithmetic'' ''-'' a b (\<lambda>x y. Ok (VDecimal (dec_sub X x y))) in
      case a of
        VInt x \<Rightarrow> (case b of VInt y \<Rightarrow> Ok (VInt (x - y)) | _ \<Rightarrow> mixed)
      | VDecimal x \<Rightarrow> (case b of VDecimal y \<Rightarrow> Ok (VDecimal (dec_sub X x y)) | _ \<Rightarrow> mixed)
      | _ \<Rightarrow> mixed)"

definition op_mul :: "'d ext \<Rightarrow> 'd rt_value \<Rightarrow> 'd rt_value \<Rightarrow> ('d, 'd rt_value) outcome" where
  "op_mul X a b =
     (let mixed = promoted X ''arithmetic'' ''*'' a b (\<lambda>x y. Ok (VDecimal (dec_mul X x y))) in
      case a of
        VInt x \<Rightarrow> (case b of VInt y \<Rightarrow> Ok (VInt (x * y)) | _ \<Rightarrow> mixed)
      | VDecimal x \<Rightarrow> (case b of VDecimal y \<Rightarrow> Ok (VDecimal (dec_mul X x y)) | _ \<Rightarrow> mixed)
      | _ \<Rightarrow> mixed)"

definition decimal_quotient :: "'d ext \<Rightarrow> 'd \<Rightarrow> 'd \<Rightarrow> ('d, 'd rt_value) outcome" where
  "decimal_quotient X x y =
     (if dec_is_zero X y then Err (DivisionByZero None) else Ok (VDecimal (dec_div X x y)))"

definition op_div :: "'d ext \<Rightarrow> 'd rt_value \<Rightarrow> 'd rt_value \<Rightarrow> ('d, 'd rt_value) outcome" where
  "op_div X a b =
     (let mixed = promoted X ''arithmetic'' ''/'' a b (decimal_quotient X) in
      case a of
        VInt x \<Rightarrow>
          (case b of
             VInt y \<Rightarrow>
               if y = 0 then Err (DivisionByZero None)
               else if x smod y = 0 then Ok (VInt (x sdiv y))
               else Ok (VDecimal (dec_div X (dec_of_int X x) (dec_of_int X y)))
           | _ \<Rightarrow> mixed)
      | VDecimal x \<Rightarrow> (case b of VDecimal y \<Rightarrow> decimal_quotient X x y | _ \<Rightarrow> mixed)
      | _ \<Rightarrow> mixed)"

definition op_modulo :: "'d rt_value \<Rightarrow> 'd rt_value \<Rightarrow> ('d, 'd rt_value) outcome" where
  "op_modulo a b =
     (let wrong = Err (type_err ''modulo'' ''%'' a b) in
      case a of
        VInt x \<Rightarrow>
          (case b of
             VInt y \<Rightarrow> if y = 0 then Err (DivisionByZero None) else Ok (VInt (x smod y))
           | _ \<Rightarrow> wrong)
      | _ \<Rightarrow> wrong)"

text \<open>\<open>for _ in 0..n { result *= base }\<close> from \<open>result\<close>.\<close>

fun dec_power :: "'d ext \<Rightarrow> 'd \<Rightarrow> nat \<Rightarrow> 'd \<Rightarrow> 'd" where
  "dec_power X base 0 result = result"
| "dec_power X base (Suc n) result = dec_power X base n (dec_mul X result base)"

definition decimal_pow :: "'d ext \<Rightarrow> 'd \<Rightarrow> 'd \<Rightarrow> ('d, 'd) outcome" where
  "decimal_pow X base e =
     (case dec_to_i64 X e of
        Some n \<Rightarrow>
          if 0 \<le> n then Ok (dec_power X base (nat n) (dec_of_int X 1))
          else
            let result = dec_power X base (nat (- n)) (dec_of_int X 1) in
            if dec_is_zero X result then Err (DivisionByZero None)
            else Ok (dec_div X (dec_of_int X 1) result)
      | None \<Rightarrow> Err (RuntimeError (lit ''non-integer decimal exponent: '' @ dec_show X e) None))"

definition decimal_value :: "('d, 'd) outcome \<Rightarrow> ('d, 'd rt_value) outcome" where
  "decimal_value r = bindE r (\<lambda>d. Ok (VDecimal d))"

definition op_pow :: "'d ext \<Rightarrow> 'd rt_value \<Rightarrow> 'd rt_value \<Rightarrow> ('d, 'd rt_value) outcome" where
  "op_pow X base e =
     (let mixed = promoted X ''power'' ''pow'' base e (\<lambda>b x. decimal_value (decimal_pow X b x)) in
      case base of
        VInt b \<Rightarrow>
          (case e of
             VInt n \<Rightarrow>
               if n < 0 then decimal_value (decimal_pow X (dec_of_int X b) (dec_of_int X n))
               else if n < 2 ^ 32 then Ok (VInt (b ^ nat n))
               else Err (RuntimeError (lit ''exponent too large: '' @ show_int n) None)
           | _ \<Rightarrow> mixed)
      | _ \<Rightarrow> mixed)"

section \<open>Comparison\<close>

definition op_cmp :: "'d ext \<Rightarrow> string \<Rightarrow> 'd rt_value \<Rightarrow> 'd rt_value \<Rightarrow> ('d, ordering) outcome" where
  "op_cmp X oper a b =
     (let mixed = promoted X ''comparison'' oper a b (\<lambda>x y. Ok (dec_cmp X x y)) in
      case a of
        VInt x \<Rightarrow> (case b of VInt y \<Rightarrow> Ok (int_cmp x y) | _ \<Rightarrow> mixed)
      | VDecimal x \<Rightarrow> (case b of VDecimal y \<Rightarrow> Ok (dec_cmp X x y) | _ \<Rightarrow> mixed)
      | _ \<Rightarrow> mixed)"

definition op_eq :: "'d ext \<Rightarrow> 'd rt_value \<Rightarrow> 'd rt_value \<Rightarrow> bool" where
  "op_eq X a b = value_eq X a b"

definition op_lt :: "'d ext \<Rightarrow> 'd rt_value \<Rightarrow> 'd rt_value \<Rightarrow> ('d, bool) outcome" where
  "op_lt X a b = bindE (op_cmp X ''<'' a b) (\<lambda>r. Ok (r = Less))"

definition op_gt :: "'d ext \<Rightarrow> 'd rt_value \<Rightarrow> 'd rt_value \<Rightarrow> ('d, bool) outcome" where
  "op_gt X a b = bindE (op_cmp X ''>'' a b) (\<lambda>r. Ok (r = Greater))"

definition op_lte :: "'d ext \<Rightarrow> 'd rt_value \<Rightarrow> 'd rt_value \<Rightarrow> ('d, bool) outcome" where
  "op_lte X a b = bindE (op_cmp X ''<='' a b) (\<lambda>r. Ok (r \<noteq> Greater))"

definition op_gte :: "'d ext \<Rightarrow> 'd rt_value \<Rightarrow> 'd rt_value \<Rightarrow> ('d, bool) outcome" where
  "op_gte X a b = bindE (op_cmp X ''>='' a b) (\<lambda>r. Ok (r \<noteq> Less))"

section \<open>Collections\<close>

text \<open>\<open>BigInt::to_usize\<close> on a 64-bit machine.\<close>

definition to_usize :: "int \<Rightarrow> nat option" where
  "to_usize n = (if 0 \<le> n \<and> n < 2 ^ 64 then Some (nat n) else None)"

fun op_count :: "'d rt_value \<Rightarrow> ('d, nat) outcome" where
  "op_count (VVec v) = Ok (length v)"
| "op_count (VMap m) = Ok (length m)"
| "op_count (VSet s) = Ok (length s)"
| "op_count (VStr s) = Ok (length s)"
| "op_count v = Err (expected ''collection'' v ''count'')"

fun op_first :: "'d rt_value \<Rightarrow> ('d, 'd rt_value) outcome" where
  "op_first (VVec v) = Ok (case v of x # _ \<Rightarrow> x | [] \<Rightarrow> VNil)"
| "op_first v = Err (expected ''Vec'' v ''first'')"

fun op_rest :: "'d rt_value \<Rightarrow> ('d, 'd rt_value) outcome" where
  "op_rest (VVec v) = Ok (VVec (drop 1 v))"
| "op_rest v = Err (expected ''Vec'' v ''rest'')"

fun op_cons :: "'d rt_value \<Rightarrow> 'd rt_value \<Rightarrow> ('d, 'd rt_value) outcome" where
  "op_cons h (VVec v) = Ok (VVec (h # v))"
| "op_cons h t = Err (expected ''Vec'' t ''cons'')"

fun op_push :: "'d rt_value \<Rightarrow> 'd rt_value \<Rightarrow> ('d, 'd rt_value) outcome" where
  "op_push (VVec v) x = Ok (VVec (v @ [x]))"
| "op_push c x = Err (expected ''Vec'' c ''push'')"

definition index_error :: "int \<Rightarrow> 'd interp_error" where
  "index_error i = IndexError (lit ''index out of bounds: '' @ show_int i) None"

fun op_assoc :: "'d ext \<Rightarrow> 'd rt_value \<Rightarrow> 'd rt_value \<Rightarrow> 'd rt_value \<Rightarrow> ('d, 'd rt_value) outcome" where
  "op_assoc X (VMap m) k v = Ok (VMap (entry_insert (value_eq X) k v m))"
| "op_assoc X (VVec xs) k v =
     (case k of
        VInt n \<Rightarrow>
          (case to_usize n of
             Some i \<Rightarrow> if i < length xs then Ok (VVec (xs[i := v])) else Err (index_error n)
           | None \<Rightarrow> Err (index_error n))
      | _ \<Rightarrow> Err (expected ''Int'' k ''assoc (vec index)''))"
| "op_assoc X (VStruct n fs) k v =
     (case k of
        VStr s \<Rightarrow> Ok (VStruct n (entry_insert (=) s v fs))
      | _ \<Rightarrow> Err (expected ''Str'' k ''assoc (struct field)''))"
| "op_assoc X c k v = Err (expected ''Map, Vec, or Struct'' c ''assoc'')"

fun op_dissoc :: "'d ext \<Rightarrow> 'd rt_value \<Rightarrow> 'd rt_value \<Rightarrow> ('d, 'd rt_value) outcome" where
  "op_dissoc X (VMap m) k = Ok (VMap (entry_remove (value_eq X) k m))"
| "op_dissoc X c k = Err (expected ''Map'' c ''dissoc'')"

definition or_nil :: "'d rt_value option \<Rightarrow> 'd rt_value" where
  "or_nil v = (case v of Some x \<Rightarrow> x | None \<Rightarrow> VNil)"

definition nth_or_nil :: "'d rt_value list \<Rightarrow> int \<Rightarrow> 'd rt_value" where
  "nth_or_nil xs n =
     (case to_usize n of Some i \<Rightarrow> if i < length xs then xs ! i else VNil | None \<Rightarrow> VNil)"

fun op_get :: "'d ext \<Rightarrow> 'd rt_value \<Rightarrow> 'd rt_value \<Rightarrow> ('d, 'd rt_value) outcome" where
  "op_get X (VMap m) k = Ok (or_nil (entry_get (value_eq X) k m))"
| "op_get X (VVec xs) k =
     (case k of
        VInt n \<Rightarrow> Ok (nth_or_nil xs n)
      | _ \<Rightarrow> Err (type_err ''indexing'' ''get'' k (VVec xs)))"
| "op_get X c k = Err (expected ''Map or Vec'' c ''get'')"

fun iter_to_vec :: "'d rt_value \<Rightarrow> ('d, 'd rt_value) outcome" where
  "iter_to_vec (VVec v) = Ok (VVec v)"
| "iter_to_vec (VSet s) = Ok (VVec s)"
| "iter_to_vec (VMap m) = Ok (VVec (map (\<lambda>p. VVec [fst p, snd p]) m))"
| "iter_to_vec (VStr s) = Ok (VVec (map (\<lambda>c. VStr [c]) s))"
| "iter_to_vec v = Err (expected ''Vec, Set, Map, or Str (iterable)'' v ''iter_to_vec'')"

end
