(* ===== verification/Builtins.thy ===== *)
theory Builtins
  imports Ops Complex_Main
begin

text \<open>
  The builtin functions without state (\<open>src/interpreter/builtins.rs\<close>): functions from the argument list to a
  value or an error. Positions in strings count characters; \<open>byte_at\<close> and \<open>byte_len\<close> look at the UTF-8 encoding.
  A finite \<open>f64\<close> is its exact rational value.
\<close>

section \<open>Floating point\<close>

datatype f64 = Finite rat | Infinite bool | NotANumber

text \<open>
  The conversions of the crates \<open>num-bigint\<close> and \<open>bigdecimal\<close>, the mathematical functions of the platform, and the
  Unicode case tables are parameters.
\<close>

record 'd numerics =
  int_to_f64 :: "int \<Rightarrow> f64 option"
  dec_to_f64 :: "'d \<Rightarrow> f64 option"
  dec_of_f64 :: "f64 \<Rightarrow> 'd option"
  dec_abs :: "'d \<Rightarrow> 'd"
  bigint_parse :: "str \<Rightarrow> int option"
  f64_sqrt :: "f64 \<Rightarrow> f64"
  f64_sin :: "f64 \<Rightarrow> f64"
  f64_cos :: "f64 \<Rightarrow> f64"
  f64_exp :: "f64 \<Rightarrow> f64"
  f64_log :: "f64 \<Rightarrow> f64 \<Rightarrow> f64"
  text_lower :: "str \<Rightarrow> str"
  text_upper :: "str \<Rightarrow> str"

text \<open>\<open>a <= b\<close>; nothing compares with NaN. \<open>Infinite True\<close> is the negative infinity.\<close>

definition f64_le :: "f64 \<Rightarrow> f64 \<Rightarrow> bool" where
  "f64_le a b = (case a of
     NotANumber \<Rightarrow> False
   | Infinite n \<Rightarrow> (case b of NotANumber \<Rightarrow> False | Infinite m \<Rightarrow> n \<or> \<not> m | Finite y \<Rightarrow> n)
   | Finite x \<Rightarrow> (case b of NotANumber \<Rightarrow> False | Infinite m \<Rightarrow> \<not> m | Finite y \<Rightarrow> x \<le> y))"

definition f64_map :: "(rat \<Rightarrow> int) \<Rightarrow> f64 \<Rightarrow> f64" where
  "f64_map f x = (case x of Finite q \<Rightarrow> Finite (of_int (f q)) | _ \<Rightarrow> x)"

text \<open>\<open>f64::round\<close> rounds half away from zero; \<open>as i64\<close> truncates and saturates.\<close>

definition round_away :: "rat \<Rightarrow> int" where
  "round_away q = (if 0 \<le> q then \<lfloor>q + 1 / 2\<rfloor> else - \<lfloor>1 / 2 - q\<rfloor>)"

definition clamp_i64 :: "int \<Rightarrow> int" where
  "clamp_i64 n = max (- (2 ^ 63)) (min (2 ^ 63 - 1) n)"

definition f64_as_i64 :: "f64 \<Rightarrow> int" where
  "f64_as_i64 x = (case x of
     Finite q \<Rightarrow> clamp_i64 (if 0 \<le> q then \<lfloor>q\<rfloor> else \<lceil>q\<rceil>)
   | Infinite n \<Rightarrow> if n then - (2 ^ 63) else 2 ^ 63 - 1
   | NotANumber \<Rightarrow> 0)"

section \<open>Arguments\<close>

type_synonym 'd builtin = "'d rt_value list \<Rightarrow> ('d, 'd rt_value) outcome"

definition arity_error :: "nat \<Rightarrow> string \<Rightarrow> 'd rt_value list \<Rightarrow> 'd interp_error" where
  "arity_error n name args = ArityError n (length args) (lit name) None"

text \<open>Functions of one argument ignore further ones.\<close>

definition one_arg :: "string \<Rightarrow> 'd rt_value list \<Rightarrow> ('d rt_value \<Rightarrow> ('d, 'a) outcome) \<Rightarrow> ('d, 'a) outcome" where
  "one_arg name args f = (case args of v # _ \<Rightarrow> f v | [] \<Rightarrow> Err (arity_error 1 name args))"

definition binary_args ::
  "string \<Rightarrow> 'd rt_value list \<Rightarrow> ('d rt_value \<Rightarrow> 'd rt_value \<Rightarrow> ('d, 'a) outcome) \<Rightarrow> ('d, 'a) outcome" where
  "binary_args name args f = (case args of [a, b] \<Rightarrow> f a b | _ \<Rightarrow> Err (arity_error 2 name args))"

definition ternary_args ::
  "string \<Rightarrow> 'd rt_value list \<Rightarrow> ('d rt_value \<Rightarrow> 'd rt_value \<Rightarrow> 'd rt_value \<Rightarrow> ('d, 'a) outcome) \<Rightarrow> ('d, 'a) outcome" where
  "ternary_args name args f = (case args of [a, b, c] \<Rightarrow> f a b c | _ \<Rightarrow> Err (arity_error 3 name args))"

definition str_arg :: "string \<Rightarrow> 'd rt_value \<Rightarrow> ('d, str) outcome" where
  "str_arg name v = (case v of VStr s \<Rightarrow> Ok s | _ \<Rightarrow> Err (expected ''Str'' v name))"

text \<open>\<open>BigInt::to_i64\<close>; an argument out of range counts as 0.\<close>

definition bigint_to_i64 :: "int \<Rightarrow> int option" where
  "bigint_to_i64 n = (if - (2 ^ 63) \<le> n \<and> n < 2 ^ 63 then Some n else None)"

definition int_arg :: "string \<Rightarrow> string \<Rightarrow> 'd rt_value \<Rightarrow> ('d, int) outcome" where
  "int_arg name param v = (case v of
     VInt n \<Rightarrow> Ok (case bigint_to_i64 n of Some i \<Rightarrow> i | None \<Rightarrow> 0)
   | _ \<Rightarrow> Err (expected ''Int'' v (name @ '': '' @ param)))"

definition runtime_error :: "str \<Rightarrow> 'd interp_error" where
  "runtime_error msg = RuntimeError msg None"

section \<open>Arithmetic and collections\<close>

definition bi_pow :: "'d ext \<Rightarrow> 'd builtin" where
  "bi_pow X args = binary_args ''pow'' args (op_pow X)"

definition bi_abs :: "'d numerics \<Rightarrow> 'd builtin" where
  "bi_abs F args = (case args of
     [v] \<Rightarrow> (case v of VInt n \<Rightarrow> Ok (VInt \<bar>n\<bar>) | VDecimal d \<Rightarrow> Ok (VDecimal (dec_abs F d))
       | _ \<Rightarrow> Err (expected ''number'' v ''abs''))
   | _ \<Rightarrow> Err (arity_error 1 ''abs'' args))"

definition bi_count :: "'d builtin" where
  "bi_count args = one_arg ''count'' args (\<lambda>v. bindE (op_count v) (\<lambda>n. Ok (VInt (int n))))"

definition bi_first :: "'d builtin" where
  "bi_first args = one_arg ''first'' args op_first"

definition bi_rest :: "'d builtin" where
  "bi_rest args = one_arg ''rest'' args op_rest"

definition bi_cons :: "'d builtin" where
  "bi_cons args = binary_args ''cons'' args op_cons"

definition bi_push :: "'d builtin" where
  "bi_push args = binary_args ''push'' args op_push"

definition bi_assoc :: "'d ext \<Rightarrow> 'd builtin" where
  "bi_assoc X args = ternary_args ''assoc'' args (op_assoc X)"

definition bi_dissoc :: "'d ext \<Rightarrow> 'd builtin" where
  "bi_dissoc X args = binary_args ''dissoc'' args (op_dissoc X)"

definition bi_get :: "'d ext \<Rightarrow> 'd builtin" where
  "bi_get X args = binary_args ''get'' args (op_get X)"

definition bi_has_key :: "'d ext \<Rightarrow> 'd builtin" where
  "bi_has_key X args = binary_args ''has_key'' args (\<lambda>c k. case c of
     VMap m \<Rightarrow> Ok (VBool (entry_get (value_eq X) k m \<noteq> None)) | _ \<Rightarrow> Err (expected ''Map'' c ''has_key''))"

definition bi_iter_to_vec :: "'d builtin" where
  "bi_iter_to_vec args = one_arg ''iter_to_vec'' args iter_to_vec"

section \<open>Type tests\<close>

definition test :: "string \<Rightarrow> ('d rt_value \<Rightarrow> bool) \<Rightarrow> 'd builtin" where
  "test name p args = one_arg name args (\<lambda>v. Ok (VBool (p v)))"

definition bi_is_int :: "'d builtin" where
  "bi_is_int = test ''is_int'' (\<lambda>v. case v of VInt _ \<Rightarrow> True | _ \<Rightarrow> False)"

definition bi_is_decimal :: "'d builtin" where
  "bi_is_decimal = test ''is_decimal'' (\<lambda>v. case v of VDecimal _ \<Rightarrow> True | _ \<Rightarrow> False)"

definition bi_is_str :: "'d builtin" where
  "bi_is_str = test ''is_str'' (\<lambda>v. case v of VStr _ \<Rightarrow> True | _ \<Rightarrow> False)"

definition bi_is_bool :: "'d builtin" where
  "bi_is_bool = test ''is_bool'' (\<lambda>v. case v of VBool _ \<Rightarrow> True | _ \<Rightarrow> False)"

definition bi_is_nil :: "'d builtin" where
  "bi_is_nil = test ''is_nil'' (\<lambda>v. case v of VNil \<Rightarrow> True | _ \<Rightarrow> False)"

definition bi_is_vec :: "'d builtin" where
  "bi_is_vec = test ''is_vec'' (\<lambda>v. case v of VVec _ \<Rightarrow> True | _ \<Rightarrow> False)"

definition bi_is_map :: "'d builtin" where
  "bi_is_map = test ''is_map'' (\<lambda>v. case v of VMap _ \<Rightarrow> True | _ \<Rightarrow> False)"

definition bi_is_set :: "'d builtin" where
  "bi_is_set = test ''is_set'' (\<lambda>v. case v of VSet _ \<Rightarrow> True | _ \<Rightarrow> False)"

definition bi_set :: "'d ext \<Rightarrow> 'd builtin" where
  "bi_set X args = one_arg ''set'' args (\<lambda>v. case v of
     VVec xs \<Rightarrow> Ok (value_set X xs) | VSet s \<Rightarrow> Ok v | _ \<Rightarrow> Err (expected ''Vec or Set'' v ''set''))"

definition bi_is_number :: "'d builtin" where
  "bi_is_number = test ''is_number'' is_number"

definition bi_is_func :: "'d builtin" where
  "bi_is_func = test ''is_func'' (\<lambda>v. case v of VFunc _ \<Rightarrow> True | VNative _ \<Rightarrow> True | VClosure _ \<Rightarrow> True | _ \<Rightarrow> False)"

definition bi_is_closure :: "'d builtin" where
  "bi_is_closure = test ''is_closure'' (\<lambda>v. case v of VFunc _ \<Rightarrow> True | VClosure _ \<Rightarrow> True | _ \<Rightarrow> False)"

definition bi_type_of :: "'d builtin" where
  "bi_type_of args = one_arg ''type_of'' args (\<lambda>v. Ok (VStr (type_name v)))"

section \<open>Introspection\<close>

definition bi_keys :: "'d builtin" where
  "bi_keys args = one_arg ''keys'' args (\<lambda>v. case v of
     VMap m \<Rightarrow> Ok (VVec (map fst m)) | VStruct n fs \<Rightarrow> Ok (VVec (map (\<lambda>p. VStr (fst p)) fs))
   | _ \<Rightarrow> Err (expected ''Map or Struct'' v ''keys''))"

definition bi_values :: "'d builtin" where
  "bi_values args = one_arg ''values'' args (\<lambda>v. case v of
     VMap m \<Rightarrow> Ok (VVec (map snd m)) | VStruct n fs \<Rightarrow> Ok (VVec (map snd fs))
   | _ \<Rightarrow> Err (expected ''Map or Struct'' v ''values''))"

definition bi_fields :: "'d ext \<Rightarrow> 'd builtin" where
  "bi_fields X args = one_arg ''fields'' args (\<lambda>v. case v of
     VStruct n fs \<Rightarrow> Ok (value_map X (map (\<lambda>p. (VStr (fst p), snd p)) fs))
   | _ \<Rightarrow> Err (expected ''Struct'' v ''fields''))"

definition bi_variant_name :: "'d builtin" where
  "bi_variant_name args = one_arg ''variant_name'' args (\<lambda>v. case v of
     VVariant n xs \<Rightarrow> Ok (VStr n) | VStruct n fs \<Rightarrow> Ok (VStr n)
   | _ \<Rightarrow> Err (expected ''Variant or Struct'' v ''variant_name''))"

definition bi_variant_args :: "'d builtin" where
  "bi_variant_args args = one_arg ''variant_args'' args (\<lambda>v. case v of
     VVariant n xs \<Rightarrow> Ok (VVec xs) | VStruct n fs \<Rightarrow> Ok (VVec (map snd fs))
   | _ \<Rightarrow> Err (expected ''Variant or Struct'' v ''variant_args''))"

definition norm_type :: "str \<Rightarrow> str" where
  "norm_type s = (if s = lit ''Str'' then lit ''String'' else if s = lit ''Func'' then lit ''Closure'' else s)"

definition bi_instance_of :: "'d builtin" where
  "bi_instance_of args = binary_args ''instance_of'' args (\<lambda>v t. bindE (str_arg ''instance_of'' t) (\<lambda>ty.
     Ok (VBool (case v of VVariant n xs \<Rightarrow> n = ty | VStruct n fs \<Rightarrow> n = ty | _ \<Rightarrow> norm_type (type_name v) = norm_type ty))))"

section \<open>Conversions\<close>

definition bi_to_i64 :: "'d ext \<Rightarrow> 'd builtin" where
  "bi_to_i64 X args = one_arg ''to_i64'' args (\<lambda>v. case v of
     VInt n \<Rightarrow> Ok v
   | VDecimal d \<Rightarrow> (case dec_to_i64 X d of Some i \<Rightarrow> Ok (VInt i)
       | None \<Rightarrow> Err (runtime_error (lit ''cannot convert '' @ dec_show X d @ lit '' to i64'')))
   | _ \<Rightarrow> Err (expected ''number'' v ''to_i64''))"

definition dec_or_zero :: "'d ext \<Rightarrow> 'd numerics \<Rightarrow> f64 \<Rightarrow> 'd rt_value" where
  "dec_or_zero X F f = VDecimal (case dec_of_f64 F f of Some d \<Rightarrow> d | None \<Rightarrow> dec_of_int X 0)"

definition bi_to_f64 :: "'d ext \<Rightarrow> 'd numerics \<Rightarrow> 'd builtin" where
  "bi_to_f64 X F args = one_arg ''to_f64'' args (\<lambda>v. case v of
     VInt n \<Rightarrow> (case int_to_f64 F n of Some f \<Rightarrow> Ok (dec_or_zero X F f)
       | None \<Rightarrow> Err (runtime_error (lit ''cannot convert '' @ show_int n @ lit '' to f64'')))
   | VDecimal d \<Rightarrow> Ok v
   | _ \<Rightarrow> Err (expected ''number'' v ''to_f64''))"

definition bi_int :: "'d ext \<Rightarrow> 'd numerics \<Rightarrow> 'd builtin" where
  "bi_int X F args = one_arg ''int'' args (\<lambda>v. case v of
     VInt n \<Rightarrow> Ok v
   | VDecimal d \<Rightarrow> (case bigint_parse F (takeWhile (\<lambda>c. c \<noteq> chr CHR ''.'') (dec_show X d)) of Some n \<Rightarrow> Ok (VInt n)
       | None \<Rightarrow> Err (runtime_error (lit ''cannot convert '' @ dec_show X d @ lit '' to int'')))
   | VStr s \<Rightarrow> (case bigint_parse F s of Some n \<Rightarrow> Ok (VInt n)
       | None \<Rightarrow> Err (runtime_error (lit ''cannot convert '' @ [dquote] @ s @ [dquote] @ lit '' to int'')))
   | _ \<Rightarrow> Err (expected ''number or Str'' v ''int''))"

definition bi_decimal :: "'d ext \<Rightarrow> 'd builtin" where
  "bi_decimal X args = one_arg ''decimal'' args (\<lambda>v. case v of
     VDecimal d \<Rightarrow> Ok v | VInt n \<Rightarrow> Ok (VDecimal (dec_of_int X n)) | _ \<Rightarrow> Err (expected ''number'' v ''decimal''))"

definition bi_str :: "'d ext \<Rightarrow> heap_view \<Rightarrow> 'd builtin" where
  "bi_str X H args = one_arg ''str'' args (\<lambda>v. Ok (VStr (value_show X H v)))"

text \<open>Without the quotes around a string.\<close>

definition display :: "'d ext \<Rightarrow> heap_view \<Rightarrow> 'd rt_value \<Rightarrow> str" where
  "display X H v = (case v of VStr s \<Rightarrow> s | _ \<Rightarrow> value_show X H v)"

definition bi_to_str :: "'d ext \<Rightarrow> heap_view \<Rightarrow> 'd builtin" where
  "bi_to_str X H args = one_arg ''to_str'' args (\<lambda>v. Ok (VStr (display X H v)))"

text \<open>What the printing functions write to the output, and their value.\<close>

definition bi_print :: "'d ext \<Rightarrow> heap_view \<Rightarrow> 'd rt_value list \<Rightarrow> str \<times> ('d, 'd rt_value) outcome" where
  "bi_print X H args = ((case args of v # _ \<Rightarrow> display X H v | [] \<Rightarrow> []), Ok VNil)"

definition bi_println :: "'d ext \<Rightarrow> heap_view \<Rightarrow> 'd rt_value list \<Rightarrow> str \<times> ('d, 'd rt_value) outcome" where
  "bi_println X H args = ((case args of v # _ \<Rightarrow> display X H v | [] \<Rightarrow> []) @ [newline], Ok VNil)"

section \<open>Searching in strings\<close>

text \<open>\<open>str::find\<close>, as the index of a character.\<close>

definition begins :: "str \<Rightarrow> str \<Rightarrow> bool" where
  "begins p s \<longleftrightarrow> take (length p) s = p"

primrec find_text :: "str \<Rightarrow> str \<Rightarrow> nat option" where
  "find_text p [] = (if p = [] then Some 0 else None)"
| "find_text p (c # s) = (if begins p (c # s) then Some 0 else map_option Suc (find_text p s))"

lemma find_text_fits: "find_text p s = Some i \<Longrightarrow> i + length p \<le> length s"
proof (induction s arbitrary: i)
  case (Cons c s)
  show ?case
  proof (cases "begins p (c # s)")
    case True
    then have "length p \<le> length (c # s)" by (metis begins_def length_take min.cobounded1)
    then show ?thesis using Cons.prems True by simp
  qed (use Cons in auto)
qed (simp split: if_splits)

text \<open>\<open>str::split\<close> at a separator \<open>c # cs\<close>, \<open>str::replace\<close>.\<close>

function split_text :: "uchar \<Rightarrow> str \<Rightarrow> str \<Rightarrow> str list" where
  "split_text c cs s = (case find_text (c # cs) s of
     None \<Rightarrow> [s] | Some i \<Rightarrow> take i s # split_text c cs (drop (i + length (c # cs)) s))"
  by pat_completeness auto

termination
  by (relation "measure (\<lambda>(c, cs, s). length s)") (auto dest: find_text_fits)

function replace_text :: "uchar \<Rightarrow> str \<Rightarrow> str \<Rightarrow> str \<Rightarrow> str" where
  "replace_text c cs new s = (case find_text (c # cs) s of
     None \<Rightarrow> s | Some i \<Rightarrow> take i s @ new @ replace_text c cs new (drop (i + length (c # cs)) s))"
  by pat_completeness auto

termination
  by (relation "measure (\<lambda>(c, cs, new, s). length s)") (auto dest: find_text_fits)

declare split_text.simps [simp del] replace_text.simps [simp del]

text \<open>The empty pattern matches before every character and at the end.\<close>

definition replace_all :: "str \<Rightarrow> str \<Rightarrow> str \<Rightarrow> str" where
  "replace_all old new s = (case old of
     [] \<Rightarrow> new @ concat (map (\<lambda>c. c # new) s) | c # cs \<Rightarrow> replace_text c cs new s)"

section \<open>Strings\<close>

definition bi_len :: "'d builtin" where
  "bi_len args = one_arg ''len'' args (\<lambda>v. case v of
     VStr s \<Rightarrow> Ok (VInt (int (length s))) | _ \<Rightarrow> bindE (op_count v) (\<lambda>n. Ok (VInt (int n))))"

definition str_args2 :: "string \<Rightarrow> 'd rt_value list \<Rightarrow> (str \<Rightarrow> str \<Rightarrow> ('d, 'a) outcome) \<Rightarrow> ('d, 'a) outcome" where
  "str_args2 name args f = binary_args name args (\<lambda>a b. bindE (str_arg name a) (\<lambda>s. bindE (str_arg name b) (f s)))"

definition bi_split :: "'d builtin" where
  "bi_split args = str_args2 ''split'' args (\<lambda>s sep. Ok (VVec (case sep of
     [] \<Rightarrow> map (\<lambda>c. VStr [c]) s | c # cs \<Rightarrow> map VStr (split_text c cs s))))"

definition bi_join :: "'d ext \<Rightarrow> heap_view \<Rightarrow> 'd builtin" where
  "bi_join X H args = binary_args ''join'' args (\<lambda>v sep. case v of
     VVec xs \<Rightarrow> bindE (str_arg ''join'' sep) (\<lambda>s. Ok (VStr (intercalate s (map (display X H) xs))))
   | _ \<Rightarrow> Err (expected ''Vec'' v ''join''))"

definition bi_replace :: "'d builtin" where
  "bi_replace args = ternary_args ''replace'' args (\<lambda>a b c. bindE (str_arg ''replace'' a) (\<lambda>s.
     bindE (str_arg ''replace'' b) (\<lambda>old. bindE (str_arg ''replace'' c) (\<lambda>new. Ok (VStr (replace_all old new s))))))"

definition str_fun :: "string \<Rightarrow> 'd rt_value list \<Rightarrow> (str \<Rightarrow> 'd rt_value) \<Rightarrow> ('d, 'd rt_value) outcome" where
  "str_fun name args f = one_arg name args (\<lambda>v. bindE (str_arg name v) (\<lambda>s. Ok (f s)))"

definition bi_trim :: "'d builtin" where
  "bi_trim args = str_fun ''trim'' args (\<lambda>s. VStr (rev (dropWhile is_whitespace (rev (dropWhile is_whitespace s)))))"

definition bi_contains :: "'d builtin" where
  "bi_contains args = str_args2 ''contains'' args (\<lambda>s p. Ok (VBool (find_text p s \<noteq> None)))"

definition bi_substring :: "'d builtin" where
  "bi_substring args = ternary_args ''substring'' args (\<lambda>a b c. bindE (str_arg ''substring'' a) (\<lambda>s.
     bindE (int_arg ''substring'' ''start'' b) (\<lambda>i. bindE (int_arg ''substring'' ''end'' c) (\<lambda>j.
       let n = int (length s); start = min (max i 0) n; stop = min (max j start) n
       in Ok (VStr (take (nat stop - nat start) (drop (nat start) s)))))))"

definition bi_starts_with :: "'d builtin" where
  "bi_starts_with args = str_args2 ''starts_with'' args (\<lambda>s p. Ok (VBool (begins p s)))"

definition bi_ends_with :: "'d builtin" where
  "bi_ends_with args = str_args2 ''ends_with'' args (\<lambda>s p. Ok (VBool (begins (rev p) (rev s))))"

definition bi_index_of :: "'d builtin" where
  "bi_index_of args = str_args2 ''index_of'' args (\<lambda>s p. Ok (VInt (case find_text p s of Some i \<Rightarrow> int i | None \<Rightarrow> - 1)))"

text \<open>Element \<open>i\<close> of a list that the string gives, \<open>len\<close> naming its length in the message.\<close>

definition element_at ::
  "string \<Rightarrow> string \<Rightarrow> 'd rt_value list \<Rightarrow> (str \<Rightarrow> 'b list) \<Rightarrow> ('b \<Rightarrow> 'd rt_value) \<Rightarrow> ('d, 'd rt_value) outcome" where
  "element_at name len args f g = binary_args name args (\<lambda>a b. bindE (str_arg name a) (\<lambda>s. bindE (int_arg name ''i'' b) (\<lambda>i.
     if i < 0 then Err (runtime_error (lit name @ lit '': index '' @ show_int i @ lit '' is negative''))
     else if nat i < length (f s) then Ok (g (f s ! nat i))
     else Err (runtime_error (lit name @ lit '': index '' @ show_int i @ lit '' out of range ('' @ lit len @ lit ''=''
       @ show_nat (length (f s)) @ lit '')'')))))"

definition bi_char_at :: "'d builtin" where
  "bi_char_at args = element_at ''char_at'' ''len'' args (\<lambda>s. s) (\<lambda>c. VStr [c])"

definition bi_codepoint_at :: "'d builtin" where
  "bi_codepoint_at args = element_at ''codepoint_at'' ''len'' args (\<lambda>s. s) (\<lambda>c. VInt (int c))"

definition bi_from_codepoint :: "'d builtin" where
  "bi_from_codepoint args = (case args of
     [v] \<Rightarrow> bindE (int_arg ''from_codepoint'' ''n'' v) (\<lambda>n.
       if \<not> (0 \<le> n \<and> n \<le> 0x10FFFF) then Err (runtime_error (lit ''from_codepoint: '' @ show_int n @ lit '' out of Unicode range''))
       else (case char_from_u32 (nat n) of Some c \<Rightarrow> Ok (VStr [c])
         | None \<Rightarrow> Err (runtime_error (lit ''from_codepoint: '' @ show_int n @ lit '' is not a valid scalar value''))))
   | _ \<Rightarrow> Err (arity_error 1 ''from_codepoint'' args))"

text \<open>The UTF-8 encoding.\<close>

definition utf8_char :: "uchar \<Rightarrow> nat list" where
  "utf8_char c =
    (if c < 0x80 then [c]
     else if c < 0x800 then [0xC0 + c div 64, 0x80 + c mod 64]
     else if c < 0x10000 then [0xE0 + c div 4096, 0x80 + c div 64 mod 64, 0x80 + c mod 64]
     else [0xF0 + c div 262144, 0x80 + c div 4096 mod 64, 0x80 + c div 64 mod 64, 0x80 + c mod 64])"

definition utf8 :: "str \<Rightarrow> nat list" where
  "utf8 s = concat (map utf8_char s)"

definition bi_byte_at :: "'d builtin" where
  "bi_byte_at args = element_at ''byte_at'' ''byte_len'' args utf8 (\<lambda>b. VInt (int b))"

definition bi_byte_len :: "'d builtin" where
  "bi_byte_len args = str_fun ''byte_len'' args (\<lambda>s. VInt (int (length (utf8 s))))"

definition bi_to_lower :: "'d numerics \<Rightarrow> 'd builtin" where
  "bi_to_lower F args = str_fun ''to_lower'' args (\<lambda>s. VStr (text_lower F s))"

definition bi_to_upper :: "'d numerics \<Rightarrow> 'd builtin" where
  "bi_to_upper F args = str_fun ''to_upper'' args (\<lambda>s. VStr (text_upper F s))"

text \<open>A single byte of a class.\<close>

definition one_byte :: "(uchar \<Rightarrow> bool) \<Rightarrow> str \<Rightarrow> bool" where
  "one_byte p s = (case utf8 s of [b] \<Rightarrow> p b | _ \<Rightarrow> False)"

definition bi_is_digit :: "'d builtin" where
  "bi_is_digit args = str_fun ''is_digit'' args (\<lambda>s. VBool (one_byte is_ascii_digit s))"

definition bi_is_alpha :: "'d builtin" where
  "bi_is_alpha args = str_fun ''is_alpha'' args (\<lambda>s. VBool (one_byte is_ascii_alphabetic s))"

definition bi_is_space :: "'d builtin" where
  "bi_is_space args = str_fun ''is_space'' args (\<lambda>s. VBool (s \<in> {[32], [9], [10], [13]}))"

section \<open>Mathematics\<close>

definition num_to_f64 :: "'d ext \<Rightarrow> 'd numerics \<Rightarrow> string \<Rightarrow> 'd rt_value \<Rightarrow> ('d, f64) outcome" where
  "num_to_f64 X F name v = (case v of
     VInt n \<Rightarrow> (case int_to_f64 F n of Some f \<Rightarrow> Ok f
       | None \<Rightarrow> Err (runtime_error (lit ''cannot convert '' @ show_int n @ lit '' to f64'')))
   | VDecimal d \<Rightarrow> (case dec_to_f64 F d of Some f \<Rightarrow> Ok f
       | None \<Rightarrow> Err (runtime_error (lit ''cannot convert '' @ dec_show X d @ lit '' to f64'')))
   | _ \<Rightarrow> Err (expected ''number'' v name))"

definition f64_to_decimal :: "'d ext \<Rightarrow> 'd numerics \<Rightarrow> string \<Rightarrow> f64 \<Rightarrow> ('d, 'd rt_value) outcome" where
  "f64_to_decimal X F name f = (case f of
     Finite q \<Rightarrow> Ok (dec_or_zero X F f) | _ \<Rightarrow> Err (runtime_error (lit name @ lit '' produced a non-finite result'')))"

definition extremum :: "'d ext \<Rightarrow> 'd numerics \<Rightarrow> string \<Rightarrow> (f64 \<Rightarrow> f64 \<Rightarrow> bool) \<Rightarrow> 'd builtin" where
  "extremum X F name before args = binary_args name args (\<lambda>v w. bindE (num_to_f64 X F name v) (\<lambda>a.
     bindE (num_to_f64 X F name w) (\<lambda>b. Ok (if before a b then v else w))))"

definition bi_min :: "'d ext \<Rightarrow> 'd numerics \<Rightarrow> 'd builtin" where
  "bi_min X F = extremum X F ''min'' f64_le"

definition bi_max :: "'d ext \<Rightarrow> 'd numerics \<Rightarrow> 'd builtin" where
  "bi_max X F = extremum X F ''max'' (\<lambda>a b. f64_le b a)"

definition rounded :: "'d ext \<Rightarrow> 'd numerics \<Rightarrow> string \<Rightarrow> (rat \<Rightarrow> int) \<Rightarrow> 'd builtin" where
  "rounded X F name f args = one_arg name args (\<lambda>v. case v of
     VInt n \<Rightarrow> Ok v
   | VDecimal d \<Rightarrow> (case dec_to_f64 F d of Some x \<Rightarrow> Ok (VInt (f64_as_i64 (f64_map f x)))
       | None \<Rightarrow> Err (runtime_error (lit ''cannot '' @ lit name @ lit '' '' @ dec_show X d)))
   | _ \<Rightarrow> Err (expected ''number'' v name))"

definition bi_floor :: "'d ext \<Rightarrow> 'd numerics \<Rightarrow> 'd builtin" where
  "bi_floor X F = rounded X F ''floor'' floor"

definition bi_ceil :: "'d ext \<Rightarrow> 'd numerics \<Rightarrow> 'd builtin" where
  "bi_ceil X F = rounded X F ''ceil'' ceiling"

definition bi_round :: "'d ext \<Rightarrow> 'd numerics \<Rightarrow> 'd builtin" where
  "bi_round X F = rounded X F ''round'' round_away"

definition analytic :: "'d ext \<Rightarrow> 'd numerics \<Rightarrow> string \<Rightarrow> (f64 \<Rightarrow> f64) \<Rightarrow> 'd builtin" where
  "analytic X F name f args = one_arg name args (\<lambda>v. bindE (num_to_f64 X F name v) (\<lambda>x. f64_to_decimal X F name (f x)))"

definition bi_sqrt :: "'d ext \<Rightarrow> 'd numerics \<Rightarrow> 'd builtin" where
  "bi_sqrt X F = analytic X F ''sqrt'' (f64_sqrt F)"

definition bi_sin :: "'d ext \<Rightarrow> 'd numerics \<Rightarrow> 'd builtin" where
  "bi_sin X F = analytic X F ''sin'' (f64_sin F)"

definition bi_cos :: "'d ext \<Rightarrow> 'd numerics \<Rightarrow> 'd builtin" where
  "bi_cos X F = analytic X F ''cos'' (f64_cos F)"

definition bi_exp :: "'d ext \<Rightarrow> 'd numerics \<Rightarrow> 'd builtin" where
  "bi_exp X F = analytic X F ''exp'' (f64_exp F)"

definition bi_log :: "'d ext \<Rightarrow> 'd numerics \<Rightarrow> 'd builtin" where
  "bi_log X F args = binary_args ''log'' args (\<lambda>v w. bindE (num_to_f64 X F ''log'' v) (\<lambda>n.
     bindE (num_to_f64 X F ''log'' w) (\<lambda>base.
       if f64_le n (Finite 0) \<or> f64_le base (Finite 0) \<or> base = Finite 1
       then Err (runtime_error (lit ''log requires n > 0 and base > 0, base != 1''))
       else f64_to_decimal X F ''log'' (f64_log F n base))))"

section \<open>Time and actors\<close>

text \<open>The clock gives the nanoseconds since the epoch, or an error; \<open>pid\<close> the identifier of an actor.\<close>

definition clock_value :: "string \<Rightarrow> str + nat \<Rightarrow> nat \<Rightarrow> ('d, 'd rt_value) outcome" where
  "clock_value name clock unit = (case clock of
     Inr ns \<Rightarrow> Ok (VInt (int (ns div unit)))
   | Inl e \<Rightarrow> Err (runtime_error (lit name @ lit '': system clock error: '' @ e)))"

definition bi_now_ms :: "str + nat \<Rightarrow> 'd builtin" where
  "bi_now_ms clock args = clock_value ''now_ms'' clock 1000000"

definition bi_now_ns :: "str + nat \<Rightarrow> 'd builtin" where
  "bi_now_ns clock args = clock_value ''now_ns'' clock 1"

definition bi_pid_of :: "(nat \<Rightarrow> nat) \<Rightarrow> 'd builtin" where
  "bi_pid_of pid args = one_arg ''pid_of'' args (\<lambda>v. case v of
     VActor a \<Rightarrow> Ok (VInt (int (pid a))) | _ \<Rightarrow> Err (expected ''Actor'' v ''pid_of''))"

text \<open>What is called by name elsewhere: the higher-order functions and \<open>eval\<close>.\<close>

definition bi_higher_order_placeholder :: "'d builtin" where
  "bi_higher_order_placeholder args = Err (runtime_error (lit ''higher-order builtin not available in this context''))"

definition bi_eval_stub :: "'d builtin" where
  "bi_eval_stub args = Err (runtime_error (lit ''eval is not available in this context (stub called)''))"

end
