(* ===== verification/Ast_Value.thy ===== *)
theory Ast_Value
  imports Builtins Parser
begin

text \<open>
  Syntax trees as values (\<open>src/ast/to_value.rs\<close>) and the builtin \<open>ast_of\<close>. A node is a map whose entry
  \<open>"type"\<close> names its kind; spans, the annotations of bindings and return types are left out.
\<close>

definition dict :: "'d ext \<Rightarrow> (string \<times> 'd rt_value) list \<Rightarrow> 'd rt_value" where
  "dict X entries = value_map X (map (\<lambda>p. (VStr (lit (fst p)), snd p)) entries)"

abbreviation text_value :: "string \<Rightarrow> 'd rt_value" where
  "text_value s \<equiv> VStr (lit s)"

definition ast_node :: "'d ext \<Rightarrow> string \<Rightarrow> (string \<times> 'd rt_value) list \<Rightarrow> 'd rt_value" where
  "ast_node X tag entries = dict X ((''type'', text_value tag) # entries)"

definition name_or_nil :: "str option \<Rightarrow> 'd rt_value" where
  "name_or_nil x = (case x of Some s \<Rightarrow> VStr s | None \<Rightarrow> VNil)"

section \<open>Types and parameters\<close>

primrec type_annot_to_value :: "'d ext \<Rightarrow> type_annot \<Rightarrow> 'd rt_value" where
  "type_annot_to_value X (TName n s) = ast_node X ''TypeName'' [(''name'', VStr n)]"
| "type_annot_to_value X (TGeneric n args s) =
     ast_node X ''TypeGeneric'' [(''name'', VStr n), (''args'', VVec (map (type_annot_to_value X) args))]"
| "type_annot_to_value X (TUnion vs s) = ast_node X ''TypeUnion'' [(''variants'', VVec (map (type_annot_to_value X) vs))]"
| "type_annot_to_value X (TFn ps r s) =
     ast_node X ''TypeFn'' [(''params'', VVec (map (type_annot_to_value X) ps)), (''ret'', type_annot_to_value X r)]"

definition param_to_value :: "'d ext \<Rightarrow> param \<Rightarrow> 'd rt_value" where
  "param_to_value X p = dict X [(''name'', VStr (pa_name p)), (''annot'', or_nil (map_option (type_annot_to_value X) (pa_type p)))]"

section \<open>Patterns\<close>

text \<open>The structures over expressions, with the expressions already encoded.\<close>

primrec str_part_to_value :: "'d ext \<Rightarrow> 'd rt_value ast_str_part \<Rightarrow> 'd rt_value" where
  "str_part_to_value X (LiteralPart s) = ast_node X ''Literal'' [(''text'', VStr s)]"
| "str_part_to_value X (ExprPart v) = ast_node X ''Expr'' [(''expr'', v)]"

primrec lit_pattern_to_value :: "'d ext \<Rightarrow> ('d, 'd rt_value) lit_pattern \<Rightarrow> 'd rt_value" where
  "lit_pattern_to_value X (LPInt n) = ast_node X ''Lit'' [(''lit_type'', text_value ''Int''), (''value'', VInt n)]"
| "lit_pattern_to_value X (LPDecimal d) = ast_node X ''Lit'' [(''lit_type'', text_value ''Decimal''), (''value'', VDecimal d)]"
| "lit_pattern_to_value X (LPStr ps) =
     ast_node X ''Lit'' [(''lit_type'', text_value ''Str''), (''parts'', VVec (map (str_part_to_value X) ps))]"
| "lit_pattern_to_value X (LPBool b) = ast_node X ''Lit'' [(''lit_type'', text_value ''Bool''), (''value'', VBool b)]"
| "lit_pattern_to_value X LPNil = ast_node X ''Lit'' [(''lit_type'', text_value ''Nil'')]"

primrec pattern_to_value :: "'d ext \<Rightarrow> ('d, 'd rt_value) pattern \<Rightarrow> 'd rt_value" where
  "pattern_to_value X (PWildcard s) = ast_node X ''Wildcard'' []"
| "pattern_to_value X (PLit l s) = lit_pattern_to_value X l"
| "pattern_to_value X (PBind n s) = ast_node X ''Bind'' [(''name'', VStr n)]"
| "pattern_to_value X (PVariant n ps s) = ast_node X ''Variant'' [(''name'', VStr n), (''args'', VVec (map (pattern_to_value X) ps))]"
| "pattern_to_value X (PStruct fs rest s) = ast_node X ''Struct''
     [(''fields'', VVec (map (\<lambda>p. dict X [(''name'', VStr (fst p)), (''pattern'', snd p)]) (map (map_prod id (pattern_to_value X)) fs))),
      (''rest'', VBool rest)]"
| "pattern_to_value X (PVec ps rest s) = ast_node X ''Vec'' [(''pats'', VVec (map (pattern_to_value X) ps)), (''rest'', VBool rest)]"
| "pattern_to_value X (POr ps s) = ast_node X ''Or'' [(''pats'', VVec (map (pattern_to_value X) ps))]"
| "pattern_to_value X (PGuard p g s) = ast_node X ''Guard'' [(''pattern'', pattern_to_value X p), (''guard'', g)]"

definition arm_to_value :: "'d ext \<Rightarrow> ('d, 'd rt_value) match_arm \<Rightarrow> 'd rt_value" where
  "arm_to_value X a = dict X [(''pattern'', pattern_to_value X (arm_pattern a)), (''guard'', or_nil (arm_guard a)), (''body'', arm_body a)]"

definition rescue_to_value :: "'d ext \<Rightarrow> 'd rt_value rescue_clause \<Rightarrow> 'd rt_value" where
  "rescue_to_value X r = dict X [(''type_name'', name_or_nil (rc_type r)), (''bind'', name_or_nil (rc_bind r)), (''body'', rc_body r)]"

definition func_to_value :: "'d ext \<Rightarrow> string \<Rightarrow> 'd rt_value func_def \<Rightarrow> 'd rt_value" where
  "func_to_value X tag f = ast_node X tag
     [(''name'', VStr (fd_name f)), (''params'', VVec (map (param_to_value X) (fd_params f))), (''body'', fd_body f)]"

text \<open>A string that is one piece of text is given as such.\<close>

definition str_to_value :: "'d ext \<Rightarrow> 'd rt_value ast_str_part list \<Rightarrow> 'd rt_value" where
  "str_to_value X ps = (case ps of
     [LiteralPart s] \<Rightarrow> ast_node X ''Str'' [(''value'', VStr s)]
   | _ \<Rightarrow> ast_node X ''Str'' [(''parts'', VVec (map (str_part_to_value X) ps))])"

section \<open>Declarations\<close>

definition type_def_to_value :: "'d ext \<Rightarrow> type_def \<Rightarrow> 'd rt_value" where
  "type_def_to_value X t = ast_node X ''TypeDef'' [(''name'', VStr (td_name t)), (''type_params'', VVec (map VStr (td_params t))),
     (''fields'', VVec (map (\<lambda>p. dict X [(''name'', VStr (fst p)), (''annot'', type_annot_to_value X (snd p))]) (td_fields t)))]"

definition enum_def_to_value :: "'d ext \<Rightarrow> enum_def \<Rightarrow> 'd rt_value" where
  "enum_def_to_value X e = ast_node X ''EnumDef'' [(''name'', VStr (ed_name e)), (''type_params'', VVec (map VStr (ed_params e))),
     (''variants'', VVec (map (\<lambda>v. dict X [(''name'', VStr (vd_name v)), (''fields'', VVec (map (type_annot_to_value X) (vd_fields v)))])
        (ed_variants e)))]"

definition import_to_value :: "'d ext \<Rightarrow> import_def \<Rightarrow> 'd rt_value" where
  "import_to_value X i = ast_node X ''Import'' [(''path'', VStr (im_path i)), (''alias'', name_or_nil (im_alias i)), (''lazy'', VBool (im_lazy i))]"

section \<open>Expressions and statements\<close>

primrec expr_to_value :: "'d ext \<Rightarrow> 'd expr \<Rightarrow> 'd rt_value"
  and stmt_to_value :: "'d ext \<Rightarrow> 'd stmt \<Rightarrow> 'd rt_value" where
  "expr_to_value X (EInt n s) = ast_node X ''Int'' [(''value'', VInt n)]"
| "expr_to_value X (EDecimal d s) = ast_node X ''Decimal'' [(''value'', VDecimal d)]"
| "expr_to_value X (EStr ps s) = str_to_value X (map (map_ast_str_part (expr_to_value X)) ps)"
| "expr_to_value X (EBool b s) = ast_node X ''Bool'' [(''value'', VBool b)]"
| "expr_to_value X (ENil s) = ast_node X ''Nil'' []"
| "expr_to_value X (EIdent x s) = ast_node X ''Ident'' [(''name'', VStr x)]"
| "expr_to_value X (EVecLit es s) = ast_node X ''VecLit'' [(''items'', VVec (map (expr_to_value X) es))]"
| "expr_to_value X (EMapLit es s) = ast_node X ''MapLit''
     [(''entries'', VVec (map (\<lambda>p. VVec [fst p, snd p]) (map (map_prod (expr_to_value X) (expr_to_value X)) es)))]"
| "expr_to_value X (ESetLit es s) = ast_node X ''SetLit'' [(''items'', VVec (map (expr_to_value X) es))]"
| "expr_to_value X (EBinOp oper a b s) = ast_node X ''BinOp''
     [(''op'', VStr (bin_op_as_str oper)), (''lhs'', expr_to_value X a), (''rhs'', expr_to_value X b)]"
| "expr_to_value X (EUnaryOp oper a s) = ast_node X ''UnaryOp''
     [(''op'', text_value (case oper of UNeg \<Rightarrow> ''-'' | UNot \<Rightarrow> ''not'')), (''expr'', expr_to_value X a)]"
| "expr_to_value X (EPipe a b s) = ast_node X ''Pipe'' [(''lhs'', expr_to_value X a), (''rhs'', expr_to_value X b)]"
| "expr_to_value X (EIf c t e s) = ast_node X ''If''
     [(''cond'', expr_to_value X c), (''then'', expr_to_value X t), (''else'', or_nil (map_option (expr_to_value X) e))]"
| "expr_to_value X (EMatch e arms s) = ast_node X ''Match''
     [(''scrutinee'', expr_to_value X e), (''arms'', VVec (map (arm_to_value X) (map (map_match_arm (\<lambda>d. d) (expr_to_value X)) arms)))]"
| "expr_to_value X (ELambda ps r b s) = ast_node X ''Lambda'' [(''params'', VVec (map (param_to_value X) ps)), (''body'', expr_to_value X b)]"
| "expr_to_value X (EBlock ss t s) = ast_node X ''Block''
     [(''stmts'', VVec (map (stmt_to_value X) ss)), (''tail'', or_nil (map_option (expr_to_value X) t))]"
| "expr_to_value X (EParen e s) = ast_node X ''Paren'' [(''expr'', expr_to_value X e)]"
| "expr_to_value X (ECall f es s) = ast_node X ''Call'' [(''callee'', expr_to_value X f), (''args'', VVec (map (expr_to_value X) es))]"
| "expr_to_value X (EMethodCall r m es s) = ast_node X ''MethodCall''
     [(''receiver'', expr_to_value X r), (''method'', VStr m), (''args'', VVec (map (expr_to_value X) es))]"
| "expr_to_value X (EIndex a b s) = ast_node X ''Index'' [(''target'', expr_to_value X a), (''index'', expr_to_value X b)]"
| "expr_to_value X (EField a n s) = ast_node X ''Field'' [(''target'', expr_to_value X a), (''name'', VStr n)]"
| "expr_to_value X (EActorSend a b s) = ast_node X ''ActorSend'' [(''actor'', expr_to_value X a), (''msg'', expr_to_value X b)]"
| "expr_to_value X (EActorRequest a b s) = ast_node X ''ActorRequest'' [(''actor'', expr_to_value X a), (''msg'', expr_to_value X b)]"
| "expr_to_value X (ESpawn n es s) = ast_node X ''Spawn'' [(''name'', VStr n), (''args'', VVec (map (expr_to_value X) es))]"
| "expr_to_value X (ERaise e s) = ast_node X ''Raise'' [(''expr'', expr_to_value X e)]"
| "expr_to_value X (ETry b rs en s) = ast_node X ''Try''
     [(''body'', expr_to_value X b), (''rescues'', VVec (map (rescue_to_value X) (map (map_rescue_clause (expr_to_value X)) rs))),
      (''ensure'', or_nil (map_option (expr_to_value X) en))]"
| "expr_to_value X (ETransact b s) = ast_node X ''Transact'' [(''body'', expr_to_value X b)]"
| "expr_to_value X (ERetry s) = ast_node X ''Retry'' []"
| "expr_to_value X (EReturn v s) = ast_node X ''Return'' [(''value'', or_nil (map_option (expr_to_value X) v))]"
| "expr_to_value X (EReply v s) = ast_node X ''Reply'' [(''value'', expr_to_value X v)]"
| "expr_to_value X (EYield s) = ast_node X ''Yield'' []"
| "expr_to_value X (EAwait e s) = ast_node X ''Await'' [(''expr'', expr_to_value X e)]"
| "expr_to_value X (ESharedExpr e s) = ast_node X ''SharedExpr'' [(''expr'', expr_to_value X e)]"
| "expr_to_value X (EAssign a b s) = ast_node X ''Assign'' [(''target'', expr_to_value X a), (''value'', expr_to_value X b)]"
| "expr_to_value X (ECompoundAssign oper a b s) = ast_node X ''CompoundAssign''
     [(''op'', VStr (bin_op_as_str oper)), (''target'', expr_to_value X a), (''value'', expr_to_value X b)]"
| "expr_to_value X (EWhile c b s) = ast_node X ''While'' [(''cond'', expr_to_value X c), (''body'', expr_to_value X b)]"
| "expr_to_value X (EFor x i b s) = ast_node X ''For'' [(''var'', VStr x), (''iter'', expr_to_value X i), (''body'', expr_to_value X b)]"
| "expr_to_value X (ELoop b s) = ast_node X ''Loop'' [(''body'', expr_to_value X b)]"
| "expr_to_value X (EBreak v s) = ast_node X ''Break'' [(''value'', or_nil (map_option (expr_to_value X) v))]"
| "expr_to_value X (EContinue s) = ast_node X ''Continue'' []"
| "stmt_to_value X (SLet n t v s) = ast_node X ''Let'' [(''name'', VStr n), (''value'', expr_to_value X v)]"
| "stmt_to_value X (SSharedDecl n t v s) = ast_node X ''SharedDecl'' [(''name'', VStr n), (''value'', expr_to_value X v)]"
| "stmt_to_value X (SStateDecl n t v s) = ast_node X ''StateDecl'' [(''name'', VStr n), (''value'', expr_to_value X v)]"
| "stmt_to_value X (SOnClause f) = func_to_value X ''OnClause'' (map_func_def (expr_to_value X) f)"
| "stmt_to_value X (SFuncDef f) = func_to_value X ''FuncDef'' (map_func_def (expr_to_value X) f)"
| "stmt_to_value X (STypeDef t) = type_def_to_value X t"
| "stmt_to_value X (SEnumDef e) = enum_def_to_value X e"
| "stmt_to_value X (SActorDef a) = ast_node X ''ActorDef''
     [(''name'', VStr (ad_name (map_actor_def (stmt_to_value X) a))), (''body'', VVec (ad_body (map_actor_def (stmt_to_value X) a)))]"
| "stmt_to_value X (SImport i) = import_to_value X i"
| "stmt_to_value X (SExpr e) = ast_node X ''Expr'' [(''expr'', expr_to_value X e)]"
| "stmt_to_value X (SSemi e) = ast_node X ''Semi'' [(''expr'', expr_to_value X e)]"

definition program_to_value :: "'d ext \<Rightarrow> 'd program \<Rightarrow> 'd rt_value" where
  "program_to_value X p = ast_node X ''Program'' [(''stmts'', VVec (map (stmt_to_value X) (pr_stmts p)))]"

section \<open>The builtin\<close>

text \<open>\<open>n\<close> bounds the nesting of the parser. The first diagnostic of the parser is given as a map.\<close>

definition bi_ast_of :: "'d ext \<Rightarrow> nat \<Rightarrow> 'd rt_value list \<Rightarrow> ('d, 'd rt_value) outcome option" where
  "bi_ast_of X n args = (case one_arg ''ast_of'' args (str_arg ''ast_of'') of
     Err e \<Rightarrow> Some (Err e)
   | Ok src \<Rightarrow> (case parse X n src of
       None \<Rightarrow> None
     | Some out \<Rightarrow> Some (Ok (case po_errors out of
         e # _ \<Rightarrow> dict X [(''type'', text_value ''ParseError''), (''message'', VStr (full_message e)),
           (''line'', VInt (int (line (sp_start (err_span e))))), (''col'', VInt (int (col (sp_start (err_span e)))))]
       | [] \<Rightarrow> program_to_value X (po_program out)))))"

end
