(* ===== verification/Ast_Value_Spec.thy ===== *)
theory Ast_Value_Spec
  imports Ast_Value Parser_Spec
begin

text \<open>
  The shape of encoded syntax trees: for every kind of node the entries of its map and what they hold. The encoding of
  every tree has this shape, so a program can rely on it.
\<close>

section \<open>Shapes\<close>

datatype node_class = NExpr | NStmt | NPattern | NType | NPart | NProgram | NError

datatype shape =
    ShInt | ShDecimal | ShBool | ShText | ShOneOf "string list"
  | ShNode node_class
  | ShList shape
  | ShPair shape shape
  | ShOpt shape
  | ShFields "(string \<times> shape) list"

abbreviation ShExpr :: shape where "ShExpr \<equiv> ShNode NExpr"
abbreviation ShParams :: shape where
  "ShParams \<equiv> ShList (ShFields [(''name'', ShText), (''annot'', ShOpt (ShNode NType))])"
abbreviation ShOperator :: shape where
  "ShOperator \<equiv> ShOneOf [''+'', ''-'', ''*'', ''/'', ''%'', ''=='', ''!='', ''<'', ''>'', ''<='', ''>='', ''and'', ''or'']"

text \<open>The kinds of nodes, and the entries after \<open>"type"\<close>.\<close>

primrec schema :: "node_class \<Rightarrow> (string \<times> (string \<times> shape) list) list" where
  "schema NProgram = [(''Program'', [(''stmts'', ShList (ShNode NStmt))])]"
| "schema NError = [(''ParseError'', [(''message'', ShText), (''line'', ShInt), (''col'', ShInt)])]"
| "schema NPart = [(''Literal'', [(''text'', ShText)]), (''Expr'', [(''expr'', ShExpr)])]"
| "schema NType = [
    (''TypeName'', [(''name'', ShText)]),
    (''TypeGeneric'', [(''name'', ShText), (''args'', ShList (ShNode NType))]),
    (''TypeUnion'', [(''variants'', ShList (ShNode NType))]),
    (''TypeFn'', [(''params'', ShList (ShNode NType)), (''ret'', ShNode NType)])]"
| "schema NPattern = [
    (''Wildcard'', []),
    (''Lit'', [(''lit_type'', ShOneOf [''Int'']), (''value'', ShInt)]),
    (''Lit'', [(''lit_type'', ShOneOf [''Decimal'']), (''value'', ShDecimal)]),
    (''Lit'', [(''lit_type'', ShOneOf [''Str'']), (''parts'', ShList (ShNode NPart))]),
    (''Lit'', [(''lit_type'', ShOneOf [''Bool'']), (''value'', ShBool)]),
    (''Lit'', [(''lit_type'', ShOneOf [''Nil''])]),
    (''Bind'', [(''name'', ShText)]),
    (''Variant'', [(''name'', ShText), (''args'', ShList (ShNode NPattern))]),
    (''Struct'', [(''fields'', ShList (ShFields [(''name'', ShText), (''pattern'', ShNode NPattern)])), (''rest'', ShBool)]),
    (''Vec'', [(''pats'', ShList (ShNode NPattern)), (''rest'', ShBool)]),
    (''Or'', [(''pats'', ShList (ShNode NPattern))]),
    (''Guard'', [(''pattern'', ShNode NPattern), (''guard'', ShExpr)])]"
| "schema NExpr = [
    (''Int'', [(''value'', ShInt)]),
    (''Decimal'', [(''value'', ShDecimal)]),
    (''Str'', [(''value'', ShText)]),
    (''Str'', [(''parts'', ShList (ShNode NPart))]),
    (''Bool'', [(''value'', ShBool)]),
    (''Nil'', []),
    (''Ident'', [(''name'', ShText)]),
    (''VecLit'', [(''items'', ShList ShExpr)]),
    (''MapLit'', [(''entries'', ShList (ShPair ShExpr ShExpr))]),
    (''SetLit'', [(''items'', ShList ShExpr)]),
    (''BinOp'', [(''op'', ShOperator), (''lhs'', ShExpr), (''rhs'', ShExpr)]),
    (''UnaryOp'', [(''op'', ShOneOf [''-'', ''not'']), (''expr'', ShExpr)]),
    (''Pipe'', [(''lhs'', ShExpr), (''rhs'', ShExpr)]),
    (''If'', [(''cond'', ShExpr), (''then'', ShExpr), (''else'', ShOpt ShExpr)]),
    (''Match'', [(''scrutinee'', ShExpr),
      (''arms'', ShList (ShFields [(''pattern'', ShNode NPattern), (''guard'', ShOpt ShExpr), (''body'', ShExpr)]))]),
    (''Lambda'', [(''params'', ShParams), (''body'', ShExpr)]),
    (''Block'', [(''stmts'', ShList (ShNode NStmt)), (''tail'', ShOpt ShExpr)]),
    (''Paren'', [(''expr'', ShExpr)]),
    (''Call'', [(''callee'', ShExpr), (''args'', ShList ShExpr)]),
    (''MethodCall'', [(''receiver'', ShExpr), (''method'', ShText), (''args'', ShList ShExpr)]),
    (''Index'', [(''target'', ShExpr), (''index'', ShExpr)]),
    (''Field'', [(''target'', ShExpr), (''name'', ShText)]),
    (''ActorSend'', [(''actor'', ShExpr), (''msg'', ShExpr)]),
    (''ActorRequest'', [(''actor'', ShExpr), (''msg'', ShExpr)]),
    (''Spawn'', [(''name'', ShText), (''args'', ShList ShExpr)]),
    (''Raise'', [(''expr'', ShExpr)]),
    (''Try'', [(''body'', ShExpr),
      (''rescues'', ShList (ShFields [(''type_name'', ShOpt ShText), (''bind'', ShOpt ShText), (''body'', ShExpr)])),
      (''ensure'', ShOpt ShExpr)]),
    (''Transact'', [(''body'', ShExpr)]),
    (''Retry'', []),
    (''Return'', [(''value'', ShOpt ShExpr)]),
    (''Reply'', [(''value'', ShExpr)]),
    (''Yield'', []),
    (''Await'', [(''expr'', ShExpr)]),
    (''SharedExpr'', [(''expr'', ShExpr)]),
    (''Assign'', [(''target'', ShExpr), (''value'', ShExpr)]),
    (''CompoundAssign'', [(''op'', ShOperator), (''target'', ShExpr), (''value'', ShExpr)]),
    (''While'', [(''cond'', ShExpr), (''body'', ShExpr)]),
    (''For'', [(''var'', ShText), (''iter'', ShExpr), (''body'', ShExpr)]),
    (''Loop'', [(''body'', ShExpr)]),
    (''Break'', [(''value'', ShOpt ShExpr)]),
    (''Continue'', [])]"
| "schema NStmt = [
    (''Let'', [(''name'', ShText), (''value'', ShExpr)]),
    (''SharedDecl'', [(''name'', ShText), (''value'', ShExpr)]),
    (''StateDecl'', [(''name'', ShText), (''value'', ShExpr)]),
    (''FuncDef'', [(''name'', ShText), (''params'', ShParams), (''body'', ShExpr)]),
    (''OnClause'', [(''name'', ShText), (''params'', ShParams), (''body'', ShExpr)]),
    (''TypeDef'', [(''name'', ShText), (''type_params'', ShList ShText),
      (''fields'', ShList (ShFields [(''name'', ShText), (''annot'', ShNode NType)]))]),
    (''EnumDef'', [(''name'', ShText), (''type_params'', ShList ShText),
      (''variants'', ShList (ShFields [(''name'', ShText), (''fields'', ShList (ShNode NType))]))]),
    (''ActorDef'', [(''name'', ShText), (''body'', ShList (ShNode NStmt))]),
    (''Import'', [(''path'', ShText), (''alias'', ShOpt ShText), (''lazy'', ShBool)]),
    (''Expr'', [(''expr'', ShExpr)]),
    (''Semi'', [(''expr'', ShExpr)])]"

text \<open>A value has a shape.\<close>

inductive conforms :: "shape \<Rightarrow> 'd rt_value \<Rightarrow> bool" where
  int: "conforms ShInt (VInt n)"
| decimal: "conforms ShDecimal (VDecimal d)"
| bool: "conforms ShBool (VBool b)"
| text_shape: "conforms ShText (VStr s)"
| one_of: "s \<in> set ss \<Longrightarrow> conforms (ShOneOf ss) (VStr (lit s))"
| list: "list_all (conforms sh) vs \<Longrightarrow> conforms (ShList sh) (VVec vs)"
| pair: "conforms sh v \<Longrightarrow> conforms sh' v' \<Longrightarrow> conforms (ShPair sh sh') (VVec [v, v'])"
| absent: "conforms (ShOpt sh) VNil"
| present: "conforms sh v \<Longrightarrow> conforms (ShOpt sh) v"
| fields: "list_all2 (\<lambda>f p. fst p = VStr (lit (fst f)) \<and> conforms (snd f) (snd p)) fs m \<Longrightarrow> conforms (ShFields fs) (VMap m)"
| kind: "(tag, fs) \<in> set (schema c) \<Longrightarrow> conforms (ShFields ((''type'', ShOneOf [tag]) # fs)) v \<Longrightarrow> conforms (ShNode c) v"

section \<open>The encoding has the shape\<close>

lemma entry_insert_names:
  "k \<notin> set (map fst es) \<Longrightarrow> entry_insert (value_eq X) (VStr (lit k)) v (map (\<lambda>p. (VStr (lit (fst p)), snd p)) es)
     = map (\<lambda>p. (VStr (lit (fst p)), snd p)) (es @ [(k, v)])"
  by (induction es) auto

lemma dict_distinct: "distinct (map fst es) \<Longrightarrow> dict X es = VMap (map (\<lambda>p. (VStr (lit (fst p)), snd p)) es)"
proof -
  assume "distinct (map fst es)"
  then have "foldl (\<lambda>m p. entry_insert (value_eq X) (fst p) (snd p) m) [] (map (\<lambda>p. (VStr (lit (fst p)), snd p)) es)
      = map (\<lambda>p. (VStr (lit (fst p)), snd p)) es"
    by (induction es rule: rev_induct) (auto simp: entry_insert_names)
  then show ?thesis by (simp add: dict_def value_map_def entries_of_def)
qed

definition holds :: "string \<times> shape \<Rightarrow> string \<times> 'd rt_value \<Rightarrow> bool" where
  "holds f p \<longleftrightarrow> fst p = fst f \<and> conforms (snd f) (snd p)"

lemma holds_simps [simp]: "holds (k, sh) (k', v) \<longleftrightarrow> k' = k \<and> conforms sh v"
  by (simp add: holds_def)

lemma dict_conforms:
  assumes "list_all2 holds fs es" "distinct (map fst fs)"
  shows "conforms (ShFields fs) (dict X es)"
proof -
  have "map fst es = map fst fs" using assms(1) by (induction rule: list_all2_induct) (auto simp: holds_def)
  then have "distinct (map fst es)" using assms(2) by metis
  then have eq: "dict X es = VMap (map (\<lambda>p. (VStr (lit (fst p)), snd p)) es)" by (rule dict_distinct)
  have "list_all2 (\<lambda>f p. fst p = VStr (lit (fst f)) \<and> conforms (snd f) (snd p)) fs (map (\<lambda>p. (VStr (lit (fst p)), snd p)) es)"
    using assms(1) by (auto simp: list.rel_map holds_def elim!: list_all2_mono)
  then show ?thesis unfolding eq by (rule conforms.fields)
qed

lemma schemas_distinct: "list_all (\<lambda>e. distinct (''type'' # map fst (snd e))) (schema c)"
  by (cases c) simp_all

lemma schema_distinct:
  assumes "(tag, fs) \<in> set (schema c)"
  shows "distinct (''type'' # map fst fs)"
  using schemas_distinct [of c, unfolded list_all_iff, rule_format, OF assms] unfolding snd_conv .

lemma node_conforms:
  assumes "list_ex (\<lambda>e. fst e = tag \<and> list_all2 holds (snd e) es) (schema c)"
  shows "conforms (ShNode c) (ast_node X tag es)"
proof -
  obtain fs where fs: "(tag, fs) \<in> set (schema c)" "list_all2 holds fs es"
    using assms by (auto simp: list_ex_iff)
  show ?thesis
    unfolding ast_node_def
    by (rule conforms.kind [OF fs(1)], rule dict_conforms)
      (use fs(2) schema_distinct [OF fs(1)] in \<open>auto intro: conforms.one_of\<close>)
qed

lemma conforms_basic [simp]:
  "conforms ShInt (VInt n)" "conforms ShDecimal (VDecimal d)" "conforms ShBool (VBool b)" "conforms ShText (VStr s)"
  "conforms (ShOpt ShText) (name_or_nil x)"
  by (auto intro: conforms.intros simp: name_or_nil_def split: option.split)

lemma conforms_one_of [simp]: "conforms (ShOneOf ss) (VStr (lit s)) \<longleftrightarrow> s \<in> set ss"
  by (auto intro: conforms.one_of elim: conforms.cases)

lemma conforms_operator [simp]: "conforms ShOperator (VStr (bin_op_as_str b))"
  by (cases b) simp_all

lemma conforms_list [simp]: "conforms (ShList sh) (VVec vs) \<longleftrightarrow> list_all (conforms sh) vs"
  by (auto intro: conforms.list elim: conforms.cases)

lemma conforms_opt [simp]: "(\<And>v. x = Some v \<Longrightarrow> conforms sh v) \<Longrightarrow> conforms (ShOpt sh) (or_nil x)"
  by (auto simp: or_nil_def intro: conforms.absent conforms.present split: option.split)

lemma conforms_opt_map [simp]:
  "(\<And>y. x = Some y \<Longrightarrow> conforms sh (f y)) \<Longrightarrow> conforms (ShOpt sh) (or_nil (map_option f x))"
  by (rule conforms_opt) auto

lemma type_conforms [simp]: "conforms (ShNode NType) (type_annot_to_value X t)"
proof (induction t)
qed (auto intro!: node_conforms simp: list_all_iff)

lemma param_conforms [simp]: "conforms (ShFields [(''name'', ShText), (''annot'', ShOpt (ShNode NType))]) (param_to_value X p)"
  unfolding param_to_value_def by (rule dict_conforms) simp_all

text \<open>Structures over encoded expressions.\<close>

lemma part_conforms: "\<forall>v \<in> set_ast_str_part p. conforms ShExpr v \<Longrightarrow> conforms (ShNode NPart) (str_part_to_value X p)"
  by (cases p) (auto intro!: node_conforms)

lemma str_conforms: "\<forall>p \<in> set ps. \<forall>v \<in> set_ast_str_part p. conforms ShExpr v \<Longrightarrow> conforms ShExpr (str_to_value X ps)"
  by (auto simp: str_to_value_def list_all_iff part_conforms intro!: node_conforms split: list.split ast_str_part.split)

lemma lit_conforms: "\<forall>v \<in> set2_lit_pattern l. conforms ShExpr v \<Longrightarrow> conforms (ShNode NPattern) (lit_pattern_to_value X l)"
  by (cases l) (auto simp: list_all_iff part_conforms intro!: node_conforms)

lemma pattern_conforms: "\<forall>v \<in> set2_pattern p. conforms ShExpr v \<Longrightarrow> conforms (ShNode NPattern) (pattern_to_value X p)"
proof (induction p)
  case (PLit l s)
  then show ?case by (simp add: lit_conforms)
next
  case (PStruct fs rest s)
  have "conforms (ShFields [(''name'', ShText), (''pattern'', ShNode NPattern)])
      (dict X [(''name'', VStr (fst p)), (''pattern'', pattern_to_value X (snd p))])" if p: "p \<in> set fs" for p
  proof -
    have "snd p \<in> Basic_BNFs.snds p" by (simp add: prod_set_defs)
    then have "conforms (ShNode NPattern) (pattern_to_value X (snd p))" using PStruct p by fastforce
    then show ?thesis by (intro dict_conforms) simp_all
  qed
  then show ?case by (auto simp: list_all_iff intro!: node_conforms)
qed (auto simp: list_all_iff intro!: node_conforms)

lemma arm_conforms:
  "\<forall>v \<in> set2_match_arm a. conforms ShExpr v \<Longrightarrow>
     conforms (ShFields [(''pattern'', ShNode NPattern), (''guard'', ShOpt ShExpr), (''body'', ShExpr)]) (arm_to_value X a)"
  by (cases a) (auto simp: arm_to_value_def pattern_conforms intro!: dict_conforms)

lemma rescue_conforms:
  "\<forall>v \<in> set_rescue_clause r. conforms ShExpr v \<Longrightarrow>
     conforms (ShFields [(''type_name'', ShOpt ShText), (''bind'', ShOpt ShText), (''body'', ShExpr)]) (rescue_to_value X r)"
  by (cases r) (auto simp: rescue_to_value_def intro!: dict_conforms)

lemma func_conforms:
  "tag \<in> {''FuncDef'', ''OnClause''} \<Longrightarrow> \<forall>v \<in> set_func_def f. conforms ShExpr v \<Longrightarrow> conforms (ShNode NStmt) (func_to_value X tag f)"
  by (cases f) (auto simp: func_to_value_def list_all_iff intro!: node_conforms)

lemma type_def_conforms [simp]: "conforms (ShNode NStmt) (type_def_to_value X t)"
  by (auto simp: type_def_to_value_def list_all_iff intro!: node_conforms dict_conforms)

lemma enum_def_conforms [simp]: "conforms (ShNode NStmt) (enum_def_to_value X e)"
  by (auto simp: enum_def_to_value_def list_all_iff intro!: node_conforms dict_conforms)

lemma import_conforms [simp]: "conforms (ShNode NStmt) (import_to_value X i)"
  by (auto simp: import_to_value_def intro!: node_conforms)

text \<open>Every expression and every statement, by induction on both.\<close>

lemma trees_conform:
  "conforms ShExpr (expr_to_value X e)" "conforms (ShNode NStmt) (stmt_to_value X s)"
proof (induction e and s)
  case (EStr ps s)
  then show ?case by (auto simp: ast_str_part.set_map intro!: str_conforms)
next
  case (EMatch e arms s)
  then have "list_all (conforms (ShFields [(''pattern'', ShNode NPattern), (''guard'', ShOpt ShExpr), (''body'', ShExpr)]))
      (map (arm_to_value X) (map (map_match_arm (\<lambda>d. d) (expr_to_value X)) arms))"
    by (auto simp: list_all_iff match_arm.set_map intro!: arm_conforms)
  then show ?case using EMatch by (auto intro!: node_conforms)
next
  case (ETry b rs en s)
  then have "list_all (conforms (ShFields [(''type_name'', ShOpt ShText), (''bind'', ShOpt ShText), (''body'', ShExpr)]))
      (map (rescue_to_value X) (map (map_rescue_clause (expr_to_value X)) rs))"
    by (auto simp: list_all_iff rescue_clause.set_map intro!: rescue_conforms)
  then show ?case using ETry by (auto intro!: node_conforms)
next
  case (EMapLit es s)
  then have "list_all (conforms (ShPair ShExpr ShExpr))
      (map (\<lambda>p. VVec [fst p, snd p]) (map (map_prod (expr_to_value X) (expr_to_value X)) es))"
    by (fastforce simp: list_all_iff prod_set_defs intro: conforms.pair)
  then show ?case by (auto intro!: node_conforms)
next
  case (EUnaryOp oper a s)
  then show ?case by (cases oper) (auto intro!: node_conforms)
next
  case (SOnClause f)
  then show ?case by (auto simp: func_def.set_map intro!: func_conforms)
next
  case (SFuncDef f)
  then show ?case by (auto simp: func_def.set_map intro!: func_conforms)
next
  case (SActorDef a)
  then show ?case by (cases a) (auto simp: list_all_iff intro!: node_conforms)
qed (auto simp: list_all_iff intro!: node_conforms)

lemma program_conforms: "conforms (ShNode NProgram) (program_to_value X p)"
  by (auto simp: program_to_value_def list_all_iff trees_conform intro!: node_conforms)

section \<open>The builtin\<close>

lemma parse_error_conforms:
  "conforms (ShNode NError) (dict X [(''type'', text_value ''ParseError''), (''message'', VStr m), (''line'', VInt i), (''col'', VInt j)])"
  by (auto intro!: node_conforms simp flip: ast_node_def)

text \<open>
  C5. \<open>ast_of\<close> is total and well typed: for every source text it returns a value, never an error, and the value is a
  program node or a parse error node of the schema, all nodes below it included.
\<close>

theorem ast_of_conforms:
  assumes "(length src + 2) * (length src + 2) \<le> n"
  shows "\<exists>v. bi_ast_of X n [VStr src] = Some (Ok v) \<and> (conforms (ShNode NProgram) v \<or> conforms (ShNode NError) v)"
proof -
  obtain out where "parse X n src = Some out" using parse_total [OF assms] by blast
  then show ?thesis
    by (cases "po_errors out") (simp_all add: bi_ast_of_def one_arg_def str_arg_def program_conforms parse_error_conforms)
qed

theorem ast_of_conforms_witness:
  "\<exists>v. bi_ast_of fixed_ext 200 [VStr (lit ''let x = ('')] = Some (Ok v) \<and> (conforms (ShNode NProgram) v \<or> conforms (ShNode NError) v)"
  by (rule ast_of_conforms) (simp add: lit_def)

end
