(* ===== verification/Send_Value.thy ===== *)
theory Send_Value
  imports Value
begin

text \<open>
  \<open>SendValue\<close> of \<open>src/value.rs\<close>: the data that may cross threads in an actor message, its
  equality, and the conversions from and to a value.
\<close>

text \<open>\<open>ActorPid\<close>: the identifier of an actor across threads.\<close>

datatype actor_pid = ActorPid (pid_number: u64)

definition actor_pid_show :: "actor_pid \<Rightarrow> str" where
  "actor_pid_show p = lit ''<pid '' @ show_nat (unat (pid_number p)) @ lit ''>''"

datatype (plugins only: size) 'd send_value =
    SVInt int | SVDecimal 'd | SVStr str | SVBytes "u8 list" | SVBool bool | SVNil
  | SVVec "'d send_value list" | SVMap "('d send_value \<times> 'd send_value) list" | SVSet "'d send_value list"
  | SVVariant str "'d send_value list" | SVStruct str "(str \<times> 'd send_value) list"
  | SVActorPid actor_pid

text \<open>The code's \<open>PartialEq\<close> has no arm for two byte buffers.\<close>

fun send_eq :: "'d ext \<Rightarrow> 'd send_value \<Rightarrow> 'd send_value \<Rightarrow> bool" where
  "send_eq X (SVInt a) w = (case w of SVInt b \<Rightarrow> a = b | _ \<Rightarrow> False)"
| "send_eq X (SVDecimal a) w = (case w of SVDecimal b \<Rightarrow> dec_eq X a b | _ \<Rightarrow> False)"
| "send_eq X (SVStr a) w = (case w of SVStr b \<Rightarrow> a = b | _ \<Rightarrow> False)"
| "send_eq X (SVBytes a) w = False"
| "send_eq X (SVBool a) w = (case w of SVBool b \<Rightarrow> a = b | _ \<Rightarrow> False)"
| "send_eq X SVNil w = (case w of SVNil \<Rightarrow> True | _ \<Rightarrow> False)"
| "send_eq X (SVVec a) w = (case w of SVVec b \<Rightarrow> list_all2 (send_eq X) a b | _ \<Rightarrow> False)"
| "send_eq X (SVMap a) w =
     (case w of SVMap b \<Rightarrow> length a = length b
        \<and> list_all (\<lambda>p. list_ex (\<lambda>q. send_eq X (fst p) (fst q) \<and> send_eq X (snd p) (snd q)) b) a
      | _ \<Rightarrow> False)"
| "send_eq X (SVSet a) w =
     (case w of SVSet b \<Rightarrow> length a = length b \<and> list_all (\<lambda>x. list_ex (send_eq X x) b) a | _ \<Rightarrow> False)"
| "send_eq X (SVVariant n a) w =
     (case w of SVVariant n' b \<Rightarrow> n = n' \<and> list_all2 (send_eq X) a b | _ \<Rightarrow> False)"
| "send_eq X (SVStruct n a) w =
     (case w of SVStruct n' b \<Rightarrow> n = n' \<and> length a = length b
        \<and> list_all (\<lambda>p. list_ex (\<lambda>q. fst p = fst q \<and> send_eq X (snd p) (snd q)) b) a
      | _ \<Rightarrow> False)"
| "send_eq X (SVActorPid a) w = (case w of SVActorPid b \<Rightarrow> a = b | _ \<Rightarrow> False)"

fun from_value :: "'d ext \<Rightarrow> 'd rt_value \<Rightarrow> (str, 'd send_value) result" where
  "from_value X (VInt n) = Ok (SVInt n)"
| "from_value X (VDecimal d) = Ok (SVDecimal d)"
| "from_value X (VStr s) = Ok (SVStr s)"
| "from_value X (VBytes b) = Ok (SVBytes b)"
| "from_value X (VBool b) = Ok (SVBool b)"
| "from_value X VNil = Ok SVNil"
| "from_value X (VVec v) = bindE (collectE (from_value X) v) (\<lambda>items. Ok (SVVec items))"
| "from_value X (VMap m) =
     bindE (collectE (\<lambda>p. bindE (from_value X (fst p)) (\<lambda>k. bindE (from_value X (snd p)) (\<lambda>v. Ok (k, v)))) m)
       (\<lambda>ps. Ok (SVMap (entries_of (send_eq X) ps)))"
| "from_value X (VSet s) =
     bindE (collectE (from_value X) s) (\<lambda>items. Ok (SVSet (items_of (send_eq X) items)))"
| "from_value X (VVariant n args) = bindE (collectE (from_value X) args) (\<lambda>items. Ok (SVVariant n items))"
| "from_value X (VStruct n fs) =
     bindE (collectE (\<lambda>p. bindE (from_value X (snd p)) (\<lambda>v. Ok (fst p, v))) fs)
       (\<lambda>ps. Ok (SVStruct n (entries_of (=) ps)))"
| "from_value X (VActor _) = Err (lit ''cannot send Actor reference across threads (use a Pid)'')"
| "from_value X (VFunc _) = Err (lit ''cannot send function across threads'')"
| "from_value X (VClosure _) = Err (lit ''cannot send VM closure across threads'')"
| "from_value X (VNative _) = Err (lit ''cannot send native function across threads'')"
| "from_value X (VShared _) = Err (lit ''cannot send shared cell across threads'')"
| "from_value X (VModule _) = Err (lit ''cannot send module across threads'')"
| "from_value X (VOpaque _) = Err (lit ''cannot send resource across threads'')"
| "from_value X (VLazyImport _) = Err (lit ''cannot send lazy import across threads'')"
| "from_value X (VTask _) = Err (lit ''cannot send task across threads'')"

lemma send_size_entry_fst [termination_simp]:
  "p \<in> set m \<Longrightarrow> size (fst p) < Suc (size_list (size_prod size size) m)"
  by (induction m) auto

fun into_value :: "'d ext \<Rightarrow> 'd send_value \<Rightarrow> 'd rt_value" where
  "into_value X (SVInt n) = VInt n"
| "into_value X (SVDecimal d) = VDecimal d"
| "into_value X (SVStr s) = VStr s"
| "into_value X (SVBytes b) = VBytes b"
| "into_value X (SVBool b) = VBool b"
| "into_value X SVNil = VNil"
| "into_value X (SVVec v) = VVec (map (into_value X) v)"
| "into_value X (SVMap m) =
     VMap (entries_of (value_eq X) (map (\<lambda>p. (into_value X (fst p), into_value X (snd p))) m))"
| "into_value X (SVSet s) = VSet (items_of (value_eq X) (map (into_value X) s))"
| "into_value X (SVVariant n args) = VVariant n (map (into_value X) args)"
| "into_value X (SVStruct n fs) =
     VStruct n (entries_of (=) (map (\<lambda>p. (fst p, into_value X (snd p))) fs))"
| "into_value X (SVActorPid p) = VNil"

fun send_value_show :: "'d ext \<Rightarrow> 'd send_value \<Rightarrow> str" where
  "send_value_show X (SVInt n) = show_int n"
| "send_value_show X (SVDecimal d) = dec_show X d"
| "send_value_show X (SVStr s) = [dquote] @ s @ [dquote]"
| "send_value_show X (SVBytes b) = lit ''<bytes len='' @ show_nat (length b) @ lit ''>''"
| "send_value_show X (SVBool b) = (if b then lit ''true'' else lit ''false'')"
| "send_value_show X SVNil = lit ''nil''"
| "send_value_show X (SVVec v) = lit ''['' @ comma_list (map (send_value_show X) v) @ lit '']''"
| "send_value_show X (SVMap m) =
     lit ''{'' @ comma_list (map (\<lambda>p. send_value_show X (fst p) @ lit '': '' @ send_value_show X (snd p)) m)
       @ lit ''}''"
| "send_value_show X (SVSet s) = lit ''#{'' @ comma_list (map (send_value_show X) s) @ lit ''}''"
| "send_value_show X (SVVariant n args) =
     (if args = [] then n else n @ lit ''('' @ comma_list (map (send_value_show X) args) @ lit '')'')"
| "send_value_show X (SVStruct n fs) =
     n @ lit '' {'' @ comma_list (map (\<lambda>p. fst p @ lit '': '' @ send_value_show X (snd p)) fs) @ lit ''}''"
| "send_value_show X (SVActorPid p) = actor_pid_show p"

section \<open>What can be sent\<close>

text \<open>The data values: no reference to anything that lives on one thread, at any depth.\<close>

fun sendable :: "'d rt_value \<Rightarrow> bool" where
  "sendable (VVec v) = list_all sendable v"
| "sendable (VMap m) = list_all (\<lambda>p. sendable (fst p) \<and> sendable (snd p)) m"
| "sendable (VSet s) = list_all sendable s"
| "sendable (VVariant n args) = list_all sendable args"
| "sendable (VStruct n fs) = list_all (\<lambda>p. sendable (snd p)) fs"
| "sendable (VFunc _) = False" | "sendable (VClosure _) = False" | "sendable (VNative _) = False"
| "sendable (VActor _) = False" | "sendable (VShared _) = False" | "sendable (VModule _) = False"
| "sendable (VOpaque _) = False" | "sendable (VLazyImport _) = False" | "sendable (VTask _) = False"
| "sendable _ = True"

end
