(* ===== verification/Value_Spec.thy ===== *)
theory Value_Spec
  imports Send_Value
begin

text \<open>
  What values promise: equality is an equivalence on the values the program can build
  (collections without duplicate keys), the collection operations keep that invariant, and
  crossing a thread boundary and back is the identity on exactly the data values.
\<close>

section \<open>Collections without duplicates\<close>

definition apart :: "('k \<Rightarrow> 'k \<Rightarrow> bool) \<Rightarrow> 'k list \<Rightarrow> bool" where
  "apart eq xs \<longleftrightarrow> sorted_wrt (\<lambda>a b. \<not> eq a b \<and> \<not> eq b a) xs"

fun wf_value :: "'d ext \<Rightarrow> 'd rt_value \<Rightarrow> bool" where
  "wf_value X (VVec v) \<longleftrightarrow> list_all (wf_value X) v"
| "wf_value X (VMap m) \<longleftrightarrow> apart (value_eq X) (map fst m)
     \<and> list_all (\<lambda>p. wf_value X (fst p) \<and> wf_value X (snd p)) m"
| "wf_value X (VSet s) \<longleftrightarrow> apart (value_eq X) s \<and> list_all (wf_value X) s"
| "wf_value X (VVariant n args) \<longleftrightarrow> list_all (wf_value X) args"
| "wf_value X (VStruct n fs) \<longleftrightarrow> distinct (map fst fs) \<and> list_all (\<lambda>p. wf_value X (snd p)) fs"
| "wf_value X _ \<longleftrightarrow> True"

lemma set_entry_insert: "set (map fst (entry_insert eq k v m)) \<subseteq> insert k (set (map fst m))"
  by (induction m) auto

lemma set_entry_insert_pairs: "set (entry_insert eq k v m) \<subseteq> insert (k, v) (set m)"
  by (induction m) auto

lemma set_item_insert: "set (item_insert eq k s) \<subseteq> insert k (set s)"
  by (induction s) auto

text \<open>
  The laws of a key equality on a set of keys: an equivalence. The structural equality of
  strings and the value equality on well-formed values satisfy it.
\<close>

locale key_equality =
  fixes eq :: "'k \<Rightarrow> 'k \<Rightarrow> bool"
    and good :: "'k \<Rightarrow> bool"
  assumes eq_refl: "good a \<Longrightarrow> eq a a"
    and eq_sym: "good a \<Longrightarrow> good b \<Longrightarrow> eq a b \<Longrightarrow> eq b a"
    and eq_trans: "good a \<Longrightarrow> good b \<Longrightarrow> good c \<Longrightarrow> eq a b \<Longrightarrow> eq b c \<Longrightarrow> eq a c"
begin

lemma eq_cong: "good a \<Longrightarrow> good b \<Longrightarrow> good c \<Longrightarrow> eq a b \<Longrightarrow> eq a c = eq b c"
  using eq_sym eq_trans by blast

lemma entry_insert_keys:
  assumes "list_all good (map fst m)" and "good k" and "apart eq (map fst m)"
  shows "list_all good (map fst (entry_insert eq k v m)) \<and> apart eq (map fst (entry_insert eq k v m))"
  using assms
proof (induction m)
  case Nil
  then show ?case by (simp add: apart_def)
next
  case (Cons p m)
  show ?case
  proof (cases "eq (fst p) k")
    case True
    have g: "good (fst p)" "good k" using Cons.prems by simp_all
    have "\<not> eq k b \<and> \<not> eq b k" if b: "b \<in> set (map fst m)" for b
    proof -
      have gb: "good b" using Cons.prems(1) b by (auto simp: list_all_iff)
      have "\<not> eq (fst p) b" using Cons.prems(3) b by (auto simp: apart_def)
      then have "\<not> eq k b" using eq_trans [OF g(1,2) gb True] by blast
      then show ?thesis using eq_sym [OF gb g(2)] by blast
    qed
    then show ?thesis using True Cons.prems by (simp add: apart_def)
  next
    case False
    then have "\<forall>b \<in> insert k (set (map fst m)). \<not> eq (fst p) b \<and> \<not> eq b (fst p)"
      using Cons.prems eq_sym by (auto simp: apart_def)
    then have "\<forall>b \<in> set (map fst (entry_insert eq k v m)). \<not> eq (fst p) b \<and> \<not> eq b (fst p)"
      using set_entry_insert [of eq k v m] by blast
    then show ?thesis using False Cons by (simp add: apart_def)
  qed
qed

lemma entry_get_insert:
  assumes "list_all good (map fst m)" and "good k" and "good j"
  shows "entry_get eq j (entry_insert eq k v m) = (if eq k j then Some v else entry_get eq j m)"
  using assms
proof (induction m)
  case (Cons p m)
  then have g: "good (fst p)" "good k" "good j" by simp_all
  show ?case
  proof (cases "eq (fst p) k")
    case True
    then show ?thesis using eq_cong [OF g(1,2,3) True] by simp
  next
    case False
    moreover have "\<not> eq k j" if "eq (fst p) j"
      using that False eq_trans [OF g(1,3,2)] eq_sym [OF g(2,3)] by blast
    ultimately show ?thesis using Cons by simp
  qed
qed simp

lemma entry_get_remove:
  assumes "list_all good (map fst m)" and "good k" and "good j"
  shows "entry_get eq j (entry_remove eq k m) = (if eq k j then None else entry_get eq j m)"
  using assms
proof (induction m)
  case (Cons p m)
  then have g: "good (fst p)" "good k" "good j" by simp_all
  show ?case
  proof (cases "eq (fst p) k")
    case True
    then show ?thesis using Cons eq_cong [OF g(1,2,3) True] by (simp add: entry_remove_def)
  next
    case False
    moreover have "\<not> eq k j" if "eq (fst p) j"
      using that False eq_trans [OF g(1,3,2)] eq_sym [OF g(2,3)] by blast
    ultimately show ?thesis using Cons by (simp add: entry_remove_def)
  qed
qed (simp add: entry_remove_def)

end

interpretation string_key: key_equality "(=)" "\<lambda>_. True"
  by unfold_locales auto

lemma apart_eq [simp]: "apart (=) xs \<longleftrightarrow> distinct xs"
  by (induction xs) (auto simp: apart_def)

text \<open>
  The finite counting argument behind symmetry: if every element of \<open>xs\<close> is related to one of
  as many \<open>ys\<close>, and the relation identifies no two of \<open>xs\<close>, then every element of \<open>ys\<close> is hit.
\<close>

lemma match_back:
  assumes len: "length xs = length ys"
    and hit: "\<And>x. x \<in> set xs \<Longrightarrow> \<exists>y \<in> set ys. R x y"
    and apart: "sorted_wrt (\<lambda>a b. \<not> S a b \<and> \<not> S b a) xs"
    and same: "\<And>x x' y. x \<in> set xs \<Longrightarrow> x' \<in> set xs \<Longrightarrow> R x y \<Longrightarrow> R x' y \<Longrightarrow> S x x'"
    and y: "y \<in> set ys"
  shows "\<exists>x \<in> set xs. R x y"
proof -
  let ?n = "length xs"
  have "\<exists>j < ?n. R (xs ! i) (ys ! j)" if "i < ?n" for i
    using hit [OF nth_mem [OF that]] len by (auto simp: in_set_conv_nth)
  then obtain f where f: "\<And>i. i < ?n \<Longrightarrow> f i < ?n \<and> R (xs ! i) (ys ! f i)" by metis
  have "inj_on f {..<?n}"
  proof (rule inj_onI)
    fix i j assume "i \<in> {..<?n}" "j \<in> {..<?n}" and e: "f i = f j"
    then have ij: "i < ?n" "j < ?n" by auto
    have "S (xs ! i) (xs ! j)" and "S (xs ! j) (xs ! i)"
      using same [of "xs ! i" "xs ! j"] same [of "xs ! j" "xs ! i"] f [OF ij(1)] f [OF ij(2)] e ij by auto
    then show "i = j"
      using apart ij unfolding sorted_wrt_iff_nth_less by (metis linorder_neqE_nat)
  qed
  moreover have "f ` {..<?n} \<subseteq> {..<?n}" using f by auto
  ultimately have "f ` {..<?n} = {..<?n}" by (simp add: endo_inj_surj)
  moreover obtain k where "k < ?n" "y = ys ! k" using y len by (auto simp: in_set_conv_nth)
  ultimately obtain i where "i < ?n" "f i = k" by (metis imageE lessThan_iff)
  then show ?thesis using f [of i] \<open>y = ys ! k\<close> by auto
qed


section \<open>Equality is an equivalence\<close>

lemma value_induct [case_names atom Vec Map Set Variant Struct]:
  assumes "\<And>v. (\<forall>a. v \<noteq> VVec a) \<Longrightarrow> (\<forall>a. v \<noteq> VMap a) \<Longrightarrow> (\<forall>a. v \<noteq> VSet a)
      \<Longrightarrow> (\<forall>n a. v \<noteq> VVariant n a) \<Longrightarrow> (\<forall>n a. v \<noteq> VStruct n a) \<Longrightarrow> P v"
    and "\<And>a. (\<And>x. x \<in> set a \<Longrightarrow> P x) \<Longrightarrow> P (VVec a)"
    and "\<And>a. (\<And>p. p \<in> set a \<Longrightarrow> P (fst p) \<and> P (snd p)) \<Longrightarrow> P (VMap a)"
    and "\<And>a. (\<And>x. x \<in> set a \<Longrightarrow> P x) \<Longrightarrow> P (VSet a)"
    and "\<And>n a. (\<And>x. x \<in> set a \<Longrightarrow> P x) \<Longrightarrow> P (VVariant n a)"
    and "\<And>n a. (\<And>p. p \<in> set a \<Longrightarrow> P (snd p)) \<Longrightarrow> P (VStruct n a)"
  shows "P v"
proof (induction v)
  case (VMap m)
  have "P (fst p) \<and> P (snd p)" if "p \<in> set m" for p
    using VMap [OF that] by (cases p) (simp add: prod_set_simps)
  then show ?case by (rule assms(3))
next
  case (VStruct n fs)
  have "P (snd p)" if "p \<in> set fs" for p
    using VStruct [OF that] by (cases p) (simp add: prod_set_simps)
  then show ?case by (rule assms(6))
next
  case (VVec a)
  then show ?case by (rule assms(2))
next
  case (VSet a)
  then show ?case by (rule assms(4))
next
  case (VVariant n a)
  then show ?case by (rule assms(5))
qed (rule assms(1); simp)+

lemma value_eq_trans:
  assumes "decimal_laws X"
  shows "value_eq X u v \<Longrightarrow> value_eq X v w \<Longrightarrow> value_eq X u w"
proof (induction u arbitrary: v w rule: value_induct)
  case (atom u)
  note uv = atom.prems(1) and vw = atom.prems(2)
  show ?case
  proof (cases u)
    case (VDecimal a)
    then obtain b where "v = VDecimal b" "dec_eq X a b" using uv by (simp split: rt_value.split_asm)
    moreover from this obtain c where "w = VDecimal c" "dec_eq X b c" using vw by (simp split: rt_value.split_asm)
    ultimately show ?thesis using VDecimal by (auto intro: dec_eq_trans [OF assms])
  qed (use atom.hyps uv vw in \<open>simp split: rt_value.split_asm\<close>)+
next
  case (Vec a)
  from Vec.prems obtain b c where vw: "v = VVec b" "w = VVec c" and bc: "list_all2 (value_eq X) a b" "list_all2 (value_eq X) b c"
    by (auto split: rt_value.split_asm)
  have "value_eq X (a ! i) (c ! i)" if "i < length a" for i
    using Vec.IH [of "a ! i" "b ! i" "c ! i"] that bc by (simp add: list_all2_conv_all_nth)
  then show ?case using bc vw by (simp add: list_all2_conv_all_nth)
next
  case (Map a)
  from Map.prems obtain b c where vw: "v = VMap b" "w = VMap c" by (auto split: rt_value.split_asm)
  have "\<exists>r \<in> set c. value_eq X (fst p) (fst r) \<and> value_eq X (snd p) (snd r)" if p: "p \<in> set a" for p
  proof -
    obtain q where q: "q \<in> set b" "value_eq X (fst p) (fst q)" "value_eq X (snd p) (snd q)"
      using Map.prems(1) p vw by (auto simp: list_all_iff list_ex_iff)
    then obtain r where "r \<in> set c" "value_eq X (fst q) (fst r)" "value_eq X (snd q) (snd r)"
      using Map.prems(2) vw by (auto simp: list_all_iff list_ex_iff)
    then show ?thesis using Map.IH [OF p] q by blast
  qed
  then show ?case using Map.prems vw by (simp add: list_all_iff list_ex_iff)
next
  case (Set a)
  from Set.prems obtain b c where vw: "v = VSet b" "w = VSet c" by (auto split: rt_value.split_asm)
  have "\<exists>z \<in> set c. value_eq X x z" if x: "x \<in> set a" for x
  proof -
    obtain y where y: "y \<in> set b" "value_eq X x y"
      using Set.prems(1) x vw by (auto simp: list_all_iff list_ex_iff)
    then obtain z where "z \<in> set c" "value_eq X y z"
      using Set.prems(2) vw by (auto simp: list_all_iff list_ex_iff)
    then show ?thesis using Set.IH [OF x] y by blast
  qed
  then show ?case using Set.prems vw by (simp add: list_all_iff list_ex_iff)
next
  case (Variant n a)
  from Variant.prems obtain b c where vw: "v = VVariant n b" "w = VVariant n c"
    and bc: "list_all2 (value_eq X) a b" "list_all2 (value_eq X) b c"
    by (auto split: rt_value.split_asm)
  have "value_eq X (a ! i) (c ! i)" if "i < length a" for i
    using Variant.IH [of "a ! i" "b ! i" "c ! i"] that bc by (simp add: list_all2_conv_all_nth)
  then show ?case using bc vw by (simp add: list_all2_conv_all_nth)
next
  case (Struct n a)
  from Struct.prems obtain b c where vw: "v = VStruct n b" "w = VStruct n c" by (auto split: rt_value.split_asm)
  have "\<exists>r \<in> set c. fst p = fst r \<and> value_eq X (snd p) (snd r)" if p: "p \<in> set a" for p
  proof -
    obtain q where q: "q \<in> set b" "fst p = fst q" "value_eq X (snd p) (snd q)"
      using Struct.prems(1) p vw by (auto simp: list_all_iff list_ex_iff)
    then obtain r where "r \<in> set c" "fst q = fst r" "value_eq X (snd q) (snd r)"
      using Struct.prems(2) vw by (auto simp: list_all_iff list_ex_iff)
    then show ?thesis using Struct.IH [OF p] q by auto
  qed
  then show ?case using Struct.prems vw by (simp add: list_all_iff list_ex_iff)
qed

lemma dec_eq_sym: "decimal_laws X \<Longrightarrow> dec_eq X a b \<Longrightarrow> dec_eq X b a"
  by (simp add: dec_eq_def dec_laws(2) [of X b a])

lemma value_eq_sym:
  assumes X: "decimal_laws X"
  shows "wf_value X v \<Longrightarrow> value_eq X v w \<Longrightarrow> value_eq X w v"
proof (induction v arbitrary: w rule: value_induct)
  case (atom v)
  note vw = atom.prems(2)
  show ?case
  proof (cases v)
    case (VDecimal a)
    then obtain b where "w = VDecimal b" "dec_eq X a b" using vw by (simp split: rt_value.split_asm)
    then show ?thesis using VDecimal dec_eq_sym [OF X] by simp
  qed (use atom.hyps vw in \<open>simp split: rt_value.split_asm\<close>)+
next
  case (Vec a)
  from Vec.prems obtain b where w: "w = VVec b" and ab: "list_all2 (value_eq X) a b" by (auto split: rt_value.split_asm)
  have "value_eq X (b ! i) (a ! i)" if "i < length a" for i
    using Vec.IH [of "a ! i" "b ! i"] Vec.prems(1) that ab by (simp add: list_all2_conv_all_nth list_all_length)
  then show ?case using ab w by (simp add: list_all2_conv_all_nth)
next
  case (Map a)
  from Map.prems obtain b where w: "w = VMap b" by (auto split: rt_value.split_asm)
  let ?R = "\<lambda>p q. value_eq X (fst p) (fst q) \<and> value_eq X (snd p) (snd q)"
  have "\<exists>p \<in> set a. ?R p q" if q: "q \<in> set b" for q
  proof (rule match_back [where S = "\<lambda>p q. value_eq X (fst p) (fst q)" and ys = b])
    show "sorted_wrt (\<lambda>a b. \<not> value_eq X (fst a) (fst b) \<and> \<not> value_eq X (fst b) (fst a)) a"
      using Map.prems(1) by (simp add: apart_def sorted_wrt_map)
    show "value_eq X (fst p) (fst p')" if "p \<in> set a" "p' \<in> set a" "?R p q" "?R p' q" for p p' q
    proof -
      have "value_eq X (fst q) (fst p')"
        using Map.IH [OF that(2)] Map.prems(1) that by (auto simp: list_all_iff)
      then show ?thesis using value_eq_trans [OF X] that by blast
    qed
  qed (use Map.prems w q in \<open>auto simp: list_all_iff list_ex_iff\<close>)
  then have "\<exists>p \<in> set a. ?R q p" if "q \<in> set b" for q
    using that Map.IH Map.prems(1) unfolding list_all_iff wf_value.simps by meson
  then show ?case using Map.prems w by (simp add: list_all_iff list_ex_iff)
next
  case (Set a)
  from Set.prems obtain b where w: "w = VSet b" by (auto split: rt_value.split_asm)
  have "\<exists>x \<in> set a. value_eq X x y" if y: "y \<in> set b" for y
  proof (rule match_back [where S = "value_eq X" and ys = b])
    show "sorted_wrt (\<lambda>a b. \<not> value_eq X a b \<and> \<not> value_eq X b a) a"
      using Set.prems(1) by (simp add: apart_def)
    show "value_eq X x x'" if "x \<in> set a" "x' \<in> set a" "value_eq X x y" "value_eq X x' y" for x x' y
    proof -
      have "value_eq X y x'"
        using Set.IH [OF that(2)] Set.prems(1) that by (auto simp: list_all_iff)
      then show ?thesis using value_eq_trans [OF X] that by blast
    qed
  qed (use Set.prems w y in \<open>auto simp: list_all_iff list_ex_iff\<close>)
  then have "\<exists>x \<in> set a. value_eq X y x" if "y \<in> set b" for y
    using that Set.IH Set.prems(1) unfolding list_all_iff wf_value.simps by meson
  then show ?case using Set.prems w by (simp add: list_all_iff list_ex_iff)
next
  case (Variant n a)
  from Variant.prems obtain b where w: "w = VVariant n b" and ab: "list_all2 (value_eq X) a b" by (auto split: rt_value.split_asm)
  have "value_eq X (b ! i) (a ! i)" if "i < length a" for i
    using Variant.IH [of "a ! i" "b ! i"] Variant.prems(1) that ab by (simp add: list_all2_conv_all_nth list_all_length)
  then show ?case using ab w by (simp add: list_all2_conv_all_nth)
next
  case (Struct n a)
  from Struct.prems obtain b where w: "w = VStruct n b" by (auto split: rt_value.split_asm)
  let ?R = "\<lambda>p q. fst p = fst q \<and> value_eq X (snd p) (snd q)"
  have "\<exists>p \<in> set a. ?R p q" if q: "q \<in> set b" for q
  proof (rule match_back [where S = "\<lambda>p q. fst p = fst q" and ys = b])
    show "sorted_wrt (\<lambda>a b. fst a \<noteq> fst b \<and> fst b \<noteq> fst a) a"
      using Struct.prems(1) by (auto simp: distinct_map sorted_wrt_iff_nth_less distinct_conv_nth inj_on_def)
  qed (use Struct.prems w q in \<open>auto simp: list_all_iff list_ex_iff\<close>)
  then have "\<exists>p \<in> set a. ?R q p" if "q \<in> set b" for q
    using that Struct.IH Struct.prems(1) unfolding list_all_iff wf_value.simps by metis
  then show ?case using Struct.prems w by (simp add: list_all_iff list_ex_iff)
qed

interpretation value_key: key_equality "value_eq X" "\<lambda>v. decimal_laws X \<and> wf_value X v" for X
  using value_eq_refl value_eq_sym value_eq_trans by unfold_locales blast+


text \<open>
  C25. The equality of values is an equivalence relation on the values a program can hold, as
  \<open>impl Eq\<close> and the hash maps rely on: reflexive, symmetric and transitive, for nested
  collections whose entries may be stored in different orders. Values of different types are
  never equal: the integer 1 is not equal to the decimal 1.0, although the documentation says so.
\<close>

theorem value_equality:
  assumes "decimal_laws X" and "wf_value X u" and "wf_value X v"
  shows "value_eq X u u \<and> value_eq X u v = value_eq X v u
       \<and> (value_eq X u v \<and> value_eq X v w \<longrightarrow> value_eq X u w)
       \<and> (value_eq X u v \<longrightarrow> type_name u = type_name v)"
proof -
  have "type_name u = type_name v" if "value_eq X u v"
    using that by (cases u; simp split: rt_value.split_asm)
  then show ?thesis
    using value_eq_refl [OF assms(1)] value_eq_sym [OF assms(1)] value_eq_trans [OF assms(1)] assms(2,3)
    by blast
qed

theorem value_equality_witness:
  "value_eq fixed_ext (VSet [VInt 1, VDecimal (2, 0)]) (VSet [VDecimal (20, 1), VInt 1])
   \<and> value_eq fixed_ext (VSet [VDecimal (20, 1), VInt 1]) (VSet [VInt 1, VDecimal (2, 0)])
   \<and> \<not> value_eq fixed_ext (VInt 2) (VDecimal (2, 0))"
proof -
  have e: "value_eq fixed_ext (VSet [VInt 1, VDecimal (2, 0)]) (VSet [VDecimal (20, 1), VInt 1])"
    by (simp add: dec_eq_def fixed_ext_def fixed_cmp_def int_cmp_def)
  have "wf_value fixed_ext (VSet [VInt 1, VDecimal (2, 0)])" "wf_value fixed_ext (VSet [VDecimal (20, 1), VInt 1])"
    by (simp_all add: apart_def)
  from value_equality [OF fixed_ext_laws this] e show ?thesis by simp
qed

section \<open>Crossing threads\<close>

lemma entry_insert_new: "\<not> list_ex (\<lambda>p. eq (fst p) k) m \<Longrightarrow> entry_insert eq k v m = m @ [(k, v)]"
  by (induction m) auto

lemma entries_of_apart: "apart eq (map fst ps) \<Longrightarrow> entries_of eq ps = ps"
proof (induction ps rule: rev_induct)
  case (snoc p ps)
  then have "apart eq (map fst ps)" and "\<not> list_ex (\<lambda>q. eq (fst q) (fst p)) ps"
    by (auto simp: apart_def sorted_wrt_append list_ex_iff)
  then show ?case using snoc.IH by (simp add: entries_of_def entry_insert_new)
qed (simp add: entries_of_def)

lemma item_insert_new: "\<not> list_ex (\<lambda>x. eq x k) s \<Longrightarrow> item_insert eq k s = s @ [k]"
  by (induction s) auto

lemma items_of_apart: "apart eq xs \<Longrightarrow> items_of eq xs = xs"
proof (induction xs rule: rev_induct)
  case (snoc x xs)
  then have "apart eq xs" and "\<not> list_ex (\<lambda>y. eq y x) xs"
    by (auto simp: apart_def sorted_wrt_append list_ex_iff)
  then show ?case using snoc.IH by (simp add: items_of_def item_insert_new)
qed (simp add: items_of_def)

lemma collectE_Ok_ex: "(\<exists>ys. collectE f xs = Ok ys) \<longleftrightarrow> (\<forall>x \<in> set xs. \<exists>y. f x = Ok y)"
  by (induction xs) (auto simp: bindE_eq_Ok)

lemma from_value_Ok_iff: "(\<exists>s. from_value X v = Ok s) \<longleftrightarrow> sendable v"
proof (induction v rule: value_induct)
  case (atom v)
  then show ?case by (cases v) simp_all
next
  case (Vec a)
  then show ?case by (simp add: bindE_eq_Ok collectE_Ok_ex list_all_iff)
next
  case (Map a)
  then show ?case by (simp add: bindE_eq_Ok collectE_Ok_ex list_all_iff)
next
  case (Set a)
  then show ?case by (simp add: bindE_eq_Ok collectE_Ok_ex list_all_iff)
next
  case (Variant n a)
  then show ?case by (simp add: bindE_eq_Ok collectE_Ok_ex list_all_iff)
next
  case (Struct n a)
  then show ?case by (simp add: bindE_eq_Ok collectE_Ok_ex list_all_iff)
qed


lemma apart_list_all2:
  assumes "list_all2 R ks ss" and "apart eq ks"
    and "\<And>k k' s s'. k \<in> set ks \<Longrightarrow> k' \<in> set ks \<Longrightarrow> R k s \<Longrightarrow> R k' s' \<Longrightarrow> eq' s s' \<Longrightarrow> eq k k'"
  shows "apart eq' ss"
  unfolding apart_def sorted_wrt_iff_nth_less
proof (intro allI impI)
  fix i j assume ij: "i < j" "j < length ss"
  then have l: "i < length ks" "j < length ks" using assms(1) by (auto simp: list_all2_lengthD)
  then have r: "R (ks ! i) (ss ! i)" "R (ks ! j) (ss ! j)" using assms(1) by (auto simp: list_all2_conv_all_nth)
  have "\<not> eq (ks ! i) (ks ! j) \<and> \<not> eq (ks ! j) (ks ! i)"
    using assms(2) ij(1) l unfolding apart_def sorted_wrt_iff_nth_less by blast
  then show "\<not> eq' (ss ! i) (ss ! j) \<and> \<not> eq' (ss ! j) (ss ! i)"
    using assms(3) r l nth_mem by metis
qed

text \<open>The images of a list of values, of the entries of a map and of the fields of a struct.\<close>

abbreviation sends :: "'d ext \<Rightarrow> 'd rt_value \<Rightarrow> 'd send_value \<Rightarrow> bool" where
  "sends X v s \<equiv> from_value X v = Ok s"

definition sends_entry :: "'d ext \<Rightarrow> 'd rt_value \<times> 'd rt_value \<Rightarrow> 'd send_value \<times> 'd send_value \<Rightarrow> bool" where
  "sends_entry X p q \<longleftrightarrow> sends X (fst p) (fst q) \<and> sends X (snd p) (snd q)"

definition sends_field :: "'d ext \<Rightarrow> str \<times> 'd rt_value \<Rightarrow> str \<times> 'd send_value \<Rightarrow> bool" where
  "sends_field X p q \<longleftrightarrow> fst p = fst q \<and> sends X (snd p) (snd q)"

lemma collect_entries:
  "collectE (\<lambda>p. bindE (from_value X (fst p)) (\<lambda>k. bindE (from_value X (snd p)) (\<lambda>v. Ok (k, v)))) m = Ok ps
     \<longleftrightarrow> list_all2 (sends_entry X) m ps"
proof -
  have "bindE (from_value X (fst p)) (\<lambda>k. bindE (from_value X (snd p)) (\<lambda>v. Ok (k, v))) = Ok q \<longleftrightarrow> sends_entry X p q"
    for p q by (cases q) (auto simp: sends_entry_def bindE_eq_Ok)
  then show ?thesis by (simp add: collectE_Ok_iff)
qed

lemma collect_fields:
  "collectE (\<lambda>p. bindE (from_value X (snd p)) (\<lambda>v. Ok (fst p, v))) fs = Ok ps \<longleftrightarrow> list_all2 (sends_field X) fs ps"
proof -
  have "bindE (from_value X (snd p)) (\<lambda>v. Ok (fst p, v)) = Ok q \<longleftrightarrow> sends_field X p q"
    for p q by (cases q) (auto simp: sends_field_def bindE_eq_Ok)
  then show ?thesis by (simp add: collectE_Ok_iff)
qed

lemma sends_simps:
  "sends X (VVec a) s \<longleftrightarrow> (\<exists>b. s = SVVec b \<and> list_all2 (sends X) a b)"
  "sends X (VMap m) s \<longleftrightarrow> (\<exists>ps. s = SVMap (entries_of (send_eq X) ps) \<and> list_all2 (sends_entry X) m ps)"
  "sends X (VSet a) s \<longleftrightarrow> (\<exists>b. s = SVSet (items_of (send_eq X) b) \<and> list_all2 (sends X) a b)"
  "sends X (VVariant n a) s \<longleftrightarrow> (\<exists>b. s = SVVariant n b \<and> list_all2 (sends X) a b)"
  "sends X (VStruct n fs) s \<longleftrightarrow> (\<exists>ps. s = SVStruct n (entries_of (=) ps) \<and> list_all2 (sends_field X) fs ps)"
  using collect_entries [of X m] collect_fields [of X fs]
  by (auto simp: bindE_eq_Ok [of "collectE f xs" g b for f xs g b] collectE_Ok_iff [of "from_value X"])

lemma entries_keys:
  "list_all2 (sends_entry X) m ps \<Longrightarrow> list_all2 (sends X) (map fst m) (map fst ps)"
  by (auto simp: list_all2_conv_all_nth sends_entry_def)

lemma fields_keys: "list_all2 (sends_field X) fs ps \<Longrightarrow> map fst ps = map fst fs"
  by (induction rule: list_all2_induct) (auto simp: sends_field_def)

text \<open>
  Equality on the sending side implies equality of the originals; so no two entries of a
  collection collapse on the way. The two values shrink together, by the larger size.
\<close>

lemma member_size:
  "x \<in> set a \<Longrightarrow> size x < size (VVec a)" "x \<in> set a \<Longrightarrow> size x < size (VSet a)"
  "x \<in> set a \<Longrightarrow> size x < size (VVariant n a)"
  "p \<in> set m \<Longrightarrow> size (fst p) < size (VMap m)" "p \<in> set m \<Longrightarrow> size (snd p) < size (VMap m)"
  "f \<in> set fs \<Longrightarrow> size (snd f) < size (VStruct n fs)"
  using size_entry_fst [of p m] size_entry_snd [of p m] size_field [of f fs 0 "\<lambda>_. 0"]
  by (auto simp: size_list_estimation' [of x a "size x" size] less_Suc_eq_le)


lemma sends_shape:
  "sends X w (SVVec d) \<Longrightarrow> \<exists>c. w = VVec c" "sends X w (SVMap d1) \<Longrightarrow> \<exists>c. w = VMap c"
  "sends X w (SVSet d) \<Longrightarrow> \<exists>c. w = VSet c" "sends X w (SVVariant n d) \<Longrightarrow> \<exists>n c. w = VVariant n c"
  "sends X w (SVStruct n d2) \<Longrightarrow> \<exists>n c. w = VStruct n c"
  by (cases w; simp add: bindE_eq_Ok)+

lemma list_all2_member1: "list_all2 R xs ys \<Longrightarrow> x \<in> set xs \<Longrightarrow> \<exists>y \<in> set ys. R x y"
  by (metis in_set_conv_nth list_all2_conv_all_nth nth_mem)

lemma list_all2_member2: "list_all2 R xs ys \<Longrightarrow> y \<in> set ys \<Longrightarrow> \<exists>x \<in> set xs. R x y"
  by (metis in_set_conv_nth list_all2_conv_all_nth nth_mem)

lemma collection_match:
  assumes "list_all2 R a b" and "list_all2 R c d"
    and "length b = length d" and "list_all (\<lambda>s. list_ex (E s) d) b"
    and "\<And>x y s t. x \<in> set a \<Longrightarrow> y \<in> set c \<Longrightarrow> R x s \<Longrightarrow> R y t \<Longrightarrow> E s t \<Longrightarrow> V x y"
  shows "length a = length c \<and> list_all (\<lambda>x. list_ex (V x) c) a"
proof -
  have "\<exists>y \<in> set c. V x y" if x: "x \<in> set a" for x
  proof -
    obtain s where s: "s \<in> set b" "R x s" using list_all2_member1 [OF assms(1) x] by blast
    then obtain t where t: "t \<in> set d" "E s t" using assms(4) by (auto simp: list_all_iff list_ex_iff)
    then obtain y where "y \<in> set c" "R y t" using list_all2_member2 [OF assms(2)] by blast
    then show ?thesis using assms(5) x s t by blast
  qed
  moreover have "length a = length c" using assms(1,2,3) by (simp add: list_all2_lengthD)
  ultimately show ?thesis by (simp add: list_all_iff list_ex_iff)
qed

lemma send_eq_reflects:
  "sends X v s \<Longrightarrow> sends X w t \<Longrightarrow> wf_value X v \<Longrightarrow> wf_value X w \<Longrightarrow> send_eq X s t \<Longrightarrow> value_eq X v w"
proof (induction "max (size v) (size w)" arbitrary: v w s t rule: less_induct)
  case less
  note vs = less.prems(1) and wt = less.prems(2) and wf = less.prems(3,4) and st = less.prems(5)
  have inner: "value_eq X x y" if "size x < size v \<or> size x < size w" "size y < size v \<or> size y < size w"
    "sends X x s'" "sends X y t'" "wf_value X x" "wf_value X y" "send_eq X s' t'" for x y s' t'
  proof -
    have "max (size x) (size y) < max (size v) (size w)" using that(1,2) by linarith
    then show ?thesis using less.hyps that(3-) by blast
  qed
  show ?case
  proof (cases v)
    case (VVec a)
    then obtain b d where b: "s = SVVec b" "list_all2 (sends X) a b" "t = SVVec d" "list_all2 (send_eq X) b d"
      using vs st by (auto simp: sends_simps simp del: from_value.simps split: send_value.split_asm)
    then obtain c where c: "w = VVec c" "list_all2 (sends X) c d"
      using wt sends_shape(1) [of X w d] by (auto simp: sends_simps simp del: from_value.simps)
    have "value_eq X (a ! i) (c ! i)" if "i < length a" for i
    proof (rule inner [of _ _ "b ! i" "d ! i"])
      show "size (a ! i) < size v \<or> size (a ! i) < size w" "size (c ! i) < size v \<or> size (c ! i) < size w"
        using that b c VVec by (auto simp: list_all2_lengthD simp del: rt_value.size intro!: member_size(1))
    qed (use that b c wf VVec in \<open>auto simp: list_all2_conv_all_nth list_all_length\<close>)
    then show ?thesis using b c VVec by (simp add: list_all2_conv_all_nth)
  next
    case (VVariant n a)
    then obtain b d where b: "s = SVVariant n b" "list_all2 (sends X) a b" "t = SVVariant n d" "list_all2 (send_eq X) b d"
      using vs st by (auto simp: sends_simps simp del: from_value.simps split: send_value.split_asm)
    then obtain c where c: "w = VVariant n c" "list_all2 (sends X) c d"
      using wt sends_shape(4) [of X w n d] by (auto simp: sends_simps simp del: from_value.simps)
    have "value_eq X (a ! i) (c ! i)" if "i < length a" for i
    proof (rule inner [of _ _ "b ! i" "d ! i"])
      show "size (a ! i) < size v \<or> size (a ! i) < size w" "size (c ! i) < size v \<or> size (c ! i) < size w"
        using that b c VVariant by (auto simp: list_all2_lengthD simp del: rt_value.size intro!: member_size(3))
    qed (use that b c wf VVariant in \<open>auto simp: list_all2_conv_all_nth list_all_length\<close>)
    then show ?thesis using b c VVariant by (simp add: list_all2_conv_all_nth)
  next
    case (VSet a)
    then obtain b where b: "s = SVSet (items_of (send_eq X) b)" "list_all2 (sends X) a b"
      using vs by (auto simp: sends_simps simp del: from_value.simps)
    then obtain t' where "t = SVSet t'" using st by (auto split: send_value.split_asm)
    then obtain c d where c: "w = VSet c" "t = SVSet (items_of (send_eq X) d)" "list_all2 (sends X) c d"
      using wt sends_shape(3) [of X w t'] by (auto simp: sends_simps simp del: from_value.simps)
    have sz: "x \<in> set a \<Longrightarrow> size x < size v" "y \<in> set c \<Longrightarrow> size y < size w" for x y
      unfolding VSet c(1) by (simp_all add: member_size(2) del: rt_value.size)
    have wfs: "x \<in> set a \<Longrightarrow> wf_value X x" "y \<in> set c \<Longrightarrow> wf_value X y" for x y
      using VSet c wf by (auto simp: list_all_iff)
    have "apart (send_eq X) b"
      by (rule apart_list_all2 [OF b(2), of "value_eq X"]) (use VSet wf inner sz wfs in auto)
    moreover have "apart (send_eq X) d"
      by (rule apart_list_all2 [OF c(3), of "value_eq X"]) (use c wf inner sz wfs in auto)
    ultimately have "length b = length d" "list_all (\<lambda>s. list_ex (send_eq X s) d) b"
      using b c st by (simp_all add: items_of_apart)
    then have "length a = length c \<and> list_all (\<lambda>x. list_ex (value_eq X x) c) a"
      by (rule collection_match [OF b(2) c(3)]) (use inner sz wfs in auto)
    then show ?thesis using VSet c by simp
  next
    case (VMap a)
    then obtain b where b: "s = SVMap (entries_of (send_eq X) b)" "list_all2 (sends_entry X) a b"
      using vs by (auto simp: sends_simps simp del: from_value.simps)
    then obtain t' where "t = SVMap t'" using st by (auto split: send_value.split_asm)
    then obtain c d where c: "w = VMap c" "t = SVMap (entries_of (send_eq X) d)" "list_all2 (sends_entry X) c d"
      using wt sends_shape(2) [of X w t'] by (auto simp: sends_simps simp del: from_value.simps)
    have sz: "p \<in> set a \<Longrightarrow> size (fst p) < size v \<and> size (snd p) < size v"
      "q \<in> set c \<Longrightarrow> size (fst q) < size w \<and> size (snd q) < size w" for p q
      unfolding VMap c(1) by (simp_all add: member_size(4,5) del: rt_value.size)
    have wfs: "p \<in> set a \<Longrightarrow> wf_value X (fst p) \<and> wf_value X (snd p)"
      "q \<in> set c \<Longrightarrow> wf_value X (fst q) \<and> wf_value X (snd q)" for p q
      using VMap c wf by (auto simp: list_all_iff)
    have "apart (send_eq X) (map fst b)"
      by (rule apart_list_all2 [OF entries_keys [OF b(2)], of "value_eq X"])
        (use VMap wf inner sz wfs in \<open>auto 0 3\<close>)
    moreover have "apart (send_eq X) (map fst d)"
      by (rule apart_list_all2 [OF entries_keys [OF c(3)], of "value_eq X"])
        (use c wf inner sz wfs in \<open>auto 0 3\<close>)
    ultimately have "length b = length d"
      "list_all (\<lambda>p. list_ex (\<lambda>q. send_eq X (fst p) (fst q) \<and> send_eq X (snd p) (snd q)) d) b"
      using b c st by (simp_all add: entries_of_apart)
    then have "length a = length c
        \<and> list_all (\<lambda>p. list_ex (\<lambda>q. value_eq X (fst p) (fst q) \<and> value_eq X (snd p) (snd q)) c) a"
      by (rule collection_match [OF b(2) c(3)]) (use inner sz wfs in \<open>auto simp: sends_entry_def\<close>)
    then show ?thesis using VMap c by simp
  next
    case (VStruct n a)
    then obtain b where b: "s = SVStruct n (entries_of (=) b)" "list_all2 (sends_field X) a b"
      using vs by (auto simp: sends_simps simp del: from_value.simps)
    then obtain t' where "t = SVStruct n t'" using st by (auto split: send_value.split_asm)
    then obtain c d where c: "w = VStruct n c" "t = SVStruct n (entries_of (=) d)" "list_all2 (sends_field X) c d"
      using wt sends_shape(5) [of X w n t'] by (auto simp: sends_simps simp del: from_value.simps)
    have sz: "p \<in> set a \<Longrightarrow> size (snd p) < size v" "q \<in> set c \<Longrightarrow> size (snd q) < size w" for p q
      unfolding VStruct c(1) by (simp_all add: member_size(6) del: rt_value.size)
    have wfs: "p \<in> set a \<Longrightarrow> wf_value X (snd p)" "q \<in> set c \<Longrightarrow> wf_value X (snd q)" for p q
      using VStruct c wf by (auto simp: list_all_iff)
    have "length b = length d"
      "list_all (\<lambda>p. list_ex (\<lambda>q. fst p = fst q \<and> send_eq X (snd p) (snd q)) d) b"
      using b c st VStruct wf by (simp_all add: entries_of_apart fields_keys)
    then have "length a = length c
        \<and> list_all (\<lambda>p. list_ex (\<lambda>q. fst p = fst q \<and> value_eq X (snd p) (snd q)) c) a"
      by (rule collection_match [OF b(2) c(3)]) (use inner sz wfs in \<open>auto simp: sends_field_def\<close>)
    then show ?thesis using VStruct c by simp
  qed (use vs wt st in \<open>cases w; auto simp: bindE_eq_Ok\<close>)+
qed


lemma images_apart:
  assumes "list_all2 (sends X) a b" and "apart (value_eq X) a" and "list_all (wf_value X) a"
  shows "apart (send_eq X) b"
proof (rule apart_list_all2 [OF assms(1,2)])
  fix k k' s s'
  assume "k \<in> set a" "k' \<in> set a" "sends X k s" "sends X k' s'" "send_eq X s s'"
  then show "value_eq X k k'"
    using send_eq_reflects [of X k s k' s'] assms(3) by (simp add: list_all_iff)
qed

lemma map_back: "list_all2 R xs ys \<Longrightarrow> (\<And>x y. x \<in> set xs \<Longrightarrow> R x y \<Longrightarrow> f y = x) \<Longrightarrow> map f ys = xs"
  by (induction rule: list_all2_induct) auto

lemma into_value_sends:
  "wf_value X v \<Longrightarrow> sends X v s \<Longrightarrow> into_value X s = v"
proof (induction v arbitrary: s rule: value_induct)
  case (atom v)
  then show ?case by (cases v) auto
next
  case (Vec a)
  then obtain b where b: "s = SVVec b" "list_all2 (sends X) a b"
    by (auto simp: sends_simps simp del: from_value.simps)
  have "map (into_value X) b = a"
    by (rule map_back [OF b(2)]) (use Vec in \<open>auto simp: list_all_iff\<close>)
  then show ?case using b by simp
next
  case (Variant n a)
  then obtain b where b: "s = SVVariant n b" "list_all2 (sends X) a b"
    by (auto simp: sends_simps simp del: from_value.simps)
  have "map (into_value X) b = a"
    by (rule map_back [OF b(2)]) (use Variant in \<open>auto simp: list_all_iff\<close>)
  then show ?case using b by simp
next
  case (Set a)
  then obtain b where b: "s = SVSet (items_of (send_eq X) b)" "list_all2 (sends X) a b"
    by (auto simp: sends_simps simp del: from_value.simps)
  have "apart (send_eq X) b"
    by (rule images_apart [OF b(2)]) (use Set.prems(1) in simp_all)
  moreover have "map (into_value X) b = a"
    by (rule map_back [OF b(2)]) (use Set in \<open>auto simp: list_all_iff\<close>)
  ultimately show ?case using b Set.prems(1) by (simp add: items_of_apart)
next
  case (Map a)
  then obtain b where b: "s = SVMap (entries_of (send_eq X) b)" "list_all2 (sends_entry X) a b"
    by (auto simp: sends_simps simp del: from_value.simps)
  have "apart (send_eq X) (map fst b)"
    by (rule images_apart [OF entries_keys [OF b(2)]]) (use Map.prems(1) in \<open>auto simp: list_all_iff\<close>)
  moreover have "map (\<lambda>p. (into_value X (fst p), into_value X (snd p))) b = a"
    by (rule map_back [OF b(2)]) (use Map in \<open>auto simp: list_all_iff sends_entry_def\<close>)
  ultimately show ?case using b Map.prems(1) by (simp add: entries_of_apart)
next
  case (Struct n a)
  then obtain b where b: "s = SVStruct n (entries_of (=) b)" "list_all2 (sends_field X) a b"
    by (auto simp: sends_simps simp del: from_value.simps)
  have "map (\<lambda>p. (fst p, into_value X (snd p))) b = a"
    by (rule map_back [OF b(2)]) (use Struct in \<open>auto simp: list_all_iff sends_field_def\<close>)
  then show ?case using b Struct.prems(1) by (simp add: entries_of_apart fields_keys)
qed

text \<open>
  C26. Crossing a thread boundary: a value converts to a \<open>SendValue\<close> exactly when it holds no
  reference to thread-local state at any depth, and then converting it back gives the very
  same value; otherwise the conversion is an error.
\<close>

theorem send_roundtrip:
  assumes "wf_value X v"
  shows "if sendable v then \<exists>s. from_value X v = Ok s \<and> into_value X s = v
         else \<exists>msg. from_value X v = Err msg"
proof (cases "sendable v")
  case True
  then obtain s where "from_value X v = Ok s" using from_value_Ok_iff by metis
  then show ?thesis using True into_value_sends [OF assms] by auto
next
  case False
  then have "\<nexists>s. from_value X v = Ok s" using from_value_Ok_iff by metis
  then show ?thesis using False by (cases "from_value X v") auto
qed

theorem send_roundtrip_witness:
  "(\<exists>s. from_value fixed_ext (VMap [(VStr (lit ''a''), VSet [VInt 1, VNil])]) = Ok s
     \<and> into_value fixed_ext s = VMap [(VStr (lit ''a''), VSet [VInt 1, VNil])])
   \<and> (\<exists>msg. from_value fixed_ext (VVec [VInt 1, VClosure 7]) = Err msg)"
proof -
  have "wf_value fixed_ext (VMap [(VStr (lit ''a''), VSet [VInt 1, VNil])])"
    and "wf_value fixed_ext (VVec [VInt 1, VClosure 7])"
    by (simp_all add: apart_def)
  from this [THEN send_roundtrip] show ?thesis by simp
qed

text \<open>Values on the wire without a byte buffer at any depth.\<close>

fun bytes_free :: "'d send_value \<Rightarrow> bool" where
  "bytes_free (SVBytes b) = False"
| "bytes_free (SVVec v) = list_all bytes_free v"
| "bytes_free (SVMap m) = list_all (\<lambda>p. bytes_free (fst p) \<and> bytes_free (snd p)) m"
| "bytes_free (SVSet s) = list_all bytes_free s"
| "bytes_free (SVVariant n args) = list_all bytes_free args"
| "bytes_free (SVStruct n fs) = list_all (\<lambda>p. bytes_free (snd p)) fs"
| "bytes_free _ = True"

lemma send_eq_bytes_free: "send_eq X s t \<Longrightarrow> bytes_free s"
proof (induction s arbitrary: t)
  case (SVMap m)
  then obtain m' where "list_all (\<lambda>p. list_ex (\<lambda>q. send_eq X (fst p) (fst q) \<and> send_eq X (snd p) (snd q)) m') m"
    by (auto split: send_value.split_asm)
  then show ?case using SVMap.IH by (fastforce simp: list_all_iff list_ex_iff prod_set_simps)
next
  case (SVSet s)
  then show ?case by (fastforce simp: list_all_iff list_ex_iff split: send_value.split_asm)
next
  case (SVStruct n fs)
  then obtain fs' where "list_all (\<lambda>p. list_ex (\<lambda>q. fst p = fst q \<and> send_eq X (snd p) (snd q)) fs') fs"
    by (auto split: send_value.split_asm)
  then show ?case using SVStruct.IH by (fastforce simp: list_all_iff list_ex_iff prod_set_simps)
qed (auto simp: list_all_length list_all2_conv_all_nth split: send_value.split_asm)

lemma bytes_free_send_eq:
  assumes "decimal_laws X"
  shows "bytes_free s \<Longrightarrow> send_eq X s s"
proof (induction s)
  case (SVMap m)
  have "send_eq X (fst p) (fst p) \<and> send_eq X (snd p) (snd p)" if "p \<in> set m" for p
    using SVMap that by (cases p) (auto simp: list_all_iff prod_set_simps)
  then show ?case by (auto simp: list_all_iff list_ex_iff)
next
  case (SVStruct n fs)
  have "send_eq X (snd p) (snd p)" if "p \<in> set fs" for p
    using SVStruct that by (cases p) (auto simp: list_all_iff prod_set_simps)
  then show ?case by (auto simp: list_all_iff list_ex_iff)
qed (auto simp: list_all_iff list_ex_iff dec_eq_refl [OF assms] intro!: list.rel_refl_strong)

text \<open>
  Equality of \<open>SendValue\<close> is reflexive exactly on the values without a byte buffer:
  \<open>PartialEq for SendValue\<close> has no arm for two \<open>Bytes\<close>, so a byte buffer, and every value
  that holds one, differs from itself, against \<open>impl Eq\<close> and the comment \<open>structural for all
  data types\<close>.
\<close>

theorem send_eq_refl_iff:
  assumes "decimal_laws X"
  shows "send_eq X s s \<longleftrightarrow> bytes_free s"
  using send_eq_bytes_free bytes_free_send_eq [OF assms] by blast

theorem send_eq_refl_iff_witness:
  "\<not> send_eq fixed_ext (SVVec [SVBytes [1, 2]]) (SVVec [SVBytes [1, 2]])"
  using send_eq_refl_iff [OF fixed_ext_laws, of "SVVec [SVBytes [1, 2]]"] by simp

end
