(* ===== verification/Env.thy ===== *)
theory Env
  imports Value
begin

text \<open>
  The lexical environments of the tree-walker (\<open>src/interpreter/env.rs\<close>): frames of bindings
  linked to their parent. \<open>EnvRef\<close> is shared and mutable, so frames live in a store and a
  reference is the index of a frame; a definition or assignment through one reference is
  seen through every other.
\<close>

type_synonym env_ref = nat

record 'd environment =
  bindings :: "(str \<times> 'd rt_value) list"
  parent :: "env_ref option"

type_synonym 'd env_store = "'d environment list"

definition env_new :: "env_ref option \<Rightarrow> 'd env_store \<Rightarrow> env_ref \<times> 'd env_store" where
  "env_new p st = (length st, st @ [\<lparr>bindings = [], parent = p\<rparr>])"

definition env_global :: "'d env_store \<Rightarrow> env_ref \<times> 'd env_store" where
  "env_global st = env_new None st"

definition env_child :: "env_ref \<Rightarrow> 'd env_store \<Rightarrow> env_ref \<times> 'd env_store" where
  "env_child p st = env_new (Some p) st"

definition insert_binding :: "str \<Rightarrow> 'd rt_value \<Rightarrow> 'd environment \<Rightarrow> 'd environment" where
  "insert_binding x v e = e\<lparr>bindings := entry_insert (=) x v (bindings e)\<rparr>"

definition env_define :: "str \<Rightarrow> 'd rt_value \<Rightarrow> env_ref \<Rightarrow> 'd env_store \<Rightarrow> 'd env_store" where
  "env_define x v r st = st[r := insert_binding x v (st ! r)]"

text \<open>
  The walks up the chain. A chain need not end in an arbitrary store; a walk that does not
  return is \<open>None\<close>. Results are \<open>Some None\<close>, \<open>Some (Some v)\<close>, and for an assignment the flag
  and the new store.
\<close>

partial_function (option) env_get :: "str \<Rightarrow> env_ref \<Rightarrow> 'd env_store \<Rightarrow> 'd rt_value option option" where
  "env_get x r st =
     (case map_of (bindings (st ! r)) x of
        Some v \<Rightarrow> Some (Some v)
      | None \<Rightarrow> (case parent (st ! r) of Some p \<Rightarrow> env_get x p st | None \<Rightarrow> Some None))"

partial_function (option) env_assign ::
  "str \<Rightarrow> 'd rt_value \<Rightarrow> env_ref \<Rightarrow> 'd env_store \<Rightarrow> (bool \<times> 'd env_store) option" where
  "env_assign x v r st =
     (if map_of (bindings (st ! r)) x \<noteq> None
      then Some (True, st[r := insert_binding x v (st ! r)])
      else (case parent (st ! r) of Some p \<Rightarrow> env_assign x v p st | None \<Rightarrow> Some (False, st)))"

partial_function (option) env_has :: "str \<Rightarrow> env_ref \<Rightarrow> 'd env_store \<Rightarrow> bool option" where
  "env_has x r st =
     (if map_of (bindings (st ! r)) x \<noteq> None then Some True
      else (case parent (st ! r) of Some p \<Rightarrow> env_has x p st | None \<Rightarrow> Some False))"

definition bindings_clone :: "env_ref \<Rightarrow> 'd env_store \<Rightarrow> (str \<times> 'd rt_value) list" where
  "bindings_clone r st = bindings (st ! r)"

section \<open>Chains\<close>

text \<open>
  Every frame was created after its parent. The operations keep this, so every walk ends.
\<close>

definition chained :: "'d env_store \<Rightarrow> bool" where
  "chained st \<longleftrightarrow> (\<forall>r < length st. \<forall>p. parent (st ! r) = Some p \<longrightarrow> p < r)"

lemma chained_parent: "chained st \<Longrightarrow> r < length st \<Longrightarrow> parent (st ! r) = Some p \<Longrightarrow> p < r"
  by (simp add: chained_def)

lemma chain_induct [consumes 2, case_names step]:
  assumes "chained st" and "r < length st"
    and "\<And>r. r < length st \<Longrightarrow> (\<And>p. parent (st ! r) = Some p \<Longrightarrow> p < r \<and> p < length st \<and> P p) \<Longrightarrow> P r"
  shows "P r"
  using assms(2)
proof (induction r rule: less_induct)
  case (less r)
  then show ?case using assms(1,3) chained_parent by (metis order.strict_trans)
qed

lemma parent_insert_binding [simp]: "parent (insert_binding x v e) = parent e"
  by (simp add: insert_binding_def)

lemma parent_update [simp]: "parent (st[q := insert_binding x v (st ! q)] ! r) = parent (st ! r)"
  by (cases "q < length st"; cases "q = r") (simp_all add: not_less list_update_beyond)

lemma map_of_insert_binding [simp]: "map_of (bindings (insert_binding x v e)) = (map_of (bindings e))(x \<mapsto> v)"
  by (simp add: insert_binding_def)

lemma chained_define: "chained st \<Longrightarrow> chained (env_define x v r st)"
  by (simp add: chained_def env_define_def)

lemma chained_new: "chained st \<Longrightarrow> (case p of Some q \<Rightarrow> q < length st | None \<Rightarrow> True) \<Longrightarrow> chained (snd (env_new p st))"
  by (auto simp: chained_def env_new_def nth_append less_Suc_eq split: option.splits)

lemma env_get_total:
  assumes "chained st" and "r < length st"
  shows "\<exists>w. env_get x r st = Some w"
  using assms
proof (induction rule: chain_induct)
  case (step r)
  then show ?case by (subst env_get.simps) (auto split: option.splits)
qed

lemma env_has_get:
  assumes "chained st" and "r < length st"
  shows "env_has x r st = Some (\<exists>v. env_get x r st = Some (Some v))"
  using assms
proof (induction rule: chain_induct)
  case (step r)
  then show ?case by (subst env_has.simps, subst env_get.simps) (auto split: option.splits)
qed

lemma env_get_define_same: "r < length st \<Longrightarrow> env_get x r (env_define x v r st) = Some (Some v)"
  by (subst env_get.simps) (simp add: env_define_def)

lemma env_get_define_other:
  assumes "chained st" and "s < length st" and "r < length st" and "y \<noteq> x"
  shows "env_get y s (env_define x v r st) = env_get y s st"
  using assms(1,2)
proof (induction rule: chain_induct)
  case (step s)
  have "map_of (bindings (env_define x v r st ! s)) y = map_of (bindings (st ! s)) y"
    using assms(3,4) by (cases "r = s") (simp_all add: env_define_def)
  moreover have "parent (env_define x v r st ! s) = parent (st ! s)" by (simp add: env_define_def)
  ultimately show ?case
    using step.IH by (subst (1 2) env_get.simps) (auto split: option.splits)
qed

text \<open>An assignment writes the nearest frame that binds the name, or nothing.\<close>

lemma env_assign_spec:
  assumes "chained st" and "r < length st"
  shows "\<exists>ok st'. env_assign x v r st = Some (ok, st') \<and> chained st' \<and> length st' = length st
     \<and> ok = (\<exists>w. env_get x r st = Some (Some w)) \<and> (\<not> ok \<longrightarrow> st' = st)
     \<and> (ok \<longrightarrow> (\<exists>q < length st. map_of (bindings (st ! q)) x \<noteq> None \<and> st' = env_define x v q st
            \<and> env_get x r st' = Some (Some v)))"
  using assms
proof (induction rule: chain_induct)
  case (step r)
  show ?case
  proof (cases "map_of (bindings (st ! r)) x = None")
    case False
    then have "env_assign x v r st = Some (True, env_define x v r st)"
      by (subst env_assign.simps) (simp add: env_define_def)
    moreover have "\<exists>w. env_get x r st = Some (Some w)" using False by (subst env_get.simps) auto
    moreover have "length (env_define x v r st) = length st" by (simp add: env_define_def)
    ultimately show ?thesis
      using False step.hyps chained_define [OF assms(1)] env_get_define_same [OF step.hyps] by auto
  next
    case True
    show ?thesis
    proof (cases "parent (st ! r)")
      case None
      then have "env_assign x v r st = Some (False, st)" and "env_get x r st = Some None"
        using True by (simp_all add: env_assign.simps [of x v r st] env_get.simps [of x r st])
      then show ?thesis using assms(1) by auto
    next
      case (Some p)
      have a: "env_assign x v r st = env_assign x v p st" and g: "env_get x r st = env_get x p st"
        using True Some by (simp_all add: env_assign.simps [of x v r st] env_get.simps [of x r st])
      obtain ok st' where ih: "env_assign x v p st = Some (ok, st')" "chained st'" "length st' = length st"
        "ok = (\<exists>w. env_get x p st = Some (Some w))" "\<not> ok \<longrightarrow> st' = st"
        "ok \<longrightarrow> (\<exists>q < length st. map_of (bindings (st ! q)) x \<noteq> None \<and> st' = env_define x v q st
            \<and> env_get x p st' = Some (Some v))"
        using step.IH [OF Some] by blast
      have "env_get x r st' = Some (Some v)" if ok: "ok"
      proof -
        obtain q where q: "q < length st" "map_of (bindings (st ! q)) x \<noteq> None" "st' = env_define x v q st"
          "env_get x p st' = Some (Some v)" using ih(6) ok by blast
        have "q \<noteq> r" using q(2) True by auto
        then have "map_of (bindings (st' ! r)) x = None" "parent (st' ! r) = Some p"
          using True Some q(3) by (simp_all add: env_define_def)
        then show ?thesis using q(4) by (subst env_get.simps) simp
      qed
      then show ?thesis using ih a g by auto
    qed
  qed
qed


text \<open>
  Scope-chain lookup and assignment, for every store the operations can build: both
  always return; an assignment succeeds exactly when the name resolves, then the name
  resolves to the new value from the same reference while every other name resolves as
  before from every reference; otherwise the store is unchanged.
\<close>

theorem scope_assignment:
  assumes "chained st" and "r < length st" and "s < length st"
  shows "\<exists>w ok st'. env_get x r st = Some w \<and> env_assign x v r st = Some (ok, st')
     \<and> ok = (w \<noteq> None) \<and> chained st' \<and> length st' = length st
     \<and> (if ok then env_get x r st' = Some (Some v) else st' = st)
     \<and> (y \<noteq> x \<longrightarrow> env_get y s st' = env_get y s st)"
proof -
  obtain w where w: "env_get x r st = Some w" using env_get_total assms(1,2) by blast
  obtain ok st' where a: "env_assign x v r st = Some (ok, st')" "chained st'" "length st' = length st"
    "ok = (\<exists>w. env_get x r st = Some (Some w))" "\<not> ok \<longrightarrow> st' = st"
    "ok \<longrightarrow> (\<exists>q < length st. map_of (bindings (st ! q)) x \<noteq> None \<and> st' = env_define x v q st
            \<and> env_get x r st' = Some (Some v))"
    using env_assign_spec [OF assms(1,2)] by blast
  have "env_get y s st' = env_get y s st" if "y \<noteq> x"
    using a(5,6) env_get_define_other [OF assms(1,3) _ that] by blast
  moreover have "ok = (w \<noteq> None)" using a(4) w by auto
  ultimately show ?thesis using w a by auto
qed

theorem scope_assignment_witness:
  "let st = [\<lparr>bindings = [(lit ''x'', VInt 1)], parent = None\<rparr>, \<lparr>bindings = [(lit ''y'', VNil)], parent = Some 0\<rparr>] :: fixed env_store
   in \<exists>st'. env_assign (lit ''x'') (VInt 2) 1 st = Some (True, st') \<and> env_get (lit ''x'') 1 st' = Some (Some (VInt 2))"
proof -
  let ?st = "[\<lparr>bindings = [(lit ''x'', VInt 1)], parent = None\<rparr>, \<lparr>bindings = [(lit ''y'', VNil)], parent = Some 0\<rparr>] :: fixed env_store"
  have c: "chained ?st" by (auto simp: chained_def less_Suc_eq)
  have g: "env_get (lit ''x'') (Suc 0) ?st = Some (Some (VInt 1))"
    by (simp add: env_get.simps [of _ "Suc 0"] env_get.simps [of _ 0])
  show ?thesis
    using scope_assignment [OF c, of "Suc 0" 0 "lit ''x''" "VInt 2" "lit ''y''"]
    by (simp add: g) (auto simp: Let_def)
qed

end
