(* ===== verification/Ops_Spec.thy ===== *)
theory Ops_Spec
  imports Ops Value_Spec
begin

text \<open>
  What the built-in operations promise: exact integers and promotion to decimals, division
  that never truncates, a total order on numbers of both types, and lookup after update.
\<close>

section \<open>The numeric tower\<close>

fun both_int :: "'d rt_value \<Rightarrow> 'd rt_value \<Rightarrow> bool" where
  "both_int (VInt _) b = (case b of VInt _ \<Rightarrow> True | _ \<Rightarrow> False)"
| "both_int _ b = False"

text \<open>
  The result of an operation on two numbers: an \<open>Int\<close> exactly when both operands are, and
  numerically what the decimal operation \<open>f\<close> gives on the operands read as decimals.
\<close>

definition numeric_result ::
  "'d ext \<Rightarrow> 'd rt_value \<Rightarrow> 'd rt_value \<Rightarrow> 'd \<Rightarrow> ('d, 'd rt_value) outcome \<Rightarrow> bool" where
  "numeric_result X a b d r \<longleftrightarrow>
     (\<exists>v z. r = Ok v \<and> to_decimal X v = Some z \<and> dec_eq X z d
        \<and> ((\<exists>n. v = VInt n) \<longleftrightarrow> both_int a b))"

lemma to_decimal_cases:
  assumes "to_decimal X v = Some d"
  obtains n where "v = VInt n" "d = dec_of_int X n" | "v = VDecimal d"
  using assms by (cases v) auto

lemma decimal_int_laws:
  assumes "decimal_laws X"
  shows "dec_eq X (dec_of_int X (x + y)) (dec_add X (dec_of_int X x) (dec_of_int X y))"
    and "dec_eq X (dec_of_int X (x - y)) (dec_sub X (dec_of_int X x) (dec_of_int X y))"
    and "dec_eq X (dec_of_int X (x * y)) (dec_mul X (dec_of_int X x) (dec_of_int X y))"
  using assms dec_eq_sym [OF assms] unfolding decimal_laws_def by blast+

text \<open>
  C27. Addition, subtraction and multiplication accept any two numbers: \<open>Int\<close> with \<open>Int\<close> stays
  an exact, unbounded \<open>Int\<close>, and as soon as one operand is a \<open>Decimal\<close> the other is promoted
  and the result is a \<open>Decimal\<close> with the same numerical value.
\<close>

theorem numeric_tower:
  assumes "decimal_laws X" and "to_decimal X a = Some x" and "to_decimal X b = Some y"
  shows "numeric_result X a b (dec_add X x y) (op_add X a b)
       \<and> numeric_result X a b (dec_sub X x y) (op_sub X a b)
       \<and> numeric_result X a b (dec_mul X x y) (op_mul X a b)"
  using assms(2,3)
  by (elim to_decimal_cases)
    (auto simp: numeric_result_def op_add_def op_sub_def op_mul_def promoted_def
      decimal_int_laws [OF assms(1)] dec_eq_refl [OF assms(1)])

theorem numeric_tower_witness:
  "numeric_result fixed_ext (VInt 2) (VDecimal (15, 1)) (35, 1) (op_add fixed_ext (VInt 2) (VDecimal (15, 1)))"
  using numeric_tower [OF fixed_ext_laws, of "VInt 2" "(2, 0)" "VDecimal (15, 1)" "(15, 1)"]
  by (simp add: fixed_ext_def)

lemma promoted_err:
  "\<not> (is_number a \<and> is_number b) \<Longrightarrow> promoted X category oper a b f = Err (type_err category oper a b)"
  using to_decimal_None_iff [of X a] to_decimal_None_iff [of X b]
  by (auto simp: promoted_def split: option.splits)

lemma not_both_numbers:
  assumes "\<not> (is_number a \<and> is_number b)"
  shows "(case a of VInt x \<Rightarrow> (case b of VInt y \<Rightarrow> f x y | _ \<Rightarrow> m)
          | VDecimal x \<Rightarrow> (case b of VDecimal y \<Rightarrow> g x y | _ \<Rightarrow> m) | _ \<Rightarrow> m) = m"
    and "(case a of VInt x \<Rightarrow> (case b of VInt y \<Rightarrow> f x y | _ \<Rightarrow> m) | _ \<Rightarrow> m) = m"
    and "(case a of VInt x \<Rightarrow> (case b of VInt y \<Rightarrow> f x y | _ \<Rightarrow> m)
          | VDecimal x \<Rightarrow> (case b of VDecimal y \<Rightarrow> g x y | _ \<Rightarrow> m)
          | VStr x \<Rightarrow> (case b of VStr y \<Rightarrow> h x y | _ \<Rightarrow> m) | _ \<Rightarrow> m)
       = (case a of VStr x \<Rightarrow> (case b of VStr y \<Rightarrow> h x y | _ \<Rightarrow> m) | _ \<Rightarrow> m)"
proof -
  have b: "(case b of VInt y \<Rightarrow> f x y | _ \<Rightarrow> m) = m" "(case b of VDecimal y \<Rightarrow> g d y | _ \<Rightarrow> m) = m"
    if "is_number a" for x d
    using assms that by (cases b; simp)+
  show "(case a of VInt x \<Rightarrow> (case b of VInt y \<Rightarrow> f x y | _ \<Rightarrow> m)
          | VDecimal x \<Rightarrow> (case b of VDecimal y \<Rightarrow> g x y | _ \<Rightarrow> m) | _ \<Rightarrow> m) = m"
    "(case a of VInt x \<Rightarrow> (case b of VInt y \<Rightarrow> f x y | _ \<Rightarrow> m) | _ \<Rightarrow> m) = m"
    "(case a of VInt x \<Rightarrow> (case b of VInt y \<Rightarrow> f x y | _ \<Rightarrow> m)
          | VDecimal x \<Rightarrow> (case b of VDecimal y \<Rightarrow> g x y | _ \<Rightarrow> m)
          | VStr x \<Rightarrow> (case b of VStr y \<Rightarrow> h x y | _ \<Rightarrow> m) | _ \<Rightarrow> m)
       = (case a of VStr x \<Rightarrow> (case b of VStr y \<Rightarrow> h x y | _ \<Rightarrow> m) | _ \<Rightarrow> m)"
    using b by (cases a; simp)+
qed

lemma mixed_ops:
  assumes "\<not> (is_number a \<and> is_number b)"
  shows "op_add X a b = (case a of VStr x \<Rightarrow> (case b of VStr y \<Rightarrow> Ok (VStr (x @ y))
             | _ \<Rightarrow> Err (type_err ''arithmetic'' ''+'' a b)) | _ \<Rightarrow> Err (type_err ''arithmetic'' ''+'' a b))"
    and "op_sub X a b = Err (type_err ''arithmetic'' ''-'' a b)"
    and "op_mul X a b = Err (type_err ''arithmetic'' ''*'' a b)"
    and "op_div X a b = Err (type_err ''arithmetic'' ''/'' a b)"
    and "op_modulo a b = Err (type_err ''modulo'' ''%'' a b)"
    and "op_pow X a b = Err (type_err ''power'' ''pow'' a b)"
    and "op_cmp X oper a b = Err (type_err ''comparison'' oper a b)"
  unfolding op_add_def op_sub_def op_mul_def op_div_def op_modulo_def op_pow_def op_cmp_def
    promoted_err [OF assms] Let_def
  by (rule not_both_numbers [OF assms] refl)+

text \<open>
  Arithmetic and comparison on anything but two numbers (or two strings for \<open>+\<close>, which
  concatenates them) is a type error that names both types; nothing is coerced.
\<close>

theorem arithmetic_type_error:
  assumes "\<not> (is_number a \<and> is_number b)"
  shows "op_add X a b =
           (case a of VStr x \<Rightarrow> (case b of VStr y \<Rightarrow> Ok (VStr (x @ y))
              | _ \<Rightarrow> Err (type_err ''arithmetic'' ''+'' a b)) | _ \<Rightarrow> Err (type_err ''arithmetic'' ''+'' a b))
       \<and> op_sub X a b = Err (type_err ''arithmetic'' ''-'' a b)
       \<and> op_mul X a b = Err (type_err ''arithmetic'' ''*'' a b)
       \<and> op_div X a b = Err (type_err ''arithmetic'' ''/'' a b)
       \<and> op_modulo a b = Err (type_err ''modulo'' ''%'' a b)
       \<and> op_pow X a b = Err (type_err ''power'' ''pow'' a b)
       \<and> op_cmp X oper a b = Err (type_err ''comparison'' oper a b)"
  by (intro conjI mixed_ops [OF assms])

text \<open>The witness: an integer and a string do not add up.\<close>

theorem arithmetic_type_error_witness:
  "op_add fixed_ext (VInt 1) (VStr (lit ''a'')) =
     Err (TypeError (lit ''arithmetic'') (lit ''Int'') (lit ''+ (String)'') None)"
  using arithmetic_type_error [of "VInt 1" "VStr (lit ''a'')" fixed_ext "''<''"]
  by (simp add: type_err_def lit_append [symmetric])

section \<open>Division\<close>

lemma smod_zero_iff: "(x::int) smod y = 0 \<longleftrightarrow> y dvd x"
  by (cases "x = 0") (auto simp: signed_modulo_int_def sgn_eq_0_iff dvd_eq_mod_eq_0 [symmetric])

lemma smod_sign: "(x::int) smod y = 0 \<or> sgn (x smod y) = sgn x"
proof -
  have "0 \<le> \<bar>x\<bar> mod \<bar>y\<bar>" by (cases "y = 0") simp_all
  then have "\<bar>x\<bar> mod \<bar>y\<bar> = 0 \<or> sgn (\<bar>x\<bar> mod \<bar>y\<bar>) = 1" by (auto simp: sgn_if)
  then show ?thesis by (auto simp: signed_modulo_int_def sgn_mult)
qed

lemma sdiv_exact:
  assumes "(y::int) dvd x"
  shows "x sdiv y = x div y"
proof (cases "y = 0")
  case False
  have "x sdiv y * y + x smod y = x" by (rule sdiv_mult_smod_eq)
  then have "x sdiv y * y = x div y * y" using assms smod_zero_iff [of x y] by simp
  then show ?thesis using False by simp
qed simp

lemma smod_unique:
  assumes "(x::int) = q * y + r" and "\<bar>r\<bar> < \<bar>y\<bar>" and "r = 0 \<or> sgn r = sgn x"
  shows "x smod y = r"
proof -
  have m: "x = x sdiv y * y + x smod y" by (rule sdiv_mult_smod_eq [symmetric])
  have y: "y \<noteq> 0" using assms(2) by auto
  have "x smod y \<in> {- \<bar>y\<bar> + 1..\<bar>y\<bar> - 1}" using smod_int_range [OF y] by blast
  moreover have "x smod y = 0 \<or> sgn (x smod y) = sgn x"
    by (rule smod_sign)
  ultimately have "\<bar>x smod y - r\<bar> < \<bar>y\<bar>"
    using assms(2,3) by (auto simp: sgn_if abs_if split: if_splits)
  moreover have "y dvd x smod y - r"
  proof
    show "x smod y - r = y * (q - x sdiv y)" using m assms(1) by (simp add: algebra_simps)
  qed
  ultimately show ?thesis using zdvd_not_zless y by (metis abs_dvd_iff dvd_abs_iff diff_eq_diff_eq dvd_imp_le_int linorder_not_less right_minus_eq)
qed


text \<open>
  C28. Division and remainder of integers: division by zero is an error and nothing else is; a
  quotient is an \<open>Int\<close> exactly when it is exact, and otherwise the decimal quotient, never a
  truncated integer; the remainder is the one with the sign of the dividend.
\<close>

theorem integer_division:
  "op_div X (VInt x) (VInt y) =
     (if y = 0 then Err (DivisionByZero None)
      else if y dvd x then Ok (VInt (x div y))
      else Ok (VDecimal (dec_div X (dec_of_int X x) (dec_of_int X y))))
   \<and> (op_modulo (VInt x) (VInt y) = Ok (VInt r) \<longleftrightarrow>
        y \<noteq> 0 \<and> \<bar>r\<bar> < \<bar>y\<bar> \<and> (r = 0 \<or> sgn r = sgn x) \<and> (\<exists>q. x = q * y + r))"
proof -
  have "\<bar>x smod y\<bar> < \<bar>y\<bar> \<and> (x smod y = 0 \<or> sgn (x smod y) = sgn x) \<and> (\<exists>q. x = q * y + x smod y)"
    if "y \<noteq> 0"
  proof -
    have "\<bar>x smod y\<bar> < \<bar>y\<bar>" using smod_int_range [OF that, of x] by auto
    moreover have "x smod y = 0 \<or> sgn (x smod y) = sgn x" by (rule smod_sign)
    moreover have "x = x sdiv y * y + x smod y" by (rule sdiv_mult_smod_eq [symmetric])
    ultimately show ?thesis by blast
  qed
  then show ?thesis
    using smod_unique [of x _ y r] by (auto simp: op_div_def op_modulo_def smod_zero_iff sdiv_exact)
qed

section \<open>Comparison\<close>

lemma op_cmp_number:
  assumes "decimal_laws X" and "to_decimal X a = Some x" and "to_decimal X b = Some y"
  shows "op_cmp X oper a b = Ok (dec_cmp X x y)"
  using assms(2,3)
  by (elim to_decimal_cases) (auto simp: op_cmp_def promoted_def dec_laws(4) [OF assms(1)])

lemma value_eq_same_type:
  assumes "decimal_laws X" and "to_decimal X a = Some x" and "to_decimal X b = Some y" and "type_name a = type_name b"
  shows "value_eq X a b \<longleftrightarrow> dec_eq X x y"
  using assms(2-4)
  by (elim to_decimal_cases) (auto simp: dec_eq_def dec_laws(4) [OF assms(1)] int_cmp_def)

lemma dec_cmp_swap:
  assumes "decimal_laws X"
  shows "dec_cmp X b a = Less \<longleftrightarrow> dec_cmp X a b = Greater" "dec_cmp X b a = Greater \<longleftrightarrow> dec_cmp X a b = Less"
  using dec_laws(2) [OF assms, of b a] by (cases "dec_cmp X a b"; simp)+

text \<open>
  C29. The comparison operators are one total order on the numbers of both types: they accept
  any two numbers, \<open>>\<close> and \<open>>=\<close> mirror \<open><\<close> and \<open><=\<close>, \<open><=\<close> is the negation of \<open>>\<close>, total and
  transitive. It is antisymmetric up to the numerical value: \<open>a <= b\<close> and \<open>b <= a\<close> both hold exactly if \<open>a\<close> and \<open>b\<close>
  are the same decimal, and, for two numbers of one type, exactly if \<open>a == b\<close>. (An integer and a decimal are never
  \<open>==\<close>, so that \<open>1 <= 1.0\<close> and \<open>1.0 <= 1\<close> but not \<open>1 == 1.0\<close>.)
\<close>

theorem comparison_total_order:
  assumes "decimal_laws X" and "is_number a" and "is_number b" and "is_number c"
  shows "\<exists>lt le. op_lt X a b = Ok lt \<and> op_gt X b a = Ok lt \<and> op_lte X a b = Ok le \<and> op_gte X b a = Ok le
       \<and> op_gt X a b = Ok (\<not> le) \<and> (lt \<longrightarrow> le) \<and> (le \<or> op_lte X b a = Ok True)
       \<and> (le \<and> op_lte X b c = Ok True \<longrightarrow> op_lte X a c = Ok True)
       \<and> (le \<and> op_lte X b a = Ok True \<longleftrightarrow> (\<exists>x y. to_decimal X a = Some x \<and> to_decimal X b = Some y \<and> dec_eq X x y))
       \<and> (type_name a = type_name b \<longrightarrow> (le \<and> op_lte X b a = Ok True \<longleftrightarrow> value_eq X a b))"
proof -
  obtain x y z where xyz: "to_decimal X a = Some x" "to_decimal X b = Some y" "to_decimal X c = Some z"
    using assms(2-4) to_decimal_None_iff by (metis option.exhaust)
  note cmp = op_cmp_number [OF assms(1) xyz(1,2)] op_cmp_number [OF assms(1) xyz(2,1)]
    op_cmp_number [OF assms(1) xyz(2,3)] op_cmp_number [OF assms(1) xyz(1,3)]
  have "type_name a = type_name b \<longrightarrow> (dec_eq X x y \<longleftrightarrow> value_eq X a b)"
    using value_eq_same_type [OF assms(1) xyz(1,2)] by simp
  then show ?thesis
    using dec_laws(3) [OF assms(1), of x y z] dec_cmp_swap [OF assms(1), of y x]
    by (cases "dec_cmp X x y") (auto simp: op_lt_def op_gt_def op_lte_def op_gte_def cmp xyz dec_eq_def)
qed

theorem comparison_total_order_witness:
  "op_lt fixed_ext (VInt 1) (VDecimal (15, 1)) = Ok True \<and> op_lte fixed_ext (VDecimal (15, 1)) (VInt 2) = Ok True
   \<and> op_lte fixed_ext (VInt 1) (VInt 2) = Ok True
   \<and> op_lte fixed_ext (VDecimal (10, 1)) (VInt 1) = Ok True \<and> \<not> value_eq fixed_ext (VDecimal (10, 1)) (VInt 1)"
proof -
  have "op_lt fixed_ext (VInt 1) (VDecimal (15, 1)) = Ok True" "op_lte fixed_ext (VDecimal (15, 1)) (VInt 2) = Ok True"
    by (simp_all add: op_lt_def op_lte_def op_cmp_def promoted_def fixed_ext_def fixed_cmp_def int_cmp_def)
  moreover have "op_lte fixed_ext (VDecimal (10, 1)) (VInt 1) = Ok True"
    using comparison_total_order [OF fixed_ext_laws, of "VDecimal (10, 1)" "VInt 1" "VInt 1"]
    by (auto simp: dec_eq_def fixed_ext_def fixed_cmp_def int_cmp_def)
  ultimately show ?thesis
    using comparison_total_order [OF fixed_ext_laws, of "VInt 1" "VDecimal (15, 1)" "VInt 2"] by auto
qed

section \<open>Lookup after update\<close>

lemma wf_map_keys: "decimal_laws X \<Longrightarrow> wf_value X (VMap m) \<Longrightarrow>
    list_all (\<lambda>v. decimal_laws X \<and> wf_value X v) (map fst m) \<and> apart (value_eq X) (map fst m)"
  by (auto simp: list_all_iff)

lemma wf_op_assoc:
  assumes X: "decimal_laws X" and "wf_value X c" "wf_value X k" "wf_value X v" and "op_assoc X c k v = Ok c'"
  shows "wf_value X c'"
proof (cases c)
  case (VMap m)
  then have "c' = VMap (entry_insert (value_eq X) k v m)" using assms(5) by simp
  moreover have "apart (value_eq X) (map fst (entry_insert (value_eq X) k v m))"
    using value_key.entry_insert_keys [of X m k v] wf_map_keys [OF X] VMap assms(2,3) X by simp
  moreover have "set (entry_insert (value_eq X) k v m) \<subseteq> insert (k, v) (set m)" by (rule set_entry_insert_pairs)
  ultimately show ?thesis using VMap assms(2-4) by (fastforce simp: list_all_iff)
next
  case (VVec xs)
  then obtain i where "c' = VVec (xs[i := v])"
    using assms(5) by (auto split: rt_value.split_asm option.split_asm if_splits)
  then show ?thesis
    using VVec assms(2,4) set_update_subset_insert [of xs i v] by (auto simp: list_all_iff)
next
  case (VStruct n fs)
  then obtain s where c': "c' = VStruct n (entry_insert (=) s v fs)"
    using assms(5) by (auto split: rt_value.split_asm)
  have "set (entry_insert (=) s v fs) \<subseteq> insert (s, v) (set fs)" by (rule set_entry_insert_pairs)
  moreover have "distinct (map fst (entry_insert (=) s v fs))"
    using string_key.entry_insert_keys [of fs s v] VStruct assms(2) by (simp add: list_all_iff)
  ultimately show ?thesis using VStruct assms(2,4) c' by (fastforce simp: list_all_iff)
qed (use assms(5) in simp_all)

text \<open>
  C30. \<open>assoc\<close> on maps and vectors: the updated collection is well formed again, \<open>get\<close> of the
  key returns the value just stored, and \<open>get\<close> of any other key returns what it returned
  before; the original collection is a value and cannot change.
\<close>

theorem get_after_assoc:
  assumes "decimal_laws X" and "wf_value X c" and "wf_value X k" and "wf_value X j" and "wf_value X v"
    and "op_assoc X c k v = Ok c'" and "\<forall>n fs. c \<noteq> VStruct n fs"
  shows "wf_value X c' \<and> op_get X c' k = Ok v
       \<and> (\<not> value_eq X k j \<longrightarrow> op_get X c' j = op_get X c j)"
proof (intro conjI)
  show "wf_value X c'" by (rule wf_op_assoc [OF assms(1,2,3,5,6)])
  have "op_get X c' k = Ok v \<and> (\<not> value_eq X k j \<longrightarrow> op_get X c' j = op_get X c j)"
  proof (cases c)
    case (VMap m)
    then have "c' = VMap (entry_insert (value_eq X) k v m)" using assms(6) by simp
    moreover have "entry_get (value_eq X) i (entry_insert (value_eq X) k v m) =
        (if value_eq X k i then Some v else entry_get (value_eq X) i m)" if "wf_value X i" for i
      using value_key.entry_get_insert [of X m k i v] wf_map_keys [OF assms(1)] VMap assms(1-3) that by simp
    ultimately show ?thesis
      using VMap assms(3,4) value_eq_refl [OF assms(1), of k] by (simp add: or_nil_def)
  next
    case (VVec xs)
    then obtain n i where n: "k = VInt n" "to_usize n = Some i" "i < length xs" "c' = VVec (xs[i := v])"
      using assms(6) by (auto split: rt_value.split_asm option.split_asm if_splits)
    have "nth_or_nil (xs[i := v]) l = nth_or_nil xs l" if "l \<noteq> n" for l
      using that n(2) by (auto simp: nth_or_nil_def to_usize_def nth_list_update split: if_splits)
    then show ?thesis
      using VVec n by (auto simp: nth_or_nil_def type_err_def split: rt_value.split)
  qed (use assms(6,7) in simp_all)
  then show "op_get X c' k = Ok v" "\<not> value_eq X k j \<longrightarrow> op_get X c' j = op_get X c j" by blast+
qed

theorem get_after_assoc_witness:
  "op_get fixed_ext (VMap [(VInt 1, VStr (lit ''b'')), (VInt 2, VNil)]) (VInt 1) = Ok (VStr (lit ''b''))"
proof -
  let ?m = "VMap [(VInt 1, VNil), (VInt 2, VNil)] :: fixed rt_value"
  have "wf_value fixed_ext ?m" "wf_value fixed_ext (VInt 1)" "wf_value fixed_ext (VInt 2)"
    "wf_value fixed_ext (VStr (lit ''b''))"
    and "op_assoc fixed_ext ?m (VInt 1) (VStr (lit ''b'')) = Ok (VMap [(VInt 1, VStr (lit ''b'')), (VInt 2, VNil)])"
    by (simp_all add: apart_def)
  from get_after_assoc [OF fixed_ext_laws this] show ?thesis by simp
qed

end
