(* ===== verification/Builtins_Spec.thy ===== *)
theory Builtins_Spec
  imports Builtins
begin

text \<open>
  The string functions: searching, splitting and joining, slices, characters and their code points, the UTF-8
  encoding; and where numbers go through floating point.
\<close>

section \<open>Searching\<close>

lemma find_text_None: "find_text p s = None \<longleftrightarrow> (\<forall>j \<le> length s. \<not> begins p (drop j s))"
proof (induction s)
  case (Cons c s)
  have all: "(\<forall>j \<le> length (c # s). Q j) \<longleftrightarrow> Q 0 \<and> (\<forall>j \<le> length s. Q (Suc j))" for Q
    by (metis Suc_le_mono length_Cons not0_implies_Suc zero_le)
  show ?case unfolding all using Cons by simp
qed (simp add: begins_def)

lemma find_text_Some:
  "find_text p s = Some i \<longleftrightarrow> i \<le> length s \<and> begins p (drop i s) \<and> (\<forall>j < i. \<not> begins p (drop j s))"
proof (induction s arbitrary: i)
  case (Cons c s)
  show ?case
  proof (cases i)
    case (Suc k)
    have all: "(\<forall>j < Suc k. Q j) \<longleftrightarrow> Q 0 \<and> (\<forall>j < k. Q (Suc j))" for Q
      by (metis Suc_less_eq not0_implies_Suc zero_less_Suc)
    show ?thesis unfolding Suc all using Cons by simp
  qed auto
qed (auto simp: begins_def)

lemma begins_split: "begins p s \<Longrightarrow> s = p @ drop (length p) s"
  by (metis append_take_drop_id begins_def)

lemma found_split: "find_text p s = Some i \<Longrightarrow> s = take i s @ p @ drop (i + length p) s"
proof -
  assume "find_text p s = Some i"
  then have "begins p (drop i s)" by (simp add: find_text_Some)
  then have "drop i s = p @ drop (i + length p) s" using begins_split [of p "drop i s"] by (simp add: add.commute)
  then show ?thesis by (metis append_take_drop_id)
qed

text \<open>
  \<open>index_of\<close> gives the character position of the first occurrence, and \<open>- 1\<close> exactly when \<open>contains\<close> is false.
\<close>

theorem index_of_first:
  "\<exists>i. bi_index_of [VStr s, VStr p] = Ok (VInt i)
     \<and> bi_contains [VStr s, VStr p] = Ok (VBool (i \<noteq> - 1))
     \<and> (if i = - 1 then \<forall>j. \<not> (begins p (drop j s) \<and> j \<le> length s)
        else 0 \<le> i \<and> begins p (drop (nat i) s) \<and> (\<forall>j. \<not> (j < nat i \<and> begins p (drop j s))))"
proof (cases "find_text p s")
  case None
  then show ?thesis
    using find_text_None [of p s] by (auto simp: bi_index_of_def bi_contains_def str_args2_def binary_args_def str_arg_def)
next
  case (Some i)
  then show ?thesis
    using find_text_Some [of p s i]
    by (intro exI [of _ "int i"]) (auto simp: bi_index_of_def bi_contains_def str_args2_def binary_args_def str_arg_def)
qed

section \<open>Splitting and joining\<close>

lemma split_text_not_Nil: "split_text c cs s \<noteq> []"
  by (subst split_text.simps) (simp split: option.splits)

lemma join_split_text: "intercalate (c # cs) (split_text c cs s) = s"
proof (induction c cs s rule: split_text.induct)
  case (1 c cs s)
  show ?case
  proof (cases "find_text (c # cs) s")
    case (Some i)
    let ?r = "split_text c cs (drop (i + length (c # cs)) s)"
    obtain x xs where r: "?r = x # xs" using split_text_not_Nil by (cases ?r) auto
    have "split_text c cs s = take i s # x # xs" using Some r by (subst split_text.simps) simp
    then have "intercalate (c # cs) (split_text c cs s) = take i s @ (c # cs) @ intercalate (c # cs) ?r" using r by simp
    then show ?thesis using 1 [OF Some] found_split [OF Some] by simp
  qed (subst split_text.simps, simp)
qed

lemma join_chars: "intercalate [] (map (\<lambda>c. [c]) s) = s"
  by (induction s rule: induct_list012) simp_all

lemma display_str [simp]: "display X H (VStr s) = s"
  by (simp add: display_def)

text \<open>C21. Joining the parts of a string with the separator it was split at gives the string, for every separator.\<close>

theorem split_join_roundtrip:
  "bindE (bi_split [VStr s, VStr sep]) (\<lambda>v. bi_join X H [v, VStr sep]) = Ok (VStr s)"
proof (cases sep)
  case Nil
  then show ?thesis
    using join_chars [of s] by (simp add: bi_split_def bi_join_def str_args2_def binary_args_def str_arg_def comp_def)
next
  case (Cons c cs)
  then show ?thesis
    using join_split_text [of c cs s]
    by (simp add: bi_split_def bi_join_def str_args2_def binary_args_def str_arg_def comp_def)
qed

text \<open>Replacing is splitting at the old text and joining with the new one.\<close>

lemma replace_text_split: "replace_text c cs new s = intercalate new (split_text c cs s)"
proof (induction c cs new s rule: replace_text.induct)
  case (1 c cs new s)
  show ?case
  proof (cases "find_text (c # cs) s")
    case (Some i)
    let ?r = "split_text c cs (drop (i + length (c # cs)) s)"
    obtain x xs where r: "?r = x # xs" using split_text_not_Nil by (cases ?r) auto
    have "split_text c cs s = take i s # x # xs" using Some r by (subst split_text.simps) simp
    then have "intercalate new (split_text c cs s) = take i s @ new @ intercalate new ?r" using r by simp
    then show ?thesis using 1 [OF Some] Some by (subst replace_text.simps) simp
  qed (subst split_text.simps, subst replace_text.simps, simp)
qed

theorem replace_is_split_join:
  assumes "old \<noteq> []"
  shows "bi_replace [VStr s, VStr old, VStr new] = bindE (bi_split [VStr s, VStr old]) (\<lambda>v. bi_join X H [v, VStr new])"
  using assms
  by (cases old) (simp_all add: bi_replace_def bi_split_def bi_join_def str_args2_def binary_args_def ternary_args_def str_arg_def comp_def
      replace_all_def replace_text_split)

section \<open>Slices and characters\<close>

lemma int_arg_small: "- (2 ^ 63) \<le> n \<Longrightarrow> n < 2 ^ 63 \<Longrightarrow> int_arg name param (VInt n) = Ok n"
  by (simp add: int_arg_def bigint_to_i64_def)

text \<open>The slice between two positions, both cut to the length of the string.\<close>

lemma substring_slice:
  assumes "int (length s) < 2 ^ 63" "i < 2 ^ 63" "j < 2 ^ 63" "- (2 ^ 63) \<le> i" "- (2 ^ 63) \<le> j"
  shows "bi_substring [VStr s, VInt i, VInt j] = Ok (VStr (take (nat j - nat i) (drop (nat i) s)))"
proof -
  define start where "start = min (max i 0) (int (length s))"
  define stop where "stop = min (max j start) (int (length s))"
  have start: "nat start = min (nat i) (length s)" by (auto simp: start_def min_def max_def)
  have stop: "nat stop = min (max (nat j) (nat start)) (length s)" by (auto simp: stop_def start_def min_def max_def)
  have "take (nat stop - nat start) (drop (nat start) s) = take (nat j - nat i) (drop (nat i) s)"
  proof (cases "nat i < length s")
    case True
    then show ?thesis unfolding stop start by (auto simp: min_def max_def not_less)
  next
    case False
    then show ?thesis by (simp add: start stop)
  qed
  then show ?thesis
    by (simp only: bi_substring_def ternary_args_def list.case str_arg_def rt_value.case int_arg_small [OF assms(4,2)]
        int_arg_small [OF assms(5,3)] bindE.simps Let_def start_def [symmetric] stop_def [symmetric])
qed

text \<open>Cutting a string at any position and concatenating the two slices gives the string.\<close>

theorem slices_concatenate:
  assumes "int (length s) < 2 ^ 63" "int k < 2 ^ 63"
  shows "bindE (bi_substring [VStr s, VInt 0, VInt (int k)]) (\<lambda>a.
     bindE (bi_substring [VStr s, VInt (int k), VInt (int (length s))]) (\<lambda>b. op_add X a b)) = Ok (VStr s)"
  using assms by (simp add: substring_slice op_add_def)

text \<open>An end position beyond 64 bits does not stand for the end of the string: the slice is empty.\<close>

theorem substring_big_end_is_empty:
  "bi_substring [VStr s, VInt 0, VInt (2 ^ 63)] = Ok (VStr [])"
  by (simp add: bi_substring_def ternary_args_def str_arg_def int_arg_def bigint_to_i64_def Let_def)

text \<open>The code point of a character of a string gives the character back.\<close>

theorem codepoint_roundtrip:
  assumes "i < length s" "int i < 2 ^ 63" "char_from_u32 (s ! i) \<noteq> None"
  shows "bindE (bi_codepoint_at [VStr s, VInt (int i)]) (\<lambda>v. bi_from_codepoint [v]) = bi_char_at [VStr s, VInt (int i)]"
proof -
  have "s ! i < 0x110000" "char_from_u32 (s ! i) = Some (s ! i)"
    using assms(3) by (auto simp: char_from_u32_def split: if_splits)
  then show ?thesis
    using assms(1,2) by (simp add: bi_codepoint_at_def bi_char_at_def element_at_def binary_args_def str_arg_def int_arg_small bi_from_codepoint_def)
qed

section \<open>UTF-8\<close>

lemma length_utf8_char: "length (utf8_char c) = len_utf8 c"
  by (simp add: utf8_char_def len_utf8_def)

lemma utf8_char_bytes: "c < 0x110000 \<Longrightarrow> b \<in> set (utf8_char c) \<Longrightarrow> b < 256"
  by (auto simp: utf8_char_def split: if_splits)

lemma length_utf8: "length (utf8 s) = byte_len s"
  by (induction s) (simp_all add: utf8_def length_utf8_char)

text \<open>The first byte of a character tells how many follow, and the bytes give the character back.\<close>

definition utf8_lead :: "nat \<Rightarrow> nat" where
  "utf8_lead b = (if b < 0x80 then 1 else if b < 0xE0 then 2 else if b < 0xF0 then 3 else 4)"

definition utf8_value :: "nat list \<Rightarrow> nat" where
  "utf8_value bs = (case bs of
     [a] \<Rightarrow> a | [a, b] \<Rightarrow> (a - 0xC0) * 64 + (b - 0x80) | [a, b, c] \<Rightarrow> (a - 0xE0) * 4096 + (b - 0x80) * 64 + (c - 0x80)
   | [a, b, c, d] \<Rightarrow> (a - 0xF0) * 262144 + (b - 0x80) * 4096 + (c - 0x80) * 64 + (d - 0x80) | _ \<Rightarrow> 0)"

lemma div_mod_64: "(c :: nat) div 64 * 64 + c mod 64 = c"
  "(c :: nat) div 4096 * 4096 + c div 64 mod 64 * 64 + c mod 64 = c"
  "(c :: nat) div 262144 * 262144 + c div 4096 mod 64 * 4096 + c div 64 mod 64 * 64 + c mod 64 = c"
proof -
  have d: "c div 4096 = c div 64 div 64" "c div 262144 = c div 4096 div 64" by (simp_all add: div_mult2_eq [symmetric])
  have m: "n div 64 * 64 + n mod 64 = n" for n :: nat by simp
  show "c div 64 * 64 + c mod 64 = c" by (rule m)
  show two: "c div 4096 * 4096 + c div 64 mod 64 * 64 + c mod 64 = c"
    using m [of c] m [of "c div 64"] unfolding d(1) by linarith
  show "c div 262144 * 262144 + c div 4096 mod 64 * 4096 + c div 64 mod 64 * 64 + c mod 64 = c"
    using two m [of "c div 4096"] unfolding d(2) by linarith
qed

lemma utf8_char_back: "utf8_value (utf8_char c) = c"
  using div_mod_64 [of c] by (simp add: utf8_value_def utf8_char_def)

lemma utf8_char_lead:
  assumes "c < 0x110000"
  shows "\<exists>b bs. utf8_char c = b # bs \<and> length (utf8_char c) = utf8_lead b"
proof -
  have "c div 64 < 32" if "c < 0x800" using that by simp
  moreover have "c div 4096 < 16" if "c < 0x10000" using that by simp
  ultimately show ?thesis by (auto simp: utf8_char_def utf8_lead_def)
qed

lemma utf8_inj:
  assumes "list_all (\<lambda>c. c < 0x110000) s" "list_all (\<lambda>c. c < 0x110000) t" "utf8 s = utf8 t"
  shows "s = t"
  using assms
proof (induction s arbitrary: t)
  case Nil
  then show ?case using utf8_char_lead by (cases t) (fastforce simp: utf8_def)+
next
  case (Cons c s)
  obtain b bs where b: "utf8_char c = b # bs" "length (utf8_char c) = utf8_lead b"
    using utf8_char_lead Cons.prems(1) by fastforce
  then obtain d t' where t: "t = d # t'" using Cons.prems(3) by (cases t) (auto simp: utf8_def)
  obtain b' bs' where b': "utf8_char d = b' # bs'" "length (utf8_char d) = utf8_lead b'"
    using utf8_char_lead Cons.prems(2) t by fastforce
  have eq: "utf8_char c @ utf8 s = utf8_char d @ utf8 t'" using Cons.prems(3) t by (simp add: utf8_def)
  then have "b = b'" using b b' by simp
  then have "utf8_char c = utf8_char d \<and> utf8 s = utf8 t'" using eq b b' by (metis append_eq_append_conv)
  moreover have "list_all (\<lambda>c. c < 0x110000) s" "list_all (\<lambda>c. c < 0x110000) t'" using Cons.prems(1,2) t by simp_all
  ultimately have "s = t'" "c = d" using Cons.IH [of t'] utf8_char_back by metis+
  then show ?case using t by simp
qed

lemma byte_len_bounds: "length s \<le> byte_len s \<and> byte_len s \<le> 4 * length s"
proof (induction s)
  case (Cons c s)
  then show ?case using len_utf8_bounds [of c] by simp
qed simp

text \<open>
  C22. The bytes that \<open>byte_at\<close> gives lie below 256, \<open>byte_len\<close> counts them, at least as many as there are characters
  and at most four times as many; and they determine the string.
\<close>

theorem bytes_of_string:
  assumes "list_all (\<lambda>c. char_from_u32 c \<noteq> None) s" "length (utf8 s) < 2 ^ 63"
  shows "\<exists>n. bi_byte_len [VStr s] = Ok (VInt (int n)) \<and> length s \<le> n \<and> n \<le> 4 * length s
     \<and> (\<exists>bs. map (\<lambda>i. bi_byte_at [VStr s, VInt (int i)]) [0..<n] = map (\<lambda>b. Ok (VInt (int b))) bs \<and> (\<forall>b \<in> set bs. b < 256)
          \<and> (\<forall>t. list_all (\<lambda>c. char_from_u32 c \<noteq> None) t \<and> utf8 t = bs \<longrightarrow> t = s))"
proof -
  have scalar: "list_all (\<lambda>c. c < 0x110000) t" if "list_all (\<lambda>c. char_from_u32 c \<noteq> None) t" for t
    using that by (auto simp: list_all_iff char_from_u32_def split: if_splits)
  have "length s \<le> byte_len s" "byte_len s \<le> 4 * length s"
    using byte_len_bounds by simp_all
  moreover have "map (\<lambda>i. bi_byte_at [VStr s, VInt (int i)]) [0..<length (utf8 s)] = map (\<lambda>b. Ok (VInt (int b))) (utf8 s)"
    using assms(2) by (intro nth_equalityI) (auto simp: bi_byte_at_def element_at_def binary_args_def str_arg_def int_arg_small)
  moreover have "\<forall>b \<in> set (utf8 s). b < 256"
    using scalar [OF assms(1)] utf8_char_bytes by (auto simp: utf8_def list_all_iff)
  ultimately show ?thesis
    using utf8_inj scalar assms(1)
    by (intro exI [of _ "byte_len s"] conjI exI [of _ "utf8 s"])
      (auto simp: bi_byte_len_def str_fun_def one_arg_def str_arg_def length_utf8)
qed

theorem bytes_of_string_witness:
  "\<exists>n. bi_byte_len [VStr [0x61, 0x20AC] :: fixed rt_value] = Ok (VInt (int n)) \<and> length [0x61, 0x20AC :: nat] \<le> n \<and> n \<le> 4 * length [0x61, 0x20AC :: nat]"
  using bytes_of_string [of "[0x61, 0x20AC]"] by (auto simp: char_from_u32_def utf8_def utf8_char_def)

section \<open>Numbers as floating point\<close>

text \<open>
  \<open>min\<close> and \<open>max\<close> compare the nearest floating-point numbers: two integers with the same one are each returned
  as the minimum and the maximum, whichever comes first.
\<close>

theorem min_max_of_close_integers:
  assumes "int_to_f64 F a = Some (Finite q)" "int_to_f64 F b = Some (Finite q)"
  shows "bi_min X F [VInt a, VInt b] = Ok (VInt a) \<and> bi_max X F [VInt a, VInt b] = Ok (VInt a)
     \<and> bi_min X F [VInt b, VInt a] = Ok (VInt b) \<and> bi_max X F [VInt b, VInt a] = Ok (VInt b)"
  using assms by (simp add: bi_min_def bi_max_def extremum_def binary_args_def num_to_f64_def f64_le_def)

text \<open>
  Rounding a decimal goes through floating point and saturates: beyond 64 bits \<open>floor\<close>, \<open>ceil\<close> and \<open>round\<close> give
  the largest machine integer.
\<close>

theorem rounding_saturates:
  assumes "dec_to_f64 F d = Some (Finite q)" "2 ^ 63 \<le> q"
  shows "\<forall>f \<in> {bi_floor, bi_ceil, bi_round}. f X F [VDecimal d] = Ok (VInt (2 ^ 63 - 1))"
proof -
  have q: "(2 ^ 63 :: int) \<le> \<lfloor>q\<rfloor>" "(2 ^ 63 :: int) \<le> \<lceil>q\<rceil>" "(2 ^ 63 :: int) \<le> \<lfloor>q + 1 / 2\<rfloor>" "0 \<le> q"
    using assms(2) by (simp_all add: le_floor_iff le_ceiling_iff)
  then show ?thesis
    using assms(1)
    by (auto simp: bi_floor_def bi_ceil_def bi_round_def rounded_def one_arg_def f64_map_def f64_as_i64_def round_away_def clamp_i64_def)
qed

end
