(* ===== verification/Chunk.thy ===== *)
theory Chunk
  imports Value Ast
begin

text \<open>
  Bytecode (\<open>src/vm/chunk.rs\<close>): the opcodes and their bytes, the width of their operands, the
  little-endian operand encoding, and the chunk that holds a compiled function body.
\<close>

section \<open>Opcodes\<close>

datatype (plugins only: size) opcode =
    OpNil | OpTrue | OpFalse | OpConst | OpLoadLocal | OpStoreLocal | OpLoadUpvalue
  | OpStoreUpvalue | OpLoadGlobal | OpStoreGlobal | OpDefineGlobal | OpLoadLocalRef
  | OpLoadUpvalueRef | OpLoadGlobalRef | OpPop | OpPopN | OpPopLocalKeep | OpDup | OpNewVec
  | OpNewMap | OpNewSet | OpAdd | OpSub | OpMul | OpDiv | OpMod | OpNeg | OpNot | OpEq | OpNeq
  | OpLt | OpGt | OpLte | OpGte | OpJump | OpJumpIfFalse | OpJumpIfTrue | OpLoop | OpClosure
  | OpCall | OpMethodCall | OpConstructVariant | OpConstructStruct | OpReturn | OpAssignLocal
  | OpAssignUpvalue | OpAssignGlobal | OpIndex | OpIndexAssign | OpField | OpFieldAssign
  | OpMatch | OpBreak | OpContinue | OpReturnSignal | OpRetry | OpRaise | OpPushTry | OpPopTry
  | OpRescueMatch | OpEnsureExit | OpClearPending | OpSharedExpr | OpPushTransact
  | OpTransactCommit | OpYield | OpReply | OpAwait | OpSpawn | OpActorSend | OpActorRequest
  | OpDefineActor | OpRegisterHandler | OpImport | OpSwap | OpRot3 | OpPushLoop | OpPopLoop
  | OpEnd

text \<open>The discriminants: the declaration numbers the opcodes from 0 in the order above.\<close>

definition opcodes :: "opcode list" where
  "opcodes = [OpNil, OpTrue, OpFalse, OpConst, OpLoadLocal, OpStoreLocal, OpLoadUpvalue,
     OpStoreUpvalue, OpLoadGlobal, OpStoreGlobal, OpDefineGlobal, OpLoadLocalRef,
     OpLoadUpvalueRef, OpLoadGlobalRef, OpPop, OpPopN, OpPopLocalKeep, OpDup, OpNewVec,
     OpNewMap, OpNewSet, OpAdd, OpSub, OpMul, OpDiv, OpMod, OpNeg, OpNot, OpEq, OpNeq,
     OpLt, OpGt, OpLte, OpGte, OpJump, OpJumpIfFalse, OpJumpIfTrue, OpLoop, OpClosure,
     OpCall, OpMethodCall, OpConstructVariant, OpConstructStruct, OpReturn, OpAssignLocal,
     OpAssignUpvalue, OpAssignGlobal, OpIndex, OpIndexAssign, OpField, OpFieldAssign,
     OpMatch, OpBreak, OpContinue, OpReturnSignal, OpRetry, OpRaise, OpPushTry, OpPopTry,
     OpRescueMatch, OpEnsureExit, OpClearPending, OpSharedExpr, OpPushTransact,
     OpTransactCommit, OpYield, OpReply, OpAwait, OpSpawn, OpActorSend, OpActorRequest,
     OpDefineActor, OpRegisterHandler, OpImport, OpSwap, OpRot3, OpPushLoop, OpPopLoop,
     OpEnd]"

primrec opcode_byte :: "opcode \<Rightarrow> u8" where
  "opcode_byte OpNil = 0"
| "opcode_byte OpTrue = 1"
| "opcode_byte OpFalse = 2"
| "opcode_byte OpConst = 3"
| "opcode_byte OpLoadLocal = 4"
| "opcode_byte OpStoreLocal = 5"
| "opcode_byte OpLoadUpvalue = 6"
| "opcode_byte OpStoreUpvalue = 7"
| "opcode_byte OpLoadGlobal = 8"
| "opcode_byte OpStoreGlobal = 9"
| "opcode_byte OpDefineGlobal = 10"
| "opcode_byte OpLoadLocalRef = 11"
| "opcode_byte OpLoadUpvalueRef = 12"
| "opcode_byte OpLoadGlobalRef = 13"
| "opcode_byte OpPop = 14"
| "opcode_byte OpPopN = 15"
| "opcode_byte OpPopLocalKeep = 16"
| "opcode_byte OpDup = 17"
| "opcode_byte OpNewVec = 18"
| "opcode_byte OpNewMap = 19"
| "opcode_byte OpNewSet = 20"
| "opcode_byte OpAdd = 21"
| "opcode_byte OpSub = 22"
| "opcode_byte OpMul = 23"
| "opcode_byte OpDiv = 24"
| "opcode_byte OpMod = 25"
| "opcode_byte OpNeg = 26"
| "opcode_byte OpNot = 27"
| "opcode_byte OpEq = 28"
| "opcode_byte OpNeq = 29"
| "opcode_byte OpLt = 30"
| "opcode_byte OpGt = 31"
| "opcode_byte OpLte = 32"
| "opcode_byte OpGte = 33"
| "opcode_byte OpJump = 34"
| "opcode_byte OpJumpIfFalse = 35"
| "opcode_byte OpJumpIfTrue = 36"
| "opcode_byte OpLoop = 37"
| "opcode_byte OpClosure = 38"
| "opcode_byte OpCall = 39"
| "opcode_byte OpMethodCall = 40"
| "opcode_byte OpConstructVariant = 41"
| "opcode_byte OpConstructStruct = 42"
| "opcode_byte OpReturn = 43"
| "opcode_byte OpAssignLocal = 44"
| "opcode_byte OpAssignUpvalue = 45"
| "opcode_byte OpAssignGlobal = 46"
| "opcode_byte OpIndex = 47"
| "opcode_byte OpIndexAssign = 48"
| "opcode_byte OpField = 49"
| "opcode_byte OpFieldAssign = 50"
| "opcode_byte OpMatch = 51"
| "opcode_byte OpBreak = 52"
| "opcode_byte OpContinue = 53"
| "opcode_byte OpReturnSignal = 54"
| "opcode_byte OpRetry = 55"
| "opcode_byte OpRaise = 56"
| "opcode_byte OpPushTry = 57"
| "opcode_byte OpPopTry = 58"
| "opcode_byte OpRescueMatch = 59"
| "opcode_byte OpEnsureExit = 60"
| "opcode_byte OpClearPending = 61"
| "opcode_byte OpSharedExpr = 62"
| "opcode_byte OpPushTransact = 63"
| "opcode_byte OpTransactCommit = 64"
| "opcode_byte OpYield = 65"
| "opcode_byte OpReply = 66"
| "opcode_byte OpAwait = 67"
| "opcode_byte OpSpawn = 68"
| "opcode_byte OpActorSend = 69"
| "opcode_byte OpActorRequest = 70"
| "opcode_byte OpDefineActor = 71"
| "opcode_byte OpRegisterHandler = 72"
| "opcode_byte OpImport = 73"
| "opcode_byte OpSwap = 74"
| "opcode_byte OpRot3 = 75"
| "opcode_byte OpPushLoop = 76"
| "opcode_byte OpPopLoop = 77"
| "opcode_byte OpEnd = 78"

primrec operand_bytes :: "opcode \<Rightarrow> nat" where
  "operand_bytes OpNil = 0"
| "operand_bytes OpTrue = 0"
| "operand_bytes OpFalse = 0"
| "operand_bytes OpConst = 1"
| "operand_bytes OpLoadLocal = 1"
| "operand_bytes OpStoreLocal = 1"
| "operand_bytes OpLoadUpvalue = 1"
| "operand_bytes OpStoreUpvalue = 1"
| "operand_bytes OpLoadGlobal = 1"
| "operand_bytes OpStoreGlobal = 1"
| "operand_bytes OpDefineGlobal = 1"
| "operand_bytes OpLoadLocalRef = 1"
| "operand_bytes OpLoadUpvalueRef = 1"
| "operand_bytes OpLoadGlobalRef = 1"
| "operand_bytes OpPop = 0"
| "operand_bytes OpPopN = 1"
| "operand_bytes OpPopLocalKeep = 1"
| "operand_bytes OpDup = 0"
| "operand_bytes OpNewVec = 1"
| "operand_bytes OpNewMap = 1"
| "operand_bytes OpNewSet = 1"
| "operand_bytes OpAdd = 0"
| "operand_bytes OpSub = 0"
| "operand_bytes OpMul = 0"
| "operand_bytes OpDiv = 0"
| "operand_bytes OpMod = 0"
| "operand_bytes OpNeg = 0"
| "operand_bytes OpNot = 0"
| "operand_bytes OpEq = 0"
| "operand_bytes OpNeq = 0"
| "operand_bytes OpLt = 0"
| "operand_bytes OpGt = 0"
| "operand_bytes OpLte = 0"
| "operand_bytes OpGte = 0"
| "operand_bytes OpJump = 2"
| "operand_bytes OpJumpIfFalse = 2"
| "operand_bytes OpJumpIfTrue = 2"
| "operand_bytes OpLoop = 2"
| "operand_bytes OpClosure = 1"
| "operand_bytes OpCall = 1"
| "operand_bytes OpMethodCall = 2"
| "operand_bytes OpConstructVariant = 2"
| "operand_bytes OpConstructStruct = 2"
| "operand_bytes OpReturn = 0"
| "operand_bytes OpAssignLocal = 1"
| "operand_bytes OpAssignUpvalue = 1"
| "operand_bytes OpAssignGlobal = 1"
| "operand_bytes OpIndex = 0"
| "operand_bytes OpIndexAssign = 0"
| "operand_bytes OpField = 1"
| "operand_bytes OpFieldAssign = 1"
| "operand_bytes OpMatch = 1"
| "operand_bytes OpBreak = 2"
| "operand_bytes OpContinue = 2"
| "operand_bytes OpReturnSignal = 2"
| "operand_bytes OpRetry = 0"
| "operand_bytes OpRaise = 0"
| "operand_bytes OpPushTry = 4"
| "operand_bytes OpPopTry = 0"
| "operand_bytes OpRescueMatch = 1"
| "operand_bytes OpEnsureExit = 0"
| "operand_bytes OpClearPending = 0"
| "operand_bytes OpSharedExpr = 0"
| "operand_bytes OpPushTransact = 2"
| "operand_bytes OpTransactCommit = 0"
| "operand_bytes OpYield = 0"
| "operand_bytes OpReply = 2"
| "operand_bytes OpAwait = 0"
| "operand_bytes OpSpawn = 2"
| "operand_bytes OpActorSend = 0"
| "operand_bytes OpActorRequest = 0"
| "operand_bytes OpDefineActor = 2"
| "operand_bytes OpRegisterHandler = 1"
| "operand_bytes OpImport = 3"
| "operand_bytes OpSwap = 0"
| "operand_bytes OpRot3 = 0"
| "operand_bytes OpPushLoop = 4"
| "operand_bytes OpPopLoop = 0"
| "operand_bytes OpEnd = 0"

text \<open>\<open>opcode_from_u8\<close> of \<open>src/vm/vm.rs\<close>: below the sentinel the byte is a discriminant.\<close>

definition opcode_from_u8 :: "u8 \<Rightarrow> opcode option" where
  "opcode_from_u8 b = (if b \<ge> opcode_byte OpEnd then None else Some (opcodes ! unat b))"

lemma opcodes_nth: "opcodes ! unat (opcode_byte p) = p"
  by (cases p) (simp_all add: opcodes_def)

lemma opcode_byte_bound: "p \<noteq> OpEnd \<Longrightarrow> opcode_byte p < opcode_byte OpEnd"
  by (cases p) simp_all


lemma opcode_byte_inj: "opcode_byte p = opcode_byte q \<longleftrightarrow> p = q"
  using opcodes_nth by metis

text \<open>Opcodes are compared by their byte, as \<open>derive(PartialEq)\<close> on a field-less \<open>repr(u8)\<close> enum does.\<close>

instantiation opcode :: equal
begin

definition equal_opcode :: "opcode \<Rightarrow> opcode \<Rightarrow> bool" where
  "equal_opcode p q \<longleftrightarrow> opcode_byte p = opcode_byte q"

instance
  by standard (simp add: equal_opcode_def opcode_byte_inj)

end

interpretation op: codec opcode_byte opcode_from_u8 "\<lambda>p. p \<noteq> OpEnd"
proof
  fix p assume "p \<noteq> OpEnd"
  then show "opcode_from_u8 (opcode_byte p) = Some p"
    using opcode_byte_bound [of p] by (simp add: opcode_from_u8_def opcodes_nth not_le)
next
  fix b p assume d: "opcode_from_u8 b = Some p"
  then have b: "unat b < 78" and p: "p = opcodes ! unat b"
    by (auto simp: opcode_from_u8_def word_le_nat_alt not_le split: if_splits)
  have all: "\<forall>i \<in> set [0..<78]. opcodes ! i \<noteq> OpEnd \<and> opcode_byte (opcodes ! i) = of_nat i"
    by (simp add: opcodes_def upt_rec)
  then have "opcodes ! unat b \<noteq> OpEnd \<and> opcode_byte (opcodes ! unat b) = of_nat (unat b)"
    using b by auto
  then show "p \<noteq> OpEnd \<and> opcode_byte p = b" using p by simp
qed

section \<open>Operands\<close>

definition write_u8 :: "u8 list \<Rightarrow> u8 \<Rightarrow> u8 list" where
  "write_u8 buf v = buf @ [v]"

definition write_u16 :: "u8 list \<Rightarrow> u16 \<Rightarrow> u8 list" where
  "write_u16 buf v = buf @ [ucast (and v 0xff), ucast (drop_bit 8 v)]"

text \<open>Reading past the end of the code panics: \<open>None\<close>. The new instruction pointer is returned.\<close>

definition read_u8 :: "u8 list \<Rightarrow> nat \<Rightarrow> (u8 \<times> nat) option" where
  "read_u8 c ip = (if ip < length c then Some (c ! ip, ip + 1) else None)"

definition read_u16 :: "u8 list \<Rightarrow> nat \<Rightarrow> (u16 \<times> nat) option" where
  "read_u16 c ip =
     (if ip + 1 < length c
      then Some (or (ucast (c ! ip)) (push_bit 8 (ucast (c ! (ip + 1)))), ip + 2) else None)"

lemma u16_split:
  "or (ucast (ucast (and v 0xff) :: u8)) (push_bit 8 (ucast (ucast (drop_bit 8 v) :: u8))) = (v :: u16)"
proof -
  have "(0xff :: u16) = mask 8" by (simp add: mask_eq_exp_minus_1)
  moreover have "or (ucast (ucast (and v (mask 8)) :: u8)) (push_bit 8 (ucast (ucast (drop_bit 8 v) :: u8))) = v"
    by (rule bit_word_eqI) (auto simp: bit_simps)
  ultimately show ?thesis by simp
qed

lemma u8_join:
  "ucast (and (or (ucast (a :: u8)) (push_bit 8 (ucast (b :: u8)))) 0xff :: u16) = a"
  "ucast (drop_bit 8 (or (ucast (a :: u8)) (push_bit 8 (ucast (b :: u8))) :: u16)) = b"
proof -
  have "(0xff :: u16) = mask 8" by (simp add: mask_eq_exp_minus_1)
  moreover have "ucast (and (or (ucast a) (push_bit 8 (ucast b))) (mask 8) :: u16) = a"
    by (rule bit_word_eqI) (auto simp: bit_simps)
  ultimately show "ucast (and (or (ucast a) (push_bit 8 (ucast b))) 0xff :: u16) = a" by simp
  show "ucast (drop_bit 8 (or (ucast a) (push_bit 8 (ucast b)) :: u16)) = b"
    by (rule bit_word_eqI) (auto simp: bit_simps dest: bit_imp_le_length)
qed

lemma read_u8_write: "read_u8 (write_u8 buf v @ rest) (length buf) = Some (v, length buf + 1)"
  by (simp add: read_u8_def write_u8_def nth_append)

lemma read_u16_write: "read_u16 (write_u16 buf v @ rest) (length buf) = Some (v, length buf + 2)"
  by (simp add: read_u16_def write_u16_def nth_append u16_split)

text \<open>Two bytes and nothing else.\<close>

definition decode_u16 :: "u8 list \<Rightarrow> u16 option" where
  "decode_u16 bs = (case read_u16 bs 0 of Some (v, ip) \<Rightarrow> if ip = length bs then Some v else None | None \<Rightarrow> None)"

interpretation u16_operand: codec "write_u16 []" decode_u16 "\<lambda>_. True"
proof
  fix v show "decode_u16 (write_u16 [] v) = Some v"
    using read_u16_write [of "[]" v "[]"] by (simp add: decode_u16_def write_u16_def)
next
  fix bs v assume "decode_u16 bs = Some v"
  then have l: "length bs = 2" and v: "v = or (ucast (bs ! 0)) (push_bit 8 (ucast (bs ! 1)))"
    by (auto simp: decode_u16_def read_u16_def split: if_splits option.split_asm)
  then obtain a b where "bs = [a, b]" by (cases bs; cases "tl bs") auto
  then show "True \<and> write_u16 [] v = bs" using v u8_join [of a b] by (simp add: write_u16_def)
qed

section \<open>Chunks\<close>

record exception_entry =
  try_start :: u16
  try_end :: u16
  rescue_pc :: "u16 option"
  ensure_pc :: "u16 option"
  continue_pc :: "u16 option"

datatype (plugins only: size) 'd chunk =
  Chunk (ch_code: "u8 list") (ch_consts: "'d rt_value list") (ch_spans: "span list")
    (ch_patterns: "('d, 'd expr) pattern list") (ch_exception_table: "exception_entry list")
    (ch_sub_chunks: "'d chunk list") (ch_arity: nat) (ch_upvalue_count: nat) (ch_name: "str option")

definition chunk_new :: "str option \<Rightarrow> nat \<Rightarrow> 'd chunk" where
  "chunk_new name arity = Chunk [] [] [] [] [] [] arity 0 name"

end
