(* ===== verification/Vm_State.thy ===== *)
theory Vm_State
  imports Chunk Ops
begin

text \<open>
  The state of the virtual machine (\<open>Vm\<close>, \<open>VmCtx\<close>, \<open>Frame\<close> of \<open>src/vm/vm.rs\<close>, \<open>ClosureVm\<close> and
  \<open>Upvalue\<close> of \<open>src/vm/closure.rs\<close>, \<open>ActorInstance\<close>, \<open>SharedCell\<close> and \<open>ModuleData\<close> of
  \<open>src/value.rs\<close>) and the primitive operations on it.

  The operand stack grows at its end, so that a slot is an index. Every other stack (frames,
  handlers, transactions) is a list with its top first. What the program holds behind \<open>Rc\<close>
  lives in the object lists \<open>cells\<close>, \<open>upvals\<close>, \<open>closures\<close>, \<open>actor_envs\<close>, \<open>actors\<close> and
  \<open>modules\<close>, and an address is an index into them. A Rust panic is the outcome \<open>VPanic\<close>.
\<close>

section \<open>Objects\<close>

text \<open>An upvalue still names a live stack slot, or owns its value.\<close>

datatype 'd upvalue = UOpen nat | UClosed "'d rt_value"

record 'd closure_vm =
  cl_chunk :: "'d chunk"
  cl_upvalues :: "nat list"
  cl_name :: "str option"
  cl_arity :: nat
  cl_actor_env :: "nat option"

definition closure_vm_new :: "'d chunk \<Rightarrow> nat list \<Rightarrow> 'd closure_vm" where
  "closure_vm_new c uvs =
     \<lparr>cl_chunk = c, cl_upvalues = uvs, cl_name = ch_name c, cl_arity = ch_arity c, cl_actor_env = None\<rparr>"

record 'd shared_cell =
  sc_value :: "'d rt_value"
  sc_version :: u64

text \<open>\<open>reply_slot\<close> is always \<open>None\<close> on the messages the virtual machine enqueues.\<close>

record 'd envelope =
  en_msg :: "'d rt_value"
  en_reply_slot :: "'d rt_value option option"

text \<open>The fields of \<open>ActorInstance\<close> that the virtual machine uses.\<close>

record 'd actor_instance =
  ac_mailbox :: "'d envelope list"
  ac_vm_env :: "nat option"
  ac_vm_handlers :: "(str \<times> nat) list"

record 'd module_data =
  md_name :: str
  md_source :: "str option"
  md_exports :: "(str \<times> 'd rt_value) list"

section \<open>Machine state\<close>

record 'd frame =
  fr_closure :: "'d closure_vm"
  fr_ip :: nat
  fr_base :: nat
  fr_actor_env :: "nat option"

record loop_handler =
  lh_continue :: nat
  lh_break :: nat
  lh_stack :: nat
  lh_frame :: nat

record exception_handler =
  eh_rescue :: "nat option"
  eh_ensure :: "nat option"
  eh_stack :: nat
  eh_frame :: nat

record transact_handler =
  th_retry_addr :: nat
  th_stack :: nat
  th_frame :: nat
  th_retries :: nat

text \<open>Buffered writes and the versions at first read, keyed by the address of the cell.\<close>

record 'd transaction =
  tx_writes :: "(nat \<times> 'd rt_value) list"
  tx_reads :: "(nat \<times> u64) list"

definition transaction_new :: "'d transaction" where
  "transaction_new = \<lparr>tx_writes = [], tx_reads = []\<rparr>"

definition max_txn_retries :: nat where
  "max_txn_retries = 64"

record 'd vm_state =
  frames :: "'d frame list"
  stack :: "'d rt_value list"
  open_upvalues :: "nat list"
  loop_handlers :: "loop_handler list"
  exception_handlers :: "exception_handler list"
  pending_exception :: "'d rt_value option"
  txn_stack :: "'d transaction list"
  transact_handlers :: "transact_handler list"
  globals :: "(str \<times> 'd rt_value) list"
  actor_defs :: "(str \<times> 'd chunk) list"
  spawning :: "nat option"
  live_actors :: "nat list"
  cells :: "'d shared_cell list"
  upvals :: "'d upvalue list"
  closures :: "'d closure_vm list"
  actor_envs :: "(str \<times> 'd rt_value) list list"
  actors :: "'d actor_instance list"
  modules :: "'d module_data list"
  std_modules :: "(str \<times> nat) list"
  module_cache :: "(str \<times> nat) list"
  load_stack :: "str list"
  variant_table :: "(str \<times> nat) list"
  struct_table :: "str list"

definition ctx_new :: "'d vm_state \<Rightarrow> 'd vm_state" where
  "ctx_new s = s\<lparr>frames := [], stack := [], open_upvalues := [], loop_handlers := [], exception_handlers := [],
     pending_exception := None, txn_stack := [], transact_handlers := []\<rparr>"

section \<open>Computations\<close>

text \<open>The outcome of a computation; \<open>VFuel\<close> is a dispatch loop cut off by its bound.\<close>

datatype ('d, 'a) vres = VOk 'a | VErr "'d interp_error" | VPanic | VFuel

type_synonym ('d, 'a) vm = "'d vm_state \<Rightarrow> ('d, 'a) vres \<times> 'd vm_state"

definition retV :: "'a \<Rightarrow> ('d, 'a) vm" where
  "retV a = (\<lambda>s. (VOk a, s))"

definition failV :: "'d interp_error \<Rightarrow> ('d, 'a) vm" where
  "failV e = (\<lambda>s. (VErr e, s))"

definition panicV :: "('d, 'a) vm" where
  "panicV = (\<lambda>s. (VPanic, s))"

definition bindV :: "('d, 'a) vm \<Rightarrow> ('a \<Rightarrow> ('d, 'b) vm) \<Rightarrow> ('d, 'b) vm" where
  "bindV m f = (\<lambda>s. case m s of
       (VOk a, s') \<Rightarrow> f a s' | (VErr e, s') \<Rightarrow> (VErr e, s') | (VPanic, s') \<Rightarrow> (VPanic, s')
     | (VFuel, s') \<Rightarrow> (VFuel, s'))"

definition thenV :: "('d, unit) vm \<Rightarrow> ('d, 'b) vm \<Rightarrow> ('d, 'b) vm" where
  "thenV m n = bindV m (\<lambda>_. n)"

definition getV :: "('d vm_state \<Rightarrow> 'a) \<Rightarrow> ('d, 'a) vm" where
  "getV f = (\<lambda>s. (VOk (f s), s))"

definition modV :: "('d vm_state \<Rightarrow> 'd vm_state) \<Rightarrow> ('d, unit) vm" where
  "modV f = (\<lambda>s. (VOk (), f s))"

definition liftV :: "('d, 'a) outcome \<Rightarrow> ('d, 'a) vm" where
  "liftV r = (case r of Inl e \<Rightarrow> failV e | Inr a \<Rightarrow> retV a)"

definition someV :: "'a option \<Rightarrow> ('d, 'a) vm" where
  "someV v = (case v of Some a \<Rightarrow> retV a | None \<Rightarrow> panicV)"

lemmas vm_monad = retV_def failV_def panicV_def bindV_def thenV_def getV_def modV_def

lemma bindV_simps [vm_simps]:
  "bindV (retV a) f = f a"
  "bindV (failV e) f = failV e"
  "bindV panicV f = panicV"
  "liftV (Ok a) = retV a" "liftV (Err e) = failV e"
  "someV (Some a) = retV a" "someV None = panicV"
  by (simp_all add: vm_monad liftV_def someV_def)

lemma runV_simps [vm_simps]:
  "retV a s = (VOk a, s)" "failV e s = (VErr e, s)" "panicV s = (VPanic, s)"
  "getV g s = (VOk (g s), s)" "modV h s = (VOk (), h s)"
  by (simp_all add: vm_monad)

lemma bindV_run [vm_simps]:
  "m s = (VOk a, s') \<Longrightarrow> bindV m f s = f a s'"
  "m s = (VErr e, s') \<Longrightarrow> bindV m f s = (VErr e, s')"
  "m s = (VPanic, s') \<Longrightarrow> bindV m f s = (VPanic, s')"
  "m s = (VFuel, s') \<Longrightarrow> bindV m f s = (VFuel, s')"
  by (simp_all add: bindV_def)

lemma thenV_run [vm_simps]:
  "m s = (VOk u, s') \<Longrightarrow> thenV m n s = n s'"
  "m s = (VErr e, s') \<Longrightarrow> thenV m n s = (VErr e, s')"
  "m s = (VPanic, s') \<Longrightarrow> thenV m n s = (VPanic, s')"
  "m s = (VFuel, s') \<Longrightarrow> thenV m n s = (VFuel, s')"
  by (simp_all add: thenV_def bindV_def)

section \<open>Operand stack and code\<close>

definition push_val :: "'d rt_value \<Rightarrow> ('d, unit) vm" where
  "push_val v = modV (\<lambda>s. s\<lparr>stack := stack s @ [v]\<rparr>)"

definition pop_val :: "('d, 'd rt_value) vm" where
  "pop_val = (\<lambda>s. if stack s = [] then (VPanic, s) else (VOk (last (stack s)), s\<lparr>stack := butlast (stack s)\<rparr>))"

definition peek_val :: "nat \<Rightarrow> ('d, 'd rt_value) vm" where
  "peek_val down = (\<lambda>s. if down < length (stack s) then (VOk (stack s ! (length (stack s) - 1 - down)), s) else (VPanic, s))"

text \<open>\<open>Vec::truncate\<close>, and \<open>split_off\<close> of the top \<open>n\<close>, whose index computation panics below 0.\<close>

definition truncate_stack :: "nat \<Rightarrow> 'd vm_state \<Rightarrow> 'd vm_state" where
  "truncate_stack n s = s\<lparr>stack := take n (stack s)\<rparr>"

definition split_off :: "nat \<Rightarrow> ('d, 'd rt_value list) vm" where
  "split_off n = (\<lambda>s. if n \<le> length (stack s)
     then (VOk (drop (length (stack s) - n) (stack s)), truncate_stack (length (stack s) - n) s)
     else (VPanic, s))"

definition drop_vals :: "nat \<Rightarrow> ('d, unit) vm" where
  "drop_vals n = (\<lambda>s. if n \<le> length (stack s) then (VOk (), truncate_stack (length (stack s) - n) s) else (VPanic, s))"

definition frame_depth :: "'d vm_state \<Rightarrow> nat" where
  "frame_depth s = length (frames s)"

definition current_frame :: "('d, 'd frame) vm" where
  "current_frame = (\<lambda>s. case frames s of f # _ \<Rightarrow> (VOk f, s) | [] \<Rightarrow> (VPanic, s))"

definition set_top :: "'d frame \<Rightarrow> 'd vm_state \<Rightarrow> 'd vm_state" where
  "set_top f s = s\<lparr>frames := f # tl (frames s)\<rparr>"

definition set_ip :: "nat \<Rightarrow> ('d, unit) vm" where
  "set_ip a = bindV current_frame (\<lambda>f. modV (set_top (f\<lparr>fr_ip := a\<rparr>)))"

definition frame_code :: "'d frame \<Rightarrow> u8 list" where
  "frame_code f = ch_code (cl_chunk (fr_closure f))"

text \<open>Without a frame the code panics as well; \<open>span_dummy\<close> only completes the definition there.\<close>

definition frame_span :: "'d frame \<Rightarrow> span" where
  "frame_span f =
     (let spans = ch_spans (cl_chunk (fr_closure f)) in
      if fr_ip f = 0 then span_dummy
      else if fr_ip f - 1 < length spans then spans ! (fr_ip f - 1) else span_dummy)"

definition current_span :: "('d, span) vm" where
  "current_span = bindV current_frame (\<lambda>f. retV (frame_span f))"

definition fetch_u8 :: "('d, u8) vm" where
  "fetch_u8 = bindV current_frame (\<lambda>f.
     case read_u8 (frame_code f) (fr_ip f) of
       Some (b, ip) \<Rightarrow> bindV (modV (set_top (f\<lparr>fr_ip := ip\<rparr>))) (\<lambda>_. retV b)
     | None \<Rightarrow> panicV)"

definition fetch_u16 :: "('d, u16) vm" where
  "fetch_u16 = bindV current_frame (\<lambda>f.
     case read_u16 (frame_code f) (fr_ip f) of
       Some (b, ip) \<Rightarrow> bindV (modV (set_top (f\<lparr>fr_ip := ip\<rparr>))) (\<lambda>_. retV b)
     | None \<Rightarrow> panicV)"

definition read_index :: "('d, nat) vm" where
  "read_index = bindV fetch_u8 (\<lambda>b. retV (unat b))"

definition read_addr :: "('d, nat) vm" where
  "read_addr = bindV fetch_u16 (\<lambda>w. retV (unat w))"

definition raise_here :: "(span option \<Rightarrow> 'd interp_error) \<Rightarrow> ('d, 'a) vm" where
  "raise_here e = bindV current_span (\<lambda>sp. failV (e (Some sp)))"

definition fetch_op :: "('d, opcode) vm" where
  "fetch_op = bindV fetch_u8 (\<lambda>b.
     case opcode_from_u8 b of
       Some p \<Rightarrow> retV p
     | None \<Rightarrow> raise_here (RuntimeError (lit ''invalid opcode '' @ show_nat (unat b))))"

definition const_at :: "nat \<Rightarrow> ('d, 'd rt_value) vm" where
  "const_at i = bindV current_frame (\<lambda>f.
     let cs = ch_consts (cl_chunk (fr_closure f)) in if i < length cs then retV (cs ! i) else panicV)"

definition const_name :: "nat \<Rightarrow> ('d, str) vm" where
  "const_name i = bindV (const_at i) (\<lambda>v. case v of VStr n \<Rightarrow> retV n | _ \<Rightarrow> panicV)"

definition pattern_at :: "nat \<Rightarrow> ('d, ('d, 'd expr) pattern) vm" where
  "pattern_at i = bindV current_frame (\<lambda>f.
     let ps = ch_patterns (cl_chunk (fr_closure f)) in if i < length ps then retV (ps ! i) else panicV)"

section \<open>Locals and upvalues\<close>

definition local_val :: "nat \<Rightarrow> ('d, 'd rt_value) vm" where
  "local_val slot = bindV current_frame (\<lambda>f. bindV (getV stack) (\<lambda>st.
     if fr_base f + slot < length st then retV (st ! (fr_base f + slot)) else panicV))"

definition set_local :: "nat \<Rightarrow> 'd rt_value \<Rightarrow> ('d, unit) vm" where
  "set_local slot v = bindV current_frame (\<lambda>f. modV (\<lambda>s.
     let i = fr_base f + slot; st = stack s in
     s\<lparr>stack := (if i < length st then st[i := v] else st @ replicate (i - length st) VNil @ [v])\<rparr>))"

text \<open>Reading and writing through an upvalue; an open one whose slot is gone panics.\<close>

definition upvalue_read :: "nat \<Rightarrow> ('d, 'd rt_value) vm" where
  "upvalue_read u = bindV (getV (\<lambda>s. s)) (\<lambda>s.
     case upvals s ! u of
       UOpen i \<Rightarrow> if i < length (stack s) then retV (stack s ! i) else panicV
     | UClosed v \<Rightarrow> retV v)"

definition upvalue_write :: "nat \<Rightarrow> 'd rt_value \<Rightarrow> ('d, unit) vm" where
  "upvalue_write u v = bindV (getV (\<lambda>s. s)) (\<lambda>s.
     case upvals s ! u of
       UOpen i \<Rightarrow> if i < length (stack s) then modV (\<lambda>s. s\<lparr>stack := (stack s)[i := v]\<rparr>) else panicV
     | UClosed _ \<Rightarrow> modV (\<lambda>s. s\<lparr>upvals := (upvals s)[u := UClosed v]\<rparr>))"

definition stack_index :: "'d upvalue \<Rightarrow> nat option" where
  "stack_index u = (case u of UOpen i \<Rightarrow> Some i | UClosed _ \<Rightarrow> None)"

definition frame_upvalue :: "nat \<Rightarrow> ('d, nat) vm" where
  "frame_upvalue i = bindV current_frame (\<lambda>f.
     let us = cl_upvalues (fr_closure f) in if i < length us then retV (us ! i) else panicV)"

end
