(* ===== verification/Vm_Txn.thy ===== *)
theory Vm_Txn
  imports Vm_State
begin

text \<open>
  Software transactional memory (\<open>transact\<close>, \<open>retry\<close> and the shared cells of \<open>src/vm/vm.rs\<close>):
  reads look through the write sets of the open transactions, innermost first, and record the
  version of the cell; writes are buffered; a nested commit merges into its parent; the
  outermost one validates the recorded versions and publishes.
\<close>

section \<open>Reads and writes\<close>

fun find_write :: "nat \<Rightarrow> 'd transaction list \<Rightarrow> 'd rt_value option" where
  "find_write a [] = None"
| "find_write a (t # ts) = (case map_of (tx_writes t) a of Some v \<Rightarrow> Some v | None \<Rightarrow> find_write a ts)"

text \<open>\<open>entry(id).or_insert(x)\<close>: an existing entry is kept.\<close>

definition or_insert :: "nat \<Rightarrow> 'v \<Rightarrow> (nat \<times> 'v) list \<Rightarrow> (nat \<times> 'v) list" where
  "or_insert k v m = (if map_of m k = None then m @ [(k, v)] else m)"

definition record_read :: "nat \<Rightarrow> u64 \<Rightarrow> 'd transaction list \<Rightarrow> 'd transaction list" where
  "record_read a ver ts = (case ts of [] \<Rightarrow> [] | t # ts' \<Rightarrow> t\<lparr>tx_reads := or_insert a ver (tx_reads t)\<rparr> # ts')"

text \<open>Both operations as functions of the open transactions and the cells.\<close>

definition stm_read :: "nat \<Rightarrow> 'd transaction list \<Rightarrow> 'd shared_cell list \<Rightarrow> 'd rt_value \<times> 'd transaction list" where
  "stm_read a ts cs =
     (if ts = [] then (sc_value (cs ! a), ts)
      else case find_write a ts of
          Some v \<Rightarrow> (v, ts)
        | None \<Rightarrow> (sc_value (cs ! a), record_read a (sc_version (cs ! a)) ts))"

definition write_cell :: "nat \<Rightarrow> 'd rt_value \<Rightarrow> 'd shared_cell list \<Rightarrow> 'd shared_cell list" where
  "write_cell a v cs = cs[a := \<lparr>sc_value = v, sc_version = sc_version (cs ! a) + 1\<rparr>]"

definition stm_write ::
  "nat \<Rightarrow> 'd rt_value \<Rightarrow> 'd transaction list \<Rightarrow> 'd shared_cell list \<Rightarrow> 'd transaction list \<times> 'd shared_cell list" where
  "stm_write a v ts cs =
     (case ts of
        t # ts' \<Rightarrow> (t\<lparr>tx_writes := entry_insert (=) a v (tx_writes t)\<rparr> # ts', cs)
      | [] \<Rightarrow> ([], write_cell a v cs))"

definition read_shared :: "'d rt_value \<Rightarrow> ('d, 'd rt_value) vm" where
  "read_shared v =
     (case v of
        VShared a \<Rightarrow> (\<lambda>s. case stm_read a (txn_stack s) (cells s) of (w, ts) \<Rightarrow> (VOk w, s\<lparr>txn_stack := ts\<rparr>))
      | _ \<Rightarrow> retV v)"

definition write_shared :: "nat \<Rightarrow> 'd rt_value \<Rightarrow> ('d, unit) vm" where
  "write_shared a v = modV (\<lambda>s. case stm_write a v (txn_stack s) (cells s) of
     (ts, cs) \<Rightarrow> s\<lparr>txn_stack := ts, cells := cs\<rparr>)"

definition shared_expr :: "'d rt_value \<Rightarrow> ('d, nat) vm" where
  "shared_expr v = (\<lambda>s. (VOk (length (cells s)), s\<lparr>cells := cells s @ [\<lparr>sc_value = v, sc_version = 0\<rparr>]\<rparr>))"

section \<open>Begin, commit and rollback\<close>

definition push_transact :: "nat \<Rightarrow> ('d, unit) vm" where
  "push_transact self_addr = modV (\<lambda>s.
     let is_retry = (case transact_handlers s of h # _ \<Rightarrow> th_retry_addr h = self_addr | [] \<Rightarrow> False);
         h = \<lparr>th_retry_addr = self_addr, th_stack = length (stack s), th_frame = length (frames s), th_retries = 0\<rparr>
     in s\<lparr>transact_handlers := (if is_retry then transact_handlers s else h # transact_handlers s),
          txn_stack := transaction_new # txn_stack s\<rparr>)"

definition conflicts :: "'d transaction \<Rightarrow> 'd shared_cell list \<Rightarrow> bool" where
  "conflicts t cs \<longleftrightarrow> list_ex (\<lambda>(a, ver). sc_version (cs ! a) \<noteq> ver) (tx_reads t)"

definition apply_writes :: "(nat \<times> 'd rt_value) list \<Rightarrow> 'd shared_cell list \<Rightarrow> 'd shared_cell list" where
  "apply_writes ws cs = foldl (\<lambda>cs (a, v). write_cell a v cs) cs ws"

definition merge_into :: "'d transaction \<Rightarrow> 'd transaction \<Rightarrow> 'd transaction" where
  "merge_into t p =
     p\<lparr>tx_writes := foldl (\<lambda>m (a, v). entry_insert (=) a v m) (tx_writes p) (tx_writes t),
       tx_reads := foldl (\<lambda>m (a, ver). or_insert a ver m) (tx_reads p) (tx_reads t)\<rparr>"

definition retry_message :: str where
  "retry_message = lit ''transaction exceeded '' @ show_nat max_txn_retries @ lit '' retries''"

definition transact_commit :: "('d, unit) vm" where
  "transact_commit =
     bindV (getV txn_stack) (\<lambda>ts. case ts of
       [] \<Rightarrow> panicV
     | t # rest \<Rightarrow>
         thenV (modV (\<lambda>s. s\<lparr>txn_stack := rest\<rparr>))
         (bindV (getV transact_handlers) (\<lambda>hs. case hs of
           [] \<Rightarrow> panicV
         | h # hs' \<Rightarrow>
             (case rest of
                [] \<Rightarrow>
                  bindV (getV (\<lambda>s. conflicts t (cells s))) (\<lambda>conflict.
                    if conflict then
                      if th_retries h + 1 > max_txn_retries then
                        thenV (modV (\<lambda>s. s\<lparr>transact_handlers := hs'\<rparr>))
                          (raise_here (RuntimeError retry_message))
                      else
                        thenV (modV (\<lambda>s. s\<lparr>transact_handlers := h\<lparr>th_retries := th_retries h + 1\<rparr> # hs',
                                          txn_stack := [transaction_new]\<rparr>))
                          (thenV (set_ip (th_retry_addr h)) (bindV pop_val (\<lambda>_. retV ())))
                    else modV (\<lambda>s. s\<lparr>cells := apply_writes (tx_writes t) (cells s), transact_handlers := hs'\<rparr>))
              | p # ps \<Rightarrow> modV (\<lambda>s. s\<lparr>txn_stack := merge_into t p # ps, transact_handlers := hs'\<rparr>)))))"

fun cleanup_transacts ::
  "nat \<Rightarrow> transact_handler list \<Rightarrow> 'd transaction list \<Rightarrow> transact_handler list \<times> 'd transaction list" where
  "cleanup_transacts bound [] ts = ([], ts)"
| "cleanup_transacts bound (h # hs) ts =
     (if th_stack h > bound then cleanup_transacts bound hs (tl ts) else (h # hs, ts))"

definition cleanup_transact_above :: "nat \<Rightarrow> 'd vm_state \<Rightarrow> 'd vm_state" where
  "cleanup_transact_above bound s =
     (case cleanup_transacts bound (transact_handlers s) (txn_stack s) of
        (hs, ts) \<Rightarrow> s\<lparr>transact_handlers := hs, txn_stack := ts\<rparr>)"

section \<open>What a transaction sees\<close>

lemma transaction_new_simps [simp]: "tx_writes transaction_new = []" "tx_reads transaction_new = []"
  by (simp_all add: transaction_new_def)

text \<open>The value a read of cell \<open>a\<close> returns.\<close>

definition view :: "'d transaction list \<Rightarrow> 'd shared_cell list \<Rightarrow> nat \<Rightarrow> 'd rt_value" where
  "view ts cs a = (case find_write a ts of Some v \<Rightarrow> v | None \<Rightarrow> sc_value (cs ! a))"

lemma find_write_record_read [simp]: "find_write b (record_read a ver ts) = find_write b ts"
  by (cases ts) (simp_all add: record_read_def)

lemma stm_read_view: "fst (stm_read a ts cs) = view ts cs a"
  by (auto simp: stm_read_def view_def split: option.split)

lemma view_stm_read: "view (snd (stm_read a ts cs)) cs b = view ts cs b"
  by (auto simp: stm_read_def view_def split: option.split)

lemma sc_value_write_cell: "a < length cs \<Longrightarrow> sc_value (write_cell a v cs ! b) = (if b = a then v else sc_value (cs ! b))"
  by (simp add: write_cell_def nth_list_update)

lemma length_write_cell [simp]: "length (write_cell a v cs) = length cs"
  by (simp add: write_cell_def)

lemma view_stm_write:
  "a < length cs \<Longrightarrow> stm_write a v ts cs = (ts', cs') \<Longrightarrow> view ts' cs' = (view ts cs)(a := v)"
  by (cases ts) (auto simp: stm_write_def view_def sc_value_write_cell fun_eq_iff)

lemma map_of_merge_writes:
  "map_of (foldl (\<lambda>m (a, v). entry_insert (=) a v m) m ws) = map_of m ++ map_of (rev ws)"
  by (induction ws arbitrary: m) (auto simp: map_add_def fun_eq_iff split: option.split)

lemma map_of_rev_distinct: "distinct (map fst ws) \<Longrightarrow> map_of (rev ws) = map_of ws"
  by (rule map_of_inject_set [THEN iffD2]) (auto simp: rev_map [symmetric])

text \<open>A nested commit does not change what is seen.\<close>

lemma view_merge:
  assumes "distinct (map fst (tx_writes t))"
  shows "view (merge_into t p # ps) cs = view (t # p # ps) cs"
  using map_of_rev_distinct [OF assms]
  by (auto simp: view_def fun_eq_iff merge_into_def map_of_merge_writes map_add_def split: option.split)

lemma length_apply_writes [simp]: "length (apply_writes ws cs) = length cs"
  unfolding apply_writes_def by (induction ws arbitrary: cs) auto

lemma apply_writes_nth:
  assumes "distinct (map fst ws)" and "\<forall>a \<in> fst ` set ws. a < length cs"
  shows "apply_writes ws cs ! b =
    (case map_of ws b of Some v \<Rightarrow> \<lparr>sc_value = v, sc_version = sc_version (cs ! b) + 1\<rparr> | None \<Rightarrow> cs ! b)"
  using assms
proof (induction ws arbitrary: cs)
  case Nil
  then show ?case by (simp add: apply_writes_def)
next
  case (Cons p ws)
  obtain a v where p: "p = (a, v)" by fastforce
  have "map_of ws a = None" using Cons.prems(1) p by (simp add: map_of_eq_None_iff)
  moreover have "apply_writes (p # ws) cs = apply_writes ws (write_cell a v cs)" by (simp add: apply_writes_def p)
  ultimately show ?case
    using Cons.IH [of "write_cell a v cs"] Cons.prems p
    by (auto simp: write_cell_def nth_list_update split: option.split)
qed

text \<open>The outermost commit publishes exactly what is seen.\<close>

lemma view_publish:
  assumes "distinct (map fst (tx_writes t))" and "\<forall>a \<in> fst ` set (tx_writes t). a < length cs"
  shows "view [] (apply_writes (tx_writes t) cs) = view [t] cs"
  using apply_writes_nth [OF assms] by (auto simp: view_def fun_eq_iff split: option.split)

end
