(* ===== verification/Vm_Upvalue.thy ===== *)
theory Vm_Upvalue
  imports Vm_State
begin

text \<open>
  Capturing variables (\<open>src/vm/closure.rs\<close> and the upvalue management of \<open>src/vm/vm.rs\<close>):
  opening an upvalue on a stack slot, keeping the open ones sorted, closing those of a
  region that is about to go, and building closures.
\<close>

section \<open>Operations\<close>

text \<open>\<open>close_if_at\<close> and \<open>close_if_at_or_above\<close>: the new state of the upvalue; \<open>None\<close> is a panic.\<close>

definition close_if_at :: "'d rt_value list \<Rightarrow> nat \<Rightarrow> 'd upvalue \<Rightarrow> (bool \<times> 'd upvalue) option" where
  "close_if_at st i u =
     (case u of
        UOpen j \<Rightarrow> if j = i then (if j < length st then Some (True, UClosed (st ! j)) else None) else Some (False, u)
      | UClosed _ \<Rightarrow> Some (False, u))"

definition close_if_at_or_above :: "'d rt_value list \<Rightarrow> nat \<Rightarrow> 'd upvalue \<Rightarrow> (bool \<times> 'd upvalue) option" where
  "close_if_at_or_above st bound u =
     (case u of
        UOpen j \<Rightarrow>
          if bound \<le> j then (if j < length st then Some (True, UClosed (st ! j)) else None) else Some (False, u)
      | UClosed _ \<Rightarrow> Some (False, u))"

text \<open>\<open>insert_open_upvalue\<close>: before the first listed upvalue that is open on a smaller index.\<close>

fun insert_open :: "'d upvalue list \<Rightarrow> nat \<Rightarrow> nat \<Rightarrow> nat list \<Rightarrow> nat list" where
  "insert_open us u i [] = [u]"
| "insert_open us u i (q # qs) =
     (case stack_index (us ! q) of
        Some j \<Rightarrow> if j < i then u # q # qs else q # insert_open us u i qs
      | None \<Rightarrow> q # insert_open us u i qs)"

definition insert_open_upvalue :: "nat \<Rightarrow> 'd vm_state \<Rightarrow> 'd vm_state" where
  "insert_open_upvalue u s =
     (let i = (case stack_index (upvals s ! u) of Some i \<Rightarrow> i | None \<Rightarrow> 0) in
      s\<lparr>open_upvalues := insert_open (upvals s) u i (open_upvalues s)\<rparr>)"

text \<open>The scan of \<open>close_upvalues_above\<close>: the upvalues that stay listed, and all upvalues after it.\<close>

fun close_scan :: "'d rt_value list \<Rightarrow> nat \<Rightarrow> nat list \<Rightarrow> 'd upvalue list \<Rightarrow> (nat list \<times> 'd upvalue list) option" where
  "close_scan st bound [] us = Some ([], us)"
| "close_scan st bound (q # qs) us =
     (case close_if_at_or_above st bound (us ! q) of
        None \<Rightarrow> None
      | Some (True, u) \<Rightarrow> close_scan st bound qs (us[q := u])
      | Some (False, u) \<Rightarrow>
          (case close_scan st bound qs us of None \<Rightarrow> None | Some (ks, us') \<Rightarrow> Some (q # ks, us')))"

definition close_upvalues_above :: "nat \<Rightarrow> ('d, unit) vm" where
  "close_upvalues_above bound = (\<lambda>s.
     case close_scan (stack s) bound (open_upvalues s) (upvals s) of
       Some (ks, us) \<Rightarrow> (VOk (), s\<lparr>open_upvalues := ks, upvals := us\<rparr>)
     | None \<Rightarrow> (VPanic, s))"

text \<open>\<open>close_escaping_upvalues\<close>: before a value leaves this stack for another one.\<close>

fun close_captured :: "'d rt_value list \<Rightarrow> nat list \<Rightarrow> 'd upvalue list \<Rightarrow> 'd upvalue list" where
  "close_captured st [] us = us"
| "close_captured st (u # cs) us =
     (case us ! u of
        UOpen i \<Rightarrow> close_captured st cs (if i < length st then us[u := UClosed (st ! i)] else us)
      | UClosed _ \<Rightarrow> close_captured st cs us)"

fun escaping :: "'d rt_value \<Rightarrow> nat list" where
  "escaping (VClosure a) = [a]"
| "escaping (VVariant n args) = concat (map escaping args)"
| "escaping (VStruct n fs) = concat (map (\<lambda>p. escaping (snd p)) fs)"
| "escaping (VVec v) = concat (map escaping v)"
| "escaping (VMap m) = concat (map (\<lambda>p. escaping (snd p)) m)"
| "escaping _ = []"

definition close_escaping_upvalues :: "'d rt_value \<Rightarrow> 'd vm_state \<Rightarrow> 'd vm_state" where
  "close_escaping_upvalues v s =
     s\<lparr>upvals := foldl (\<lambda>us a. close_captured (stack s) (cl_upvalues (closures s ! a)) us) (upvals s) (escaping v)\<rparr>"

text \<open>The upvalue descriptors behind \<open>Closure\<close>: each capture of a local opens a new upvalue.\<close>

definition new_upvalue :: "nat \<Rightarrow> ('d, nat) vm" where
  "new_upvalue i = (\<lambda>s.
     (VOk (length (upvals s)), insert_open_upvalue (length (upvals s)) (s\<lparr>upvals := upvals s @ [UOpen i]\<rparr>)))"

fun capture :: "nat \<Rightarrow> 'd closure_vm \<Rightarrow> ('d, nat list) vm" where
  "capture 0 f = retV []"
| "capture (Suc n) f =
     bindV fetch_u8 (\<lambda>is_local. bindV read_index (\<lambda>i.
       bindV (if is_local = 1 then bindV current_frame (\<lambda>fr. new_upvalue (fr_base fr + i))
              else if i < length (cl_upvalues f) then retV (cl_upvalues f ! i) else panicV)
         (\<lambda>u. bindV (capture n f) (\<lambda>us. retV (u # us)))))"

definition make_closure :: "nat \<Rightarrow> ('d, nat) vm" where
  "make_closure chunk_idx =
     bindV current_frame (\<lambda>fr.
       let f = fr_closure fr; subs = ch_sub_chunks (cl_chunk f) in
       if chunk_idx < length subs then
         bindV (capture (ch_upvalue_count (subs ! chunk_idx)) f) (\<lambda>us s.
           (VOk (length (closures s)),
            s\<lparr>closures := closures s @ [(closure_vm_new (subs ! chunk_idx) us)\<lparr>cl_actor_env := fr_actor_env fr\<rparr>]\<rparr>))
       else panicV)"

section \<open>Closing is invisible\<close>

text \<open>The value behind an upvalue, if it has one.\<close>

definition upvalue_value :: "'d rt_value list \<Rightarrow> 'd upvalue \<Rightarrow> 'd rt_value option" where
  "upvalue_value st u = (case u of UOpen i \<Rightarrow> if i < length st then Some (st ! i) else None | UClosed v \<Rightarrow> Some v)"

lemma upvalue_read_value:
  "upvalue_read u s = (case upvalue_value (stack s) (upvals s ! u) of Some v \<Rightarrow> (VOk v, s) | None \<Rightarrow> (VPanic, s))"
  by (simp add: upvalue_read_def upvalue_value_def vm_simps bindV_run(1) split: upvalue.split)

text \<open>
  The listed upvalues: distinct, existing, open ones inside the stack and in descending order;
  every open upvalue is listed.
\<close>

definition open_sorted :: "'d upvalue list \<Rightarrow> nat list \<Rightarrow> bool" where
  "open_sorted us qs \<longleftrightarrow>
     sorted_wrt (\<lambda>a b. a \<ge> b) (List.map_filter (\<lambda>q. stack_index (us ! q)) qs)"

definition upvalues_ok :: "'d vm_state \<Rightarrow> bool" where
  "upvalues_ok s \<longleftrightarrow> distinct (open_upvalues s)
     \<and> (\<forall>q \<in> set (open_upvalues s). q < length (upvals s)
          \<and> (\<forall>i. upvals s ! q = UOpen i \<longrightarrow> i < length (stack s)))
     \<and> open_sorted (upvals s) (open_upvalues s)
     \<and> (\<forall>u < length (upvals s). \<forall>i. upvals s ! u = UOpen i \<longrightarrow> u \<in> set (open_upvalues s))"

lemma map_filter_simps2 [simp]:
  "List.map_filter f [] = []"
  "List.map_filter f (x # xs) = (case f x of None \<Rightarrow> List.map_filter f xs | Some y \<Rightarrow> y # List.map_filter f xs)"
  by (simp_all add: List.map_filter_def split: option.split)

lemma set_map_filter2: "set (List.map_filter f xs) = {y. \<exists>x \<in> set xs. f x = Some y}"
  by (induction xs) (auto split: option.splits)

lemma set_insert_open [simp]: "set (insert_open us u i qs) = insert u (set qs)"
  by (induction qs) (auto split: option.splits)

lemma distinct_insert_open [simp]: "distinct (insert_open us u i qs) \<longleftrightarrow> u \<notin> set qs \<and> distinct qs"
  by (induction qs) (auto split: option.splits)

lemma open_sorted_insert:
  assumes "open_sorted us qs" and "stack_index (us ! u) = Some i"
  shows "open_sorted us (insert_open us u i qs)"
  using assms
proof (induction qs)
  case Nil
  then show ?case by (simp add: open_sorted_def)
next
  case (Cons q qs)
  show ?case
  proof (cases "stack_index (us ! q)")
    case None
    then show ?thesis using Cons by (simp add: open_sorted_def)
  next
    case (Some j)
    have above: "\<forall>k \<in> set (List.map_filter (\<lambda>q. stack_index (us ! q)) qs). k \<le> j"
      using Cons.prems(1) Some by (simp add: open_sorted_def)
    show ?thesis
    proof (cases "j < i")
      case True
      then show ?thesis using above Cons.prems Some by (auto simp: open_sorted_def)
    next
      case False
      have "\<forall>k \<in> set (List.map_filter (\<lambda>q. stack_index (us ! q)) (insert_open us u i qs)). k \<le> j"
        using above False Cons.prems(2) by (auto simp: set_map_filter2)
      then show ?thesis using False Some Cons by (simp add: open_sorted_def)
    qed
  qed
qed

lemma close_scan_spec:
  assumes "distinct qs" and "\<forall>q \<in> set qs. q < length us \<and> (\<forall>i. us ! q = UOpen i \<longrightarrow> i < length st)"
    and "open_sorted us qs"
  shows "\<exists>ks us'. close_scan st bound qs us = Some (ks, us') \<and> length us' = length us
     \<and> (\<forall>u < length us. upvalue_value st (us' ! u) = upvalue_value st (us ! u))
     \<and> (\<forall>u < length us. us' ! u = us ! u \<or> (\<exists>v. us' ! u = UClosed v))
     \<and> (\<forall>u < length us. u \<notin> set qs \<longrightarrow> us' ! u = us ! u)
     \<and> (\<forall>u \<in> set ks. u \<in> set qs \<and> us' ! u = us ! u \<and> (\<forall>i. us ! u = UOpen i \<longrightarrow> i < bound))
     \<and> (\<forall>q \<in> set qs. \<forall>i. us' ! q = UOpen i \<longrightarrow> q \<in> set ks)
     \<and> distinct ks \<and> open_sorted us' ks"
  using assms
proof (induction qs arbitrary: us)
  case Nil
  then show ?case by (simp add: open_sorted_def)
next
  case (Cons q qs)
  show ?case
  proof (cases "\<exists>j. us ! q = UOpen j \<and> bound \<le> j")
    case True
    then obtain j where j: "us ! q = UOpen j" "bound \<le> j" "j < length st" using Cons.prems(2) by auto
    let ?us = "us[q := UClosed (st ! j)]"
    have same: "?us ! p = us ! p" if "p \<in> set qs" for p
      using that Cons.prems(1) by (metis distinct.simps(2) nth_list_update_neq)
    have "List.map_filter (\<lambda>p. stack_index (?us ! p)) qs = List.map_filter (\<lambda>p. stack_index (us ! p)) qs"
      using same unfolding List.map_filter_def by (intro map_cong filter_cong) auto
    then have sorted: "open_sorted ?us qs"
      using Cons.prems(3) j(1) by (simp add: open_sorted_def stack_index_def)
    have "\<forall>p \<in> set qs. p < length ?us \<and> (\<forall>i. ?us ! p = UOpen i \<longrightarrow> i < length st)"
      using Cons.prems(2) same by auto
    then obtain ks us' where ih: "close_scan st bound qs ?us = Some (ks, us')" "length us' = length us"
      "\<forall>u < length us. upvalue_value st (us' ! u) = upvalue_value st (?us ! u)"
      "\<forall>u < length us. us' ! u = ?us ! u \<or> (\<exists>v. us' ! u = UClosed v)"
      "\<forall>u < length us. u \<notin> set qs \<longrightarrow> us' ! u = ?us ! u"
      "\<forall>u \<in> set ks. u \<in> set qs \<and> us' ! u = ?us ! u \<and> (\<forall>i. ?us ! u = UOpen i \<longrightarrow> i < bound)"
      "\<forall>p \<in> set qs. \<forall>i. us' ! p = UOpen i \<longrightarrow> p \<in> set ks"
      "distinct ks" "open_sorted us' ks"
      using Cons.IH [of ?us] Cons.prems(1) sorted by auto
    have "upvalue_value st (?us ! u) = upvalue_value st (us ! u)" if "u < length us" for u
      using that j by (cases "u = q") (simp_all add: upvalue_value_def)
    moreover have q: "us' ! q = UClosed (st ! j)" using ih(5) Cons.prems(1,2) by auto
    moreover have "us' ! u = us ! u \<or> (\<exists>v. us' ! u = UClosed v)" if "u < length us" for u
      using ih(4) q that by (cases "u = q") auto
    ultimately show ?thesis
      using ih j same by (auto simp: close_if_at_or_above_def)
  next
    case False
    then have keep: "close_if_at_or_above st bound (us ! q) = Some (False, us ! q)"
      by (cases "us ! q") (auto simp: close_if_at_or_above_def)
    have "open_sorted us qs"
      using Cons.prems(3) by (auto simp: open_sorted_def split: option.splits)
    then obtain ks us' where ih: "close_scan st bound qs us = Some (ks, us')" "length us' = length us"
      "\<forall>u < length us. upvalue_value st (us' ! u) = upvalue_value st (us ! u)"
      "\<forall>u < length us. us' ! u = us ! u \<or> (\<exists>v. us' ! u = UClosed v)"
      "\<forall>u < length us. u \<notin> set qs \<longrightarrow> us' ! u = us ! u"
      "\<forall>u \<in> set ks. u \<in> set qs \<and> us' ! u = us ! u \<and> (\<forall>i. us ! u = UOpen i \<longrightarrow> i < bound)"
      "\<forall>p \<in> set qs. \<forall>i. us' ! p = UOpen i \<longrightarrow> p \<in> set ks"
      "distinct ks" "open_sorted us' ks"
      using Cons.IH [of us] Cons.prems by auto
    have q: "us' ! q = us ! q" "q \<notin> set ks" using ih(5,6) Cons.prems(1,2) by auto
    have "\<forall>k \<in> set (List.map_filter (\<lambda>p. stack_index (us' ! p)) ks). \<forall>j. stack_index (us ! q) = Some j \<longrightarrow> k \<le> j"
    proof (intro ballI allI impI)
      fix k j assume k: "k \<in> set (List.map_filter (\<lambda>p. stack_index (us' ! p)) ks)" and j: "stack_index (us ! q) = Some j"
      then obtain x where "x \<in> set qs" "stack_index (us ! x) = Some k"
        using ih(6) by (auto simp: set_map_filter2)
      then show "k \<le> j" using Cons.prems(3) j by (auto simp: open_sorted_def set_map_filter2)
    qed
    then have "open_sorted us' (q # ks)" using ih(9) q by (auto simp: open_sorted_def split: option.splits)
    then show ?thesis using ih q keep False by auto
  qed
qed


lemma close_upvalues_above_ok:
  assumes "upvalues_ok s"
  shows "\<exists>ks us. close_upvalues_above bound s = (VOk (), s\<lparr>open_upvalues := ks, upvals := us\<rparr>)
     \<and> length us = length (upvals s)
     \<and> upvalues_ok (s\<lparr>open_upvalues := ks, upvals := us\<rparr>)
     \<and> (\<forall>u < length us. upvalue_value (stack s) (us ! u) = upvalue_value (stack s) (upvals s ! u))
     \<and> (\<forall>u < length us. us ! u = upvals s ! u \<or> (\<exists>v. us ! u = UClosed v))
     \<and> (\<forall>u < length us. \<forall>i. us ! u = UOpen i \<longrightarrow> i < bound)"
proof -
  have pre: "distinct (open_upvalues s)"
    "\<forall>q \<in> set (open_upvalues s). q < length (upvals s) \<and> (\<forall>i. upvals s ! q = UOpen i \<longrightarrow> i < length (stack s))"
    "open_sorted (upvals s) (open_upvalues s)"
    and listed: "\<forall>u < length (upvals s). \<forall>i. upvals s ! u = UOpen i \<longrightarrow> u \<in> set (open_upvalues s)"
    using assms by (auto simp: upvalues_ok_def)
  obtain ks us where sc: "close_scan (stack s) bound (open_upvalues s) (upvals s) = Some (ks, us)"
    and l: "length us = length (upvals s)"
    and vals: "\<forall>u < length (upvals s). upvalue_value (stack s) (us ! u) = upvalue_value (stack s) (upvals s ! u)"
    and how: "\<forall>u < length (upvals s). us ! u = upvals s ! u \<or> (\<exists>v. us ! u = UClosed v)"
    and out: "\<forall>u < length (upvals s). u \<notin> set (open_upvalues s) \<longrightarrow> us ! u = upvals s ! u"
    and kept: "\<forall>u \<in> set ks. u \<in> set (open_upvalues s) \<and> us ! u = upvals s ! u
                 \<and> (\<forall>i. upvals s ! u = UOpen i \<longrightarrow> i < bound)"
    and still: "\<forall>q \<in> set (open_upvalues s). \<forall>i. us ! q = UOpen i \<longrightarrow> q \<in> set ks"
    and d: "distinct ks" "open_sorted us ks"
    using close_scan_spec [OF pre, of bound] by blast
  have in_ks: "u \<in> set ks" if "u < length us" "us ! u = UOpen i" for u i
    using that still out listed l by metis
  then have "upvalues_ok (s\<lparr>open_upvalues := ks, upvals := us\<rparr>)"
    using kept pre(2) d l by (auto simp: upvalues_ok_def)
  moreover have "i < bound" if "u < length us" "us ! u = UOpen i" for u i
    using in_ks [OF that] kept that by metis
  ultimately show ?thesis
    using sc l vals how by (intro exI [of _ ks] exI [of _ us]) (simp add: close_upvalues_above_def)
qed

lemma new_upvalue_ok:
  assumes "upvalues_ok s" and "i < length (stack s)"
  shows "\<exists>qs. new_upvalue i s = (VOk (length (upvals s)), s\<lparr>open_upvalues := qs, upvals := upvals s @ [UOpen i]\<rparr>)
     \<and> upvalues_ok (s\<lparr>open_upvalues := qs, upvals := upvals s @ [UOpen i]\<rparr>)"
proof -
  let ?n = "length (upvals s)" and ?us = "upvals s @ [UOpen i]"
  let ?qs = "insert_open ?us ?n i (open_upvalues s)"
  have old: "q < ?n" if "q \<in> set (open_upvalues s)" for q using assms(1) that by (auto simp: upvalues_ok_def)
  then have same: "?us ! q = upvals s ! q" if "q \<in> set (open_upvalues s)" for q using that by (simp add: nth_append)
  have "List.map_filter (\<lambda>q. stack_index (?us ! q)) (open_upvalues s)
      = List.map_filter (\<lambda>q. stack_index (upvals s ! q)) (open_upvalues s)"
    using same unfolding List.map_filter_def by (intro map_cong filter_cong) auto
  then have "open_sorted ?us (open_upvalues s)"
    using assms(1) by (simp add: upvalues_ok_def open_sorted_def)
  then have "open_sorted ?us ?qs" by (rule open_sorted_insert) (simp add: stack_index_def)
  then have "upvalues_ok (s\<lparr>open_upvalues := ?qs, upvals := ?us\<rparr>)"
    using assms old same by (auto simp: upvalues_ok_def nth_append less_Suc_eq)
  then show ?thesis
    by (intro exI [of _ ?qs]) (simp add: new_upvalue_def insert_open_upvalue_def stack_index_def)
qed

text \<open>
  C19. Closing a stack region is invisible: when \<open>close_upvalues_above\<close> runs before the stack is
  cut back to the same height, it never panics, every upvalue reads after the cut exactly
  what it read before, and the list of open upvalues stays sorted, complete and inside the
  stack.
\<close>

theorem close_then_truncate:
  assumes "upvalues_ok s"
  shows "\<exists>s'. thenV (close_upvalues_above bound) (modV (truncate_stack bound)) s = (VOk (), s') \<and> upvalues_ok s'
     \<and> length (upvals s') = length (upvals s)
     \<and> list_all (\<lambda>u. fst (upvalue_read u s') = fst (upvalue_read u s)) [0..<length (upvals s)]"
proof -
  obtain ks us where c: "close_upvalues_above bound s = (VOk (), s\<lparr>open_upvalues := ks, upvals := us\<rparr>)"
    and l: "length us = length (upvals s)" and ok: "upvalues_ok (s\<lparr>open_upvalues := ks, upvals := us\<rparr>)"
    and vals: "\<forall>u < length us. upvalue_value (stack s) (us ! u) = upvalue_value (stack s) (upvals s ! u)"
    and low: "\<forall>u < length us. \<forall>i. us ! u = UOpen i \<longrightarrow> i < bound"
    using close_upvalues_above_ok [OF assms] by blast
  let ?s = "truncate_stack bound (s\<lparr>open_upvalues := ks, upvals := us\<rparr>)"
  have "upvalue_value (stack ?s) (us ! u) = upvalue_value (stack s) (us ! u)" if "u < length us" for u
    using low that by (cases "us ! u") (auto simp: upvalue_value_def truncate_stack_def)
  then have "fst (upvalue_read u ?s) = fst (upvalue_read u s)" if "u < length us" for u
    using vals that by (simp add: upvalue_read_value truncate_stack_def split: option.splits)
  moreover have "upvalues_ok ?s"
    using ok low by (auto simp: upvalues_ok_def truncate_stack_def)
  ultimately show ?thesis
    using c l by (auto simp: vm_simps list_all_iff truncate_stack_def)
qed

definition sample_state :: "'d vm_state" where
  "sample_state =
     \<lparr>frames = [], stack = [], open_upvalues = [], loop_handlers = [], exception_handlers = [],
      pending_exception = None, txn_stack = [], transact_handlers = [], globals = [], actor_defs = [],
      spawning = None, live_actors = [], cells = [], upvals = [], closures = [], actor_envs = [],
      actors = [], modules = [],
      std_modules = [], module_cache = [], load_stack = [], variant_table = [], struct_table = []\<rparr>"

text \<open>The witness: slots 0 and 1 are captured, the stack is cut back to height 1.\<close>

theorem close_then_truncate_witness:
  "\<exists>s'. thenV (close_upvalues_above 1) (modV (truncate_stack 1))
         (sample_state\<lparr>stack := [VInt 5, VInt 6], upvals := [UOpen 0, UOpen 1], open_upvalues := [1, 0]\<rparr>) = (VOk (), s')
     \<and> fst (upvalue_read 0 s') = VOk (VInt 5) \<and> fst (upvalue_read 1 s') = VOk (VInt 6)"
proof -
  let ?s = "sample_state\<lparr>stack := [VInt 5, VInt 6], upvals := [UOpen 0, UOpen 1], open_upvalues := [1, 0]\<rparr>"
  have "upvalues_ok ?s"
    by (auto simp: upvalues_ok_def open_sorted_def stack_index_def less_Suc_eq)
  from close_then_truncate [OF this, of 1] show ?thesis
    by (auto simp: upvalue_read_value upvalue_value_def numeral_2_eq_2)
qed

text \<open>
  Two closures that capture the same local share it only while the frame lives: each
  capture opens an upvalue of its own, so a write through one is seen through the other as
  long as both are open, and no longer once the slot has been closed.
\<close>

theorem captures_split_when_closed:
  assumes "upvalues_ok s" and "i < length (stack s)" and "bound \<le> i"
  shows "fst (bindV (new_upvalue i) (\<lambda>a. bindV (new_upvalue i) (\<lambda>b.
           thenV (upvalue_write a v) (upvalue_read b))) s) = VOk v
       \<and> fst (bindV (new_upvalue i) (\<lambda>a. bindV (new_upvalue i) (\<lambda>b.
           thenV (close_upvalues_above bound) (thenV (upvalue_write a v) (upvalue_read b)))) s) = VOk (stack s ! i)"
proof -
  let ?n = "length (upvals s)"
  obtain q1 where 1: "new_upvalue i s = (VOk ?n, s\<lparr>open_upvalues := q1, upvals := upvals s @ [UOpen i]\<rparr>)"
    and ok1: "upvalues_ok (s\<lparr>open_upvalues := q1, upvals := upvals s @ [UOpen i]\<rparr>)" (is "upvalues_ok ?s1")
    using new_upvalue_ok [OF assms(1,2)] by blast
  obtain q2 where 2: "new_upvalue i ?s1 = (VOk (Suc ?n), ?s1\<lparr>open_upvalues := q2, upvals := upvals s @ [UOpen i, UOpen i]\<rparr>)"
    and ok2: "upvalues_ok (?s1\<lparr>open_upvalues := q2, upvals := upvals s @ [UOpen i, UOpen i]\<rparr>)" (is "upvalues_ok ?s2")
    using new_upvalue_ok [OF ok1, of i] assms(2) by auto
  obtain ks us where c: "close_upvalues_above bound ?s2 = (VOk (), ?s2\<lparr>open_upvalues := ks, upvals := us\<rparr>)"
    and l: "length us = Suc (Suc ?n)"
    and vals: "\<forall>u < length us. upvalue_value (stack s) (us ! u) = upvalue_value (stack s) (upvals ?s2 ! u)"
    and how: "\<forall>u < length us. us ! u = upvals ?s2 ! u \<or> (\<exists>v. us ! u = UClosed v)"
    and low: "\<forall>u < length us. \<forall>j. us ! u = UOpen j \<longrightarrow> j < bound"
    using close_upvalues_above_ok [OF ok2, of bound] by auto
  have closed: "us ! u = UClosed (stack s ! i)" if u: "u = ?n \<or> u = Suc ?n" for u
  proof -
    have len: "u < length us" and open_i: "upvals ?s2 ! u = UOpen i" using u l by (auto simp: nth_append)
    then obtain w where "us ! u = UClosed w" using how low assms(3) by (metis not_less)
    then show ?thesis using vals len open_i assms(2) by (auto simp: upvalue_value_def)
  qed
  show ?thesis
    using 1 2 c closed [of ?n] closed [of "Suc ?n"] l assms(2)
    by (simp add: vm_simps upvalue_write_def upvalue_read_value upvalue_value_def nth_append)
qed


theorem captures_split_when_closed_witness:
  "fst (bindV (new_upvalue 0) (\<lambda>a. bindV (new_upvalue 0) (\<lambda>b.
      thenV (close_upvalues_above 0) (thenV (upvalue_write a (VInt 9)) (upvalue_read b))))
     ((sample_state :: fixed vm_state)\<lparr>stack := [VInt 1]\<rparr>)) = VOk (VInt 1)"
proof -
  have "upvalues_ok ((sample_state :: fixed vm_state)\<lparr>stack := [VInt 1]\<rparr>)"
    by (simp add: upvalues_ok_def open_sorted_def sample_state_def)
  from captures_split_when_closed [OF this, of 0 0 "VInt 9"] show ?thesis by (simp add: sample_state_def)
qed

end
