(* ===== verification/Vm_Txn_Spec.thy ===== *)
theory Vm_Txn_Spec
  imports Vm_Txn Vm_Upvalue
begin

text \<open>
  What transactions promise: the store the program sees follows the laws of a versioned store
  with nested, all-or-nothing transactions; and a transaction that commits although other
  contexts wrote in between could have run in one go at the moment it committed.
\<close>

section \<open>The contract of a transactional store\<close>

text \<open>
  A store with a view, a write, and transactions that are begun, committed or rolled back.
  \<open>good a s\<close> is that the address exists.
\<close>

locale transactional_store =
  fixes good :: "'a \<Rightarrow> 's \<Rightarrow> bool"
    and see :: "'s \<Rightarrow> 'a \<Rightarrow> 'v"
    and put :: "'a \<Rightarrow> 'v \<Rightarrow> 's \<Rightarrow> 's"
    and start :: "'s \<Rightarrow> 's"
    and commit :: "'s \<Rightarrow> 's"
    and abort :: "'s \<Rightarrow> 's"
    and level :: "'s \<Rightarrow> nat"
    and inv :: "'s \<Rightarrow> bool"
  assumes see_put: "inv s \<Longrightarrow> good a s \<Longrightarrow> see (put a v s) = (see s)(a := v)"
    and see_start: "inv s \<Longrightarrow> see (start s) = see s"
    and see_commit: "inv s \<Longrightarrow> 0 < level s \<Longrightarrow> see (commit s) = see s"
    and abort_start: "inv s \<Longrightarrow> abort (start s) = s"
    and abort_put: "inv s \<Longrightarrow> 0 < level s \<Longrightarrow> good a s \<Longrightarrow> abort (put a v s) = abort s"
    and level_start: "level (start s) = Suc (level s)"
    and level_put: "level (put a v s) = level s"
    and good_put: "good b (put a v s) = good b s"
    and good_start: "good b (start s) = good b s"
    and inv_put: "inv s \<Longrightarrow> good a s \<Longrightarrow> inv (put a v s)"
    and inv_start: "inv s \<Longrightarrow> inv (start s)"
begin

definition puts :: "('a \<times> 'v) list \<Rightarrow> 's \<Rightarrow> 's" where
  "puts ws s = foldl (\<lambda>s (a, v). put a v s) s ws"

lemma puts_simps: "puts [] s = s" "puts ((a, v) # ws) s = puts ws (put a v s)"
  by (simp_all add: puts_def)

lemma puts_level: "level (puts ws s) = level s"
proof (induction ws arbitrary: s)
  case (Cons w ws)
  then show ?case by (cases w) (simp add: puts_simps level_put)
qed (simp add: puts_simps)

lemma puts_inv: "inv s \<Longrightarrow> list_all (\<lambda>w. good (fst w) s) ws \<Longrightarrow> inv (puts ws s)"
proof (induction ws arbitrary: s)
  case (Cons w ws)
  then show ?case by (cases w) (simp add: puts_simps inv_put good_put)
qed (simp add: puts_simps)

lemma see_puts:
  "inv s \<Longrightarrow> list_all (\<lambda>w. good (fst w) s) ws \<Longrightarrow> see (puts ws s) = foldl (\<lambda>f (a, v). f(a := v)) (see s) ws"
proof (induction ws arbitrary: s)
  case (Cons w ws)
  then show ?case by (cases w) (simp add: puts_simps see_put inv_put good_put)
qed (simp add: puts_simps)

lemma abort_puts:
  "inv s \<Longrightarrow> 0 < level s \<Longrightarrow> list_all (\<lambda>w. good (fst w) s) ws \<Longrightarrow> abort (puts ws s) = abort s"
proof (induction ws arbitrary: s)
  case (Cons w ws)
  then show ?case by (cases w) (simp add: puts_simps inv_put good_put level_put abort_put)
qed (simp add: puts_simps)

lemma all_or_nothing:
  assumes "inv s" and "list_all (\<lambda>w. good (fst w) s) ws"
  shows "see (commit (puts ws (start s))) = foldl (\<lambda>f (a, v). f(a := v)) (see s) ws"
    and "abort (puts ws (start s)) = s"
proof -
  have g: "list_all (\<lambda>w. good (fst w) (start s)) ws" using assms(2) by (simp add: good_start)
  have "inv (puts ws (start s))" by (rule puts_inv [OF inv_start [OF assms(1)] g])
  then have "see (commit (puts ws (start s))) = see (puts ws (start s))"
    by (rule see_commit) (simp add: puts_level level_start)
  then show "see (commit (puts ws (start s))) = foldl (\<lambda>f (a, v). f(a := v)) (see s) ws"
    using see_puts [OF inv_start [OF assms(1)] g] see_start [OF assms(1)] by simp
  show "abort (puts ws (start s)) = s"
    using abort_puts [OF inv_start [OF assms(1)] _ g] abort_start [OF assms(1)] by (simp add: level_start)
qed

end

text \<open>The machine's store: open transactions and cells. A commit validates first.\<close>

type_synonym 'd store = "'d transaction list \<times> 'd shared_cell list"

definition store_put :: "nat \<Rightarrow> 'd rt_value \<Rightarrow> 'd store \<Rightarrow> 'd store" where
  "store_put a v s = stm_write a v (fst s) (snd s)"

definition store_start :: "'d store \<Rightarrow> 'd store" where
  "store_start s = (transaction_new # fst s, snd s)"

definition store_commit :: "'d store \<Rightarrow> 'd store" where
  "store_commit s =
     (case fst s of
        [] \<Rightarrow> s
      | [t] \<Rightarrow> if conflicts t (snd s) then ([transaction_new], snd s) else ([], apply_writes (tx_writes t) (snd s))
      | t # p # ps \<Rightarrow> (merge_into t p # ps, snd s))"

definition store_abort :: "'d store \<Rightarrow> 'd store" where
  "store_abort s = (tl (fst s), snd s)"

text \<open>Write sets name existing cells once; recorded versions are current (no other context wrote).\<close>

definition txn_ok :: "'d shared_cell list \<Rightarrow> 'd transaction \<Rightarrow> bool" where
  "txn_ok cs t \<longleftrightarrow> distinct (map fst (tx_writes t)) \<and> (\<forall>a \<in> fst ` set (tx_writes t). a < length cs)
     \<and> \<not> conflicts t cs"

definition store_inv :: "'d store \<Rightarrow> bool" where
  "store_inv s \<longleftrightarrow> list_all (txn_ok (snd s)) (fst s)"

lemma entry_insert_fst: "fst ` set (entry_insert (=) a v m) = insert a (fst ` set m)"
  by (induction m) auto

lemma distinct_entry_insert: "distinct (map fst m) \<Longrightarrow> distinct (map fst (entry_insert (=) a v m))"
proof (induction m)
  case (Cons p m)
  then show ?case using entry_insert_fst [of a v m] by (auto simp: image_iff)
qed simp

lemma txn_ok_new: "txn_ok cs transaction_new"
  by (simp add: txn_ok_def transaction_new_def conflicts_def)

lemma txn_ok_write:
  "txn_ok cs t \<Longrightarrow> a < length cs \<Longrightarrow> txn_ok cs (t\<lparr>tx_writes := entry_insert (=) a v (tx_writes t)\<rparr>)"
  by (simp add: txn_ok_def distinct_entry_insert entry_insert_fst conflicts_def)

lemma store_put_open:
  "store_put a v (t # ts, cs) = (t\<lparr>tx_writes := entry_insert (=) a v (tx_writes t)\<rparr> # ts, cs)"
  by (simp add: store_put_def stm_write_def)

interpretation stm: transactional_store
  "\<lambda>a s. a < length (snd s)" "\<lambda>s. view (fst s) (snd s)" store_put store_start store_commit store_abort
  "\<lambda>s. length (fst s)" store_inv
proof
  fix s :: "'d store" and a v
  assume "store_inv s" "a < length (snd s)"
  then show "view (fst (store_put a v s)) (snd (store_put a v s)) = (view (fst s) (snd s))(a := v)"
    by (cases "store_put a v s") (simp add: store_put_def view_stm_write)
next
  fix s :: "'d store" and a v
  assume "store_inv s" "a < length (snd s)"
  then show "store_inv (store_put a v s)"
    by (cases "fst s") (auto simp: store_inv_def store_put_def stm_write_def txn_ok_write)
next
  fix s :: "'d store"
  assume s: "store_inv s" "0 < length (fst s)"
  show "view (fst (store_commit s)) (snd (store_commit s)) = view (fst s) (snd s)"
  proof (cases "fst s")
    case (Cons t ts)
    then have t: "txn_ok (snd s) t" using s by (simp add: store_inv_def)
    then show ?thesis
      using Cons view_publish [of t "snd s"] view_merge [of t]
      by (cases ts) (simp_all add: store_commit_def txn_ok_def)
  qed (use s in simp)
next
  fix s :: "'d store" and a v
  assume "store_inv s" "0 < length (fst s)" "a < length (snd s)"
  then show "store_abort (store_put a v s) = store_abort s"
    by (cases "fst s") (simp_all add: store_abort_def store_put_def stm_write_def)
qed (auto simp: store_start_def view_def store_abort_def store_inv_def txn_ok_new store_put_def stm_write_def
      fun_eq_iff split: list.split)


section \<open>The instructions implement the contract\<close>

definition store_of :: "'d vm_state \<Rightarrow> 'd store" where
  "store_of s = (txn_stack s, cells s)"

fun write_all :: "(nat \<times> 'd rt_value) list \<Rightarrow> ('d, unit) vm" where
  "write_all [] = retV ()"
| "write_all ((a, v) # ws) = thenV (write_shared a v) (write_all ws)"

lemma write_all_run:
  "\<exists>s'. write_all ws s = (VOk (), s') \<and> store_of s' = stm.puts ws (store_of s)
     \<and> transact_handlers s' = transact_handlers s \<and> stack s' = stack s \<and> frames s' = frames s"
proof (induction ws arbitrary: s)
  case Nil
  then show ?case by (simp add: vm_simps stm.puts_simps)
next
  case (Cons w ws)
  obtain a v where w: "w = (a, v)" by fastforce
  obtain ts cs where p: "stm_write a v (txn_stack s) (cells s) = (ts, cs)" by fastforce
  let ?s = "s\<lparr>txn_stack := ts, cells := cs\<rparr>"
  have "store_of ?s = store_put a v (store_of s)" using p by (simp add: store_of_def store_put_def)
  moreover have "write_shared a v s = (VOk (), ?s)" using p by (simp add: write_shared_def vm_simps)
  ultimately show ?case using Cons.IH [of ?s] w by (auto simp: vm_simps stm.puts_simps)
qed

text \<open>The top handler, if any, does not belong to a transaction at the same address.\<close>

definition fresh_transact :: "nat \<Rightarrow> 'd vm_state \<Rightarrow> bool" where
  "fresh_transact p s \<longleftrightarrow> (case transact_handlers s of h # _ \<Rightarrow> th_retry_addr h \<noteq> p | [] \<Rightarrow> True)"

definition entry_handler :: "nat \<Rightarrow> 'd vm_state \<Rightarrow> transact_handler" where
  "entry_handler p s = \<lparr>th_retry_addr = p, th_stack = length (stack s), th_frame = length (frames s), th_retries = 0\<rparr>"

lemma push_transact_run:
  assumes "fresh_transact p s"
  shows "push_transact p s = (VOk (), s\<lparr>transact_handlers := entry_handler p s # transact_handlers s,
                                        txn_stack := transaction_new # txn_stack s\<rparr>)"
  using assms
  by (auto simp: push_transact_def vm_simps fresh_transact_def entry_handler_def Let_def split: list.splits)

lemma transact_commit_run:
  assumes "transact_handlers s = h # hs" and "txn_stack s = t # ts" and "\<not> conflicts t (cells s)"
  shows "\<exists>s'. transact_commit s = (VOk (), s') \<and> store_of s' = store_commit (store_of s)
     \<and> transact_handlers s' = hs \<and> stack s' = stack s \<and> frames s' = frames s"
proof (cases ts)
  case Nil
  then show ?thesis
    using assms by (simp add: transact_commit_def vm_simps bindV_run(1) thenV_run(1) store_of_def store_commit_def)
next
  case (Cons p ps)
  then show ?thesis
    using assms by (simp add: transact_commit_def vm_simps bindV_run(1) thenV_run(1) store_of_def store_commit_def)
qed

lemma store_inv_put_all:
  assumes "store_inv s" and "list_all (\<lambda>w. fst w < length (snd s)) ws"
  shows "store_inv (stm.puts ws (store_start s))"
proof -
  have "store_inv (store_start s)" using assms(1) by (simp add: store_start_def store_inv_def txn_ok_new)
  then show ?thesis by (rule stm.puts_inv) (use assms(2) in \<open>simp add: store_start_def\<close>)
qed

lemma transaction_body:
  assumes "store_inv (store_of s)" and "list_all (\<lambda>w. fst w < length (cells s)) ws" and "fresh_transact p s"
  shows "\<exists>s' t. thenV (push_transact p) (write_all ws) s = (VOk (), s')
     \<and> store_of s' = stm.puts ws (store_start (store_of s)) \<and> store_inv (store_of s')
     \<and> txn_stack s' = t # txn_stack s \<and> cells s' = cells s
     \<and> transact_handlers s' = entry_handler p s # transact_handlers s
     \<and> stack s' = stack s \<and> frames s' = frames s"
proof -
  let ?s = "s\<lparr>transact_handlers := entry_handler p s # transact_handlers s, txn_stack := transaction_new # txn_stack s\<rparr>"
  obtain s' where w: "write_all ws ?s = (VOk (), s')" "store_of s' = stm.puts ws (store_of ?s)"
    "transact_handlers s' = transact_handlers ?s" "stack s' = stack ?s" "frames s' = frames ?s"
    using write_all_run [of ws ?s] by blast
  have st: "store_of ?s = store_start (store_of s)" by (simp add: store_of_def store_start_def)
  have "store_inv (store_of s')"
    using store_inv_put_all [OF assms(1), of ws] assms(2) w(2) st by (simp add: store_of_def)
  moreover have l: "length (fst (store_of s')) = Suc (length (fst (store_of s)))"
    unfolding w(2) st stm.puts_level by (simp add: store_start_def)
  moreover have "store_abort (store_of s') = store_of s"
    unfolding w(2) st by (rule stm.all_or_nothing(2) [OF assms(1)]) (use assms(2) in \<open>simp add: store_of_def\<close>)
  then obtain t where "txn_stack s' = t # txn_stack s" "cells s' = cells s"
    using l by (cases "txn_stack s'") (auto simp: store_of_def store_abort_def)
  ultimately show ?thesis
    using push_transact_run [OF assms(3)] w st by (auto simp: vm_simps)
qed

text \<open>
  C7. A transaction is all or nothing. Entered on a store nobody else writes to, with any
  writes in its body: until the commit no cell changes; the commit succeeds, restores the
  handler stack, leaves the transaction depth as it was, and makes exactly the writes of the
  body visible, later ones over earlier ones; and if an exception unwinds below the height
  at entry instead, everything is as before the transaction.
\<close>

theorem transaction_all_or_nothing:
  assumes "store_inv (store_of s)" and "list_all (\<lambda>w. fst w < length (cells s)) ws" and "fresh_transact p s"
  shows "\<exists>s1 s2. thenV (push_transact p) (write_all ws) s = (VOk (), s1) \<and> cells s1 = cells s
     \<and> transact_commit s1 = (VOk (), s2)
     \<and> view (txn_stack s2) (cells s2) = foldl (\<lambda>f (a, v). f(a := v)) (view (txn_stack s) (cells s)) ws
     \<and> length (txn_stack s2) = length (txn_stack s) \<and> transact_handlers s2 = transact_handlers s
     \<and> (bound < length (stack s) \<and> list_all (\<lambda>h. th_stack h \<le> bound) (transact_handlers s) \<longrightarrow>
          store_of (cleanup_transact_above bound s1) = store_of s
          \<and> transact_handlers (cleanup_transact_above bound s1) = transact_handlers s)"
proof -
  obtain s1 t where s1: "thenV (push_transact p) (write_all ws) s = (VOk (), s1)"
    "store_of s1 = stm.puts ws (store_start (store_of s))" "store_inv (store_of s1)"
    "txn_stack s1 = t # txn_stack s" "cells s1 = cells s"
    "transact_handlers s1 = entry_handler p s # transact_handlers s"
    using transaction_body [OF assms] by blast
  have "\<not> conflicts t (cells s1)" using s1(3,4) by (simp add: store_inv_def store_of_def txn_ok_def)
  then obtain s2 where s2: "transact_commit s1 = (VOk (), s2)" "store_of s2 = store_commit (store_of s1)"
    "transact_handlers s2 = transact_handlers s"
    using transact_commit_run [OF s1(6,4)] by blast
  have "view (fst (store_of s2)) (snd (store_of s2)) =
      foldl (\<lambda>f (a, v). f(a := v)) (view (fst (store_of s)) (snd (store_of s))) ws"
    unfolding s2(2) s1(2)
    by (rule stm.all_or_nothing(1) [OF assms(1)]) (use assms(2) in \<open>simp add: store_of_def\<close>)
  then have "view (txn_stack s2) (cells s2) = foldl (\<lambda>f (a, v). f(a := v)) (view (txn_stack s) (cells s)) ws"
    by (simp add: store_of_def)
  moreover have "length (txn_stack s2) = length (txn_stack s)"
    using s2(2) s1(4) \<open>\<not> conflicts t (cells s1)\<close>
    by (auto simp: store_of_def store_commit_def split: list.splits)
  moreover have "store_of (cleanup_transact_above bound s1) = store_of s
          \<and> transact_handlers (cleanup_transact_above bound s1) = transact_handlers s"
    if "bound < length (stack s)" "list_all (\<lambda>h. th_stack h \<le> bound) (transact_handlers s)"
  proof -
    have "cleanup_transacts bound (transact_handlers s) ts = (transact_handlers s, ts)" for ts :: "'a transaction list"
      using that(2) by (cases "transact_handlers s") auto
    then show ?thesis using that(1) s1 by (simp add: cleanup_transact_above_def entry_handler_def store_of_def)
  qed
  ultimately show ?thesis using s1 s2 by blast
qed


text \<open>The witness: a cell holding 1 is overwritten twice in one transaction.\<close>

theorem transaction_all_or_nothing_witness:
  "\<exists>s1 s2. thenV (push_transact 7) (write_all [(0, VInt 2), (0, VInt 3)])
        ((sample_state :: fixed vm_state)\<lparr>cells := [\<lparr>sc_value = VInt 1, sc_version = 4\<rparr>]\<rparr>) = (VOk (), s1)
     \<and> transact_commit s1 = (VOk (), s2) \<and> view (txn_stack s2) (cells s2) 0 = VInt 3"
proof -
  let ?s = "(sample_state :: fixed vm_state)\<lparr>cells := [\<lparr>sc_value = VInt 1, sc_version = 4\<rparr>]\<rparr>"
  have "store_inv (store_of ?s)" "fresh_transact 7 ?s"
    and "list_all (\<lambda>w. fst w < length (cells ?s)) [(0, VInt 2), (0, VInt 3)]"
    by (simp_all add: store_inv_def store_of_def fresh_transact_def sample_state_def)
  from transaction_all_or_nothing [OF this(1,3,2), of 0] obtain s1 s2
    where "thenV (push_transact 7) (write_all [(0, VInt 2), (0, VInt 3)]) ?s = (VOk (), s1)"
      and "transact_commit s1 = (VOk (), s2)"
      and "view (txn_stack s2) (cells s2) =
        foldl (\<lambda>f (a, v). f(a := v)) (view (txn_stack ?s) (cells ?s)) [(0, VInt 2), (0, VInt 3)]"
    by blast
  then show ?thesis by (simp del: write_all.simps)
qed

text \<open>
  A transaction entered again at the same address while it is open, as a recursive
  function with a \<open>transact\<close> block does, is taken for a retry: no second handler is pushed,
  the inner commit removes the only one, and the outer commit panics.
\<close>

theorem transact_reentry_panics:
  assumes "transact_handlers s = []"
  shows "fst (thenV (push_transact p) (thenV (push_transact p) (thenV transact_commit transact_commit)) s) = VPanic"
  using assms
  by (simp add: push_transact_def transact_commit_def thenV_def vm_simps bindV_run(1) Let_def
      split: list.split)


theorem transact_reentry_panics_witness:
  "fst (thenV (push_transact 3) (thenV (push_transact 3) (thenV transact_commit transact_commit))
     (sample_state :: fixed vm_state)) = VPanic"
  by (rule transact_reentry_panics) (simp add: sample_state_def)

text \<open>
  C32. After a conflict at the outermost commit the machine has pushed a fresh context and
  jumps to \<open>PushTransact\<close>, which pushes a second one; the retried body then commits as a
  nested transaction: it reports success and drops the handler, but no cell is written and
  an open context stays behind, so that later writes are buffered too.
\<close>

theorem conflict_retry_loses_writes:
  assumes "transact_handlers s = h # hs" and "th_retries h < max_txn_retries" and "txn_stack s = [t]"
    and "conflicts t (cells s)" and "frames s \<noteq> []" and "stack s \<noteq> []"
  shows "\<exists>s1 s2. transact_commit s = (VOk (), s1) \<and> fr_ip (hd (frames s1)) = th_retry_addr h
     \<and> thenV (push_transact (th_retry_addr h)) (thenV (write_all ws) transact_commit) s1 = (VOk (), s2)
     \<and> transact_handlers s2 = hs \<and> cells s2 = cells s \<and> length (txn_stack s2) = 1"
proof -
  let ?h = "h\<lparr>th_retries := th_retries h + 1\<rparr>"
  obtain f fs where f: "frames s = f # fs" using assms(5) by (cases "frames s") auto
  let ?s1 = "s\<lparr>transact_handlers := ?h # hs, txn_stack := [transaction_new],
      frames := f\<lparr>fr_ip := th_retry_addr h\<rparr> # fs, stack := butlast (stack s)\<rparr>"
  have c: "transact_commit s = (VOk (), ?s1)"
    using assms f
    by (simp add: transact_commit_def vm_simps bindV_run(1) thenV_run(1) set_ip_def current_frame_def
        set_top_def pop_val_def)
  let ?s2 = "?s1\<lparr>txn_stack := [transaction_new, transaction_new]\<rparr>"
  have p: "push_transact (th_retry_addr h) ?s1 = (VOk (), ?s2)"
    by (simp add: push_transact_def vm_simps)
  obtain s3 where w: "write_all ws ?s2 = (VOk (), s3)" "store_of s3 = stm.puts ws (store_of ?s2)"
    "transact_handlers s3 = ?h # hs"
    using write_all_run [of ws ?s2] by auto
  have shape: "\<exists>t. stm.puts ws ([t0, transaction_new], cs) = ([t, transaction_new], cs)"
    for t0 :: "'a transaction" and cs
  proof (induction ws arbitrary: t0)
    case Nil
    then show ?case by (simp add: stm.puts_simps)
  next
    case (Cons w ws)
    then show ?case by (cases w) (simp add: stm.puts_simps store_put_open)
  qed
  obtain t' where t': "txn_stack s3 = [t', transaction_new]" "cells s3 = cells s"
    using shape [of transaction_new "cells s"] w(2) by (auto simp: store_of_def)
  have "transact_commit s3 = (VOk (), s3\<lparr>txn_stack := [merge_into t' transaction_new], transact_handlers := hs\<rparr>)"
    using t' w(3) by (simp add: transact_commit_def vm_simps bindV_run(1) thenV_run(1))
  then show ?thesis using c p w(1) t'(2) by (auto simp: vm_simps)
qed

theorem conflict_retry_loses_writes_witness:
  "\<exists>s1 s2. transact_commit ((sample_state :: fixed vm_state)
       \<lparr>transact_handlers := [\<lparr>th_retry_addr = 5, th_stack = 0, th_frame = 1, th_retries = 0\<rparr>],
        txn_stack := [\<lparr>tx_writes = [], tx_reads = [(0, 0)]\<rparr>],
        cells := [\<lparr>sc_value = VInt 1, sc_version = 1\<rparr>], stack := [VNil],
        frames := [\<lparr>fr_closure = closure_vm_new (chunk_new None 0) [], fr_ip = 9, fr_base = 0, fr_actor_env = None\<rparr>]\<rparr>)
      = (VOk (), s1)
     \<and> thenV (push_transact 5) (thenV (write_all [(0, VInt 2)]) transact_commit) s1 = (VOk (), s2)
     \<and> cells s2 = [\<lparr>sc_value = VInt 1, sc_version = 1\<rparr>]"
proof -
  let ?h = "\<lparr>th_retry_addr = 5, th_stack = 0, th_frame = 1, th_retries = 0\<rparr>"
  let ?s = "(sample_state :: fixed vm_state)\<lparr>transact_handlers := [?h],
        txn_stack := [\<lparr>tx_writes = [], tx_reads = [(0, 0)]\<rparr>],
        cells := [\<lparr>sc_value = VInt 1, sc_version = 1\<rparr>], stack := [VNil],
        frames := [\<lparr>fr_closure = closure_vm_new (chunk_new None 0) [], fr_ip = 9, fr_base = 0, fr_actor_env = None\<rparr>]\<rparr>"
  have "transact_handlers ?s = ?h # []" "th_retries ?h < max_txn_retries"
    "txn_stack ?s = [\<lparr>tx_writes = [], tx_reads = [(0, 0)]\<rparr>]"
    "conflicts \<lparr>tx_writes = [], tx_reads = [(0, 0)]\<rparr> (cells ?s)" "frames ?s \<noteq> []" "stack ?s \<noteq> []"
    by (simp_all add: max_txn_retries_def conflicts_def)
  from conflict_retry_loses_writes [OF this, of "[(0, VInt 2)]"] obtain s1 s2
    where "transact_commit ?s = (VOk (), s1)"
      and "thenV (push_transact 5) (thenV (write_all [(0, VInt 2)]) transact_commit) s1 = (VOk (), s2)"
      and "cells s2 = cells ?s"
    by auto
  then show ?thesis by auto
qed

section \<open>Serialisability under interference\<close>

text \<open>
  A transaction of this context among commits of others: \<open>Read a v\<close> is a read that returned \<open>v\<close>,
  \<open>Write a v\<close> a buffered write, \<open>Other a v\<close> a direct write or commit of another context.
\<close>

datatype 'd event = Read nat "'d rt_value" | Write nat "'d rt_value" | Other nat "'d rt_value"

fun event_cell :: "'d event \<Rightarrow> nat" where
  "event_cell (Read a v) = a" | "event_cell (Write a v) = a" | "event_cell (Other a v) = a"

fun is_other :: "'d event \<Rightarrow> bool" where
  "is_other (Other a v) = True" | "is_other _ = False"

fun run_events :: "'d event list \<Rightarrow> 'd transaction \<Rightarrow> 'd shared_cell list \<Rightarrow> ('d transaction \<times> 'd shared_cell list) option" where
  "run_events [] t cs = Some (t, cs)"
| "run_events (Read a v # es) t cs =
     (case stm_read a [t] cs of (w, [t']) \<Rightarrow> if a < length cs \<and> w = v then run_events es t' cs else None | _ \<Rightarrow> None)"
| "run_events (Write a v # es) t cs =
     (case stm_write a v [t] cs of ([t'], cs') \<Rightarrow> if a < length cs then run_events es t' cs' else None | _ \<Rightarrow> None)"
| "run_events (Other a v # es) t cs = (if a < length cs then run_events es t (write_cell a v cs) else None)"

lemma stm_read_one:
  "stm_read a [t] cs = (case map_of (tx_writes t) a of
      Some v \<Rightarrow> (v, [t])
    | None \<Rightarrow> (sc_value (cs ! a), [t\<lparr>tx_reads := or_insert a (sc_version (cs ! a)) (tx_reads t)\<rparr>]))"
  by (simp add: stm_read_def record_read_def split: option.split)

lemma run_events_simps:
  "run_events (Read a v # es) t cs =
     (if a < length cs then
        case map_of (tx_writes t) a of
          Some w \<Rightarrow> if w = v then run_events es t cs else None
        | None \<Rightarrow> if sc_value (cs ! a) = v
            then run_events es (t\<lparr>tx_reads := or_insert a (sc_version (cs ! a)) (tx_reads t)\<rparr>) cs else None
      else None)"
  "run_events (Write a v # es) t cs =
     (if a < length cs then run_events es (t\<lparr>tx_writes := entry_insert (=) a v (tx_writes t)\<rparr>) cs else None)"
  by (simp_all add: stm_read_one stm_write_def split: option.split)

declare run_events.simps(2,3) [simp del]
declare run_events_simps [simp]

lemma or_insert_keeps: "p \<in> set m \<Longrightarrow> p \<in> set (or_insert k v m)"
  by (simp add: or_insert_def)

lemma or_insert_key: "\<exists>w. (k, w) \<in> set (or_insert k v m)"
  using map_of_SomeD [of m k] by (auto simp: or_insert_def)

lemma run_events_reads:
  "run_events es t cs = Some (t', cs') \<Longrightarrow> p \<in> set (tx_reads t) \<Longrightarrow> p \<in> set (tx_reads t')"
proof (induction es arbitrary: t cs)
  case (Cons e es)
  then show ?case
    by (cases e) (auto simp: or_insert_keeps split: if_splits option.splits)
qed simp

definition others :: "nat \<Rightarrow> 'd event list \<Rightarrow> nat" where
  "others a es = length (filter (\<lambda>e. is_other e \<and> event_cell e = a) es)"

lemma others_le: "others a es \<le> length es"
  by (simp add: others_def)

text \<open>Every write of another context to a cell bumps its version, and nothing else changes it.\<close>

lemma run_events_cell:
  "run_events es t cs = Some (t', cs') \<Longrightarrow> a < length cs \<Longrightarrow>
     length cs' = length cs \<and> sc_version (cs' ! a) = sc_version (cs ! a) + of_nat (others a es)
     \<and> (others a es = 0 \<longrightarrow> cs' ! a = cs ! a)"
proof (induction es arbitrary: t cs)
  case Nil
  then show ?case by (simp add: others_def)
next
  case (Cons e es)
  show ?case
  proof (cases e)
    case (Read b v)
    then show ?thesis using Cons by (auto simp: others_def split: if_splits option.splits)
  next
    case (Write b v)
    then show ?thesis using Cons by (auto simp: others_def split: if_splits)
  next
    case (Other b v)
    then have r: "run_events es t (write_cell b v cs) = Some (t', cs')" and "b < length cs"
      using Cons.prems(1) by (auto split: if_splits)
    then show ?thesis
      using Cons.IH [OF r] Cons.prems(2) Other
      by (cases "a = b") (simp_all add: others_def write_cell_def ac_simps)
  qed
qed

text \<open>Recorded versions lag behind by the number of writes since, far from a full wrap.\<close>

definition versions_lag :: "'d transaction \<Rightarrow> 'd shared_cell list \<Rightarrow> nat \<Rightarrow> bool" where
  "versions_lag t cs n \<longleftrightarrow>
     (\<forall>(a, ver) \<in> set (tx_reads t). a < length cs \<and> (\<exists>k. sc_version (cs ! a) = ver + of_nat k \<and> k + n < 2 ^ 64))"

lemma of_nat_u64_zero: "n < 2 ^ 64 \<Longrightarrow> (of_nat n :: u64) = 0 \<Longrightarrow> n = 0"
  by (simp add: word_of_nat_eq_0_iff nat_dvd_not_less) (metis nat_dvd_not_less not_gr_zero)

lemma unconflicted_cell:
  assumes "run_events es t cs = Some (t', cs')" and "\<not> conflicts t' cs'"
    and "versions_lag t cs (length es)" and "(a, ver) \<in> set (tx_reads t)"
  shows "cs' ! a = cs ! a"
proof -
  obtain k where k: "a < length cs" "sc_version (cs ! a) = ver + of_nat k" "k + length es < 2 ^ 64"
    using assms(3,4) by (auto simp: versions_lag_def)
  have "sc_version (cs' ! a) = ver"
    using assms(2) run_events_reads [OF assms(1,4)] by (auto simp: conflicts_def list_ex_iff)
  then have "of_nat (k + others a es) = (0 :: u64)"
    using run_events_cell [OF assms(1) k(1)] k(2) by (simp add: ac_simps)
  moreover have "k + others a es < 2 ^ 64" using k(3) others_le [of a es] by linarith
  ultimately have "others a es = 0" using of_nat_u64_zero by (metis add_is_0)
  then show ?thesis using run_events_cell [OF assms(1) k(1)] by simp
qed

lemma versions_lag_mono:
  assumes "versions_lag t cs (Suc n)"
  shows "versions_lag t cs n"
  unfolding versions_lag_def
proof (intro ballI, clarify)
  fix a ver assume "(a, ver) \<in> set (tx_reads t)"
  then obtain k where "a < length cs" "sc_version (cs ! a) = ver + of_nat k" "k + Suc n < 2 ^ 64"
    using assms by (auto simp: versions_lag_def)
  then show "a < length cs \<and> (\<exists>k. sc_version (cs ! a) = ver + of_nat k \<and> k + n < 2 ^ 64)"
    by (intro conjI exI [of _ k]) simp_all
qed

lemma versions_lag_read:
  assumes "versions_lag t cs (Suc n)" and "a < length cs" and "n < 2 ^ 64"
  shows "versions_lag (t\<lparr>tx_reads := or_insert a (sc_version (cs ! a)) (tx_reads t)\<rparr>) cs n"
  unfolding versions_lag_def
proof (intro ballI, clarify)
  fix b ver
  assume "(b, ver) \<in> set (tx_reads (t\<lparr>tx_reads := or_insert a (sc_version (cs ! a)) (tx_reads t)\<rparr>))"
  then consider "(b, ver) \<in> set (tx_reads t)" | "b = a" "ver = sc_version (cs ! a)"
    by (auto simp: or_insert_def split: if_splits)
  then show "b < length cs \<and> (\<exists>k. sc_version (cs ! b) = ver + of_nat k \<and> k + n < 2 ^ 64)"
  proof cases
    case 1
    then show ?thesis using versions_lag_mono [OF assms(1)] by (auto simp: versions_lag_def)
  next
    case 2
    then show ?thesis using assms(2,3) by (intro conjI exI [of _ 0]) simp_all
  qed
qed

lemma versions_lag_other:
  assumes "versions_lag t cs (Suc n)"
  shows "versions_lag t (write_cell b v cs) n"
  unfolding versions_lag_def
proof (intro ballI, clarify)
  fix a ver assume "(a, ver) \<in> set (tx_reads t)"
  then obtain k where k: "a < length cs" "sc_version (cs ! a) = ver + of_nat k" "k + Suc n < 2 ^ 64"
    using assms by (auto simp: versions_lag_def)
  show "a < length (write_cell b v cs) \<and> (\<exists>k. sc_version (write_cell b v cs ! a) = ver + of_nat k \<and> k + n < 2 ^ 64)"
  proof (cases "a = b")
    case True
    then have "sc_version (write_cell b v cs ! a) = ver + of_nat (Suc k)"
      using k by (simp add: write_cell_def ac_simps)
    then show ?thesis using k by (intro conjI exI [of _ "Suc k"]) simp_all
  next
    case False
    then show ?thesis using k by (intro conjI exI [of _ k]) (simp_all add: write_cell_def)
  qed
qed

lemma replay:
  assumes "run_events es t cs = Some (t', cs')" and "\<not> conflicts t' cs'" and "versions_lag t cs (length es)"
    and "length es < 2 ^ 64" and "tx_writes u = tx_writes t"
  shows "\<exists>u'. run_events (filter (\<lambda>e. \<not> is_other e) es) u cs' = Some (u', cs') \<and> tx_writes u' = tx_writes t'"
  using assms
proof (induction es arbitrary: t cs u)
  case Nil
  then show ?case by simp
next
  case (Cons e es)
  have n: "length es < 2 ^ 64" and lag: "versions_lag t cs (Suc (length es))" using Cons.prems(3,4) by simp_all
  show ?case
  proof (cases e)
    case (Read a v)
    then have a: "a < length cs" using Cons.prems(1) by (auto split: if_splits)
    show ?thesis
    proof (cases "map_of (tx_writes t) a")
      case (Some w)
      then have r: "run_events es t cs = Some (t', cs')" and w: "w = v"
        using Cons.prems(1) Read by (auto split: if_splits)
      have "length cs' = length cs" using run_events_cell [OF r a] by simp
      then show ?thesis
        using Cons.IH [OF r Cons.prems(2) versions_lag_mono [OF lag] n Cons.prems(5)] Some w Read a Cons.prems(5) by simp
    next
      case None
      let ?t = "t\<lparr>tx_reads := or_insert a (sc_version (cs ! a)) (tx_reads t)\<rparr>"
      have r: "run_events es ?t cs = Some (t', cs')" and v: "sc_value (cs ! a) = v"
        using Cons.prems(1) Read None by (auto split: if_splits)
      have lag': "versions_lag ?t cs (length es)" by (rule versions_lag_read [OF lag a n])
      obtain ver where "(a, ver) \<in> set (tx_reads ?t)" using or_insert_key by fastforce
      then have "cs' ! a = cs ! a" by (rule unconflicted_cell [OF r Cons.prems(2) lag'])
      moreover have "length cs' = length cs" using run_events_cell [OF r a] by simp
      moreover let ?u = "u\<lparr>tx_reads := or_insert a (sc_version (cs' ! a)) (tx_reads u)\<rparr>"
      have "tx_writes ?u = tx_writes ?t" using Cons.prems(5) by simp
      ultimately show ?thesis
        using Cons.IH [OF r Cons.prems(2) lag' n, of ?u] Read None a v Cons.prems(5) by simp
    qed
  next
    case (Write a v)
    let ?t = "t\<lparr>tx_writes := entry_insert (=) a v (tx_writes t)\<rparr>"
    have r: "run_events es ?t cs = Some (t', cs')" and a: "a < length cs"
      using Cons.prems(1) Write by (auto split: if_splits)
    have lag': "versions_lag ?t cs (length es)"
      using versions_lag_mono [OF lag] by (simp add: versions_lag_def)
    have "length cs' = length cs" using run_events_cell [OF r a] by simp
    then show ?thesis
      using Cons.IH [OF r Cons.prems(2) lag' n, of "u\<lparr>tx_writes := entry_insert (=) a v (tx_writes u)\<rparr>"]
        Write a Cons.prems(5) by simp
  next
    case (Other b v)
    then have r: "run_events es t (write_cell b v cs) = Some (t', cs')"
      using Cons.prems(1) by (auto split: if_splits)
    show ?thesis
      using Cons.IH [OF r Cons.prems(2) versions_lag_other [OF lag] n Cons.prems(5)] Other by simp
  qed
qed

text \<open>
  C6. Serialisability: when a transaction validates at commit, after any interleaving of its
  reads and writes with commits of other contexts (fewer than \<open>2^64\<close> events), then running
  its own reads and writes alone on the cells as they are at commit time returns the same
  values in every read and buffers the same writes.
\<close>

theorem commit_serialisable:
  assumes "run_events es transaction_new cs = Some (t, cs')" and "\<not> conflicts t cs'"
    and "length es < 2 ^ 64"
  shows "\<exists>u. run_events (filter (\<lambda>e. \<not> is_other e) es) transaction_new cs' = Some (u, cs')
     \<and> tx_writes u = tx_writes t"
  by (rule replay [OF assms(1,2) _ assms(3)]) (simp_all add: versions_lag_def)

theorem commit_serialisable_witness:
  "\<exists>u. run_events [Read 0 (VInt 1), Write 1 (VInt 5)] transaction_new
       [\<lparr>sc_value = VInt 1, sc_version = 3\<rparr>, \<lparr>sc_value = VInt 9, sc_version = 1\<rparr>]
     = Some (u, [\<lparr>sc_value = VInt 1, sc_version = 3\<rparr>, \<lparr>sc_value = VInt 9, sc_version = 1\<rparr>])
     \<and> tx_writes u = [(1, VInt 5 :: fixed rt_value)]"
proof -
  let ?cs = "[\<lparr>sc_value = VInt 1, sc_version = 3\<rparr>, \<lparr>sc_value = VInt 2, sc_version = 0\<rparr>] :: fixed shared_cell list"
  let ?es = "[Read 0 (VInt 1), Other 1 (VInt 9), Write 1 (VInt 5)]"
  let ?t = "\<lparr>tx_writes = [(1, VInt 5)], tx_reads = [(0, 3)]\<rparr>"
  have "run_events ?es transaction_new ?cs =
      Some (?t, [\<lparr>sc_value = VInt 1, sc_version = 3\<rparr>, \<lparr>sc_value = VInt 9, sc_version = 1\<rparr>])"
    by (simp add: or_insert_def write_cell_def transaction_new_def)
  from commit_serialisable [OF this] show ?thesis by (auto simp: conflicts_def)
qed

end
