(* ===== verification/Vm_Signal.thy ===== *)
theory Vm_Signal
  imports Vm_Upvalue Vm_Txn
begin

text \<open>
  Control transfer in the virtual machine (\<open>src/vm/vm.rs\<close>): \<open>handle_signal\<close> routes \<open>break\<close>,
  \<open>continue\<close>, \<open>retry\<close>, exceptions, \<open>reply\<close> and \<open>return\<close> to the handler stacks and unwinds frames;
  \<open>return_from_frame\<close> leaves a frame; the instructions that push and pop handlers.
\<close>

datatype 'd signal_outcome = SigContinue | SigDone "'d rt_value"

definition jump_to :: "nat \<Rightarrow> ('d, 'd signal_outcome) vm" where
  "jump_to pc = thenV (set_ip pc) (retV SigContinue)"

section \<open>Unwinding\<close>

text \<open>Leave the top frame on the way out: close, roll back, and cut the stack to its base.\<close>

definition pop_frame_unwinding :: "bool \<Rightarrow> ('d, unit) vm" where
  "pop_frame_unwinding chop = (\<lambda>s. case frames s of
     f # fs \<Rightarrow> thenV (close_upvalues_above (fr_base f))
         (modV (\<lambda>s. let s1 = cleanup_transact_above (fr_base f) s in
                     if chop then truncate_stack (fr_base f) s1 else s1)) (s\<lparr>frames := fs\<rparr>)
   | [] \<Rightarrow> (VPanic, s))"

lemma close_upvalues_above_other:
  assumes "close_upvalues_above bound s = (r, s')"
  shows "frames s' = frames s" "exception_handlers s' = exception_handlers s" "loop_handlers s' = loop_handlers s"
    "stack s' = stack s" "cells s' = cells s" "txn_stack s' = txn_stack s"
    "transact_handlers s' = transact_handlers s" "pending_exception s' = pending_exception s"
  using assms by (auto simp: close_upvalues_above_def split: option.splits)

lemma cleanup_transact_above_other [simp]:
  "frames (cleanup_transact_above bound s) = frames s"
  "exception_handlers (cleanup_transact_above bound s) = exception_handlers s"
  "loop_handlers (cleanup_transact_above bound s) = loop_handlers s"
  "stack (cleanup_transact_above bound s) = stack s"
  "cells (cleanup_transact_above bound s) = cells s"
  "pending_exception (cleanup_transact_above bound s) = pending_exception s"
  by (simp_all add: cleanup_transact_above_def split: prod.split)

lemma truncate_stack_other [simp]:
  "frames (truncate_stack n s) = frames s"
  "exception_handlers (truncate_stack n s) = exception_handlers s"
  "loop_handlers (truncate_stack n s) = loop_handlers s"
  "stack (truncate_stack n s) = take n (stack s)"
  "cells (truncate_stack n s) = cells s"
  "txn_stack (truncate_stack n s) = txn_stack s"
  "transact_handlers (truncate_stack n s) = transact_handlers s"
  "pending_exception (truncate_stack n s) = pending_exception s"
  by (simp_all add: truncate_stack_def)

lemma pop_frame_unwinding_Ok:
  assumes "pop_frame_unwinding chop s = (VOk u, s')"
  obtains f fs where "frames s = f # fs" "frames s' = fs" "exception_handlers s' = exception_handlers s"
    "loop_handlers s' = loop_handlers s" "stack s' = (if chop then take (fr_base f) (stack s) else stack s)"
proof -
  obtain f fs where f: "frames s = f # fs"
    using assms by (auto simp: pop_frame_unwinding_def split: list.splits)
  obtain r s1 where c: "close_upvalues_above (fr_base f) (s\<lparr>frames := fs\<rparr>) = (r, s1)" by fastforce
  show ?thesis
    using assms f c close_upvalues_above_other [OF c]
    by (cases r; intro that [of f fs]) (auto simp: pop_frame_unwinding_def vm_simps Let_def split: if_splits)
qed

text \<open>
  The innermost handler of the current frame, below which nothing else is kept, and the
  handlers that remain.
\<close>

definition handlers_from :: "nat \<Rightarrow> exception_handler list \<Rightarrow> exception_handler list" where
  "handlers_from d hs = dropWhile (\<lambda>h. eh_frame h \<noteq> d) hs"

lemma length_handlers_from: "handlers_from d hs = h # rest \<Longrightarrow> length rest < length hs"
  unfolding handlers_from_def by (metis length_dropWhile_le length_Cons Suc_le_eq)

text \<open>The state in which a handler starts: the exception is pending and on top of the stack.\<close>

definition enter_handler :: "exception_handler \<Rightarrow> exception_handler list \<Rightarrow> 'd rt_value \<Rightarrow> 'd vm_state \<Rightarrow> 'd vm_state" where
  "enter_handler h rest v s =
     (let s1 = truncate_stack (eh_stack h)
            (cleanup_transact_above (eh_stack h) (s\<lparr>exception_handlers := rest, pending_exception := Some v\<rparr>))
      in s1\<lparr>stack := stack s1 @ [v]\<rparr>)"

lemma enter_handler_other [simp]:
  "frames (enter_handler h rest v s) = frames s"
  "exception_handlers (enter_handler h rest v s) = rest"
  "loop_handlers (enter_handler h rest v s) = loop_handlers s"
  "stack (enter_handler h rest v s) = take (eh_stack h) (stack s) @ [v]"
  "cells (enter_handler h rest v s) = cells s"
  "pending_exception (enter_handler h rest v s) = Some v"
  by (simp_all add: enter_handler_def Let_def)

function unwind_exception :: "'d rt_value \<Rightarrow> span option \<Rightarrow> nat \<Rightarrow> ('d, 'd signal_outcome) vm" where
  "unwind_exception v sp depth s =
     (case handlers_from (length (frames s)) (exception_handlers s) of
        h # rest \<Rightarrow>
          (case eh_rescue h of
             Some pc \<Rightarrow> jump_to pc (enter_handler h rest v s)
           | None \<Rightarrow>
               (case eh_ensure h of
                  Some pc \<Rightarrow> jump_to pc (enter_handler h rest v s)
                | None \<Rightarrow> unwind_exception v sp depth ((enter_handler h rest v s)\<lparr>pending_exception := None\<rparr>)))
      | [] \<Rightarrow>
          if length (frames s) \<le> depth then (VErr (UserException v sp), s)
          else (case pop_frame_unwinding True s of
                  (VOk _, s') \<Rightarrow> unwind_exception v sp depth s'
                | (VErr e, s') \<Rightarrow> (VErr e, s')
                | (VPanic, s') \<Rightarrow> (VPanic, s')
                | (VFuel, s') \<Rightarrow> (VFuel, s')))"
  by pat_completeness auto
termination
  by (relation "measure (\<lambda>(v, sp, depth, s). length (frames s) + length (exception_handlers s))")
    (auto dest: length_handlers_from elim!: pop_frame_unwinding_Ok [OF sym])

declare unwind_exception.simps [simp del]

fun pop_frames_to :: "nat \<Rightarrow> nat \<Rightarrow> ('d, unit) vm" where
  "pop_frames_to 0 depth = retV ()"
| "pop_frames_to (Suc n) depth = (\<lambda>s.
     if length (frames s) > depth then thenV (pop_frame_unwinding False) (pop_frames_to n depth) s else (VOk (), s))"

definition unwind_reply :: "nat \<Rightarrow> ('d, unit) vm" where
  "unwind_reply depth = (\<lambda>s. pop_frames_to (length (frames s)) depth s)"

section \<open>Signals\<close>

definition outside :: "string \<Rightarrow> 'd interp_error" where
  "outside what = RuntimeError (lit what) None"

definition signal_break :: "'d rt_value option \<Rightarrow> ('d, 'd signal_outcome) vm" where
  "signal_break v = (\<lambda>s. case loop_handlers s of
     h # _ \<Rightarrow>
       if lh_frame h = length (frames s)
       then jump_to (lh_break h) (s\<lparr>stack := take (lh_stack h) (stack s) @ [or_nil v]\<rparr>)
       else (VErr (outside ''break outside of loop''), s)
   | [] \<Rightarrow> (VErr (outside ''break outside of loop''), s))"

definition signal_continue :: "('d, 'd signal_outcome) vm" where
  "signal_continue = (\<lambda>s. case loop_handlers s of
     h # _ \<Rightarrow>
       if lh_frame h = length (frames s)
       then jump_to (lh_continue h) (truncate_stack (lh_stack h) s)
       else (VErr (outside ''continue outside of loop''), s)
   | [] \<Rightarrow> (VErr (outside ''continue outside of loop''), s))"

definition signal_retry :: "('d, 'd signal_outcome) vm" where
  "signal_retry = (\<lambda>s. case dropWhile (\<lambda>h. th_frame h \<noteq> length (frames s)) (transact_handlers s) of
     h # rest \<Rightarrow>
       let dropped = length (transact_handlers s) - length (h # rest);
           s1 = truncate_stack (th_stack h) (s\<lparr>txn_stack := drop (dropped + 1) (txn_stack s)\<rparr>)
       in if th_retries h + 1 > max_txn_retries
          then (VErr (RuntimeError retry_message None), s1\<lparr>transact_handlers := rest\<rparr>)
          else jump_to (th_retry_addr h)
                 (s1\<lparr>transact_handlers := h\<lparr>th_retries := th_retries h + 1\<rparr> # rest\<rparr>)
   | [] \<Rightarrow> (VErr (outside ''retry outside of transact''), s))"

definition signal_return :: "'d rt_value \<Rightarrow> nat \<Rightarrow> ('d, 'd signal_outcome) vm" where
  "signal_return v depth = (\<lambda>s.
     if length (frames s) > depth
     then thenV (pop_frame_unwinding True) (thenV (push_val v) (retV SigContinue)) s
     else (VOk (SigDone v), s))"

fun handle_signal :: "'d interp_error \<Rightarrow> nat \<Rightarrow> ('d, 'd signal_outcome) vm" where
  "handle_signal (BreakSignal v sp) depth = signal_break v"
| "handle_signal (ContinueSignal sp) depth = signal_continue"
| "handle_signal (RetrySignal sp) depth = signal_retry"
| "handle_signal (UserException v sp) depth = unwind_exception v sp depth"
| "handle_signal (ReplySignal v sp) depth = thenV (unwind_reply depth) (retV (SigDone v))"
| "handle_signal (ReturnSignal v sp) depth = signal_return v depth"
| "handle_signal e depth = failV e"

section \<open>Leaving a frame\<close>

definition drop_inner_handlers :: "nat \<Rightarrow> 'd vm_state \<Rightarrow> 'd vm_state" where
  "drop_inner_handlers d s = s\<lparr>
     loop_handlers := filter (\<lambda>h. lh_frame h \<le> d) (loop_handlers s),
     exception_handlers := filter (\<lambda>h. eh_frame h \<le> d) (exception_handlers s),
     transact_handlers := filter (\<lambda>h. th_frame h \<le> d) (transact_handlers s)\<rparr>"

definition return_from_frame :: "'d rt_value \<Rightarrow> ('d, unit) vm" where
  "return_from_frame ret = (\<lambda>s. case frames s of
     f # fs \<Rightarrow>
       thenV (close_upvalues_above (fr_base f))
         (modV (\<lambda>s. let s1 = truncate_stack (fr_base f) (drop_inner_handlers (length (frames s)) s)
                    in s1\<lparr>stack := stack s1 @ [ret]\<rparr>)) (s\<lparr>frames := fs\<rparr>)
   | [] \<Rightarrow> (VPanic, s))"

section \<open>Handler instructions\<close>

definition push_loop :: "nat \<Rightarrow> nat \<Rightarrow> ('d, unit) vm" where
  "push_loop continue_addr break_addr = modV (\<lambda>s. s\<lparr>loop_handlers :=
     \<lparr>lh_continue = continue_addr, lh_break = break_addr, lh_stack = length (stack s),
      lh_frame = length (frames s)\<rparr> # loop_handlers s\<rparr>)"

definition pop_loop :: "('d, unit) vm" where
  "pop_loop = modV (\<lambda>s. s\<lparr>loop_handlers := tl (loop_handlers s)\<rparr>)"

definition nonzero :: "nat \<Rightarrow> nat option" where
  "nonzero a = (if a = 0 then None else Some a)"

definition push_try :: "nat \<Rightarrow> nat \<Rightarrow> ('d, unit) vm" where
  "push_try rescue_addr ensure_addr = modV (\<lambda>s. s\<lparr>exception_handlers :=
     \<lparr>eh_rescue = nonzero rescue_addr, eh_ensure = nonzero ensure_addr, eh_stack = length (stack s),
      eh_frame = length (frames s)\<rparr> # exception_handlers s\<rparr>)"

definition pop_try :: "('d, unit) vm" where
  "pop_try = modV (\<lambda>s. s\<lparr>exception_handlers := tl (exception_handlers s)\<rparr>)"

text \<open>\<open>RescueMatch\<close>: constant index 0 stands for \<open>catch all\<close>.\<close>

definition rescue_match :: "nat \<Rightarrow> ('d, unit) vm" where
  "rescue_match type_idx =
     bindV (peek_val 0) (\<lambda>exc.
       bindV (if type_idx = 0 then retV True
              else bindV (const_name type_idx) (\<lambda>n. retV (case exc of
                  VVariant n' _ \<Rightarrow> n' = n | VStruct n' _ \<Rightarrow> n' = n | _ \<Rightarrow> False)))
         (\<lambda>b. push_val (VBool b)))"

definition ensure_exit :: "('d, unit) vm" where
  "ensure_exit = bindV (getV pending_exception) (\<lambda>p. case p of
     Some v \<Rightarrow> thenV (modV (\<lambda>s. s\<lparr>pending_exception := None\<rparr>)) (raise_here (UserException v))
   | None \<Rightarrow> retV ())"

definition clear_pending :: "('d, unit) vm" where
  "clear_pending = modV (\<lambda>s. s\<lparr>pending_exception := None\<rparr>)"

end
