(* ===== verification/Vm_Signal_Spec.thy ===== *)
theory Vm_Signal_Spec
  imports Vm_Signal Vm_Txn_Spec
begin

text \<open>
  Where control goes: an exception reaches the innermost handler across frames or escapes at
  the depth of the dispatch loop, a return restores the caller; and what the unwinding leaves
  behind in the handler stacks, the transaction stack and the captured variables.
\<close>

section \<open>One frame\<close>

lemma upvalues_ok_cong:
  "stack s' = stack s \<Longrightarrow> upvals s' = upvals s \<Longrightarrow> open_upvalues s' = open_upvalues s \<Longrightarrow>
   upvalues_ok s' = upvalues_ok s"
  by (simp add: upvalues_ok_def)

lemma upvals_other [simp]:
  "upvals (cleanup_transact_above bound s) = upvals s"
  "open_upvalues (cleanup_transact_above bound s) = open_upvalues s"
  "upvals (truncate_stack n s) = upvals s"
  "open_upvalues (truncate_stack n s) = open_upvalues s"
  by (simp_all add: cleanup_transact_above_def truncate_stack_def split: prod.split)

lemma upvalues_ok_truncate:
  assumes "upvalues_ok s" and "\<forall>u < length (upvals s). \<forall>i. upvals s ! u = UOpen i \<longrightarrow> i < bound"
  shows "upvalues_ok (truncate_stack bound s)"
  using assms by (auto simp: upvalues_ok_def)

lemma pop_frame_run:
  assumes "upvalues_ok s" and "frames s = f # fs"
  shows "\<exists>s'. pop_frame_unwinding True s = (VOk (), s') \<and> upvalues_ok s' \<and> frames s' = fs
     \<and> stack s' = take (fr_base f) (stack s) \<and> exception_handlers s' = exception_handlers s
     \<and> pending_exception s' = pending_exception s \<and> loop_handlers s' = loop_handlers s"
proof -
  let ?s = "s\<lparr>frames := fs\<rparr>"
  have "upvalues_ok ?s" using assms(1) by (simp add: upvalues_ok_def)
  then obtain ks us where c: "close_upvalues_above (fr_base f) ?s = (VOk (), ?s\<lparr>open_upvalues := ks, upvals := us\<rparr>)"
    and ok: "upvalues_ok (?s\<lparr>open_upvalues := ks, upvals := us\<rparr>)"
    and low: "\<forall>u < length us. \<forall>i. us ! u = UOpen i \<longrightarrow> i < fr_base f"
    using close_upvalues_above_ok by blast
  let ?t = "cleanup_transact_above (fr_base f) (?s\<lparr>open_upvalues := ks, upvals := us\<rparr>)"
  have "upvalues_ok ?t" using ok by (rule upvalues_ok_cong [THEN iffD2, rotated -1]) simp_all
  then have "upvalues_ok (truncate_stack (fr_base f) ?t)" by (rule upvalues_ok_truncate) (use low in simp)
  then show ?thesis using assms(2) c by (simp add: pop_frame_unwinding_def vm_simps)
qed

lemma handlers_from_none:
  "list_all (\<lambda>g. eh_frame g \<noteq> d) hs \<Longrightarrow> handlers_from d hs = []"
  by (auto simp: handlers_from_def dropWhile_eq_Nil_conv list_all_iff)

lemma unwind_pop:
  assumes "handlers_from (length (frames s)) (exception_handlers s) = []" and "depth < length (frames s)"
    and "pop_frame_unwinding True s = (VOk (), s')"
  shows "unwind_exception v sp depth s = unwind_exception v sp depth s'"
  using assms by (subst unwind_exception.simps) simp

text \<open>Popping every frame above depth \<open>d\<close>, none of which has a handler.\<close>

lemma unwind_to:
  assumes "upvalues_ok s" and "list_all (\<lambda>g. eh_frame g \<le> d) (exception_handlers s)" and "depth \<le> d"
    and "d \<le> length (frames s)"
  shows "\<exists>s'. unwind_exception v sp depth s = unwind_exception v sp depth s' \<and> upvalues_ok s'
     \<and> frames s' = drop (length (frames s) - d) (frames s)
     \<and> stack s' = foldl (\<lambda>st f. take (fr_base f) st) (stack s) (take (length (frames s) - d) (frames s))
     \<and> exception_handlers s' = exception_handlers s \<and> pending_exception s' = pending_exception s
     \<and> loop_handlers s' = loop_handlers s"
  using assms
proof (induction "length (frames s) - d" arbitrary: s)
  case 0
  then show ?case by (intro exI [of _ s]) simp
next
  case (Suc n)
  then obtain f fs where f: "frames s = f # fs" by (cases "frames s") auto
  obtain s1 where p: "pop_frame_unwinding True s = (VOk (), s1)" and ok: "upvalues_ok s1"
    and s1: "frames s1 = fs" "stack s1 = take (fr_base f) (stack s)" "exception_handlers s1 = exception_handlers s"
      "pending_exception s1 = pending_exception s" "loop_handlers s1 = loop_handlers s"
    using pop_frame_run [OF Suc.prems(1) f] by blast
  have "handlers_from (length (frames s)) (exception_handlers s) = []"
    using Suc.prems(2) Suc.hyps(2) by (intro handlers_from_none) (auto simp: list_all_iff)
  then have "unwind_exception v sp depth s = unwind_exception v sp depth s1"
    using Suc.hyps(2) Suc.prems(3) by (intro unwind_pop p) auto
  moreover have "n = length (frames s1) - d" "d \<le> length (frames s1)" "Suc (length fs) - d = Suc (length fs - d)"
    using Suc.hyps(2) Suc.prems(4) f s1 by auto
  ultimately show ?case using Suc.hyps(1) [of s1] ok Suc.prems(2,3) s1 f by auto
qed

lemma foldl_take_le:
  "list_all (\<lambda>f. n \<le> fr_base f) fs \<Longrightarrow> take n (foldl (\<lambda>st f. take (fr_base f) st) st fs) = take n st"
  by (induction fs arbitrary: st) (auto simp: min_def)

section \<open>Exceptions\<close>

text \<open>
  C11. A raised exception reaches the innermost handler: when the newest exception handler
  belongs to frame depth \<open>d\<close> at or above the depth the dispatch loop may unwind to, every
  younger frame is popped, the operand stack is cut to the height at which the \<open>try\<close> began
  with the exception on top, the handler and only it is consumed, the exception is pending,
  and the frame continues at the rescue code, or at the ensure code if there is none.
\<close>

theorem exception_reaches_handler:
  assumes "upvalues_ok s" and "exception_handlers s = h # rest" and "frames s \<noteq> []"
    and "depth \<le> eh_frame h" and "0 < eh_frame h" and "eh_frame h \<le> length (frames s)"
    and "list_all (\<lambda>g. eh_frame g \<le> eh_frame h) rest"
    and "list_all (\<lambda>f. eh_stack h \<le> fr_base f) (take (length (frames s) - eh_frame h) (frames s))"
    and "eh_rescue h = Some pc \<or> eh_rescue h = None \<and> eh_ensure h = Some pc"
  shows "\<exists>s' f fs. handle_signal (UserException v sp) depth s = (VOk SigContinue, s')
     \<and> drop (length (frames s) - eh_frame h) (frames s) = f # fs
     \<and> frames s' = f\<lparr>fr_ip := pc\<rparr> # fs
     \<and> stack s' = take (eh_stack h) (stack s) @ [v]
     \<and> exception_handlers s' = rest \<and> pending_exception s' = Some v"
proof -
  obtain s1 where u: "unwind_exception v sp depth s = unwind_exception v sp depth s1"
    and s1: "frames s1 = drop (length (frames s) - eh_frame h) (frames s)"
      "stack s1 = foldl (\<lambda>st f. take (fr_base f) st) (stack s) (take (length (frames s) - eh_frame h) (frames s))"
      "exception_handlers s1 = h # rest"
    using unwind_to [OF assms(1), of "eh_frame h" depth v sp] assms(2,4,6,7) by auto
  have len: "length (frames s1) = eh_frame h" using s1(1) assms(6) by simp
  then obtain f fs where f: "frames s1 = f # fs" using assms(5) by (cases "frames s1") auto
  have hf: "handlers_from (length (frames s1)) (exception_handlers s1) = h # rest"
    unfolding len by (simp add: s1(3) handlers_from_def)
  let ?s = "enter_handler h rest v s1"
  have st: "take (eh_stack h) (stack s1) = take (eh_stack h) (stack s)"
    unfolding s1(2) by (rule foldl_take_le [OF assms(8)])
  have "unwind_exception v sp depth s1 = jump_to pc ?s"
    using hf assms(9) by (subst unwind_exception.simps) auto
  then have "handle_signal (UserException v sp) depth s = jump_to pc ?s" by (simp add: u)
  moreover have "jump_to pc ?s = (VOk SigContinue, set_top (f\<lparr>fr_ip := pc\<rparr>) ?s)"
    using f by (simp add: jump_to_def set_ip_def current_frame_def vm_simps)
  ultimately show ?thesis using f s1(1) st by (auto simp: set_top_def)
qed


text \<open>The witness: the exception is raised in a callee of the frame that has the \<open>try\<close>.\<close>

definition sample_frame :: "nat \<Rightarrow> 'd frame" where
  "sample_frame base =
     \<lparr>fr_closure = closure_vm_new (chunk_new None 0) [], fr_ip = 7, fr_base = base, fr_actor_env = None\<rparr>"

theorem exception_reaches_handler_witness:
  "\<exists>s'. handle_signal (UserException (VInt 3) None) 1
       ((sample_state :: fixed vm_state)\<lparr>frames := [sample_frame 1, sample_frame 0], stack := [VNil, VInt 1, VInt 2],
         exception_handlers := [\<lparr>eh_rescue = Some 9, eh_ensure = None, eh_stack = 1, eh_frame = 1\<rparr>]\<rparr>)
     = (VOk SigContinue, s')
   \<and> frames s' = [(sample_frame 0)\<lparr>fr_ip := 9\<rparr>] \<and> stack s' = [VNil, VInt 3] \<and> exception_handlers s' = []"
proof -
  let ?h = "\<lparr>eh_rescue = Some 9, eh_ensure = None, eh_stack = 1, eh_frame = 1\<rparr> :: exception_handler"
  let ?s = "(sample_state :: fixed vm_state)\<lparr>frames := [sample_frame 1, sample_frame 0],
    stack := [VNil, VInt 1, VInt 2], exception_handlers := [?h]\<rparr>"
  have "upvalues_ok ?s" by (simp add: upvalues_ok_def open_sorted_def sample_state_def)
  from exception_reaches_handler [OF this, of ?h "[]" 1 9 "VInt 3" None] show ?thesis
    by (simp add: sample_frame_def) blast
qed

text \<open>
  C12. An exception without a handler escapes at the depth of the dispatch loop: when every
  exception handler belongs to a frame below depth \<open>d\<close>, all frames above it are popped and
  the exception comes out unchanged, with its span and without touching the older handlers.
\<close>

theorem uncaught_exception_escapes:
  assumes "upvalues_ok s" and "list_all (\<lambda>g. eh_frame g < depth) (exception_handlers s)"
    and "depth \<le> length (frames s)"
  shows "\<exists>s'. handle_signal (UserException v sp) depth s = (VErr (UserException v sp), s') \<and> upvalues_ok s'
     \<and> frames s' = drop (length (frames s) - depth) (frames s)
     \<and> exception_handlers s' = exception_handlers s \<and> pending_exception s' = pending_exception s"
proof -
  have "list_all (\<lambda>g. eh_frame g \<le> depth) (exception_handlers s)" using assms(2) by (auto simp: list_all_iff)
  then obtain s1 where u: "unwind_exception v sp depth s = unwind_exception v sp depth s1" and s1: "upvalues_ok s1"
      "frames s1 = drop (length (frames s) - depth) (frames s)" "exception_handlers s1 = exception_handlers s"
      "pending_exception s1 = pending_exception s"
    using unwind_to [OF assms(1), of depth depth v sp] assms(3) by auto
  have "handlers_from (length (frames s1)) (exception_handlers s1) = []"
    using assms(2,3) s1(2,3) by (intro handlers_from_none) (auto simp: list_all_iff)
  then have "unwind_exception v sp depth s1 = (VErr (UserException v sp), s1)"
    using s1(2) assms(3) by (subst unwind_exception.simps) simp
  then show ?thesis using u s1 by auto
qed

theorem uncaught_exception_escapes_witness:
  "\<exists>s'. handle_signal (UserException (VInt 3) None) 1
       ((sample_state :: fixed vm_state)\<lparr>frames := [sample_frame 0, sample_frame 0]\<rparr>)
     = (VErr (UserException (VInt 3) None), s') \<and> frames s' = [sample_frame 0]"
proof -
  let ?s = "(sample_state :: fixed vm_state)\<lparr>frames := [sample_frame 0, sample_frame 0]\<rparr>"
  have "upvalues_ok ?s" by (simp add: upvalues_ok_def open_sorted_def sample_state_def)
  from uncaught_exception_escapes [OF this, of 1 "VInt 3" None] show ?thesis
    by (simp add: sample_state_def) blast
qed

section \<open>Returning\<close>

text \<open>No handler belongs to a frame that is gone.\<close>

definition handlers_live :: "'d vm_state \<Rightarrow> bool" where
  "handlers_live s \<longleftrightarrow>
     list_all (\<lambda>h. lh_frame h \<le> length (frames s)) (loop_handlers s)
   \<and> list_all (\<lambda>h. eh_frame h \<le> length (frames s)) (exception_handlers s)
   \<and> list_all (\<lambda>h. th_frame h \<le> length (frames s)) (transact_handlers s)"

text \<open>
  C13. \<open>Return\<close> restores the caller: it never panics in a frame, pops exactly that frame, leaves
  the caller's part of the operand stack with the result on top, leaves no handler of a frame
  that is gone, and every captured variable reads as before.
\<close>

theorem return_restores_caller:
  assumes "upvalues_ok s" and "frames s = f # fs"
  shows "\<exists>s'. return_from_frame ret s = (VOk (), s') \<and> upvalues_ok s' \<and> handlers_live s' \<and> frames s' = fs
     \<and> stack s' = take (fr_base f) (stack s) @ [ret]
     \<and> list_all (\<lambda>u. fst (upvalue_read u s') = fst (upvalue_read u s)) [0..<length (upvals s)]"
proof -
  let ?s = "s\<lparr>frames := fs\<rparr>"
  have "upvalues_ok ?s" using assms(1) by (simp add: upvalues_ok_def)
  then obtain ks us where c: "close_upvalues_above (fr_base f) ?s = (VOk (), ?s\<lparr>open_upvalues := ks, upvals := us\<rparr>)"
    and l: "length us = length (upvals s)" and ok: "upvalues_ok (?s\<lparr>open_upvalues := ks, upvals := us\<rparr>)"
    and vals: "\<forall>u < length us. upvalue_value (stack s) (us ! u) = upvalue_value (stack s) (upvals s ! u)"
    and low: "\<forall>u < length us. \<forall>i. us ! u = UOpen i \<longrightarrow> i < fr_base f"
    using close_upvalues_above_ok [of ?s "fr_base f"] by auto
  let ?t = "drop_inner_handlers (length fs) (?s\<lparr>open_upvalues := ks, upvals := us\<rparr>)"
  let ?r = "(truncate_stack (fr_base f) ?t)\<lparr>stack := take (fr_base f) (stack s) @ [ret]\<rparr>"
  have run: "return_from_frame ret s = (VOk (), ?r)"
    using assms(2) c by (simp add: return_from_frame_def vm_simps Let_def drop_inner_handlers_def)
  have "upvalue_value (take (fr_base f) (stack s) @ [ret]) (us ! u) = upvalue_value (stack s) (us ! u)"
    if "u < length us" for u
  proof (cases "us ! u")
    case (UOpen i)
    then have "i < fr_base f" "i < length (stack s)" using low ok that by (auto simp: upvalues_ok_def)
    then show ?thesis using UOpen by (simp add: upvalue_value_def nth_append)
  qed (simp add: upvalue_value_def)
  then have "fst (upvalue_read u ?r) = fst (upvalue_read u s)" if "u < length us" for u
    using vals that by (simp add: upvalue_read_value truncate_stack_def drop_inner_handlers_def split: option.split)
  moreover have "upvalues_ok ?r"
    using ok low by (fastforce simp: upvalues_ok_def truncate_stack_def drop_inner_handlers_def min_def)
  moreover have "handlers_live ?r" by (simp add: handlers_live_def drop_inner_handlers_def list_all_iff truncate_stack_def)
  ultimately show ?thesis using run l by (simp add: drop_inner_handlers_def list_all_iff)
qed

theorem return_restores_caller_witness:
  "\<exists>s'. return_from_frame (VInt 9)
       ((sample_state :: fixed vm_state)\<lparr>frames := [sample_frame 1, sample_frame 0], stack := [VInt 1, VInt 2],
         upvals := [UOpen 1], open_upvalues := [0]\<rparr>) = (VOk (), s')
     \<and> frames s' = [sample_frame 0] \<and> stack s' = [VInt 1, VInt 9] \<and> fst (upvalue_read 0 s') = VOk (VInt 2)"
proof -
  let ?s = "(sample_state :: fixed vm_state)\<lparr>frames := [sample_frame 1, sample_frame 0], stack := [VInt 1, VInt 2],
         upvals := [UOpen 1], open_upvalues := [0]\<rparr>"
  have "upvalues_ok ?s" by (simp add: upvalues_ok_def open_sorted_def stack_index_def)
  from return_restores_caller [OF this, of "sample_frame 1" "[sample_frame 0]" "VInt 9"] show ?thesis
    by (auto simp: upvalue_read_value upvalue_value_def sample_frame_def)
qed

section \<open>What unwinding leaves behind\<close>

lemma handlers_from_top [simp]: "eh_frame h = d \<Longrightarrow> handlers_from d (h # hs) = h # hs"
  by (simp add: handlers_from_def)

lemma nonzero_pos: "n \<noteq> 0 \<Longrightarrow> nonzero n = Some n"
  by (simp add: nonzero_def)

lemma jump_to_run: "frames s = f # fs \<Longrightarrow> jump_to pc s = (VOk SigContinue, set_top (f\<lparr>fr_ip := pc\<rparr>) s)"
  by (simp add: jump_to_def set_ip_def current_frame_def vm_simps)

lemma raise_in_frame:
  assumes "frames s = f # fs" and "exception_handlers s = h # rest" and "eh_frame h = length (frames s)"
    and "eh_rescue h = Some pc"
  shows "handle_signal (UserException v sp) depth s
    = (VOk SigContinue, set_top (f\<lparr>fr_ip := pc\<rparr>) (enter_handler h rest v s))"
  using assms by (simp add: unwind_exception.simps jump_to_run)

lemma set_top_other [simp]:
  "loop_handlers (set_top f s) = loop_handlers s" "exception_handlers (set_top f s) = exception_handlers s"
  "stack (set_top f s) = stack s" "frames (set_top f s) = f # tl (frames s)" "upvals (set_top f s) = upvals s"
  by (simp_all add: set_top_def)

text \<open>
  A rescued exception does not leave the loop it was raised in: \<open>handle_signal\<close> keeps the
  loop handlers that were pushed inside the \<open>try\<close>, so that a \<open>break\<close> in the rescue clause,
  which belongs to the loop around the \<open>try\<close>, goes to the end of the abandoned inner loop.
\<close>

theorem rescue_breaks_wrong_loop:
  assumes "frames s = f # fs" and "rescue_addr \<noteq> 0"
  shows "\<exists>s'. thenV (push_loop c1 b1) (thenV (push_try rescue_addr ensure_addr) (thenV (push_loop c2 b2)
       (bindV (handle_signal (UserException v sp) depth) (\<lambda>_. handle_signal (BreakSignal w sp') depth)))) s
     = (VOk SigContinue, s') \<and> frames s' = f\<lparr>fr_ip := b2\<rparr> # fs"
proof -
  let ?n = "length (stack s)" and ?d = "length (frames s)"
  let ?h = "\<lparr>eh_rescue = Some rescue_addr, eh_ensure = nonzero ensure_addr, eh_stack = ?n, eh_frame = ?d\<rparr>"
  let ?s = "s\<lparr>exception_handlers := ?h # exception_handlers s,
    loop_handlers := \<lparr>lh_continue = c2, lh_break = b2, lh_stack = ?n, lh_frame = ?d\<rparr>
      # \<lparr>lh_continue = c1, lh_break = b1, lh_stack = ?n, lh_frame = ?d\<rparr> # loop_handlers s\<rparr>"
  have "handle_signal (UserException v sp) depth ?s
      = (VOk SigContinue, set_top (f\<lparr>fr_ip := rescue_addr\<rparr>) (enter_handler ?h (exception_handlers s) v ?s))"
    by (rule raise_in_frame) (simp_all add: assms(1))
  then show ?thesis using assms
    by (simp add: push_loop_def push_try_def nonzero_pos vm_simps signal_break_def jump_to_run)
qed

theorem rescue_breaks_wrong_loop_witness:
  "\<exists>s'. thenV (push_loop 10 40) (thenV (push_try 30 0) (thenV (push_loop 12 20)
       (bindV (handle_signal (UserException VNil None) 1) (\<lambda>_. handle_signal (BreakSignal None None) 1))))
       ((sample_state :: fixed vm_state)\<lparr>frames := [sample_frame 0]\<rparr>)
     = (VOk SigContinue, s') \<and> frames s' = [(sample_frame 0)\<lparr>fr_ip := 20\<rparr>]"
  using rescue_breaks_wrong_loop [of "(sample_state :: fixed vm_state)\<lparr>frames := [sample_frame 0]\<rparr>"
      "sample_frame 0" "[]" 30 10 40 0 12 20 VNil None 1 None None] by simp

text \<open>
  A \<open>break\<close> out of a \<open>try\<close> does not leave it: the exception handler stays, and an
  exception raised after the loop, outside every \<open>try\<close>, runs the rescue code of the loop body.
\<close>

theorem break_keeps_rescue_armed:
  assumes "frames s = f # fs" and "rescue_addr \<noteq> 0"
  shows "\<exists>s'. thenV (push_loop c b) (thenV (push_try rescue_addr ensure_addr)
       (bindV (handle_signal (BreakSignal w sp') depth) (\<lambda>_. thenV pop_loop
         (handle_signal (UserException v sp) depth)))) s
     = (VOk SigContinue, s') \<and> frames s' = f\<lparr>fr_ip := rescue_addr\<rparr> # fs \<and> loop_handlers s' = loop_handlers s"
proof -
  let ?n = "length (stack s)" and ?d = "length (frames s)"
  let ?h = "\<lparr>eh_rescue = Some rescue_addr, eh_ensure = nonzero ensure_addr, eh_stack = ?n, eh_frame = ?d\<rparr>"
  let ?s = "set_top (f\<lparr>fr_ip := b\<rparr>) (s\<lparr>exception_handlers := ?h # exception_handlers s, stack := stack s @ [or_nil w]\<rparr>)"
  have "handle_signal (UserException v sp) depth ?s
      = (VOk SigContinue, set_top (f\<lparr>fr_ip := b, fr_ip := rescue_addr\<rparr>) (enter_handler ?h (exception_handlers s) v ?s))"
    by (rule raise_in_frame) (simp_all add: assms(1))
  moreover have "thenV (push_loop c b) (thenV (push_try rescue_addr ensure_addr)
      (bindV (handle_signal (BreakSignal w sp') depth) (\<lambda>_. pop_loop))) s = (VOk (), ?s)"
    using assms by (simp add: push_loop_def push_try_def nonzero_pos vm_simps signal_break_def jump_to_run pop_loop_def
        set_top_def)
  ultimately show ?thesis using assms
    by (simp add: push_loop_def push_try_def nonzero_pos vm_simps signal_break_def jump_to_run pop_loop_def set_top_def)
qed

theorem break_keeps_rescue_armed_witness:
  "\<exists>s'. thenV (push_loop 10 40) (thenV (push_try 30 0)
       (bindV (handle_signal (BreakSignal None None) 1) (\<lambda>_. thenV pop_loop
         (handle_signal (UserException VNil None) 1))))
       ((sample_state :: fixed vm_state)\<lparr>frames := [sample_frame 0]\<rparr>)
     = (VOk SigContinue, s') \<and> frames s' = [(sample_frame 0)\<lparr>fr_ip := 30\<rparr>]"
  using break_keeps_rescue_armed [of "(sample_state :: fixed vm_state)\<lparr>frames := [sample_frame 0]\<rparr>"
      "sample_frame 0" "[]" 30 10 40 0 None None 1 VNil None] by simp blast

text \<open>
  A closure made inside a \<open>try\<close> loses its captured variable when the \<open>try\<close> is left by an
  exception: the stack is cut without closing the upvalue, and the first slot of the \<open>try\<close>
  body now holds the exception, which is what the closure reads.
\<close>

theorem rescue_overwrites_capture:
  assumes "frames s = f # fs" and "rescue_addr \<noteq> 0"
  shows "fst (thenV (push_try rescue_addr ensure_addr) (thenV (push_val local)
       (bindV (new_upvalue (length (stack s))) (\<lambda>u.
         bindV (handle_signal (UserException v sp) depth) (\<lambda>_. upvalue_read u)))) s) = VOk v"
proof -
  let ?n = "length (stack s)" and ?u = "length (upvals s)"
  let ?h = "\<lparr>eh_rescue = Some rescue_addr, eh_ensure = nonzero ensure_addr, eh_stack = ?n, eh_frame = length (frames s)\<rparr>"
  let ?s = "s\<lparr>exception_handlers := ?h # exception_handlers s, stack := stack s @ [local]\<rparr>"
  obtain t where new: "new_upvalue ?n ?s = (VOk ?u, t)" and t: "frames t = frames s" "stack t = stack s @ [local]"
      "exception_handlers t = ?h # exception_handlers s" "upvals t = upvals s @ [UOpen ?n]"
    by (simp add: new_upvalue_def insert_open_upvalue_def)
  have "handle_signal (UserException v sp) depth t
      = (VOk SigContinue, set_top (f\<lparr>fr_ip := rescue_addr\<rparr>) (enter_handler ?h (exception_handlers s) v t))"
    by (rule raise_in_frame) (simp_all add: assms(1) t)
  then show ?thesis using assms new t
    by (simp add: push_try_def nonzero_pos vm_simps push_val_def upvalue_read_value upvalue_value_def
        enter_handler_def Let_def nth_append)
qed

theorem rescue_overwrites_capture_witness:
  "fst (thenV (push_try 30 0) (thenV (push_val (VInt 5)) (bindV (new_upvalue 0) (\<lambda>u.
      bindV (handle_signal (UserException (VInt 7) None) 1) (\<lambda>_. upvalue_read u))))
      ((sample_state :: fixed vm_state)\<lparr>frames := [sample_frame 0]\<rparr>)) = VOk (VInt 7)"
  using rescue_overwrites_capture [of "(sample_state :: fixed vm_state)\<lparr>frames := [sample_frame 0]\<rparr>"
      "sample_frame 0" "[]" 30 0 "VInt 5" "VInt 7" None 1] by (simp add: sample_state_def)

text \<open>
  What a program does with shared cells later: it assigns to some, on their own (\<open>None\<close>) or in a \<open>transact\<close> block
  that starts at an address and is committed.
\<close>

definition later_writes :: "nat option \<times> (nat \<times> 'd rt_value) list \<Rightarrow> ('d, unit) vm" where
  "later_writes w = (case fst w of
     None \<Rightarrow> write_all (snd w)
   | Some p \<Rightarrow> thenV (push_transact p) (thenV (write_all (snd w)) transact_commit))"

primrec run_later :: "(nat option \<times> (nat \<times> 'd rt_value) list) list \<Rightarrow> ('d, unit) vm" where
  "run_later [] = retV ()"
| "run_later (w # ws) = thenV (later_writes w) (run_later ws)"

lemma same_transactions: "txn_stack s = ts \<Longrightarrow> s\<lparr>txn_stack := ts\<rparr> = (s :: 'd vm_state)"
  by (cases s) simp

lemma retV_transactions: "txn_stack s = t # ts \<Longrightarrow> \<exists>t'. retV () s = (VOk (), s\<lparr>txn_stack := t' # ts\<rparr>)"
  using same_transactions [of s "t # ts"] by (intro exI [of _ t]) (simp add: vm_simps)

lemma write_all_open:
  "txn_stack s = t # ts \<Longrightarrow> \<exists>t'. write_all ws s = (VOk (), s\<lparr>txn_stack := t' # ts\<rparr>)"
proof (induction ws arbitrary: s t)
  case (Cons w ws)
  obtain a v where w: "w = (a, v)" by fastforce
  let ?t = "t\<lparr>tx_writes := entry_insert (=) a v (tx_writes t)\<rparr>"
  have "write_shared a v s = (VOk (), s\<lparr>txn_stack := ?t # ts\<rparr>)"
    using Cons.prems by (simp add: write_shared_def stm_write_def vm_simps)
  moreover obtain t' where "write_all ws (s\<lparr>txn_stack := ?t # ts\<rparr>) = (VOk (), s\<lparr>txn_stack := t' # ts\<rparr>)"
    using Cons.IH [of "s\<lparr>txn_stack := ?t # ts\<rparr>" ?t] by auto
  ultimately show ?case using w by (simp add: vm_simps) blast
qed (simp add: retV_transactions)

lemma later_writes_open:
  assumes "txn_stack s = t # ts" and "\<forall>p. fst w = Some p \<longrightarrow> list_all (\<lambda>h. th_retry_addr h \<noteq> p) (transact_handlers s)"
  shows "\<exists>t'. later_writes w s = (VOk (), s\<lparr>txn_stack := t' # ts\<rparr>)"
proof (cases "fst w")
  case None
  then show ?thesis using write_all_open [OF assms(1)] by (simp add: later_writes_def)
next
  case (Some p)
  let ?h = "\<lparr>th_retry_addr = p, th_stack = length (stack s), th_frame = length (frames s), th_retries = 0\<rparr>"
  let ?s = "s\<lparr>transact_handlers := ?h # transact_handlers s, txn_stack := transaction_new # t # ts\<rparr>"
  have "push_transact p s = (VOk (), ?s)"
    using assms Some by (cases "transact_handlers s") (simp_all add: push_transact_def vm_simps)
  moreover obtain u where "write_all (snd w) ?s = (VOk (), ?s\<lparr>txn_stack := u # t # ts\<rparr>)"
    using write_all_open [of ?s transaction_new "t # ts" "snd w"] by auto
  ultimately show ?thesis
    using Some by (simp add: later_writes_def vm_simps transact_commit_def) blast
qed

lemma run_later_open:
  assumes "txn_stack s = t # ts" and "\<forall>w \<in> set ws. \<forall>p. fst w = Some p \<longrightarrow> list_all (\<lambda>h. th_retry_addr h \<noteq> p) (transact_handlers s)"
  shows "\<exists>t'. run_later ws s = (VOk (), s\<lparr>txn_stack := t' # ts\<rparr>)"
  using assms
proof (induction ws arbitrary: s t)
  case (Cons w ws)
  then obtain t1 where w: "later_writes w s = (VOk (), s\<lparr>txn_stack := t1 # ts\<rparr>)"
    using later_writes_open [of s t ts w] by auto
  then obtain t' where "run_later ws (s\<lparr>txn_stack := t1 # ts\<rparr>) = (VOk (), s\<lparr>txn_stack := t' # ts\<rparr>)"
    using Cons.IH [of "s\<lparr>txn_stack := t1 # ts\<rparr>" t1] Cons.prems by auto
  then show ?case using w by (simp add: vm_simps) blast
qed (simp add: retV_transactions)

text \<open>
  C31. A \<open>return\<close> out of a \<open>transact\<close> block does not end its transaction: the handler goes with the frame but the
  transaction stays on its stack. Whatever is assigned to shared cells afterwards, on its own or in \<open>transact\<close> blocks
  that commit, is buffered in it: no cell changes, and it stays open.
\<close>

theorem return_leaks_transaction:
  assumes "upvalues_ok s" and "frames s = f # fs" and "list_all (\<lambda>h. th_retry_addr h \<noteq> addr) (transact_handlers s)"
    and "list_all (\<lambda>h. th_frame h \<le> length fs) (transact_handlers s)"
    and "\<forall>w \<in> set ws. \<forall>p. fst w = Some p \<longrightarrow> list_all (\<lambda>h. th_retry_addr h \<noteq> p) (transact_handlers s)"
  shows "\<exists>s'. thenV (push_transact addr) (thenV (return_from_frame ret) (run_later ws)) s = (VOk (), s')
     \<and> cells s' = cells s \<and> transact_handlers s' = transact_handlers s
     \<and> length (txn_stack s') = Suc (length (txn_stack s))"
proof -
  let ?h = "\<lparr>th_retry_addr = addr, th_stack = length (stack s), th_frame = length (frames s), th_retries = 0\<rparr>"
  let ?s = "s\<lparr>transact_handlers := ?h # transact_handlers s, txn_stack := transaction_new # txn_stack s\<rparr>"
  have push: "push_transact addr s = (VOk (), ?s)"
    using assms(3) by (cases "transact_handlers s") (simp_all add: push_transact_def vm_simps)
  have "upvalues_ok (?s\<lparr>frames := fs\<rparr>)" using assms(1) by (simp add: upvalues_ok_def)
  then obtain ks us where "close_upvalues_above (fr_base f) (?s\<lparr>frames := fs\<rparr>)
      = (VOk (), ?s\<lparr>frames := fs, open_upvalues := ks, upvals := us\<rparr>)"
    using close_upvalues_above_ok by blast
  then obtain t where ret: "return_from_frame ret ?s = (VOk (), t)" and t: "cells t = cells s"
      "txn_stack t = transaction_new # txn_stack s"
      "transact_handlers t = filter (\<lambda>h. th_frame h \<le> length fs) (?h # transact_handlers s)"
    using assms(2) by (simp add: return_from_frame_def vm_simps Let_def drop_inner_handlers_def)
  have "transact_handlers t = transact_handlers s"
    using t(3) assms(2,4) by (simp add: list_all_iff filter_id_conv)
  moreover from this obtain t' where "run_later ws t = (VOk (), t\<lparr>txn_stack := t' # txn_stack s\<rparr>)"
    using run_later_open [OF t(2), of ws] assms(5) by auto
  ultimately show ?thesis using push ret t by (simp add: vm_simps)
qed

theorem return_leaks_transaction_witness:
  "\<exists>s'. thenV (push_transact 4) (thenV (return_from_frame VNil) (run_later [(None, [(0, VInt 2)]), (Some 9, [(0, VInt 3)])]))
       ((sample_state :: fixed vm_state)\<lparr>frames := [sample_frame 0, sample_frame 0],
          cells := [\<lparr>sc_value = VInt 1, sc_version = 0\<rparr>]\<rparr>) = (VOk (), s')
     \<and> cells s' = [\<lparr>sc_value = VInt 1, sc_version = 0\<rparr>] \<and> transact_handlers s' = []"
proof -
  let ?s = "(sample_state :: fixed vm_state)\<lparr>frames := [sample_frame 0, sample_frame 0],
          cells := [\<lparr>sc_value = VInt 1, sc_version = 0\<rparr>]\<rparr>"
  have "upvalues_ok ?s" by (simp add: upvalues_ok_def open_sorted_def sample_state_def)
  from return_leaks_transaction [OF this, of "sample_frame 0" "[sample_frame 0]" 4 "[(None, [(0, VInt 2)]), (Some 9, [(0, VInt 3)])]" VNil]
  show ?thesis by (auto simp: sample_state_def)
qed

text \<open>
  An exception out of a \<open>transact\<close> block that begins at the stack height of the enclosing \<open>try\<close>
  does not roll it back: \<open>cleanup_transact_above\<close> only drops transactions that began strictly
  higher, so the rescue code still runs inside the transaction and sees its buffered writes.
\<close>

theorem rescue_inside_transaction:
  assumes "frames s = f # fs" and "rescue_addr \<noteq> 0"
    and "list_all (\<lambda>h. th_retry_addr h \<noteq> addr) (transact_handlers s)"
  shows "\<exists>s'. thenV (push_try rescue_addr ensure_addr) (thenV (push_transact addr) (thenV (write_shared a v)
       (bindV (handle_signal (UserException e sp) depth) (\<lambda>_. read_shared (VShared a))))) s = (VOk v, s')
     \<and> cells s' = cells s \<and> length (txn_stack s') = Suc (length (txn_stack s))
     \<and> length (transact_handlers s') = Suc (length (transact_handlers s))"
proof -
  let ?n = "length (stack s)" and ?d = "length (frames s)"
  let ?h = "\<lparr>eh_rescue = Some rescue_addr, eh_ensure = nonzero ensure_addr, eh_stack = ?n, eh_frame = ?d\<rparr>"
  let ?t = "\<lparr>th_retry_addr = addr, th_stack = ?n, th_frame = ?d, th_retries = 0\<rparr>"
  let ?s = "s\<lparr>exception_handlers := ?h # exception_handlers s,
    transact_handlers := ?t # transact_handlers s,
    txn_stack := \<lparr>tx_writes = [(a, v)], tx_reads = []\<rparr> # txn_stack s\<rparr>"
  have *: "\<not> (case transact_handlers s of [] \<Rightarrow> False | h # _ \<Rightarrow> th_retry_addr h = addr)"
    using assms(3) by (cases "transact_handlers s") simp_all
  have up: "thenV (push_try rescue_addr ensure_addr) (thenV (push_transact addr) (write_shared a v)) s = (VOk (), ?s)"
    using assms * by (simp add: push_try_def nonzero_pos vm_simps push_transact_def Let_def write_shared_def
        stm_write_def transaction_new_def)
  have down: "handle_signal (UserException e sp) depth ?s
      = (VOk SigContinue, set_top (f\<lparr>fr_ip := rescue_addr\<rparr>) (enter_handler ?h (exception_handlers s) e ?s))"
    by (rule raise_in_frame) (simp_all add: assms(1))
  have "txn_stack (enter_handler ?h (exception_handlers s) e ?s) = \<lparr>tx_writes = [(a, v)], tx_reads = []\<rparr> # txn_stack s"
    and "transact_handlers (enter_handler ?h (exception_handlers s) e ?s) = ?t # transact_handlers s"
    by (simp_all add: enter_handler_def Let_def cleanup_transact_above_def)
  then show ?thesis
    using assms * down by (simp add: push_try_def nonzero_pos vm_simps push_transact_def Let_def write_shared_def
        stm_write_def transaction_new_def read_shared_def stm_read_def set_top_def)
qed

theorem rescue_inside_transaction_witness:
  "\<exists>s'. thenV (push_try 30 0) (thenV (push_transact 4) (thenV (write_shared 0 (VInt 2))
       (bindV (handle_signal (UserException VNil None) 1) (\<lambda>_. read_shared (VShared 0)))))
       ((sample_state :: fixed vm_state)\<lparr>frames := [sample_frame 0],
          cells := [\<lparr>sc_value = VInt 1, sc_version = 0\<rparr>]\<rparr>) = (VOk (VInt 2), s')
     \<and> cells s' = [\<lparr>sc_value = VInt 1, sc_version = 0\<rparr>] \<and> length (txn_stack s') = 1"
  using rescue_inside_transaction [of "(sample_state :: fixed vm_state)\<lparr>frames := [sample_frame 0],
          cells := [\<lparr>sc_value = VInt 1, sc_version = 0\<rparr>]\<rparr>" "sample_frame 0" "[]" 30 4 0 0 "VInt 2" VNil None 1]
  by (auto simp: sample_state_def)

end
