(* ===== verification/Compiler_State.thy ===== *)
theory Compiler_State
  imports Chunk
begin

text \<open>
  The state of the bytecode compiler (\<open>src/compiler/mod.rs\<close>): the function contexts, what they
  emit, scopes and the resolution of names.

  A computation of the compiler gets its state and returns a value and the new state; \<open>None\<close> is a
  panic (too many constants or patterns in one chunk). The \<open>InterpreterError\<close> of the signatures is
  never produced by the source, so the model has no place for it. \<open>func_stack\<close> has the
  innermost function first; locals are in the order of their slots.
\<close>

section \<open>State\<close>

datatype (plugins only: size) function_type = FtScript | FtFunction

record local_var =
  lo_name :: str
  lo_depth :: nat
  lo_captured :: bool

record upvalue_info =
  ui_local :: bool
  ui_index :: nat

record 'd func_ctx =
  fc_chunk :: "'d chunk"
  fc_type :: function_type
  fc_depth :: nat
  fc_locals :: "local_var list"
  fc_upvalues :: "upvalue_info list"

definition func_ctx_new :: "function_type \<Rightarrow> str option \<Rightarrow> 'd func_ctx" where
  "func_ctx_new ty name =
     \<lparr>fc_chunk = chunk_new name 0, fc_type = ty, fc_depth = 0, fc_locals = [], fc_upvalues = []\<rparr>"

record 'd compiler =
  func_stack :: "'d func_ctx list"
  variants :: "(str \<times> nat) list"
  structs :: "str list"

definition compiler_new :: "function_type \<Rightarrow> 'd compiler" where
  "compiler_new ty = \<lparr>func_stack = [func_ctx_new ty (Some (lit ''<script>''))], variants = [], structs = []\<rparr>"

section \<open>Computations\<close>

type_synonym ('d, 'a) cm = "'d compiler \<Rightarrow> ('a \<times> 'd compiler) option"

definition retC :: "'a \<Rightarrow> ('d, 'a) cm" where
  "retC a = (\<lambda>c. Some (a, c))"

definition bindC :: "('d, 'a) cm \<Rightarrow> ('a \<Rightarrow> ('d, 'b) cm) \<Rightarrow> ('d, 'b) cm" where
  "bindC m f = (\<lambda>c. case m c of Some (a, c') \<Rightarrow> f a c' | None \<Rightarrow> None)"

definition thenC :: "('d, unit) cm \<Rightarrow> ('d, 'b) cm \<Rightarrow> ('d, 'b) cm" where
  "thenC m n = bindC m (\<lambda>_. n)"

primrec seqC :: "('d, unit) cm list \<Rightarrow> ('d, unit) cm" where
  "seqC [] = retC ()"
| "seqC (m # ms) = thenC m (seqC ms)"

text \<open>Reading and updating the context of the innermost function.\<close>

definition current :: "('d func_ctx \<Rightarrow> 'a) \<Rightarrow> ('d, 'a) cm" where
  "current g = (\<lambda>c. case func_stack c of f # _ \<Rightarrow> Some (g f, c) | [] \<Rightarrow> None)"

definition current_mut :: "('d func_ctx \<Rightarrow> 'd func_ctx) \<Rightarrow> ('d, unit) cm" where
  "current_mut g = (\<lambda>c. case func_stack c of f # fs \<Rightarrow> Some ((), c\<lparr>func_stack := g f # fs\<rparr>) | [] \<Rightarrow> None)"

lemma bindC_Some: "bindC m f c = Some r \<longleftrightarrow> (\<exists>a c'. m c = Some (a, c') \<and> f a c' = Some r)"
  by (auto simp: bindC_def split: option.splits)

lemma thenC_Some: "thenC m n c = Some r \<longleftrightarrow> (\<exists>c'. m c = Some ((), c') \<and> n c' = Some r)"
  by (simp add: thenC_def bindC_Some)

lemma retC_Some [simp]: "retC a c = Some (b, c') \<longleftrightarrow> b = a \<and> c' = c"
  by (auto simp: retC_def)

lemma current_Some: "current g c = Some (a, c') \<longleftrightarrow> (\<exists>f fs. func_stack c = f # fs \<and> a = g f \<and> c' = c)"
  by (auto simp: current_def split: list.splits)

lemma current_mut_Some:
  "current_mut g c = Some (u, c') \<longleftrightarrow> (\<exists>f fs. func_stack c = f # fs \<and> c' = c\<lparr>func_stack := g f # fs\<rparr>)"
  by (auto simp: current_mut_def split: list.splits)

lemmas cm_Some = bindC_Some thenC_Some current_Some current_mut_Some

section \<open>Emission\<close>

definition put_code :: "u8 list \<Rightarrow> span list \<Rightarrow> 'd chunk \<Rightarrow> 'd chunk" where
  "put_code code spans k = Chunk code (ch_consts k) spans (ch_patterns k) (ch_exception_table k)
     (ch_sub_chunks k) (ch_arity k) (ch_upvalue_count k) (ch_name k)"

definition put_consts :: "'d rt_value list \<Rightarrow> 'd chunk \<Rightarrow> 'd chunk" where
  "put_consts vs k = Chunk (ch_code k) vs (ch_spans k) (ch_patterns k) (ch_exception_table k)
     (ch_sub_chunks k) (ch_arity k) (ch_upvalue_count k) (ch_name k)"

definition put_patterns :: "('d, 'd expr) pattern list \<Rightarrow> 'd chunk \<Rightarrow> 'd chunk" where
  "put_patterns ps k = Chunk (ch_code k) (ch_consts k) (ch_spans k) ps (ch_exception_table k)
     (ch_sub_chunks k) (ch_arity k) (ch_upvalue_count k) (ch_name k)"

definition put_sub_chunks :: "'d chunk list \<Rightarrow> 'd chunk \<Rightarrow> 'd chunk" where
  "put_sub_chunks ks k = Chunk (ch_code k) (ch_consts k) (ch_spans k) (ch_patterns k) (ch_exception_table k)
     ks (ch_arity k) (ch_upvalue_count k) (ch_name k)"

definition put_arity :: "nat \<Rightarrow> 'd chunk \<Rightarrow> 'd chunk" where
  "put_arity n k = Chunk (ch_code k) (ch_consts k) (ch_spans k) (ch_patterns k) (ch_exception_table k)
     (ch_sub_chunks k) n (ch_upvalue_count k) (ch_name k)"

definition put_upvalue_count :: "nat \<Rightarrow> 'd chunk \<Rightarrow> 'd chunk" where
  "put_upvalue_count n k = Chunk (ch_code k) (ch_consts k) (ch_spans k) (ch_patterns k) (ch_exception_table k)
     (ch_sub_chunks k) (ch_arity k) n (ch_name k)"

lemmas put_defs = put_code_def put_consts_def put_patterns_def put_sub_chunks_def put_arity_def put_upvalue_count_def

definition chunk_update :: "('d chunk \<Rightarrow> 'd chunk) \<Rightarrow> 'd func_ctx \<Rightarrow> 'd func_ctx" where
  "chunk_update g f = f\<lparr>fc_chunk := g (fc_chunk f)\<rparr>"

definition current_code_len :: "('d, nat) cm" where
  "current_code_len = current (\<lambda>f. length (ch_code (fc_chunk f)))"

definition emit_u8 :: "u8 \<Rightarrow> ('d, unit) cm" where
  "emit_u8 v = current_mut (chunk_update (\<lambda>k. put_code (write_u8 (ch_code k) v) (ch_spans k @ [span_dummy]) k))"

definition emit_op :: "opcode \<Rightarrow> ('d, unit) cm" where
  "emit_op p = current_mut (chunk_update (\<lambda>k. put_code (ch_code k @ [opcode_byte p]) (ch_spans k @ [span_dummy]) k))"

definition emit_u16 :: "u16 \<Rightarrow> ('d, unit) cm" where
  "emit_u16 v = current_mut (chunk_update (\<lambda>k.
     put_code (write_u16 (ch_code k) v) (ch_spans k @ [span_dummy, span_dummy]) k))"

text \<open>An index as an 8-bit operand: \<open>as u8\<close> drops the high bits.\<close>

definition emit_index :: "nat \<Rightarrow> ('d, unit) cm" where
  "emit_index n = emit_u8 (of_nat n)"

text \<open>The first equal constant is reused.\<close>

fun position :: "('a \<Rightarrow> bool) \<Rightarrow> 'a list \<Rightarrow> nat option" where
  "position P [] = None"
| "position P (x # xs) = (if P x then Some 0 else map_option Suc (position P xs))"

definition emit_const :: "'d ext \<Rightarrow> 'd rt_value \<Rightarrow> ('d, u8) cm" where
  "emit_const X v = bindC (current (\<lambda>f. ch_consts (fc_chunk f))) (\<lambda>cs.
     case position (\<lambda>w. value_eq X w v) cs of
       Some i \<Rightarrow> retC (of_nat i)
     | None \<Rightarrow> if 255 < length cs then (\<lambda>_. None)
               else bindC (current_mut (chunk_update (put_consts (cs @ [v])))) (\<lambda>_. retC (of_nat (length cs))))"

definition patch_u16 :: "nat \<Rightarrow> u16 \<Rightarrow> ('d, unit) cm" where
  "patch_u16 addr v = bindC (current (\<lambda>f. ch_code (fc_chunk f))) (\<lambda>code.
     if addr + 1 < length code
     then current_mut (chunk_update (\<lambda>k.
       put_code ((ch_code k)[addr := ucast (and v 0xff), addr + 1 := ucast (drop_bit 8 v)]) (ch_spans k) k))
     else (\<lambda>_. None))"

definition emit_jump :: "opcode \<Rightarrow> ('d, nat) cm" where
  "emit_jump p = thenC (emit_op p) (bindC current_code_len (\<lambda>addr. thenC (emit_u16 0) (retC addr)))"

definition patch_jump :: "nat \<Rightarrow> ('d, unit) cm" where
  "patch_jump addr = bindC current_code_len (\<lambda>n. patch_u16 addr (of_nat n))"

definition emit_loop :: "nat \<Rightarrow> ('d, unit) cm" where
  "emit_loop start = thenC (emit_op OpLoop) (emit_u16 (of_nat start))"

text \<open>
  The source looks for a stored pattern that is the same object as a fresh copy, which there
  never is: every pattern is added.
\<close>

definition add_pattern :: "('d, 'd expr) pattern \<Rightarrow> ('d, u8) cm" where
  "add_pattern p = bindC (current (\<lambda>f. ch_patterns (fc_chunk f))) (\<lambda>ps.
     if 255 < length ps then (\<lambda>_. None)
     else bindC (current_mut (chunk_update (put_patterns (ps @ [p])))) (\<lambda>_. retC (of_nat (length ps))))"

text \<open>An instruction with one constant, and with a constant and a count, as operands.\<close>

definition op_const :: "'d ext \<Rightarrow> opcode \<Rightarrow> 'd rt_value \<Rightarrow> ('d, unit) cm" where
  "op_const X p v = bindC (emit_const X v) (\<lambda>i. thenC (emit_op p) (emit_u8 i))"

definition op_named :: "'d ext \<Rightarrow> opcode \<Rightarrow> str \<Rightarrow> nat \<Rightarrow> ('d, unit) cm" where
  "op_named X p name n = thenC (op_const X p (VStr name)) (emit_index n)"

definition op_index :: "opcode \<Rightarrow> nat \<Rightarrow> ('d, unit) cm" where
  "op_index p n = thenC (emit_op p) (emit_index n)"

section \<open>Scopes and names\<close>

definition begin_scope :: "('d, unit) cm" where
  "begin_scope = current_mut (\<lambda>f. f\<lparr>fc_depth := fc_depth f + 1\<rparr>)"

definition end_scope :: "('d, nat) cm" where
  "end_scope = bindC (current (\<lambda>f. length (takeWhile (\<lambda>l. lo_depth l = fc_depth f) (rev (fc_locals f))))) (\<lambda>n.
     thenC (current_mut (\<lambda>f. f\<lparr>fc_locals := take (length (fc_locals f) - n) (fc_locals f), fc_depth := fc_depth f - 1\<rparr>))
       (retC n))"

definition declare_local :: "str \<Rightarrow> ('d, nat) cm" where
  "declare_local name = bindC (current (\<lambda>f. length (fc_locals f))) (\<lambda>slot.
     thenC (current_mut (\<lambda>f. f\<lparr>fc_locals :=
         fc_locals f @ [\<lparr>lo_name = name, lo_depth = fc_depth f, lo_captured = False\<rparr>]\<rparr>))
       (retC slot))"

definition pop_local :: "('d, unit) cm" where
  "pop_local = current_mut (\<lambda>f. f\<lparr>fc_locals := butlast (fc_locals f)\<rparr>)"

primrec rposition :: "('a \<Rightarrow> bool) \<Rightarrow> 'a list \<Rightarrow> nat option" where
  "rposition P [] = None"
| "rposition P (x # xs) =
     (case rposition P xs of Some i \<Rightarrow> Some (Suc i) | None \<Rightarrow> if P x then Some 0 else None)"

definition resolve_local :: "str \<Rightarrow> 'd func_ctx \<Rightarrow> nat option" where
  "resolve_local name f = rposition (\<lambda>l. lo_name l = name \<and> lo_depth l \<le> fc_depth f) (fc_locals f)"

definition add_upvalue :: "bool \<Rightarrow> nat \<Rightarrow> 'd func_ctx \<Rightarrow> nat \<times> 'd func_ctx" where
  "add_upvalue is_local i f =
     (case position (\<lambda>u. ui_local u = is_local \<and> ui_index u = i) (fc_upvalues f) of
        Some k \<Rightarrow> (k, f)
      | None \<Rightarrow> (length (fc_upvalues f),
          chunk_update (\<lambda>k. put_upvalue_count (ch_upvalue_count k + 1) k)
            (f\<lparr>fc_upvalues := fc_upvalues f @ [\<lparr>ui_local = is_local, ui_index = i\<rparr>]\<rparr>)))"

definition mark_captured :: "nat \<Rightarrow> 'd func_ctx \<Rightarrow> 'd func_ctx" where
  "mark_captured slot f = f\<lparr>fc_locals := (fc_locals f)[slot := (fc_locals f ! slot)\<lparr>lo_captured := True\<rparr>]\<rparr>"

text \<open>\<open>resolve_upvalue_at\<close> for the first function of the list, whose enclosing functions follow.\<close>

fun resolve_upvalue_at :: "str \<Rightarrow> 'd func_ctx list \<Rightarrow> nat option \<times> 'd func_ctx list" where
  "resolve_upvalue_at name (f # g # fs) =
     (case resolve_local name g of
        Some slot \<Rightarrow> (case add_upvalue True slot f of (i, f') \<Rightarrow> (Some i, f' # mark_captured slot g # fs))
      | None \<Rightarrow>
          (case resolve_upvalue_at name (g # fs) of
             (Some u, gs) \<Rightarrow> (case add_upvalue False u f of (i, f') \<Rightarrow> (Some i, f' # gs))
           | (None, gs) \<Rightarrow> (None, f # gs)))"
| "resolve_upvalue_at name fs = (None, fs)"

definition resolve_upvalue :: "str \<Rightarrow> ('d, nat option) cm" where
  "resolve_upvalue name = (\<lambda>c. case resolve_upvalue_at name (func_stack c) of
     (r, fs) \<Rightarrow> Some (r, c\<lparr>func_stack := fs\<rparr>))"

text \<open>The common shape of \<open>emit_load\<close>, \<open>emit_load_ref\<close> and \<open>emit_store\<close>.\<close>

definition emit_var :: "'d ext \<Rightarrow> opcode \<Rightarrow> opcode \<Rightarrow> opcode \<Rightarrow> str \<Rightarrow> ('d, unit) cm" where
  "emit_var X loc up glob name = bindC (current (resolve_local name)) (\<lambda>r. case r of
     Some slot \<Rightarrow> op_index loc slot
   | None \<Rightarrow> bindC (resolve_upvalue name) (\<lambda>u. case u of
         Some i \<Rightarrow> op_index up i
       | None \<Rightarrow> op_const X glob (VStr name)))"

definition emit_load :: "'d ext \<Rightarrow> str \<Rightarrow> ('d, unit) cm" where
  "emit_load X = emit_var X OpLoadLocal OpLoadUpvalue OpLoadGlobal"

definition emit_load_ref :: "'d ext \<Rightarrow> str \<Rightarrow> ('d, unit) cm" where
  "emit_load_ref X = emit_var X OpLoadLocalRef OpLoadUpvalueRef OpLoadGlobalRef"

definition emit_store :: "'d ext \<Rightarrow> str \<Rightarrow> ('d, unit) cm" where
  "emit_store X = emit_var X OpAssignLocal OpAssignUpvalue OpAssignGlobal"

section \<open>Functions\<close>

definition push_ctx :: "'d func_ctx \<Rightarrow> ('d, unit) cm" where
  "push_ctx f = (\<lambda>c. Some ((), c\<lparr>func_stack := f # func_stack c\<rparr>))"

text \<open>The finished function goes to the sub-chunks of its parent.\<close>

definition pop_function :: "('d, nat \<times> upvalue_info list) cm" where
  "pop_function = (\<lambda>c. case func_stack c of
     f # p # fs \<Rightarrow>
       let subs = ch_sub_chunks (fc_chunk p) in
       Some ((length subs, fc_upvalues f),
         c\<lparr>func_stack := chunk_update (put_sub_chunks (subs @ [fc_chunk f])) p # fs\<rparr>)
   | _ \<Rightarrow> None)"

definition declare_names :: "str list \<Rightarrow> ('d, unit) cm" where
  "declare_names names = seqC (map (\<lambda>n. bindC (declare_local n) (\<lambda>_. retC ())) names)"

definition compile_function ::
  "str option \<Rightarrow> param list \<Rightarrow> ('d, unit) cm \<Rightarrow> ('d, nat \<times> upvalue_info list) cm" where
  "compile_function name params body =
     thenC (push_ctx (func_ctx_new FtFunction name))
     (thenC (declare_names (map pa_name params))
     (thenC (current_mut (chunk_update (put_arity (length params))))
     (thenC body (thenC (emit_op OpReturn) pop_function))))"

definition emit_closure :: "nat \<times> upvalue_info list \<Rightarrow> ('d, unit) cm" where
  "emit_closure p = thenC (op_index OpClosure (fst p))
     (seqC (map (\<lambda>u. thenC (emit_u8 (if ui_local u then 1 else 0)) (emit_index (ui_index u))) (snd p)))"

end
