(* ===== verification/Vm_Match.thy ===== *)
theory Vm_Match
  imports Vm_State
begin

text \<open>
  Pattern matching: \<open>vm_match\<close> and \<open>match_rec\<close> of \<open>src/vm/vm.rs\<close>, and the names a pattern binds as
  the compiler counts them (\<open>pattern_binding_names\<close> of \<open>src/compiler/mod.rs\<close>).
\<close>

section \<open>Matching\<close>

definition match_error :: "string \<Rightarrow> 'd interp_error" where
  "match_error what = RuntimeError (lit what) None"

text \<open>\<open>interpolated string pattern not supported in VM\<close>, and the value of a literal pattern.\<close>

fun literal_text :: "'e ast_str_part list \<Rightarrow> ('d, str) outcome" where
  "literal_text [] = Ok []"
| "literal_text (LiteralPart t # ps) = bindE (literal_text ps) (\<lambda>s. Ok (t @ s))"
| "literal_text (ExprPart e # ps) = Err (match_error ''interpolated string pattern not supported in VM'')"

fun lit_value :: "('d, 'e) lit_pattern \<Rightarrow> ('d, 'd rt_value) outcome" where
  "lit_value (LPInt n) = Ok (VInt n)"
| "lit_value (LPDecimal d) = Ok (VDecimal d)"
| "lit_value (LPBool b) = Ok (VBool b)"
| "lit_value LPNil = Ok VNil"
| "lit_value (LPStr ps) = bindE (literal_text ps) (\<lambda>s. Ok (VStr s))"

text \<open>The result says whether the pattern matched, with the bindings in the order in which they are pushed.\<close>

type_synonym 'd match_result = "('d, bool \<times> 'd rt_value list) outcome"

type_synonym 'd matcher = "'d rt_value \<Rightarrow> 'd rt_value list \<Rightarrow> 'd match_result"

text \<open>The loops over the sub-patterns: elements in order, fields by name, the first alternative that fits.\<close>

fun match_all :: "'d matcher list \<Rightarrow> 'd rt_value list \<Rightarrow> 'd rt_value list \<Rightarrow> 'd match_result" where
  "match_all (m # ms) (v # vs) bs = bindE (m v bs) (\<lambda>(ok, bs'). if ok then match_all ms vs bs' else Ok (False, bs'))"
| "match_all _ _ bs = Ok (True, bs)"

fun match_fields :: "(str \<times> 'd matcher) list \<Rightarrow> (str \<times> 'd rt_value) list \<Rightarrow> 'd rt_value list \<Rightarrow> 'd match_result" where
  "match_fields [] vf bs = Ok (True, bs)"
| "match_fields (q # fs) vf bs =
     (case map_of vf (fst q) of
        Some v \<Rightarrow> bindE (snd q v bs) (\<lambda>(ok, bs'). if ok then match_fields fs vf bs' else Ok (False, bs'))
      | None \<Rightarrow> Ok (False, bs))"

fun match_or :: "'d matcher list \<Rightarrow> 'd rt_value \<Rightarrow> 'd rt_value list \<Rightarrow> 'd match_result" where
  "match_or [] v bs = Ok (False, bs)"
| "match_or (m # ms) v bs = bindE (m v []) (\<lambda>(ok, sub). if ok then Ok (True, bs @ sub) else match_or ms v bs)"

primrec match_rec :: "'d ext \<Rightarrow> ('d, 'e) pattern \<Rightarrow> 'd matcher" where
  "match_rec X (PWildcard sp) = (\<lambda>v bs. Ok (True, bs))"
| "match_rec X (PBind x sp) = (\<lambda>v bs. Ok (True, bs @ [v]))"
| "match_rec X (PLit l sp) = (\<lambda>v bs. bindE (lit_value l) (\<lambda>w. Ok (value_eq X w v, bs)))"
| "match_rec X (PVariant n ps sp) = (\<lambda>v bs. case v of
      VVariant n' vs \<Rightarrow>
        if n' \<noteq> n \<or> length ps \<noteq> length vs then Ok (False, bs) else match_all (map (match_rec X) ps) vs bs
    | _ \<Rightarrow> Ok (False, bs))"
| "match_rec X (PStruct fs rest sp) = (\<lambda>v bs. case v of
      VStruct n vf \<Rightarrow> match_fields (map (map_prod id (match_rec X)) fs) vf bs
    | _ \<Rightarrow> Ok (False, bs))"
| "match_rec X (PVec ps rest sp) = (\<lambda>v bs. case v of
      VVec vs \<Rightarrow>
        if (if rest then length vs < length ps else length vs \<noteq> length ps) then Ok (False, bs)
        else match_all (map (match_rec X) ps) vs bs
    | _ \<Rightarrow> Ok (False, bs))"
| "match_rec X (POr ps sp) = match_or (map (match_rec X) ps)"
| "match_rec X (PGuard p g sp) = (\<lambda>v bs.
     Err (match_error ''nested `pattern if guard` not supported in VM; use arm-level guard''))"

definition vm_match :: "'d ext \<Rightarrow> ('d, 'e) pattern \<Rightarrow> 'd rt_value \<Rightarrow> ('d, 'd rt_value list option) outcome" where
  "vm_match X p v = bindE (match_rec X p v []) (\<lambda>(ok, bs). Ok (if ok then Some bs else None))"

section \<open>Bound names\<close>

text \<open>\<open>collect_binding_names\<close>: an alternative contributes the names of its first branch.\<close>

primrec binding_names :: "('d, 'e) pattern \<Rightarrow> str list" where
  "binding_names (PWildcard sp) = []"
| "binding_names (PLit l sp) = []"
| "binding_names (PBind x sp) = [x]"
| "binding_names (PVariant n ps sp) = concat (map binding_names ps)"
| "binding_names (PStruct fs rest sp) = concat (map snd (map (map_prod id binding_names) fs))"
| "binding_names (PVec ps rest sp) = concat (map binding_names ps)"
| "binding_names (POr ps sp) = (case map binding_names ps of [] \<Rightarrow> [] | ns # _ \<Rightarrow> ns)"
| "binding_names (PGuard p g sp) = binding_names p"

text \<open>Every alternative binds as many names as the first.\<close>

primrec or_uniform :: "('d, 'e) pattern \<Rightarrow> bool" where
  "or_uniform (PWildcard sp) = True"
| "or_uniform (PLit l sp) = True"
| "or_uniform (PBind x sp) = True"
| "or_uniform (PVariant n ps sp) = list_all id (map or_uniform ps)"
| "or_uniform (PStruct fs rest sp) = list_all snd (map (map_prod id or_uniform) fs)"
| "or_uniform (PVec ps rest sp) = list_all id (map or_uniform ps)"
| "or_uniform (POr ps sp) = (list_all id (map or_uniform ps)
     \<and> list_all (\<lambda>p. length (binding_names p) = length (binding_names (hd ps))) ps)"
| "or_uniform (PGuard p g sp) = or_uniform p"

text \<open>A matcher that pushes \<open>n\<close> values whenever it succeeds.\<close>

definition pushes :: "nat \<Rightarrow> 'd matcher \<Rightarrow> bool" where
  "pushes n m \<longleftrightarrow> (\<forall>v bs bs'. m v bs = Ok (True, bs') \<longrightarrow> (\<exists>new. bs' = bs @ new \<and> length new = n))"

lemma pushesD: "pushes n m \<Longrightarrow> m v bs = Ok (True, bs') \<Longrightarrow> \<exists>new. bs' = bs @ new \<and> length new = n"
  by (simp add: pushes_def)

lemma match_all_pushes:
  assumes "list_all2 pushes ns ms" and "length ms \<le> length vs" and "match_all ms vs bs = Ok (True, bs')"
  shows "\<exists>new. bs' = bs @ new \<and> length new = sum_list ns"
  using assms
proof (induction arbitrary: vs bs rule: list_all2_induct)
  case Nil
  then show ?case by simp
next
  case (Cons n ns m ms)
  then obtain v vs' where v: "vs = v # vs'" by (cases vs) auto
  with Cons.prems(2) obtain b1 where m1: "m v bs = Ok (True, b1)" and m2: "match_all ms vs' b1 = Ok (True, bs')"
    by (auto simp: bindE_eq_Ok split: if_splits)
  obtain n1 where "b1 = bs @ n1" "length n1 = n" using pushesD [OF Cons.hyps(1) m1] by blast
  moreover obtain n2 where "bs' = b1 @ n2" "length n2 = sum_list ns"
    using Cons.IH [OF _ m2] Cons.prems(1) v by auto
  ultimately show ?case by simp
qed

lemma match_fields_pushes:
  assumes "list_all2 (\<lambda>n q. pushes n (snd q)) ns fs" and "match_fields fs vf bs = Ok (True, bs')"
  shows "\<exists>new. bs' = bs @ new \<and> length new = sum_list ns"
  using assms
proof (induction arbitrary: bs rule: list_all2_induct)
  case Nil
  then show ?case by simp
next
  case (Cons n ns q fs)
  then obtain v b1 where m1: "snd q v bs = Ok (True, b1)" and m2: "match_fields fs vf b1 = Ok (True, bs')"
    by (auto simp: bindE_eq_Ok split: if_splits option.splits)
  obtain n1 where "b1 = bs @ n1" "length n1 = n" using pushesD [OF Cons.hyps(1) m1] by blast
  moreover obtain n2 where "bs' = b1 @ n2" "length n2 = sum_list ns" using Cons.IH [OF m2] by blast
  ultimately show ?case by simp
qed

lemma match_or_pushes:
  assumes "list_all (pushes n) ms" and "match_or ms v bs = Ok (True, bs')"
  shows "\<exists>new. bs' = bs @ new \<and> length new = n"
  using assms
proof (induction ms)
  case Nil
  then show ?case by simp
next
  case (Cons m ms)
  from Cons.prems(2) obtain ok sub where m: "m v [] = Ok (ok, sub)"
    and rest: "if ok then bs' = bs @ sub else match_or ms v bs = Ok (True, bs')"
    by (auto simp: bindE_eq_Ok split: if_split_asm)
  show ?case
  proof (cases ok)
    case True
    then have "length sub = n" using pushesD [of n m v "[]" sub] m Cons.prems(1) by simp
    then show ?thesis using True rest by simp
  next
    case False
    then show ?thesis using Cons.IH Cons.prems(1) rest by simp
  qed
qed

lemma length_concat_sum: "length (concat xss) = sum_list (map length xss)"
  by (induction xss) simp_all

lemma pushesI: "(\<And>v bs bs'. m v bs = Ok (True, bs') \<Longrightarrow> \<exists>new. bs' = bs @ new \<and> length new = n) \<Longrightarrow> pushes n m"
  by (simp add: pushes_def)

lemma pushes_each:
  assumes "list_all or_uniform ps" and "\<And>p. p \<in> set ps \<Longrightarrow> or_uniform p \<Longrightarrow> pushes (length (binding_names p)) (match_rec X p)"
  shows "list_all2 pushes (map (\<lambda>p. length (binding_names p)) ps) (map (match_rec X) ps)"
  using assms by (simp add: list_all2_map1 list_all2_map2 list_all_iff list_all2_same)

lemma match_rec_pushes: "or_uniform p \<Longrightarrow> pushes (length (binding_names p)) (match_rec X p)"
proof (induction p)
  case (PVariant n ps sp)
  have each: "list_all2 pushes (map (\<lambda>p. length (binding_names p)) ps) (map (match_rec X) ps)"
    using PVariant by (intro pushes_each) (simp_all add: list_all_iff)
  show ?case
  proof (rule pushesI)
    fix v bs bs' assume "match_rec X (PVariant n ps sp) v bs = Ok (True, bs')"
    then obtain vs where "length ps = length vs" "match_all (map (match_rec X) ps) vs bs = Ok (True, bs')"
      by (simp split: rt_value.split_asm if_split_asm)
    then show "\<exists>new. bs' = bs @ new \<and> length new = length (binding_names (PVariant n ps sp))"
      using match_all_pushes [OF each, of vs bs bs'] by (simp add: length_concat_sum comp_def)
  qed
next
  case (PVec ps rest sp)
  have each: "list_all2 pushes (map (\<lambda>p. length (binding_names p)) ps) (map (match_rec X) ps)"
    using PVec by (intro pushes_each) (simp_all add: list_all_iff)
  show ?case
  proof (rule pushesI)
    fix v bs bs' assume "match_rec X (PVec ps rest sp) v bs = Ok (True, bs')"
    then obtain vs where "length ps \<le> length vs" "match_all (map (match_rec X) ps) vs bs = Ok (True, bs')"
      by (cases v) (force split: if_split_asm)+
    then show "\<exists>new. bs' = bs @ new \<and> length new = length (binding_names (PVec ps rest sp))"
      using match_all_pushes [OF each, of vs bs bs'] by (simp add: length_concat_sum comp_def)
  qed
next
  case (PStruct fs rest sp)
  have "pushes (length (binding_names (snd q))) (match_rec X (snd q))" if "q \<in> set fs" for q
    using PStruct that by (cases q) (fastforce simp: list_all_iff)
  then have each: "list_all2 (\<lambda>n q. pushes n (snd q)) (map (\<lambda>q. length (binding_names (snd q))) fs)
      (map (map_prod id (match_rec X)) fs)"
    by (simp add: list_all2_map1 list_all2_map2 list_all2_same)
  show ?case
  proof (rule pushesI)
    fix v bs bs' assume "match_rec X (PStruct fs rest sp) v bs = Ok (True, bs')"
    then obtain vf where "match_fields (map (map_prod id (match_rec X)) fs) vf bs = Ok (True, bs')"
      by (simp split: rt_value.split_asm)
    then show "\<exists>new. bs' = bs @ new \<and> length new = length (binding_names (PStruct fs rest sp))"
      using match_fields_pushes [OF each, of vf bs bs'] by (simp add: length_concat_sum comp_def)
  qed
next
  case (POr ps sp)
  show ?case
  proof (cases ps)
    case Nil
    then show ?thesis by (simp add: pushes_def)
  next
    case (Cons p ps')
    have each: "list_all (pushes (length (binding_names p))) (map (match_rec X) ps)"
      using POr Cons by (simp add: list_all_iff) (metis)
    show ?thesis
      by (rule pushesI) (use match_or_pushes [OF each] Cons in simp)
  qed
qed (auto simp: pushes_def bindE_eq_Ok)

text \<open>
  C33. A match pushes exactly one value for every name the compiler declares, whenever the
  alternatives of each \<open>|\<close> pattern bind equally many names.
\<close>

theorem match_pushes_names:
  assumes "or_uniform p" and "vm_match X p v = Ok (Some bs)"
  shows "length bs = length (binding_names p)"
proof -
  have "match_rec X p v [] = Ok (True, bs)"
    using assms(2) by (auto simp: vm_match_def bindE_eq_Ok split: if_splits)
  then show ?thesis using pushesD [OF match_rec_pushes [OF assms(1)], of X v "[]" bs] by auto
qed

theorem match_pushes_names_witness:
  "vm_match fixed_ext (PVec [PBind (lit ''x'') span_dummy, PWildcard span_dummy,
       POr [PLit (LPInt 1) span_dummy, PLit (LPInt 2) span_dummy] span_dummy] True span_dummy :: (fixed, unit) pattern)
     (VVec [VInt 7, VNil, VInt 2, VInt 3]) = Ok (Some [VInt 7])
   \<and> length [VInt 7 :: fixed rt_value] = 1"
proof -
  let ?p = "PVec [PBind (lit ''x'') span_dummy, PWildcard span_dummy,
       POr [PLit (LPInt 1) span_dummy, PLit (LPInt 2) span_dummy] span_dummy] True span_dummy :: (fixed, unit) pattern"
  have m: "vm_match fixed_ext ?p (VVec [VInt 7, VNil, VInt 2, VInt 3]) = Ok (Some [VInt 7])"
    by (simp add: vm_match_def)
  have "or_uniform ?p" by simp
  from match_pushes_names [OF this m] show ?thesis using m by simp
qed

text \<open>
  An alternative with more names than the first one leaves extra values on the operand
  stack: the compiler declares the names of the first alternative only, so every local
  declared after the match is off by the difference.
\<close>

theorem or_pattern_unbalanced:
  "n1 \<noteq> n2 \<Longrightarrow>
   vm_match X (POr [PVariant n1 [PBind a sp, PBind a' sp] sp, PVariant n2 [PBind b sp, PBind b' sp, PBind b'' sp] sp] sp)
     (VVariant n2 [u, v, w]) = Ok (Some [u, v, w])
   \<and> length (binding_names (POr [PVariant n1 [PBind a sp, PBind a' sp] sp, PVariant n2 [PBind b sp, PBind b' sp, PBind b'' sp] sp] sp)) = 2"
  by (simp add: vm_match_def)

theorem or_pattern_unbalanced_witness:
  "vm_match fixed_ext (POr [PVariant (lit ''A'') [PBind (lit ''x'') span_dummy, PBind (lit ''y'') span_dummy] span_dummy,
       PVariant (lit ''B'') [PBind (lit ''x'') span_dummy, PBind (lit ''y'') span_dummy, PBind (lit ''z'') span_dummy] span_dummy]
       span_dummy :: (fixed, unit) pattern)
     (VVariant (lit ''B'') [VInt 1, VInt 2, VInt 3]) = Ok (Some [VInt 1, VInt 2, VInt 3])"
proof -
  have "lit ''A'' \<noteq> lit ''B''" by simp
  from or_pattern_unbalanced [OF this] show ?thesis by simp
qed

end
