(* ===== verification/Compiler.thy ===== *)
theory Compiler
  imports Compiler_State Vm_Match
begin

text \<open>
  The bytecode compiler (\<open>src/compiler/mod.rs\<close>): the code of every expression and statement. Each
  construct is a definition on the computations that compile its parts; \<open>compile_expr\<close> and
  \<open>compile_stmt\<close> tie them together by recursion on the syntax tree.
\<close>

section \<open>Literals and operators\<close>

type_synonym 'd compile = "('d, unit) cm"

definition emit_str :: "'d ext \<Rightarrow> str \<Rightarrow> 'd compile" where
  "emit_str X s = op_const X OpConst (VStr s)"

text \<open>The parts of an interpolated string; the flag says whether nothing has been pushed yet.\<close>

fun compile_parts :: "'d ext \<Rightarrow> bool \<Rightarrow> 'd compile ast_str_part list \<Rightarrow> ('d, bool) cm" where
  "compile_parts X first [] = retC first"
| "compile_parts X first (LiteralPart s # ps) =
     (if s = [] then compile_parts X first ps
      else thenC (emit_str X s) (thenC (if first then retC () else emit_op OpAdd) (compile_parts X False ps)))"
| "compile_parts X first (ExprPart e # ps) =
     thenC (op_const X OpLoadGlobal (VStr (lit ''to_str'')))
       (thenC e (thenC (op_index OpCall 1) (thenC (if first then retC () else emit_op OpAdd) (compile_parts X False ps))))"

fun compile_str :: "'d ext \<Rightarrow> 'd compile ast_str_part list \<Rightarrow> 'd compile" where
  "compile_str X [LiteralPart s] = emit_str X s"
| "compile_str X ps = bindC (compile_parts X True ps) (\<lambda>first. if first then emit_str X [] else retC ())"

text \<open>A bare identifier as the key of an entry is its name; as its value it keeps a shared cell.\<close>

definition compile_call_arg :: "'d ext \<Rightarrow> 'd expr \<times> 'd compile \<Rightarrow> 'd compile" where
  "compile_call_arg X a = (case fst a of EIdent name _ \<Rightarrow> emit_load_ref X name | _ \<Rightarrow> snd a)"

definition compile_key :: "'d ext \<Rightarrow> 'd expr \<times> 'd compile \<Rightarrow> 'd compile" where
  "compile_key X k = (case fst k of EIdent name _ \<Rightarrow> emit_str X name | _ \<Rightarrow> snd k)"

definition compile_map :: "'d ext \<Rightarrow> (('d expr \<times> 'd compile) \<times> ('d expr \<times> 'd compile)) list \<Rightarrow> 'd compile" where
  "compile_map X entries =
     thenC (seqC (map (\<lambda>(k, v). thenC (compile_key X k) (compile_call_arg X v)) entries))
       (op_index OpNewMap (length entries))"

definition compile_items :: "opcode \<Rightarrow> 'd compile list \<Rightarrow> 'd compile" where
  "compile_items p items = thenC (seqC items) (op_index p (length items))"

fun binop_code :: "bin_op \<Rightarrow> opcode option" where
  "binop_code BAdd = Some OpAdd" | "binop_code BSub = Some OpSub" | "binop_code BMul = Some OpMul"
| "binop_code BDiv = Some OpDiv" | "binop_code BMod = Some OpMod" | "binop_code BEq = Some OpEq"
| "binop_code BNeq = Some OpNeq" | "binop_code BLt = Some OpLt" | "binop_code BGt = Some OpGt"
| "binop_code BLte = Some OpLte" | "binop_code BGte = Some OpGte"
| "binop_code BAnd = None" | "binop_code BOr = None"

text \<open>\<open>and\<close> and \<open>or\<close> reach the \<open>unreachable!\<close> of the source only from a compound assignment.\<close>

definition emit_binop_simple :: "bin_op \<Rightarrow> 'd compile" where
  "emit_binop_simple b = (case binop_code b of Some p \<Rightarrow> emit_op p | None \<Rightarrow> (\<lambda>_. None))"

definition compile_short :: "opcode \<Rightarrow> 'd compile \<Rightarrow> 'd compile \<Rightarrow> 'd compile" where
  "compile_short p l r =
     seqC [l, emit_op OpDup, bindC (emit_jump p) (\<lambda>j. seqC [emit_op OpPop, r, patch_jump j])]"

definition compile_binop :: "bin_op \<Rightarrow> 'd compile \<Rightarrow> 'd compile \<Rightarrow> 'd compile" where
  "compile_binop b l r = (case b of
     BAnd \<Rightarrow> compile_short OpJumpIfFalse l r
   | BOr \<Rightarrow> compile_short OpJumpIfTrue l r
   | _ \<Rightarrow> seqC [l, r, emit_binop_simple b])"

fun unary_code :: "unary_op \<Rightarrow> opcode" where
  "unary_code UNeg = OpNeg" | "unary_code UNot = OpNot"

section \<open>Calls\<close>

text \<open>\<open>a |> f(b)\<close> and \<open>a |> f\<close>: the callee, the first argument and the other arguments.\<close>

definition compile_pipe :: "'d ext \<Rightarrow> 'd compile \<Rightarrow> 'd expr \<times> 'd compile \<Rightarrow> ('d expr \<times> 'd compile) list \<Rightarrow> 'd compile" where
  "compile_pipe X callee lhs args =
     seqC [callee, compile_call_arg X lhs, seqC (map (compile_call_arg X) args), op_index OpCall (length args + 1)]"

definition compile_construct :: "'d ext \<Rightarrow> opcode \<Rightarrow> str \<Rightarrow> 'd compile list \<Rightarrow> 'd compile" where
  "compile_construct X p name args = thenC (seqC args) (op_named X p name (length args))"

definition compile_apply :: "'d ext \<Rightarrow> 'd compile \<Rightarrow> ('d expr \<times> 'd compile) list \<Rightarrow> 'd compile" where
  "compile_apply X callee args =
     seqC [callee, seqC (map (compile_call_arg X) args), op_index OpCall (length args)]"

text \<open>\<open>Name(...)\<close> constructs a variant with arguments or a struct, when the name is that of one.\<close>

definition compile_call :: "'d ext \<Rightarrow> 'd expr \<times> 'd compile \<Rightarrow> ('d expr \<times> 'd compile) list \<Rightarrow> 'd compile" where
  "compile_call X callee args = (\<lambda>c. case fst callee of
     EIdent name _ \<Rightarrow>
       if (case map_of (variants c) name of Some n \<Rightarrow> 0 < n | None \<Rightarrow> False)
       then compile_construct X OpConstructVariant name (map snd args) c
       else if name \<in> set (structs c) then compile_construct X OpConstructStruct name (map snd args) c
       else compile_apply X (snd callee) args c
   | _ \<Rightarrow> compile_apply X (snd callee) args c)"

definition compile_method :: "'d ext \<Rightarrow> 'd expr \<times> 'd compile \<Rightarrow> str \<Rightarrow> ('d expr \<times> 'd compile) list \<Rightarrow> 'd compile" where
  "compile_method X recv method args =
     seqC [compile_call_arg X recv, seqC (map (compile_call_arg X) args), op_named X OpMethodCall method (length args)]"

text \<open>A message \<open>Name\<close> or \<open>Name(args)\<close> is always a variant.\<close>

definition compile_message :: "'d ext \<Rightarrow> 'd expr \<Rightarrow> 'd compile \<Rightarrow> 'd compile list \<Rightarrow> 'd compile" where
  "compile_message X msg whole args = (case msg of
     EIdent name _ \<Rightarrow> compile_construct X OpConstructVariant name []
   | ECall (EIdent name _) _ _ \<Rightarrow> compile_construct X OpConstructVariant name args
   | _ \<Rightarrow> whole)"

section \<open>Assignment\<close>

definition store_back :: "'d ext \<Rightarrow> 'd expr \<Rightarrow> 'd compile" where
  "store_back X obj = (case obj of EIdent name _ \<Rightarrow> emit_store X name | _ \<Rightarrow> emit_op OpPop)"

definition assign_ident :: "'d ext \<Rightarrow> str \<Rightarrow> 'd compile \<Rightarrow> 'd compile" where
  "assign_ident X name v = seqC [v, emit_store X name, emit_op OpNil]"

definition assign_index :: "'d ext \<Rightarrow> 'd expr \<Rightarrow> 'd compile \<Rightarrow> 'd compile \<Rightarrow> 'd compile \<Rightarrow> 'd compile" where
  "assign_index X obj cobj cidx v =
     seqC [v, cobj, cidx, emit_op OpIndexAssign, store_back X obj, emit_op OpNil]"

definition assign_field :: "'d ext \<Rightarrow> 'd expr \<Rightarrow> 'd compile \<Rightarrow> str \<Rightarrow> 'd compile \<Rightarrow> 'd compile" where
  "assign_field X obj cobj name v =
     seqC [v, cobj, emit_str X name, emit_op OpIndexAssign, store_back X obj, emit_op OpNil]"

definition compound_assign :: "'d ext \<Rightarrow> bin_op \<Rightarrow> 'd expr \<Rightarrow> 'd compile \<Rightarrow> 'd compile" where
  "compound_assign X b target v = (case target of
     EIdent name _ \<Rightarrow> seqC [emit_load X name, v, emit_binop_simple b, emit_store X name, emit_op OpNil]
   | _ \<Rightarrow> emit_op OpNil)"

section \<open>Control flow\<close>

definition or_nil_code :: "'d compile option \<Rightarrow> 'd compile" where
  "or_nil_code e = (case e of Some m \<Rightarrow> m | None \<Rightarrow> emit_op OpNil)"

definition compile_if :: "'d compile \<Rightarrow> 'd compile \<Rightarrow> 'd compile option \<Rightarrow> 'd compile" where
  "compile_if cond yes no =
     seqC [cond, bindC (emit_jump OpJumpIfFalse) (\<lambda>else_jump.
       seqC [yes, bindC (emit_jump OpJump) (\<lambda>end_jump.
         seqC [patch_jump else_jump, or_nil_code no, patch_jump end_jump])])]"

text \<open>\<open>PopLocalKeep\<close> at the end of a block that has declared locals.\<close>

definition compile_block :: "'d compile list \<Rightarrow> 'd compile option \<Rightarrow> 'd compile" where
  "compile_block stmts result =
     seqC [begin_scope, seqC stmts, or_nil_code result,
       bindC end_scope (\<lambda>n. if 0 < n then op_index OpPopLocalKeep n else retC ())]"

text \<open>\<open>PushLoop\<close> with the places of its two addresses, and the handler code at the end of a loop.\<close>

definition open_loop :: "('d, nat \<times> nat) cm" where
  "open_loop = thenC (emit_op OpPushLoop) (bindC current_code_len (\<lambda>cont.
     thenC (emit_u16 0) (bindC current_code_len (\<lambda>brk. thenC (emit_u16 0) (retC (cont, brk))))))"

definition patch_here :: "nat \<Rightarrow> 'd compile" where
  "patch_here at = bindC current_code_len (\<lambda>n. patch_u16 at (of_nat n))"

definition compile_while :: "'d compile \<Rightarrow> 'd compile \<Rightarrow> 'd compile" where
  "compile_while cond body =
     bindC open_loop (\<lambda>(cont, brk). bindC current_code_len (\<lambda>start.
       seqC [patch_u16 cont (of_nat start), cond, bindC (emit_jump OpJumpIfFalse) (\<lambda>exit_jump.
         seqC [body, emit_op OpPop, emit_loop start, patch_jump exit_jump, emit_op OpPopLoop, emit_op OpNil,
           bindC (emit_jump OpJump) (\<lambda>over. seqC [patch_here brk, emit_op OpPopLoop, patch_jump over])])]))"

definition compile_loop :: "'d compile \<Rightarrow> 'd compile" where
  "compile_loop body =
     bindC open_loop (\<lambda>(cont, brk). bindC current_code_len (\<lambda>start.
       seqC [patch_u16 cont (of_nat start), body, emit_op OpPop, emit_loop start, patch_here brk, emit_op OpPopLoop]))"

text \<open>A hidden local of a \<open>for\<close> loop, and a builtin call.\<close>

definition store_new_local :: "str \<Rightarrow> ('d, nat) cm" where
  "store_new_local name = bindC (declare_local name) (\<lambda>slot. thenC (op_index OpStoreLocal slot) (retC slot))"

definition call_builtin :: "'d ext \<Rightarrow> string \<Rightarrow> 'd compile list \<Rightarrow> 'd compile" where
  "call_builtin X name args =
     seqC [op_const X OpLoadGlobal (VStr (lit name)), seqC args, op_index OpCall (length args)]"

definition pop_scope_n :: "'d compile" where
  "pop_scope_n = bindC end_scope (\<lambda>n. if 0 < n then op_index OpPopN n else retC ())"

definition for_body :: "'d ext \<Rightarrow> str \<Rightarrow> nat \<Rightarrow> nat \<Rightarrow> 'd compile \<Rightarrow> 'd compile" where
  "for_body X var iter_slot i_slot body =
     seqC [call_builtin X ''get'' [op_index OpLoadLocal iter_slot, op_index OpLoadLocal i_slot],
       bindC (store_new_local var) (\<lambda>_. retC ()),
       begin_scope, body, emit_op OpPop, pop_scope_n, op_index OpPopN 1, pop_local]"

definition for_step :: "'d ext \<Rightarrow> nat \<Rightarrow> 'd compile" where
  "for_step X i_slot =
     seqC [op_index OpLoadLocal i_slot, op_const X OpConst (VInt 1), emit_op OpAdd, op_index OpAssignLocal i_slot]"

definition for_loop :: "'d ext \<Rightarrow> str \<Rightarrow> nat \<Rightarrow> nat \<Rightarrow> nat \<Rightarrow> 'd compile \<Rightarrow> 'd compile" where
  "for_loop X var iter_slot i_slot n_slot body =
     bindC open_loop (\<lambda>(cont, brk). bindC current_code_len (\<lambda>start.
       seqC [op_index OpLoadLocal i_slot, op_index OpLoadLocal n_slot, emit_op OpLt,
         bindC (emit_jump OpJumpIfFalse) (\<lambda>exit_jump.
           seqC [for_body X var iter_slot i_slot body, patch_here cont, for_step X i_slot, emit_loop start,
             patch_jump exit_jump, emit_op OpPopLoop, emit_op OpNil,
             bindC (emit_jump OpJump) (\<lambda>over.
               seqC [patch_here brk, emit_op OpPopLoop, emit_op OpPop, emit_op OpNil, patch_jump over])])]))"

definition compile_for :: "'d ext \<Rightarrow> str \<Rightarrow> 'd compile \<Rightarrow> 'd compile \<Rightarrow> 'd compile" where
  "compile_for X var items body =
     seqC [begin_scope, call_builtin X ''iter_to_vec'' [items],
       bindC (store_new_local (lit ''__for_iter'')) (\<lambda>iter_slot.
       seqC [op_const X OpConst (VInt 0), bindC (store_new_local (lit ''__for_i'')) (\<lambda>i_slot.
       seqC [call_builtin X ''count'' [op_index OpLoadLocal iter_slot],
         bindC (store_new_local (lit ''__for_n'')) (\<lambda>n_slot.
           for_loop X var iter_slot i_slot n_slot body)])]),
       pop_scope_n]"

text \<open>\<open>break\<close> and \<open>continue\<close> leave a \<open>nil\<close> for the balance of the code after them.\<close>

definition compile_break :: "'d compile option \<Rightarrow> 'd compile" where
  "compile_break v = seqC [or_nil_code v, emit_op OpBreak, emit_u16 1, emit_op OpNil]"

definition compile_continue :: "'d compile" where
  "compile_continue = seqC [emit_op OpContinue, emit_u16 0, emit_op OpNil]"

section \<open>Try and transact\<close>

text \<open>One clause: its type, the name it binds, and its body compiled as a function.\<close>

definition rescue_call :: "bool \<Rightarrow> nat \<times> upvalue_info list \<Rightarrow> 'd compile" where
  "rescue_call binds p =
     (if binds then seqC [emit_closure p, emit_op OpSwap, op_index OpCall 1]
      else seqC [emit_op OpPop, emit_closure p, op_index OpCall 0])"

definition patch_pending :: "nat option \<Rightarrow> 'd compile" where
  "patch_pending j = (case j of Some a \<Rightarrow> patch_jump a | None \<Rightarrow> retC ())"

definition rescue_test :: "'d ext \<Rightarrow> str option \<Rightarrow> ('d, nat option) cm" where
  "rescue_test X ty = (case ty of
     Some tn \<Rightarrow> thenC (op_const X OpRescueMatch (VStr tn)) (bindC (emit_jump OpJumpIfFalse) (\<lambda>j. retC (Some j)))
   | None \<Rightarrow> retC None)"

definition rescue_param :: "str \<Rightarrow> param" where
  "rescue_param name = \<lparr>pa_name = name, pa_type = None, pa_span = span_dummy\<rparr>"

fun compile_rescues ::
  "'d ext \<Rightarrow> (str option \<times> str option \<times> 'd compile) list \<Rightarrow> nat option \<Rightarrow> nat list \<Rightarrow> ('d, nat option \<times> nat list) cm" where
  "compile_rescues X [] next_jump exits = retC (next_jump, exits)"
| "compile_rescues X ((ty, bind, body) # rs) next_jump exits =
     thenC (patch_pending next_jump)
     (bindC (rescue_test X ty) (\<lambda>next_jump'.
     thenC (emit_op OpClearPending)
     (bindC (compile_function (Some (lit ''<rescue>'')) (map rescue_param (case bind of Some n \<Rightarrow> [n] | None \<Rightarrow> [])) body) (\<lambda>p.
     thenC (rescue_call (bind \<noteq> None) p)
     (bindC (emit_jump OpJump) (\<lambda>j. compile_rescues X rs next_jump' (exits @ [j])))))))"

text \<open>Without a catch-all clause the exception is still on the stack.\<close>

definition uncaught_code :: "bool \<Rightarrow> bool \<Rightarrow> nat list \<Rightarrow> ('d, nat list) cm" where
  "uncaught_code catch_all has_ensure exits =
     (if catch_all then retC exits
      else if has_ensure then thenC (emit_op OpPop) (bindC (emit_jump OpJump) (\<lambda>j. retC (exits @ [j])))
      else thenC (emit_op OpRaise) (retC exits))"

definition ensure_code :: "nat \<Rightarrow> u16 \<Rightarrow> 'd compile option \<Rightarrow> 'd compile" where
  "ensure_code ensure_patch ens_addr ens = (case ens of
     Some e \<Rightarrow> seqC [patch_u16 ensure_patch ens_addr, e, emit_op OpPop, emit_op OpEnsureExit]
   | None \<Rightarrow> retC ())"

definition compile_try ::
  "'d ext \<Rightarrow> 'd compile \<Rightarrow> (str option \<times> str option \<times> 'd compile) list \<Rightarrow> 'd compile option \<Rightarrow> 'd compile" where
  "compile_try X body rescues ens =
     thenC (emit_op OpPushTry) (bindC current_code_len (\<lambda>rescue_patch.
     thenC (emit_u16 0) (bindC current_code_len (\<lambda>ensure_patch.
     seqC [emit_u16 0, body, emit_op OpPopTry, bindC (emit_jump OpJump) (\<lambda>over.
       thenC (patch_here rescue_patch) (bindC (compile_rescues X rescues None []) (\<lambda>(next_jump, exits).
       thenC (patch_pending next_jump)
         (bindC (uncaught_code (list_ex (\<lambda>r. fst r = None) rescues) (ens \<noteq> None) exits) (\<lambda>exits'.
       bindC current_code_len (\<lambda>ens_addr.
       seqC [patch_jump over, seqC (map patch_jump exits'), ensure_code ensure_patch (of_nat ens_addr) ens]))))))]))))"

definition compile_transact :: "'d compile \<Rightarrow> 'd compile" where
  "compile_transact body = bindC current_code_len (\<lambda>start.
     seqC [emit_op OpPushTransact, emit_u16 (of_nat start), body, emit_op OpTransactCommit])"

section \<open>Match\<close>

text \<open>One arm; the result is the jump to the end of the match.\<close>

definition arm_tail :: "nat \<Rightarrow> 'd compile \<Rightarrow> ('d, nat) cm" where
  "arm_tail n body = thenC body (thenC (op_index OpPopLocalKeep n) (emit_jump OpJump))"

definition guarded_tail :: "nat \<Rightarrow> 'd compile option \<Rightarrow> 'd compile \<Rightarrow> ('d, nat) cm" where
  "guarded_tail n guard body = (case guard of
     Some g \<Rightarrow> thenC g (bindC (emit_jump OpJumpIfFalse) (\<lambda>guard_fail.
       bindC (arm_tail n body) (\<lambda>j. thenC (seqC [patch_jump guard_fail, op_index OpPopN n]) (retC j))))
   | None \<Rightarrow> arm_tail n body)"

definition compile_arm ::
  "nat \<Rightarrow> ('d, 'd expr) pattern \<Rightarrow> 'd compile option \<Rightarrow> 'd compile \<Rightarrow> ('d, nat) cm" where
  "compile_arm slot p guard body =
     (let names = binding_names p; n = length names in
      thenC (op_index OpLoadLocal slot)
      (bindC (add_pattern p) (\<lambda>i.
      thenC (seqC [emit_op OpMatch, emit_u8 i])
      (bindC (emit_jump OpJumpIfFalse) (\<lambda>fail.
      thenC (declare_names names)
      (bindC (guarded_tail n guard body) (\<lambda>end_jump.
      thenC (seqC [seqC (map (\<lambda>_. pop_local) names), patch_jump fail]) (retC end_jump))))))))"

fun compile_arms ::
  "nat \<Rightarrow> (('d, 'd expr) pattern \<times> 'd compile option \<times> 'd compile) list \<Rightarrow> ('d, nat list) cm" where
  "compile_arms slot [] = retC []"
| "compile_arms slot ((p, guard, body) # arms) =
     bindC (compile_arm slot p guard body) (\<lambda>j. bindC (compile_arms slot arms) (\<lambda>js. retC (j # js)))"

definition compile_match ::
  "'d compile \<Rightarrow> (('d, 'd expr) pattern \<times> 'd compile option \<times> 'd compile) list \<Rightarrow> 'd compile" where
  "compile_match scrutinee arms =
     thenC scrutinee (bindC (store_new_local (lit ''__match_scrutinee'')) (\<lambda>slot.
     bindC (compile_arms slot arms) (\<lambda>end_jumps.
     seqC [emit_op OpNil, seqC (map patch_jump end_jumps), op_index OpPopLocalKeep 1, pop_local])))"

section \<open>Statements\<close>

definition at_script_top :: "('d, bool) cm" where
  "at_script_top = current (\<lambda>f. fc_type f = FtScript \<and> fc_depth f = 0)"

text \<open>The binding of a \<open>let\<close>: a global at the top of a script, a new local elsewhere.\<close>

definition define_binding :: "'d ext \<Rightarrow> str \<Rightarrow> 'd compile" where
  "define_binding X name = bindC at_script_top (\<lambda>top.
     if top then op_const X OpDefineGlobal (VStr name)
     else bindC (store_new_local name) (\<lambda>_. retC ()))"

definition closure_of :: "str option \<Rightarrow> param list \<Rightarrow> 'd compile \<Rightarrow> 'd compile" where
  "closure_of name params body = bindC (compile_function name params body) emit_closure"

text \<open>A local function is declared before its body, so that it can call itself.\<close>

definition compile_func_def :: "'d ext \<Rightarrow> str \<Rightarrow> param list \<Rightarrow> 'd compile \<Rightarrow> 'd compile" where
  "compile_func_def X name params body = bindC at_script_top (\<lambda>top.
     if top then thenC (closure_of (Some name) params body) (op_const X OpDefineGlobal (VStr name))
     else bindC (declare_local name) (\<lambda>slot.
       thenC (closure_of (Some name) params body) (op_index OpStoreLocal slot)))"

definition register_struct :: "str \<Rightarrow> 'd compile" where
  "register_struct name = (\<lambda>c. Some ((), c\<lparr>structs := List.insert name (structs c)\<rparr>))"

definition register_variant :: "str \<Rightarrow> nat \<Rightarrow> 'd compile" where
  "register_variant name n = (\<lambda>c. Some ((), c\<lparr>variants := entry_insert (=) name n (variants c)\<rparr>))"

text \<open>A variant without arguments is a global value as well.\<close>

definition compile_variant :: "'d ext \<Rightarrow> variant_def \<Rightarrow> 'd compile" where
  "compile_variant X v =
     thenC (register_variant (vd_name v) (length (vd_fields v)))
       (if vd_fields v = []
        then bindC (emit_const X (VStr (vd_name v))) (\<lambda>name_idx.
               thenC (op_const X OpConst (VVariant (vd_name v) []))
                 (thenC (emit_op OpDefineGlobal) (emit_u8 name_idx)))
        else retC ())"

definition compile_import :: "'d ext \<Rightarrow> import_def \<Rightarrow> 'd compile" where
  "compile_import X imp =
     bindC (emit_const X (VStr (im_path imp))) (\<lambda>path_idx.
     bindC (case im_alias imp of Some a \<Rightarrow> emit_const X (VStr a) | None \<Rightarrow> retC 0) (\<lambda>alias_idx.
       seqC [emit_op OpImport, emit_u8 path_idx, emit_u8 alias_idx, emit_u8 (if im_lazy imp then 1 else 0)]))"

text \<open>The members of an actor; every other statement in its body is ignored.\<close>

datatype (plugins only:) 'd member =
    MState str "'d compile"
  | MFunc str "param list" "'d compile"
  | MOn str "param list" "'d compile"

fun compile_member :: "'d ext \<Rightarrow> 'd member \<Rightarrow> 'd compile" where
  "compile_member X (MState name v) = thenC v (op_const X OpDefineGlobal (VStr name))"
| "compile_member X (MFunc name params body) =
     thenC (closure_of (Some name) params body) (op_const X OpDefineGlobal (VStr name))"
| "compile_member X (MOn name params body) =
     thenC (closure_of (Some name) params body) (op_const X OpRegisterHandler (VStr name))"

definition compile_actor_init :: "'d ext \<Rightarrow> str \<Rightarrow> 'd member list \<Rightarrow> ('d, nat \<times> upvalue_info list) cm" where
  "compile_actor_init X name members =
     thenC (push_ctx (func_ctx_new FtFunction (Some name)))
       (thenC (seqC (map (compile_member X) members @ [emit_op OpNil, emit_op OpReturn])) pop_function)"

definition compile_actor :: "'d ext \<Rightarrow> str \<Rightarrow> 'd member list \<Rightarrow> 'd compile" where
  "compile_actor X name members =
     bindC (compile_actor_init X name members) (\<lambda>p. op_named X OpDefineActor name (fst p))"

section \<open>Expressions and statements\<close>

lemma size_bodies [termination_simp]:
  "size (arm_body a) < size_match_arm f size a" "arm_guard a = Some g \<Longrightarrow> size g < size_match_arm f size a"
  "size (rc_body r) < size_rescue_clause size r" "size (fd_body d) < size_func_def size d"
     apply (cases a; simp)
    apply (cases a; simp)
   apply (cases r; simp)
  apply (cases d; simp)
  done

lemma size_actor_body [termination_simp]: "s \<in> set (ad_body a) \<Longrightarrow> size s < size_actor_def size a"
  by (cases a) (simp add: size_list_estimation' less_Suc_eq_le)

lemma size_actor_member [termination_simp]:
  "SStateDecl n t v sp \<in> set (ad_body a) \<Longrightarrow> size v < Suc (size_actor_def size a)"
  "SOnClause d \<in> set (ad_body a) \<Longrightarrow> size (fd_body d) < Suc (size_actor_def size a)"
  "SFuncDef d \<in> set (ad_body a) \<Longrightarrow> size (fd_body d) < Suc (size_actor_def size a)"
  by (drule size_actor_body; use size_bodies(4) [of d] in simp)+

text \<open>An expression with the computation that compiles it.\<close>

definition paired :: "('d expr \<Rightarrow> 'd compile) \<Rightarrow> 'd expr list \<Rightarrow> ('d expr \<times> 'd compile) list" where
  "paired f es = map (\<lambda>e. (e, f e)) es"

lemma paired_cong [fundef_cong]: "es = es' \<Longrightarrow> (\<And>e. e \<in> set es' \<Longrightarrow> f e = g e) \<Longrightarrow> paired f es = paired g es'"
  by (simp add: paired_def)

declare expr.case_cong [fundef_cong] and stmt.case_cong [fundef_cong] and ast_str_part.case_cong [fundef_cong]

function (sequential) compile_expr :: "'d ext \<Rightarrow> 'd expr \<Rightarrow> 'd compile" and compile_stmt :: "'d ext \<Rightarrow> 'd stmt \<Rightarrow> 'd compile" where
  "compile_expr X e = (case e of
     EInt n _ \<Rightarrow> op_const X OpConst (VInt n)
   | EDecimal d _ \<Rightarrow> op_const X OpConst (VDecimal d)
   | EStr parts _ \<Rightarrow> compile_str X
       (map (\<lambda>p. case p of LiteralPart t \<Rightarrow> LiteralPart t | ExprPart a \<Rightarrow> ExprPart (compile_expr X a)) parts)
   | EBool b _ \<Rightarrow> emit_op (if b then OpTrue else OpFalse)
   | ENil _ \<Rightarrow> emit_op OpNil
   | EIdent name _ \<Rightarrow> emit_load X name
   | EVecLit items _ \<Rightarrow> compile_items OpNewVec (map (compile_expr X) items)
   | EMapLit entries _ \<Rightarrow>
       compile_map X (map (\<lambda>(k, v). ((k, compile_expr X k), (v, compile_expr X v))) entries)
   | ESetLit items _ \<Rightarrow> compile_items OpNewSet (map (compile_expr X) items)
   | EBinOp b l r _ \<Rightarrow> compile_binop b (compile_expr X l) (compile_expr X r)
   | EUnaryOp u a _ \<Rightarrow> thenC (compile_expr X a) (emit_op (unary_code u))
   | EPipe l r _ \<Rightarrow> (case r of
         ECall callee args _ \<Rightarrow>
           compile_pipe X (compile_expr X callee) (l, compile_expr X l) (paired (compile_expr X) args)
       | _ \<Rightarrow> compile_pipe X (compile_expr X r) (l, compile_expr X l) [])
   | EIf cond yes no _ \<Rightarrow> compile_if (compile_expr X cond) (compile_expr X yes) (map_option (compile_expr X) no)
   | EMatch scrutinee arms _ \<Rightarrow> compile_match (compile_expr X scrutinee)
       (map (\<lambda>arm. (arm_pattern arm, map_option (compile_expr X) (arm_guard arm), compile_expr X (arm_body arm))) arms)
   | ELambda params _ body _ \<Rightarrow> closure_of None params (compile_expr X body)
   | EBlock stmts result _ \<Rightarrow> compile_block (map (compile_stmt X) stmts) (map_option (compile_expr X) result)
   | EParen a _ \<Rightarrow> compile_expr X a
   | ECall callee args _ \<Rightarrow> compile_call X (callee, compile_expr X callee) (paired (compile_expr X) args)
   | EMethodCall recv method args _ \<Rightarrow>
       compile_method X (recv, compile_expr X recv) method (paired (compile_expr X) args)
   | EIndex target i _ \<Rightarrow> seqC [compile_expr X target, compile_expr X i, emit_op OpIndex]
   | EField target name _ \<Rightarrow> seqC [compile_expr X target, op_const X OpField (VStr name)]
   | EActorSend actor msg _ \<Rightarrow> seqC [compile_expr X actor,
       compile_message X msg (compile_expr X msg) (case msg of ECall _ args _ \<Rightarrow> map (compile_expr X) args | _ \<Rightarrow> []),
       emit_op OpActorSend]
   | EActorRequest actor msg _ \<Rightarrow> seqC [compile_expr X actor,
       compile_message X msg (compile_expr X msg) (case msg of ECall _ args _ \<Rightarrow> map (compile_expr X) args | _ \<Rightarrow> []),
       emit_op OpActorRequest]
   | ESpawn name args _ \<Rightarrow> compile_construct X OpSpawn name (map (compile_expr X) args)
   | ERaise a _ \<Rightarrow> seqC [compile_expr X a, emit_op OpRaise]
   | ETry body rescues ens _ \<Rightarrow> compile_try X (compile_expr X body)
       (map (\<lambda>r. (rc_type r, rc_bind r, compile_expr X (rc_body r))) rescues) (map_option (compile_expr X) ens)
   | ETransact body _ \<Rightarrow> compile_transact (compile_expr X body)
   | ERetry _ \<Rightarrow> emit_op OpRetry
   | EReturn v _ \<Rightarrow> seqC [or_nil_code (map_option (compile_expr X) v), emit_op OpReturn]
   | EReply v _ \<Rightarrow> seqC [compile_expr X v, emit_op OpReply, emit_u16 1]
   | EYield _ \<Rightarrow> emit_op OpYield
   | EAwait a _ \<Rightarrow> seqC [compile_expr X a, emit_op OpAwait]
   | ESharedExpr a _ \<Rightarrow> seqC [compile_expr X a, emit_op OpSharedExpr]
   | EAssign target v _ \<Rightarrow> (case target of
         EIdent name _ \<Rightarrow> assign_ident X name (compile_expr X v)
       | EIndex obj i _ \<Rightarrow> assign_index X obj (compile_expr X obj) (compile_expr X i) (compile_expr X v)
       | EField obj name _ \<Rightarrow> assign_field X obj (compile_expr X obj) name (compile_expr X v)
       | _ \<Rightarrow> seqC [compile_expr X v, emit_op OpPop, emit_op OpNil])
   | ECompoundAssign b target v _ \<Rightarrow> compound_assign X b target (compile_expr X v)
   | EWhile cond body _ \<Rightarrow> compile_while (compile_expr X cond) (compile_expr X body)
   | EFor var items body _ \<Rightarrow> compile_for X var (compile_expr X items) (compile_expr X body)
   | ELoop body _ \<Rightarrow> compile_loop (compile_expr X body)
   | EBreak v _ \<Rightarrow> compile_break (map_option (compile_expr X) v)
   | EContinue _ \<Rightarrow> compile_continue)"
| "compile_stmt X s = (case s of
     SLet name _ v _ \<Rightarrow> thenC (compile_expr X v) (define_binding X name)
   | SSharedDecl name _ v _ \<Rightarrow> seqC [compile_expr X v, emit_op OpSharedExpr, define_binding X name]
   | SFuncDef d \<Rightarrow> compile_func_def X (fd_name d) (fd_params d) (compile_expr X (fd_body d))
   | SExpr e \<Rightarrow> thenC (compile_expr X e) (emit_op OpPop)
   | SSemi e \<Rightarrow> thenC (compile_expr X e) (emit_op OpPop)
   | STypeDef t \<Rightarrow> register_struct (td_name t)
   | SEnumDef en \<Rightarrow> seqC (map (compile_variant X) (ed_variants en))
   | SImport imp \<Rightarrow> compile_import X imp
   | SActorDef a \<Rightarrow> compile_actor X (ad_name a) (concat (map (\<lambda>m. case m of
         SStateDecl name _ v _ \<Rightarrow> [MState name (compile_expr X v)]
       | SFuncDef d \<Rightarrow> [MFunc (fd_name d) (fd_params d) (compile_expr X (fd_body d))]
       | SOnClause d \<Rightarrow> [MOn (fd_name d) (fd_params d) (compile_expr X (fd_body d))]
       | _ \<Rightarrow> []) (ad_body a)))
   | SStateDecl _ _ _ _ \<Rightarrow> retC ()
   | SOnClause _ \<Rightarrow> retC ())"
  by pat_completeness auto

termination
  by (relation "measure (case_sum (\<lambda>(X, e). size e) (\<lambda>(X, s). size s))")
    (auto simp: termination_simp elim!: option.set_cases dest: size_list_estimation)

declare compile_expr.simps [simp del] and compile_stmt.simps [simp del]

section \<open>Programs\<close>

text \<open>The last statement of a program leaves the result.\<close>

fun compile_top :: "'d ext \<Rightarrow> 'd stmt list \<Rightarrow> 'd compile" where
  "compile_top X [] = emit_op OpNil"
| "compile_top X [s] = (case s of
     SExpr e \<Rightarrow> compile_expr X e
   | SSemi e \<Rightarrow> seqC [compile_expr X e, emit_op OpPop, emit_op OpNil]
   | _ \<Rightarrow> thenC (compile_stmt X s) (emit_op OpNil))"
| "compile_top X (s # s' # ss) = thenC (compile_stmt X s) (compile_top X (s' # ss))"

text \<open>The chunk of a program and the type tables, which the program may have extended.\<close>

definition compile_program_with_types ::
  "'d ext \<Rightarrow> 'd program \<Rightarrow> (str \<times> nat) list \<Rightarrow> str list \<Rightarrow> ('d chunk \<times> (str \<times> nat) list \<times> str list) option" where
  "compile_program_with_types X p vs ss =
     (case thenC (compile_top X (pr_stmts p)) (emit_op OpReturn)
             ((compiler_new FtScript)\<lparr>variants := vs, structs := ss\<rparr>) of
        Some (_, c) \<Rightarrow> (case func_stack c of f # _ \<Rightarrow> Some (fc_chunk f, variants c, structs c) | [] \<Rightarrow> None)
      | None \<Rightarrow> None)"

end
