(* ===== verification/Vm_Call.thy ===== *)
theory Vm_Call
  imports Vm_Signal Compiler
begin

text \<open>
  Calls in the virtual machine (\<open>src/vm/vm.rs\<close>): the operand helpers, \<open>call_value\<close> and the native
  and higher-order builtins, the nested dispatch loops behind them, actors (\<open>do_spawn\<close>,
  \<open>dispatch_request\<close>, \<open>run_handler\<close>, \<open>drain_mailboxes\<close>) and modules (\<open>load_module\<close> and the
  namespaces of dotted imports).

  Every operation that runs code takes the dispatch loop as an argument \<open>R\<close>, called with the
  kind of loop and the frame depth at which it ends; \<open>Vm_Step\<close> ties the knot. What lies
  outside this file is the record \<open>host\<close>.
\<close>

section \<open>The host\<close>

text \<open>
  The bodies of native functions by name, the module files (the file a dotted path names, its
  canonical path if it exists, its text), the parser (with the message and span of the first
  diagnostic), the asynchronous drain and the await loop of the scheduler.
\<close>

record 'd host =
  h_ext :: "'d ext"
  h_native :: "str \<Rightarrow> 'd rt_value list \<Rightarrow> ('d, 'd rt_value) vm"
  h_file :: "str \<Rightarrow> str"
  h_canonical :: "str \<Rightarrow> str option"
  h_read :: "str \<Rightarrow> (str, str) result"
  h_parse :: "str \<Rightarrow> (str \<times> span, 'd program) result"
  h_drain_async :: "('d, unit) vm"
  h_await :: "nat \<Rightarrow> ('d, 'd rt_value) vm"

text \<open>
  The dispatch loops: the body of a closure or of \<open>eval\<close>, an actor handler, an actor
  initialiser, a module, the script.
\<close>

datatype loop_kind = ClosureLoop | HandlerLoop | InitLoop | ModuleLoop | ScriptLoop

type_synonym 'd runner = "loop_kind \<Rightarrow> nat \<Rightarrow> ('d, 'd rt_value) vm"

section \<open>Operand helpers\<close>

definition binop :: "('d rt_value \<Rightarrow> 'd rt_value \<Rightarrow> ('d, 'd rt_value) outcome) \<Rightarrow> ('d, unit) vm" where
  "binop f = bindV pop_val (\<lambda>b. bindV pop_val (\<lambda>a. bindV (liftV (f a b)) push_val))"

definition cmp_op :: "('d rt_value \<Rightarrow> 'd rt_value \<Rightarrow> ('d, bool) outcome) \<Rightarrow> ('d, unit) vm" where
  "cmp_op f = bindV pop_val (\<lambda>b. bindV pop_val (\<lambda>a. bindV (liftV (f a b)) (\<lambda>r. push_val (VBool r))))"

fun vm_neg :: "'d ext \<Rightarrow> 'd rt_value \<Rightarrow> ('d, 'd rt_value) outcome" where
  "vm_neg X (VInt n) = Ok (VInt (- n))"
| "vm_neg X (VDecimal d) = Ok (VDecimal (dec_neg X d))"
| "vm_neg X v = Err (expected ''Int or Decimal'' v ''neg'')"

text \<open>\<open>BigInt::to_isize\<close> on a 64-bit machine.\<close>

definition to_isize :: "int \<Rightarrow> int option" where
  "to_isize n = (if - (2 ^ 63) \<le> n \<and> n < 2 ^ 63 then Some n else None)"

definition index_vec :: "'d rt_value list \<Rightarrow> int \<Rightarrow> ('d, 'd rt_value) outcome" where
  "index_vec xs n =
     (case to_isize n of
        None \<Rightarrow> Err (IndexError (lit ''non-integer index: '' @ show_int n) None)
      | Some i \<Rightarrow>
          if i < 0 \<or> length xs \<le> nat i
          then Err (IndexError (lit ''index '' @ show_int i @ lit '' out of bounds (len '' @ show_nat (length xs) @ lit '')'') None)
          else Ok (xs ! nat i))"

fun do_index :: "'d ext \<Rightarrow> 'd rt_value \<Rightarrow> 'd rt_value \<Rightarrow> ('d, 'd rt_value) outcome" where
  "do_index X (VVec xs) i =
     (case i of
        VInt n \<Rightarrow> index_vec xs n
      | _ \<Rightarrow> Err (IndexError (lit ''vec index must be Int, got '' @ type_name i) None))"
| "do_index X (VMap m) i = Ok (or_nil (entry_get (value_eq X) i m))"
| "do_index X v i = Err (expected ''Vec or Map'' v ''index'')"

text \<open>A field of a shared value is read from the committed cell.\<close>

definition committed :: "'d vm_state \<Rightarrow> 'd rt_value \<Rightarrow> 'd rt_value" where
  "committed s v = (case v of VShared a \<Rightarrow> sc_value (cells s ! a) | _ \<Rightarrow> v)"

definition do_field :: "'d ext \<Rightarrow> 'd rt_value \<Rightarrow> str \<Rightarrow> ('d, 'd rt_value) vm" where
  "do_field X target name = (\<lambda>s. case committed s target of
     VStruct n fs \<Rightarrow>
       (case map_of fs name of
          Some v \<Rightarrow> (VOk v, s)
        | None \<Rightarrow> raise_here (IndexError (lit ''no field `'' @ name @ lit ''`'')) s)
   | VMap m \<Rightarrow> (VOk (or_nil (entry_get (value_eq X) (VStr name) m)), s)
   | VModule a \<Rightarrow>
       (case map_of (md_exports (modules s ! a)) name of
          Some v \<Rightarrow> (VOk v, s)
        | None \<Rightarrow> raise_here (ImportError (md_name (modules s ! a)) (lit ''no export `'' @ name @ lit ''`'')) s)
   | v \<Rightarrow> (VErr (TypeError (lit ''Struct, Map, or Module'') (type_name v) (lit ''.'' @ name) None), s))"

definition assign_local :: "nat \<Rightarrow> 'd rt_value \<Rightarrow> ('d, unit) vm" where
  "assign_local slot v = bindV current_frame (\<lambda>f. bindV (local_val slot) (\<lambda>cur.
     case cur of
       VShared a \<Rightarrow> write_shared a v
     | _ \<Rightarrow> modV (\<lambda>s. s\<lparr>stack := (stack s)[fr_base f + slot := v]\<rparr>)))"

text \<open>The items a higher-order builtin visits; an entry of a map is a map with the keys \<open>key\<close> and \<open>value\<close>.\<close>

fun iter_items :: "'d ext \<Rightarrow> str \<Rightarrow> span \<Rightarrow> 'd rt_value \<Rightarrow> ('d, 'd rt_value list) outcome" where
  "iter_items X name sp (VVec v) = Ok v"
| "iter_items X name sp (VSet v) = Ok v"
| "iter_items X name sp (VMap m) =
     Ok (map (\<lambda>p. value_map X [(VStr (lit ''key''), fst p), (VStr (lit ''value''), snd p)]) m)"
| "iter_items X name sp v = Err (TypeError (lit ''Vec, Set, or Map'') (type_name v) name (Some sp))"

definition two_args :: "str \<Rightarrow> span \<Rightarrow> 'd rt_value list \<Rightarrow> ('d, 'd rt_value \<times> 'd rt_value) outcome" where
  "two_args name sp args =
     (case args of [a, b] \<Rightarrow> Ok (a, b) | _ \<Rightarrow> Err (ArityError 2 (length args) name (Some sp)))"

fun expect_closure :: "str \<Rightarrow> span \<Rightarrow> 'd rt_value \<Rightarrow> ('d, nat) outcome" where
  "expect_closure name sp (VClosure a) = Ok a"
| "expect_closure name sp (VFunc a) =
     Err (TypeError (lit ''VM closure'') (lit ''tree-walker closure'') name (Some sp))"
| "expect_closure name sp v = Err (TypeError (lit ''function'') (type_name v) name (Some sp))"

section \<open>Nested loops\<close>

definition push_frame :: "'d closure_vm \<Rightarrow> nat option \<Rightarrow> 'd rt_value list \<Rightarrow> 'd vm_state \<Rightarrow> 'd vm_state" where
  "push_frame c env args s = s\<lparr>stack := stack s @ args,
     frames := \<lparr>fr_closure = c, fr_ip = 0, fr_base = length (stack s), fr_actor_env = env\<rparr> # frames s\<rparr>"

definition callee_label :: "str option \<Rightarrow> str" where
  "callee_label n = (case n of Some n \<Rightarrow> n | None \<Rightarrow> lit ''<lambda>'')"

definition check_arity :: "'d closure_vm \<Rightarrow> 'd rt_value list \<Rightarrow> ('d, unit) vm" where
  "check_arity c args =
     (if length args = cl_arity c then retV ()
      else raise_here (ArityError (cl_arity c) (length args) (callee_label (cl_name c))))"

text \<open>Frames that an error left above the depth are popped; their upvalues are closed.\<close>

fun discard_frames :: "nat \<Rightarrow> nat \<Rightarrow> ('d, unit) vm" where
  "discard_frames 0 target = retV ()"
| "discard_frames (Suc n) target = (\<lambda>s. case frames s of
     f # fs \<Rightarrow>
       if target < length (frames s)
       then thenV (close_upvalues_above (fr_base f)) (discard_frames n target) (s\<lparr>frames := fs\<rparr>)
       else (VOk (), s)
   | [] \<Rightarrow> (VOk (), s))"

text \<open>\<open>self.loop_handlers.truncate(saved)\<close>.\<close>

definition keep_loops :: "nat \<Rightarrow> 'd vm_state \<Rightarrow> 'd vm_state" where
  "keep_loops saved s = s\<lparr>loop_handlers := drop (length (loop_handlers s) - saved) (loop_handlers s)\<rparr>"

definition restore :: "nat \<Rightarrow> nat \<Rightarrow> nat \<Rightarrow> ('d, unit) vm" where
  "restore target base saved =
     thenV (modV (keep_loops saved))
       (thenV (\<lambda>s. discard_frames (length (frames s)) target s) (modV (truncate_stack base)))"

text \<open>Run \<open>c\<close> after \<open>m\<close> whether \<open>m\<close> succeeds or fails, and keep the outcome of \<open>m\<close>.\<close>

definition afterV :: "('d, 'a) vm \<Rightarrow> ('d, unit) vm \<Rightarrow> ('d, 'a) vm" where
  "afterV m c = (\<lambda>s. case m s of
     (VOk a, s') \<Rightarrow> thenV c (retV a) s'
   | (VErr e, s') \<Rightarrow> thenV c (failV e) s'
   | (VPanic, s') \<Rightarrow> (VPanic, s')
   | (VFuel, s') \<Rightarrow> (VFuel, s'))"

definition nested :: "'d runner \<Rightarrow> loop_kind \<Rightarrow> 'd closure_vm \<Rightarrow> nat option \<Rightarrow> 'd rt_value list \<Rightarrow> ('d, 'd rt_value) vm" where
  "nested R k c env args = (\<lambda>s.
     afterV (R k (length (frames s))) (restore (length (frames s)) (length (stack s)) (length (loop_handlers s)))
       (push_frame c env args s))"

text \<open>\<open>call_closure_sync\<close>, on the address of the closure.\<close>

definition call_sync :: "'d runner \<Rightarrow> nat \<Rightarrow> 'd rt_value list \<Rightarrow> ('d, 'd rt_value) vm" where
  "call_sync R a args = bindV (getV (\<lambda>s. closures s ! a)) (\<lambda>c.
     thenV (check_arity c args) (nested R ClosureLoop c (cl_actor_env c) args))"

section \<open>Higher-order builtins\<close>

fun map_calls :: "('d rt_value \<Rightarrow> ('d, 'a) vm) \<Rightarrow> 'd rt_value list \<Rightarrow> ('d, 'a list) vm" where
  "map_calls f [] = retV []"
| "map_calls f (x # xs) = bindV (f x) (\<lambda>r. bindV (map_calls f xs) (\<lambda>rs. retV (r # rs)))"

fun fold_calls :: "('d rt_value \<Rightarrow> 'd rt_value \<Rightarrow> ('d, 'd rt_value) vm) \<Rightarrow> 'd rt_value \<Rightarrow> 'd rt_value list \<Rightarrow> ('d, 'd rt_value) vm" where
  "fold_calls f acc [] = retV acc"
| "fold_calls f acc (x # xs) = bindV (f acc x) (\<lambda>acc'. fold_calls f acc' xs)"

fun find_call :: "'d ext \<Rightarrow> ('d rt_value \<Rightarrow> ('d, 'd rt_value) vm) \<Rightarrow> 'd rt_value list \<Rightarrow> ('d, 'd rt_value) vm" where
  "find_call X f [] = retV VNil"
| "find_call X f (x # xs) = bindV (f x) (\<lambda>r. if is_truthy X r then retV x else find_call X f xs)"

text \<open>The common beginning of \<open>map\<close>, \<open>filter\<close>, \<open>find\<close> and \<open>each\<close>: collection, closure and items.\<close>

definition over_items ::
  "'d ext \<Rightarrow> string \<Rightarrow> span \<Rightarrow> 'd rt_value list \<Rightarrow> ('d rt_value \<Rightarrow> nat \<Rightarrow> 'd rt_value list \<Rightarrow> ('d, unit) vm) \<Rightarrow> ('d, unit) vm" where
  "over_items X name sp args body =
     bindV (liftV (two_args (lit name) sp args)) (\<lambda>(coll, f).
     bindV (liftV (expect_closure (lit name) sp f)) (\<lambda>a.
     bindV (liftV (iter_items X (lit name) sp coll)) (\<lambda>items. body coll a items)))"

definition ho_map :: "'d ext \<Rightarrow> 'd runner \<Rightarrow> span \<Rightarrow> 'd rt_value list \<Rightarrow> ('d, unit) vm" where
  "ho_map X R sp args = over_items X ''map'' sp args (\<lambda>coll a items.
     bindV (map_calls (\<lambda>x. call_sync R a [x]) items) (\<lambda>out. push_val (VVec out)))"

definition ho_filter :: "'d ext \<Rightarrow> 'd runner \<Rightarrow> span \<Rightarrow> 'd rt_value list \<Rightarrow> ('d, unit) vm" where
  "ho_filter X R sp args = over_items X ''filter'' sp args (\<lambda>coll a items.
     bindV (map_calls (\<lambda>x. bindV (call_sync R a [x]) (\<lambda>keep. retV (x, is_truthy X keep))) items) (\<lambda>rs.
       let out = map fst (filter snd rs) in
       case coll of
         VVec _ \<Rightarrow> push_val (VVec out)
       | VSet _ \<Rightarrow> push_val (value_set X out)
       | v \<Rightarrow> failV (TypeError (lit ''Vec or Set'') (type_name v) (lit ''filter'') (Some sp))))"

definition ho_fold :: "'d ext \<Rightarrow> 'd runner \<Rightarrow> span \<Rightarrow> 'd rt_value list \<Rightarrow> ('d, unit) vm" where
  "ho_fold X R sp args = (case args of
     [coll, init, f] \<Rightarrow>
       bindV (liftV (expect_closure (lit ''fold'') sp f)) (\<lambda>a.
       bindV (liftV (iter_items X (lit ''fold'') sp coll)) (\<lambda>items.
       bindV (fold_calls (\<lambda>acc x. call_sync R a [acc, x]) init items) push_val))
   | _ \<Rightarrow> failV (ArityError 3 (length args) (lit ''fold'') (Some sp)))"

definition ho_reduce :: "'d ext \<Rightarrow> 'd runner \<Rightarrow> span \<Rightarrow> 'd rt_value list \<Rightarrow> ('d, unit) vm" where
  "ho_reduce X R sp args = over_items X ''reduce'' sp args (\<lambda>coll a items. case items of
     [] \<Rightarrow> failV (RuntimeError (lit ''reduce of empty collection'') (Some sp))
   | x # xs \<Rightarrow> bindV (fold_calls (\<lambda>acc y. call_sync R a [acc, y]) x xs) push_val)"

definition ho_find :: "'d ext \<Rightarrow> 'd runner \<Rightarrow> span \<Rightarrow> 'd rt_value list \<Rightarrow> ('d, unit) vm" where
  "ho_find X R sp args = over_items X ''find'' sp args (\<lambda>coll a items.
     bindV (find_call X (\<lambda>x. call_sync R a [x]) items) push_val)"

definition ho_each :: "'d ext \<Rightarrow> 'd runner \<Rightarrow> span \<Rightarrow> 'd rt_value list \<Rightarrow> ('d, unit) vm" where
  "ho_each X R sp args = over_items X ''each'' sp args (\<lambda>coll a items.
     bindV (map_calls (\<lambda>x. call_sync R a [x]) items) (\<lambda>_. push_val VNil))"

section \<open>Front end\<close>

text \<open>\<open>compile_program_with_types\<close> on the persistent tables of the machine.\<close>

definition compile_types :: "'d host \<Rightarrow> 'd program \<Rightarrow> ('d, 'd chunk) vm" where
  "compile_types H p = (\<lambda>s. case compile_program_with_types (h_ext H) p (variant_table s) (struct_table s) of
     Some (c, vs, ss) \<Rightarrow> (VOk c, s\<lparr>variant_table := vs, struct_table := ss\<rparr>)
   | None \<Rightarrow> (VPanic, s))"

text \<open>\<open>eval_src\<close>: an error that escapes the evaluated code leaves without the clean-up.\<close>

definition eval_src :: "'d host \<Rightarrow> 'd runner \<Rightarrow> span \<Rightarrow> 'd rt_value list \<Rightarrow> ('d, 'd rt_value) vm" where
  "eval_src H R sp args = (case args of
     [] \<Rightarrow> failV (ArityError 1 0 (lit ''eval'') (Some sp))
   | v # _ \<Rightarrow>
       (case v of
          VStr src \<Rightarrow>
            (case h_parse H src of
               Err d \<Rightarrow> failV (RuntimeError (lit ''eval parse error: '' @ fst d) (Some sp))
             | Ok p \<Rightarrow> bindV (compile_types H p) (\<lambda>c s.
                 bindV (R ClosureLoop (length (frames s))) (\<lambda>r.
                   thenV (restore (length (frames s)) (length (stack s)) (length (loop_handlers s))) (retV r))
                   (push_frame (closure_vm_new c []) None [] s)))
        | _ \<Rightarrow> failV (TypeError (lit ''Str'') (type_name v) (lit ''eval'') (Some sp))))"

section \<open>Calls\<close>

definition call_native :: "'d host \<Rightarrow> 'd runner \<Rightarrow> str \<Rightarrow> 'd rt_value list \<Rightarrow> ('d, unit) vm" where
  "call_native H R name args = bindV current_span (\<lambda>sp.
     let X = h_ext H in
     if name = lit ''map'' then ho_map X R sp args
     else if name = lit ''filter'' then ho_filter X R sp args
     else if name = lit ''fold'' then ho_fold X R sp args
     else if name = lit ''reduce'' then ho_reduce X R sp args
     else if name = lit ''find'' then ho_find X R sp args
     else if name = lit ''each'' then ho_each X R sp args
     else if name = lit ''eval'' then bindV (eval_src H R sp args) push_val
     else (\<lambda>s. case h_native H name (map (committed s) args) s of
         (VOk v, s') \<Rightarrow> push_val v s'
       | (VErr e, s') \<Rightarrow> (VErr (with_span sp e), s')
       | (VPanic, s') \<Rightarrow> (VPanic, s')
       | (VFuel, s') \<Rightarrow> (VFuel, s')))"

definition call_value :: "'d host \<Rightarrow> 'd runner \<Rightarrow> 'd rt_value \<Rightarrow> 'd rt_value list \<Rightarrow> ('d, unit) vm" where
  "call_value H R callee args = (case callee of
     VClosure a \<Rightarrow> bindV (getV (\<lambda>s. closures s ! a)) (\<lambda>c.
       thenV (check_arity c args) (modV (push_frame c (cl_actor_env c) args)))
   | VNative n \<Rightarrow> call_native H R n args
   | VFunc a \<Rightarrow> raise_here (RuntimeError (lit ''tree-walker closure cannot be called from the VM''))
   | v \<Rightarrow> raise_here (TypeError (lit ''callable'') (type_name v) (lit ''call'')))"

definition do_call :: "'d host \<Rightarrow> 'd runner \<Rightarrow> nat \<Rightarrow> ('d, unit) vm" where
  "do_call H R n = (\<lambda>s. if length (stack s) < Suc n then (VPanic, s)
     else bindV (split_off n) (\<lambda>args. bindV pop_val (\<lambda>callee. call_value H R callee args)) s)"

end
