(* ===== verification/Vm_Actor.thy ===== *)
theory Vm_Actor
  imports Vm_Call
begin

text \<open>
  Actors in the virtual machine (\<open>src/vm/vm.rs\<close>): spawning, synchronous requests, handlers, and
  the drain of the mailboxes at the end of a program.
\<close>

section \<open>Spawning\<close>

definition new_actor :: "nat \<Rightarrow> 'd actor_instance" where
  "new_actor env = \<lparr>ac_mailbox = [], ac_vm_env = Some env, ac_vm_handlers = []\<rparr>"

definition bind_self :: "nat \<Rightarrow> nat \<Rightarrow> 'd vm_state \<Rightarrow> 'd vm_state" where
  "bind_self a env s = s\<lparr>
     actor_envs := (actor_envs s)[env := entry_insert (=) (lit ''self'') (VActor a) (actor_envs s ! env)],
     live_actors := live_actors s @ [a]\<rparr>"

text \<open>
  \<open>do_spawn\<close>: the initialiser runs in a loop of its own. An error leaves the machine as it
  is, but for the loop handlers and the spawning actor, which are reset.
\<close>

definition do_spawn :: "'d runner \<Rightarrow> 'd chunk \<Rightarrow> ('d, unit) vm" where
  "do_spawn R init = (\<lambda>s.
     let a = length (actors s); env = length (actor_envs s);
         s1 = s\<lparr>actors := actors s @ [new_actor env], actor_envs := actor_envs s @ [[]], spawning := Some a\<rparr>
     in case R InitLoop (length (frames s)) (push_frame (closure_vm_new init []) (Some env) [] s1) of
          (VOk _, t) \<Rightarrow> thenV (modV (bind_self a env)) (push_val (VActor a)) (t\<lparr>spawning := spawning s\<rparr>)
        | (VErr e, t) \<Rightarrow> (VErr e, keep_loops (length (loop_handlers s)) (t\<lparr>spawning := spawning s\<rparr>))
        | (VPanic, t) \<Rightarrow> (VPanic, t)
        | (VFuel, t) \<Rightarrow> (VFuel, t))"

definition spawn_actor :: "'d runner \<Rightarrow> str \<Rightarrow> nat \<Rightarrow> ('d, unit) vm" where
  "spawn_actor R name nargs = bindV (getV (\<lambda>s. map_of (actor_defs s) name)) (\<lambda>d. case d of
     None \<Rightarrow> raise_here (RuntimeError (lit ''actor `'' @ name @ lit ''` is not defined''))
   | Some init \<Rightarrow> bindV (split_off nargs) (\<lambda>args.
       if args \<noteq> [] then raise_here (RuntimeError
         (lit ''actor `'' @ name @ lit ''` takes no constructor arguments, got '' @ show_nat (length args)))
       else do_spawn R init))"

definition register_handler :: "str \<Rightarrow> 'd rt_value \<Rightarrow> ('d, unit) vm" where
  "register_handler name v = (case v of
     VClosure c \<Rightarrow> bindV (getV spawning) (\<lambda>sp. case sp of
         Some a \<Rightarrow> modV (\<lambda>s. s\<lparr>actors := (actors s)[a := (actors s ! a)\<lparr>ac_vm_handlers :=
             entry_insert (=) name c (ac_vm_handlers (actors s ! a))\<rparr>]\<rparr>)
       | None \<Rightarrow> raise_here (RuntimeError (lit ''RegisterHandler outside of actor init'')))
   | _ \<Rightarrow> raise_here (RuntimeError (lit ''RegisterHandler: expected Closure, got '' @ type_name v)))"

section \<open>Messages\<close>

definition no_handler :: "str \<Rightarrow> str" where
  "no_handler n = lit ''actor has no `on '' @ n @ lit ''` handler for message `'' @ n @ lit ''`''"

definition run_handler :: "'d runner \<Rightarrow> nat \<Rightarrow> 'd rt_value list \<Rightarrow> nat \<Rightarrow> ('d, 'd rt_value) vm" where
  "run_handler R c args env = bindV (getV (\<lambda>s. closures s ! c)) (\<lambda>cl. nested R HandlerLoop cl (Some env) args)"

definition dispatch_request :: "'d runner \<Rightarrow> nat \<Rightarrow> 'd rt_value \<Rightarrow> span \<Rightarrow> ('d, 'd rt_value) vm" where
  "dispatch_request R a msg sp = (case msg of
     VVariant n args \<Rightarrow> (\<lambda>s. let inst = actors s ! a in
       case map_of (ac_vm_handlers inst) n of
         None \<Rightarrow> (VErr (RuntimeError (no_handler n) (Some sp)), s)
       | Some c \<Rightarrow>
           (case ac_vm_env inst of
              None \<Rightarrow> (VErr (RuntimeError (lit ''actor was not created by the VM'') (Some sp)), s)
            | Some env \<Rightarrow>
                if length args \<noteq> cl_arity (closures s ! c)
                then (VErr (ArityError (cl_arity (closures s ! c)) (length args) (lit ''on '' @ n) (Some sp)), s)
                else run_handler R c args env s))
   | v \<Rightarrow> failV (RuntimeError (lit ''actor messages must be variants, got '' @ type_name v) (Some sp)))"

text \<open>\<open>ActorSend\<close> and \<open>ActorRequest\<close> on the popped message and actor.\<close>

definition enqueue :: "nat \<Rightarrow> 'd rt_value \<Rightarrow> 'd vm_state \<Rightarrow> 'd vm_state" where
  "enqueue a msg s = s\<lparr>actors := (actors s)[a := (actors s ! a)\<lparr>ac_mailbox :=
     ac_mailbox (actors s ! a) @ [\<lparr>en_msg = msg, en_reply_slot = None\<rparr>]\<rparr>]\<rparr>"

definition actor_send :: "'d rt_value \<Rightarrow> 'd rt_value \<Rightarrow> ('d, unit) vm" where
  "actor_send target msg = (case target of
     VActor a \<Rightarrow> thenV (modV (\<lambda>s. enqueue a msg (close_escaping_upvalues msg s))) (push_val VNil)
   | v \<Rightarrow> raise_here (TypeError (lit ''Actor'') (type_name v) (lit ''send (`!`)'')))"

definition actor_request :: "'d runner \<Rightarrow> 'd rt_value \<Rightarrow> 'd rt_value \<Rightarrow> ('d, unit) vm" where
  "actor_request R target msg = (case target of
     VActor a \<Rightarrow> bindV current_span (\<lambda>sp. bindV (dispatch_request R a msg sp) push_val)
   | v \<Rightarrow> raise_here (TypeError (lit ''Actor'') (type_name v) (lit ''request (`?`)'')))"

text \<open>
  \<open>drain_mailboxes\<close>: the \<open>i\<close>-th live actor until its mailbox is empty, then the next one,
  actors spawned on the way included. Handlers can send for ever, so the loop has a bound.
\<close>

definition take_message :: "nat \<Rightarrow> 'd vm_state \<Rightarrow> ('d rt_value \<times> 'd vm_state) option" where
  "take_message a s = (case ac_mailbox (actors s ! a) of
     [] \<Rightarrow> None
   | e # es \<Rightarrow> Some (en_msg e, s\<lparr>actors := (actors s)[a := (actors s ! a)\<lparr>ac_mailbox := es\<rparr>]\<rparr>))"

fun drain_mailboxes :: "nat \<Rightarrow> 'd runner \<Rightarrow> nat \<Rightarrow> ('d, unit) vm" where
  "drain_mailboxes 0 R i = (\<lambda>s. (VFuel, s))"
| "drain_mailboxes (Suc n) R i = (\<lambda>s.
     if i < length (live_actors s) then
       (case take_message (live_actors s ! i) s of
          Some (msg, s') \<Rightarrow>
            bindV (dispatch_request R (live_actors s ! i) msg span_dummy) (\<lambda>_. drain_mailboxes n R i) s'
        | None \<Rightarrow> drain_mailboxes n R (Suc i) s)
     else (VOk (), s))"

end
