(* ===== verification/Vm_Module.thy ===== *)
theory Vm_Module
  imports Vm_Call
begin

text \<open>
  Modules in the virtual machine (\<open>src/vm/vm.rs\<close>): loading a module file, the namespaces that a
  dotted import binds, and the resolution of lazy imports.
\<close>

section \<open>Names and namespaces\<close>

text \<open>\<open>path.split('.')\<close>, which has at least one segment.\<close>

fun split_dots :: "str \<Rightarrow> str list" where
  "split_dots [] = [[]]"
| "split_dots (c # cs) =
     (if c = chr CHR ''.'' then [] # split_dots cs
      else case split_dots cs of seg # segs \<Rightarrow> (c # seg) # segs | [] \<Rightarrow> [[c]])"

definition alloc_module :: "'d module_data \<Rightarrow> ('d, nat) vm" where
  "alloc_module m = (\<lambda>s. (VOk (length (modules s)), s\<lparr>modules := modules s @ [m]\<rparr>))"

text \<open>\<open>build_namespace_module\<close>: a chain of modules around the leaf, the outermost one named after the root.\<close>

fun build_namespace :: "str list \<Rightarrow> nat \<Rightarrow> str \<Rightarrow> ('d, nat) vm" where
  "build_namespace [] leaf root = retV leaf"
| "build_namespace (k # ks) leaf root = bindV (build_namespace ks leaf k) (\<lambda>m.
     alloc_module \<lparr>md_name = root, md_source = None, md_exports = [(k, VModule m)]\<rparr>)"

text \<open>\<open>merge_namespace\<close>: the path is added to a copy of the module, nested namespaces are merged.\<close>

fun merge_namespace :: "nat \<Rightarrow> str list \<Rightarrow> nat \<Rightarrow> ('d, nat) vm" where
  "merge_namespace m [] leaf = panicV"
| "merge_namespace m (k # ks) leaf = bindV (getV (\<lambda>s. modules s ! m)) (\<lambda>old.
     bindV (if ks = [] then retV leaf
            else case map_of (md_exports old) k of
                Some (VModule sub) \<Rightarrow> merge_namespace sub ks leaf
              | _ \<Rightarrow> build_namespace ks leaf k)
       (\<lambda>sub. alloc_module (old\<lparr>md_exports := entry_insert (=) k (VModule sub) (md_exports old)\<rparr>)))"

definition set_global :: "str \<Rightarrow> 'd rt_value \<Rightarrow> ('d, unit) vm" where
  "set_global name v = modV (\<lambda>s. s\<lparr>globals := entry_insert (=) name v (globals s)\<rparr>)"

text \<open>\<open>bind_current\<close>: a global in the script (and in an unnamed function), a fresh stack slot elsewhere.\<close>

definition in_script :: "'d vm_state \<Rightarrow> bool" where
  "in_script s = (case frames s of
     f # _ \<Rightarrow> (case cl_name (fr_closure f) of Some n \<Rightarrow> n = lit ''<script>'' | None \<Rightarrow> True)
   | [] \<Rightarrow> True)"

definition bind_current :: "str \<Rightarrow> 'd rt_value \<Rightarrow> ('d, unit) vm" where
  "bind_current name v = bindV (getV in_script) (\<lambda>b. if b then set_global name v else push_val v)"

definition namespace_for :: "str list \<Rightarrow> nat \<Rightarrow> ('d, nat) vm" where
  "namespace_for segs leaf = bindV (getV (\<lambda>s. map_of (globals s) (hd segs))) (\<lambda>old. case old of
     Some (VModule m) \<Rightarrow> merge_namespace m (tl segs) leaf
   | _ \<Rightarrow> build_namespace (tl segs) leaf (hd segs))"

definition bind_dotted_namespace :: "str \<Rightarrow> nat \<Rightarrow> ('d, unit) vm" where
  "bind_dotted_namespace path leaf =
     bindV (namespace_for (split_dots path) leaf) (\<lambda>m. bind_current (hd (split_dots path)) (VModule m))"

section \<open>Loading\<close>

definition import_error :: "str \<Rightarrow> str \<Rightarrow> span \<Rightarrow> 'd interp_error" where
  "import_error path msg sp = ImportError path msg (Some sp)"

definition cycle_message :: "str list \<Rightarrow> str \<Rightarrow> str" where
  "cycle_message stk file = lit ''circular import: '' @ intercalate (lit '' -> '') (stk @ [file])"

text \<open>The bindings that the module added or changed, and the globals with the changed ones put back.\<close>

definition module_exports :: "'d ext \<Rightarrow> (str \<times> 'd rt_value) list \<Rightarrow> (str \<times> 'd rt_value) list \<Rightarrow> (str \<times> 'd rt_value) list" where
  "module_exports X snapshot gs = filter (\<lambda>(k, v).
     case map_of snapshot k of None \<Rightarrow> True | Some old \<Rightarrow> \<not> value_eq X old v) gs"

definition restore_globals :: "'d ext \<Rightarrow> (str \<times> 'd rt_value) list \<Rightarrow> (str \<times> 'd rt_value) list \<Rightarrow> (str \<times> 'd rt_value) list" where
  "restore_globals X snapshot gs = foldl (\<lambda>gs (k, old). case map_of gs k of
       Some new \<Rightarrow> if value_eq X new old then gs else entry_insert (=) k old gs
     | None \<Rightarrow> gs) gs snapshot"

text \<open>Steps 7 to 9: run the module in a frame of its own, collect its exports, restore, cache.\<close>

definition finish_module :: "'d ext \<Rightarrow> str \<Rightarrow> str \<Rightarrow> (str \<times> 'd rt_value) list \<Rightarrow> ('d, nat) vm" where
  "finish_module X path file snapshot = (\<lambda>s.
     let m = \<lparr>md_name = path, md_source = Some file, md_exports = module_exports X snapshot (globals s)\<rparr>;
         a = length (modules s)
     in (VOk a, s\<lparr>stack := butlast (stack s), load_stack := butlast (load_stack s),
           globals := restore_globals X snapshot (globals s), modules := modules s @ [m],
           module_cache := entry_insert (=) file a (module_cache s)\<rparr>))"

definition run_module :: "'d host \<Rightarrow> 'd runner \<Rightarrow> str \<Rightarrow> str \<Rightarrow> 'd chunk \<Rightarrow> ('d, nat) vm" where
  "run_module H R path file c = (\<lambda>s.
     bindV (R ModuleLoop (length (frames s))) (\<lambda>_. finish_module (h_ext H) path file (globals s))
       (push_frame (closure_vm_new c []) None [] (s\<lparr>load_stack := load_stack s @ [file]\<rparr>)))"

definition load_module :: "'d host \<Rightarrow> 'd runner \<Rightarrow> str \<Rightarrow> span \<Rightarrow> ('d, nat) vm" where
  "load_module H R path sp = (\<lambda>s.
     case map_of (std_modules s) path of Some m \<Rightarrow> (VOk m, s) | None \<Rightarrow>
     (case h_canonical H (h_file H path) of
        None \<Rightarrow> (VErr (import_error path (lit ''module file not found: '' @ h_file H path) sp), s)
      | Some file \<Rightarrow>
     (case map_of (module_cache s) file of Some m \<Rightarrow> (VOk m, s) | None \<Rightarrow>
      if file \<in> set (load_stack s) then (VErr (import_error path (cycle_message (load_stack s) file) sp), s)
      else case h_read H file of
          Err e \<Rightarrow> (VErr (import_error path (lit ''failed to read '' @ file @ lit '': '' @ e) sp), s)
        | Ok src \<Rightarrow>
      (case h_parse H src of
          Err d \<Rightarrow> (VErr (import_error path (lit ''parse error: '' @ fst d) sp), s)
        | Ok p \<Rightarrow> bindV (compile_types H p) (run_module H R path file) s))))"

section \<open>Lazy imports\<close>

text \<open>A lazy import behind a local or an upvalue becomes the module, or its namespace if the path is dotted.\<close>

definition load_namespace :: "'d host \<Rightarrow> 'd runner \<Rightarrow> str \<Rightarrow> ('d, nat) vm" where
  "load_namespace H R path = bindV current_span (\<lambda>sp. bindV (load_module H R path sp) (\<lambda>m.
     let segs = split_dots path in
     if length segs > 1 then build_namespace (tl segs) m (hd segs) else retV m))"

definition resolve_lazy_local :: "'d host \<Rightarrow> 'd runner \<Rightarrow> nat \<Rightarrow> 'd rt_value \<Rightarrow> ('d, 'd rt_value) vm" where
  "resolve_lazy_local H R slot v = (case v of
     VLazyImport p \<Rightarrow> bindV (load_namespace H R p) (\<lambda>m. bindV (set_local slot (VModule m)) (\<lambda>_. retV (VModule m)))
   | _ \<Rightarrow> retV v)"

definition resolve_lazy_upvalue :: "'d host \<Rightarrow> 'd runner \<Rightarrow> nat \<Rightarrow> 'd rt_value \<Rightarrow> ('d, 'd rt_value) vm" where
  "resolve_lazy_upvalue H R u v = (case v of
     VLazyImport p \<Rightarrow> bindV (load_namespace H R p) (\<lambda>m. bindV (upvalue_write u (VModule m)) (\<lambda>_. retV (VModule m)))
   | _ \<Rightarrow> retV v)"

definition resolve_lazy_import :: "'d host \<Rightarrow> 'd runner \<Rightarrow> str \<Rightarrow> str \<Rightarrow> ('d, 'd rt_value) vm" where
  "resolve_lazy_import H R path name = bindV current_span (\<lambda>sp. bindV (load_module H R path sp) (\<lambda>m.
     let segs = split_dots path in
     if length segs > 1 \<and> name = hd segs then bindV (namespace_for segs m) (\<lambda>n. retV (VModule n))
     else retV (VModule m)))"

text \<open>The instruction \<open>Import\<close>.\<close>

definition import_module :: "'d host \<Rightarrow> 'd runner \<Rightarrow> str \<Rightarrow> str option \<Rightarrow> bool \<Rightarrow> ('d, unit) vm" where
  "import_module H R path alias lazy =
     (let segs = split_dots path;
          name = (case alias of Some a \<Rightarrow> a | None \<Rightarrow> hd segs) in
      if lazy then bind_current name (VLazyImport path)
      else bindV current_span (\<lambda>sp. bindV (load_module H R path sp) (\<lambda>m.
        if alias = None \<and> length segs > 1 then bind_dotted_namespace path m
        else bind_current name (VModule m))))"

end
