(* ===== verification/Vm_Step.thy ===== *)
theory Vm_Step
  imports Vm_Actor Vm_Module Vm_Match
begin

text \<open>
  The instruction cycle of the virtual machine (\<open>src/vm/vm.rs\<close>): the instructions, \<open>step\<close>, and the
  dispatch loops that run it.
\<close>

section \<open>Variables\<close>

definition lookup_global :: "str \<Rightarrow> ('d, 'd rt_value) vm" where
  "lookup_global name = bindV current_frame (\<lambda>f. bindV (getV (\<lambda>s. s)) (\<lambda>s.
     case (case fr_actor_env f of
             Some e \<Rightarrow> (case map_of (actor_envs s ! e) name of Some v \<Rightarrow> Some v | None \<Rightarrow> map_of (globals s) name)
           | None \<Rightarrow> map_of (globals s) name) of
       Some v \<Rightarrow> retV v
     | None \<Rightarrow> raise_here (NameError name)))"

text \<open>A lazy import found under a global name is loaded and stored back.\<close>

definition resolve_global :: "'d host \<Rightarrow> 'd runner \<Rightarrow> str \<Rightarrow> 'd rt_value \<Rightarrow> ('d, 'd rt_value) vm" where
  "resolve_global H R name v = (case v of
     VLazyImport p \<Rightarrow> bindV (resolve_lazy_import H R p name) (\<lambda>w. bindV (set_global name w) (\<lambda>_. retV w))
   | _ \<Rightarrow> retV v)"

definition load_local :: "'d host \<Rightarrow> 'd runner \<Rightarrow> ('d, 'd rt_value) vm" where
  "load_local H R = bindV read_index (\<lambda>slot. bindV (local_val slot) (resolve_lazy_local H R slot))"

definition load_upvalue :: "'d host \<Rightarrow> 'd runner \<Rightarrow> ('d, 'd rt_value) vm" where
  "load_upvalue H R = bindV read_index (\<lambda>i. bindV (frame_upvalue i) (\<lambda>u.
     bindV (upvalue_read u) (resolve_lazy_upvalue H R u)))"

definition load_global :: "'d host \<Rightarrow> 'd runner \<Rightarrow> ('d, 'd rt_value) vm" where
  "load_global H R = bindV read_index (\<lambda>i. bindV (const_name i) (\<lambda>name.
     bindV (lookup_global name) (resolve_global H R name)))"

definition set_actor_var :: "nat \<Rightarrow> str \<Rightarrow> 'd rt_value \<Rightarrow> ('d, unit) vm" where
  "set_actor_var e name v = modV (\<lambda>s. s\<lparr>actor_envs := (actor_envs s)[e := entry_insert (=) name v (actor_envs s ! e)]\<rparr>)"

definition define_global :: "str \<Rightarrow> 'd rt_value \<Rightarrow> ('d, unit) vm" where
  "define_global name v = bindV current_frame (\<lambda>f.
     case fr_actor_env f of Some e \<Rightarrow> set_actor_var e name v | None \<Rightarrow> set_global name v)"

definition assign_upvalue :: "nat \<Rightarrow> 'd rt_value \<Rightarrow> ('d, unit) vm" where
  "assign_upvalue u v = bindV (upvalue_read u) (\<lambda>cur.
     case cur of VShared a \<Rightarrow> write_shared a v | _ \<Rightarrow> upvalue_write u v)"

definition assign_module_global :: "str \<Rightarrow> 'd rt_value \<Rightarrow> ('d, unit) vm" where
  "assign_module_global name v = bindV (getV (\<lambda>s. map_of (globals s) name)) (\<lambda>cur.
     case cur of Some (VShared a) \<Rightarrow> write_shared a v | _ \<Rightarrow> set_global name v)"

definition assign_global :: "str \<Rightarrow> 'd rt_value \<Rightarrow> ('d, unit) vm" where
  "assign_global name v = bindV current_frame (\<lambda>f. case fr_actor_env f of
     Some e \<Rightarrow> bindV (getV (\<lambda>s. map_of (actor_envs s ! e) name)) (\<lambda>cur. case cur of
         Some (VShared a) \<Rightarrow> (case v of VShared b \<Rightarrow> set_actor_var e name v | _ \<Rightarrow> write_shared a v)
       | Some w \<Rightarrow> set_actor_var e name v
       | None \<Rightarrow> assign_module_global name v)
   | None \<Rightarrow> assign_module_global name v)"

section \<open>Stack and literals\<close>

text \<open>\<open>PopLocalKeep n\<close>: discard \<open>n\<close> locals below the top, closing what captured them.\<close>

definition pop_local_keep :: "nat \<Rightarrow> ('d, unit) vm" where
  "pop_local_keep n = bindV pop_val (\<lambda>top s. if n \<le> length (stack s)
     then let bound = length (stack s) - n in
       thenV (close_upvalues_above bound) (thenV (modV (truncate_stack bound)) (push_val top)) s
     else (VPanic, s))"

fun pairs_of :: "'a list \<Rightarrow> ('a \<times> 'a) list" where
  "pairs_of (k # v # xs) = (k, v) # pairs_of xs"
| "pairs_of _ = []"

definition swap_top :: "('d, unit) vm" where
  "swap_top = bindV pop_val (\<lambda>b. bindV pop_val (\<lambda>a. thenV (push_val b) (push_val a)))"

definition rotate3 :: "('d, unit) vm" where
  "rotate3 = bindV pop_val (\<lambda>c. bindV pop_val (\<lambda>b. bindV pop_val (\<lambda>a.
     thenV (push_val b) (thenV (push_val c) (push_val a)))))"

fun string_entries :: "('d rt_value \<times> 'd rt_value) list \<Rightarrow> (str \<times> 'd rt_value) list" where
  "string_entries [] = []"
| "string_entries (p # m) = (case fst p of VStr k \<Rightarrow> (k, snd p) # string_entries m | _ \<Rightarrow> string_entries m)"

definition construct_struct :: "str \<Rightarrow> nat \<Rightarrow> ('d, unit) vm" where
  "construct_struct name nargs =
     (if nargs \<noteq> 1 then raise_here (ArityError 1 nargs name)
      else bindV pop_val (\<lambda>v. case v of
          VMap m \<Rightarrow> push_val (VStruct name (entries_of (=) (string_entries m)))
        | _ \<Rightarrow> raise_here (TypeError (lit ''Map'') (type_name v) (lit ''constructing '' @ name))))"

definition method_call :: "'d host \<Rightarrow> 'd runner \<Rightarrow> str \<Rightarrow> nat \<Rightarrow> ('d, unit) vm" where
  "method_call H R name nargs = bindV (split_off nargs) (\<lambda>args. bindV pop_val (\<lambda>recv. case recv of
     VModule m \<Rightarrow> bindV (getV (\<lambda>s. modules s ! m)) (\<lambda>md. case map_of (md_exports md) name of
         Some f \<Rightarrow> call_value H R f args
       | None \<Rightarrow> raise_here (ImportError (md_name md) (lit ''no export `'' @ name @ lit ''`'')))
   | _ \<Rightarrow> bindV (getV (\<lambda>s. map_of (globals s) name)) (\<lambda>g. case g of
         Some v \<Rightarrow> bindV (resolve_global H R name v) (\<lambda>f. call_value H R f (recv # args))
       | None \<Rightarrow> raise_here (NameError name))))"

definition match_op :: "'d ext \<Rightarrow> nat \<Rightarrow> ('d, unit) vm" where
  "match_op X i = bindV (pattern_at i) (\<lambda>p. bindV pop_val (\<lambda>v. bindV (liftV (vm_match X p v)) (\<lambda>r. case r of
     Some bs \<Rightarrow> modV (\<lambda>s. s\<lparr>stack := stack s @ bs @ [VBool True]\<rparr>)
   | None \<Rightarrow> push_val (VBool False))))"

definition import_op :: "'d host \<Rightarrow> 'd runner \<Rightarrow> ('d, unit) vm" where
  "import_op H R = bindV read_index (\<lambda>p. bindV read_index (\<lambda>a. bindV fetch_u8 (\<lambda>lazy.
     bindV (const_at p) (\<lambda>pv. case pv of
       VStr path \<Rightarrow>
         bindV (if a = 0 then retV None
                else bindV (const_at a) (\<lambda>av. retV (case av of VStr n \<Rightarrow> Some n | _ \<Rightarrow> None)))
           (\<lambda>alias. import_module H R path alias (lazy \<noteq> 0))
     | _ \<Rightarrow> raise_here (RuntimeError (lit ''Import: path const must be a string''))))))"

definition define_actor :: "('d, unit) vm" where
  "define_actor = bindV read_index (\<lambda>i. bindV read_index (\<lambda>c. bindV (const_name i) (\<lambda>name.
     bindV current_frame (\<lambda>f. let subs = ch_sub_chunks (cl_chunk (fr_closure f)) in
       if c < length subs then modV (\<lambda>s. s\<lparr>actor_defs := entry_insert (=) name (subs ! c) (actor_defs s)\<rparr>)
       else panicV))))"

definition jump_when :: "('d rt_value \<Rightarrow> bool) \<Rightarrow> ('d, unit) vm" where
  "jump_when cond = bindV read_addr (\<lambda>a. bindV pop_val (\<lambda>v. if cond v then set_ip a else retV ()))"

definition optional_value :: "('d, 'd rt_value) vm" where
  "optional_value = bindV fetch_u16 (\<lambda>w. if w \<noteq> 0 then pop_val else retV VNil)"

section \<open>Instructions\<close>

primrec exec_op :: "'d host \<Rightarrow> 'd runner \<Rightarrow> opcode \<Rightarrow> ('d, unit) vm" where
  "exec_op H R OpNil = push_val VNil"
| "exec_op H R OpTrue = push_val (VBool True)"
| "exec_op H R OpFalse = push_val (VBool False)"
| "exec_op H R OpConst = bindV read_index (\<lambda>i. bindV (const_at i) push_val)"
| "exec_op H R OpLoadLocal = bindV (load_local H R) (\<lambda>v. bindV (read_shared v) push_val)"
| "exec_op H R OpLoadLocalRef = bindV (load_local H R) push_val"
| "exec_op H R OpStoreLocal = bindV read_index (\<lambda>slot. bindV pop_val (set_local slot))"
| "exec_op H R OpLoadUpvalue = bindV (load_upvalue H R) (\<lambda>v. bindV (read_shared v) push_val)"
| "exec_op H R OpLoadUpvalueRef = bindV (load_upvalue H R) push_val"
| "exec_op H R OpStoreUpvalue = bindV read_index (\<lambda>i. bindV pop_val (\<lambda>v. bindV (frame_upvalue i) (\<lambda>u. upvalue_write u v)))"
| "exec_op H R OpLoadGlobal = bindV (load_global H R) (\<lambda>v. bindV (read_shared v) push_val)"
| "exec_op H R OpLoadGlobalRef = bindV (load_global H R) push_val"
| "exec_op H R OpStoreGlobal = bindV read_index (\<lambda>i. bindV (const_name i) (\<lambda>name. bindV pop_val (set_global name)))"
| "exec_op H R OpDefineGlobal = bindV read_index (\<lambda>i. bindV (const_name i) (\<lambda>name. bindV pop_val (define_global name)))"
| "exec_op H R OpPop = bindV pop_val (\<lambda>_. retV ())"
| "exec_op H R OpPopN = bindV read_index drop_vals"
| "exec_op H R OpPopLocalKeep = bindV read_index pop_local_keep"
| "exec_op H R OpDup = bindV (peek_val 0) push_val"
| "exec_op H R OpNewVec = bindV read_index (\<lambda>n. bindV (split_off n) (\<lambda>vs. push_val (VVec vs)))"
| "exec_op H R OpNewMap = bindV read_index (\<lambda>n. bindV (split_off (2 * n)) (\<lambda>vs. push_val (value_map (h_ext H) (pairs_of vs))))"
| "exec_op H R OpNewSet = bindV read_index (\<lambda>n. bindV (split_off n) (\<lambda>vs. push_val (value_set (h_ext H) vs)))"
| "exec_op H R OpAdd = binop (op_add (h_ext H))"
| "exec_op H R OpSub = binop (op_sub (h_ext H))"
| "exec_op H R OpMul = binop (op_mul (h_ext H))"
| "exec_op H R OpDiv = binop (op_div (h_ext H))"
| "exec_op H R OpMod = binop op_modulo"
| "exec_op H R OpNeg = bindV pop_val (\<lambda>a. bindV (liftV (vm_neg (h_ext H) a)) push_val)"
| "exec_op H R OpNot = bindV pop_val (\<lambda>a. push_val (VBool (\<not> is_truthy (h_ext H) a)))"
| "exec_op H R OpEq = bindV pop_val (\<lambda>b. bindV pop_val (\<lambda>a. push_val (VBool (value_eq (h_ext H) a b))))"
| "exec_op H R OpNeq = bindV pop_val (\<lambda>b. bindV pop_val (\<lambda>a. push_val (VBool (\<not> value_eq (h_ext H) a b))))"
| "exec_op H R OpLt = cmp_op (op_lt (h_ext H))"
| "exec_op H R OpGt = cmp_op (op_gt (h_ext H))"
| "exec_op H R OpLte = cmp_op (op_lte (h_ext H))"
| "exec_op H R OpGte = cmp_op (op_gte (h_ext H))"
| "exec_op H R OpJump = bindV read_addr set_ip"
| "exec_op H R OpJumpIfFalse = jump_when (\<lambda>v. \<not> is_truthy (h_ext H) v)"
| "exec_op H R OpJumpIfTrue = jump_when (is_truthy (h_ext H))"
| "exec_op H R OpLoop = bindV read_addr set_ip"
| "exec_op H R OpClosure = bindV read_index (\<lambda>i. bindV (make_closure i) (\<lambda>a. push_val (VClosure a)))"
| "exec_op H R OpCall = bindV read_index (do_call H R)"
| "exec_op H R OpMethodCall = bindV read_index (\<lambda>i. bindV read_index (\<lambda>n. bindV (const_name i) (\<lambda>name. method_call H R name n)))"
| "exec_op H R OpConstructVariant = bindV read_index (\<lambda>i. bindV read_index (\<lambda>n. bindV (const_name i) (\<lambda>name.
     bindV (split_off n) (\<lambda>args. push_val (VVariant name args)))))"
| "exec_op H R OpConstructStruct = bindV read_index (\<lambda>i. bindV read_index (\<lambda>n. bindV (const_name i) (\<lambda>name. construct_struct name n)))"
| "exec_op H R OpReturn = bindV pop_val return_from_frame"
| "exec_op H R OpAssignLocal = bindV read_index (\<lambda>slot. bindV pop_val (assign_local slot))"
| "exec_op H R OpAssignUpvalue = bindV read_index (\<lambda>i. bindV pop_val (\<lambda>v. bindV (frame_upvalue i) (\<lambda>u. assign_upvalue u v)))"
| "exec_op H R OpAssignGlobal = bindV read_index (\<lambda>i. bindV (const_name i) (\<lambda>name. bindV pop_val (assign_global name)))"
| "exec_op H R OpIndex = bindV pop_val (\<lambda>i. bindV pop_val (\<lambda>t. bindV (liftV (do_index (h_ext H) t i)) push_val))"
| "exec_op H R OpIndexAssign = bindV pop_val (\<lambda>i. bindV pop_val (\<lambda>c. bindV pop_val (\<lambda>v.
     bindV (liftV (op_assoc (h_ext H) c i v)) push_val)))"
| "exec_op H R OpField = bindV read_index (\<lambda>i. bindV (const_name i) (\<lambda>name. bindV pop_val (\<lambda>t.
     bindV (do_field (h_ext H) t name) push_val)))"
| "exec_op H R OpFieldAssign = bindV read_index (\<lambda>i. bindV pop_val (\<lambda>v. bindV pop_val (\<lambda>t. push_val VNil)))"
| "exec_op H R OpMatch = bindV read_index (match_op (h_ext H))"
| "exec_op H R OpBreak = bindV fetch_u16 (\<lambda>_. bindV pop_val (\<lambda>v. raise_here (BreakSignal (Some v))))"
| "exec_op H R OpContinue = bindV fetch_u16 (\<lambda>_. raise_here ContinueSignal)"
| "exec_op H R OpReturnSignal = bindV optional_value (\<lambda>v. raise_here (ReturnSignal v))"
| "exec_op H R OpRetry = raise_here RetrySignal"
| "exec_op H R OpRaise = bindV pop_val (\<lambda>v. raise_here (UserException v))"
| "exec_op H R OpPushTry = bindV read_addr (\<lambda>r. bindV read_addr (\<lambda>e. push_try r e))"
| "exec_op H R OpPopTry = pop_try"
| "exec_op H R OpRescueMatch = bindV read_index rescue_match"
| "exec_op H R OpEnsureExit = ensure_exit"
| "exec_op H R OpClearPending = clear_pending"
| "exec_op H R OpSharedExpr = bindV pop_val (\<lambda>v. bindV (shared_expr v) (\<lambda>a. push_val (VShared a)))"
| "exec_op H R OpPushTransact = bindV read_addr push_transact"
| "exec_op H R OpTransactCommit = transact_commit"
| "exec_op H R OpDefineActor = define_actor"
| "exec_op H R OpRegisterHandler = bindV read_index (\<lambda>i. bindV (const_name i) (\<lambda>name. bindV pop_val (register_handler name)))"
| "exec_op H R OpSpawn = bindV read_index (\<lambda>i. bindV read_index (\<lambda>n. bindV (const_name i) (\<lambda>name. spawn_actor R name n)))"
| "exec_op H R OpActorSend = bindV pop_val (\<lambda>msg. bindV pop_val (\<lambda>t. actor_send t msg))"
| "exec_op H R OpActorRequest = bindV pop_val (\<lambda>msg. bindV pop_val (\<lambda>t. actor_request R t msg))"
| "exec_op H R OpYield = thenV (h_drain_async H) (push_val VNil)"
| "exec_op H R OpReply = bindV optional_value (\<lambda>v. raise_here (ReplySignal v))"
| "exec_op H R OpAwait = bindV pop_val (\<lambda>v. case v of
     VTask t \<Rightarrow> bindV (h_await H t) push_val
   | _ \<Rightarrow> raise_here (TypeError (lit ''Task'') (type_name v) (lit ''await'')))"
| "exec_op H R OpImport = import_op H R"
| "exec_op H R OpSwap = swap_top"
| "exec_op H R OpRot3 = rotate3"
| "exec_op H R OpPushLoop = bindV read_addr (\<lambda>c. bindV read_addr (\<lambda>b. push_loop c b))"
| "exec_op H R OpPopLoop = pop_loop"
| "exec_op H R OpEnd = raise_here (RuntimeError (lit ''hit end-of-opcode sentinel''))"

definition step :: "'d host \<Rightarrow> 'd runner \<Rightarrow> ('d, unit) vm" where
  "step H R = bindV fetch_op (exec_op H R)"

section \<open>Dispatch loops\<close>

definition pop_or_nil :: "('d, 'd rt_value) vm" where
  "pop_or_nil = (\<lambda>s. if stack s = [] then (VOk VNil, s) else pop_val s)"

text \<open>What a loop returns when its frame is gone: a handler without \<open>reply\<close> gives \<open>nil\<close>.\<close>

fun loop_end :: "loop_kind \<Rightarrow> ('d, 'd rt_value) vm" where
  "loop_end ClosureLoop = pop_or_nil"
| "loop_end HandlerLoop = bindV pop_or_nil (\<lambda>_. retV VNil)"
| "loop_end InitLoop = bindV pop_or_nil (\<lambda>_. retV VNil)"
| "loop_end ModuleLoop = retV VNil"
| "loop_end ScriptLoop = retV VNil"

text \<open>
  What a loop does with a signal: the initialiser of an actor lets every one out and turns a
  stray \<open>break\<close> or \<open>continue\<close> into an error; the script keeps its own frame.
\<close>

definition escaping_init :: "'d interp_error \<Rightarrow> ('d, 'd signal_outcome) vm" where
  "escaping_init e = (case e of
     BreakSignal _ _ \<Rightarrow> raise_here (RuntimeError (lit ''break/continue escaping actor init''))
   | ContinueSignal _ \<Rightarrow> raise_here (RuntimeError (lit ''break/continue escaping actor init''))
   | _ \<Rightarrow> failV e)"

fun loop_signal :: "loop_kind \<Rightarrow> 'd interp_error \<Rightarrow> nat \<Rightarrow> ('d, 'd signal_outcome) vm" where
  "loop_signal InitLoop e target = escaping_init e"
| "loop_signal ScriptLoop e target = handle_signal e 1"
| "loop_signal k e target = handle_signal e target"

text \<open>
  The loop with at most \<open>n\<close> turns, nested ones included: each turn runs one instruction with the
  loops nested in it bounded by the turns that remain.
\<close>

fun dispatch :: "'d host \<Rightarrow> nat \<Rightarrow> 'd runner" where
  "dispatch H 0 k target = (\<lambda>s. (VFuel, s))"
| "dispatch H (Suc n) k target = (\<lambda>s.
     if length (frames s) \<le> target then loop_end k s
     else case step H (dispatch H n) s of
         (VOk _, s') \<Rightarrow> dispatch H n k target s'
       | (VErr e, s') \<Rightarrow> bindV (loop_signal k e target) (\<lambda>out. case out of
             SigContinue \<Rightarrow> dispatch H n k target
           | SigDone v \<Rightarrow> retV v) s'
       | (VPanic, s') \<Rightarrow> (VPanic, s')
       | (VFuel, s') \<Rightarrow> (VFuel, s'))"

text \<open>\<open>run_chunk\<close> on a fresh context: the script, the drain, and the value left on the stack.\<close>

definition run_chunk :: "'d host \<Rightarrow> nat \<Rightarrow> 'd chunk \<Rightarrow> ('d, 'd rt_value) vm" where
  "run_chunk H n c = (\<lambda>s.
     bindV (dispatch H n ScriptLoop 0) (\<lambda>_. thenV (drain_mailboxes n (dispatch H n) 0) pop_or_nil)
       (push_frame (closure_vm_new c []) None [] (ctx_new s)))"

definition run_source :: "'d host \<Rightarrow> nat \<Rightarrow> str \<Rightarrow> ('d, 'd rt_value) vm" where
  "run_source H n src = (case h_parse H src of
     Err d \<Rightarrow> failV (RuntimeError (lit ''parse error: '' @ fst d) (Some (snd d)))
   | Ok p \<Rightarrow> bindV (compile_types H p) (run_chunk H n))"

end
