(* ===== verification/Eval_Spec.thy ===== *)
theory Eval_Spec
  imports Vm_Step
begin

text \<open>
  What an expression without bindings, calls and control transfer means: a big-step semantics
  over an assignment of values to names. It is the specification that both execution engines of
  the language, the compiler with the virtual machine and the tree-walking interpreter, are
  proved to implement. Errors are compared without the spans and texts in which the engines
  differ. Decimal literals are left out: the constant pool merges equal decimals of different
  precision.
\<close>

section \<open>Errors up to their position\<close>

definition erase :: "'d interp_error \<Rightarrow> 'd interp_error" where
  "erase e = (case e of
     UserException v _ \<Rightarrow> UserException v None
   | NameError n _ \<Rightarrow> NameError n None
   | TypeError _ g _ _ \<Rightarrow> TypeError [] g [] None
   | ArityError a b n _ \<Rightarrow> ArityError a b n None
   | IndexError m _ \<Rightarrow> IndexError m None
   | PatternMatchFail v _ \<Rightarrow> PatternMatchFail v None
   | DivisionByZero _ \<Rightarrow> DivisionByZero None
   | RuntimeError m _ \<Rightarrow> RuntimeError m None
   | ReturnSignal v _ \<Rightarrow> ReturnSignal v None
   | ReplySignal v _ \<Rightarrow> ReplySignal v None
   | RetrySignal _ \<Rightarrow> RetrySignal None
   | BreakSignal v _ \<Rightarrow> BreakSignal v None
   | ContinueSignal _ \<Rightarrow> ContinueSignal None
   | ImportError p m _ \<Rightarrow> ImportError p m None)"

lemma erase_with_span [simp]: "erase (with_span sp e) = erase e"
  by (cases e) (simp_all add: erase_def)

lemma erase_idem [simp]: "erase (erase e) = erase e"
  by (cases e) (simp_all add: erase_def)

definition erased :: "('d, 'a) outcome \<Rightarrow> ('d, 'a) outcome" where
  "erased r = (case r of Inl e \<Rightarrow> Inl (erase e) | Inr a \<Rightarrow> Inr a)"

lemma erased_simps [simp]: "erased (Ok a) = Ok a" "erased (Err e) = Err (erase e)"
  by (simp_all add: erased_def)

section \<open>Operations\<close>

definition truth :: "('d, bool) outcome \<Rightarrow> ('d, 'd rt_value) outcome" where
  "truth r = bindE r (\<lambda>b. Ok (VBool b))"

definition apply_bin :: "'d ext \<Rightarrow> bin_op \<Rightarrow> 'd rt_value \<Rightarrow> 'd rt_value \<Rightarrow> ('d, 'd rt_value) outcome" where
  "apply_bin X b v w = (case b of
     BAdd \<Rightarrow> op_add X v w | BSub \<Rightarrow> op_sub X v w | BMul \<Rightarrow> op_mul X v w | BDiv \<Rightarrow> op_div X v w
   | BMod \<Rightarrow> op_modulo v w | BEq \<Rightarrow> Ok (VBool (value_eq X v w)) | BNeq \<Rightarrow> Ok (VBool (\<not> value_eq X v w))
   | BLt \<Rightarrow> truth (op_lt X v w) | BGt \<Rightarrow> truth (op_gt X v w)
   | BLte \<Rightarrow> truth (op_lte X v w) | BGte \<Rightarrow> truth (op_gte X v w)
   | BAnd \<Rightarrow> Ok (if is_truthy X v then w else v) | BOr \<Rightarrow> Ok (if is_truthy X v then v else w))"

definition strict_op :: "bin_op \<Rightarrow> bool" where
  "strict_op b \<longleftrightarrow> b \<noteq> BAnd \<and> b \<noteq> BOr"

definition apply_un :: "'d ext \<Rightarrow> unary_op \<Rightarrow> 'd rt_value \<Rightarrow> ('d, 'd rt_value) outcome" where
  "apply_un X u v = (case u of UNeg \<Rightarrow> vm_neg X v | UNot \<Rightarrow> Ok (VBool (\<not> is_truthy X v)))"

text \<open>A field of a struct or of a map; modules and shared cells are not values of their own.\<close>

definition own_value :: "'d rt_value \<Rightarrow> bool" where
  "own_value v = (case v of VShared _ \<Rightarrow> False | VModule _ \<Rightarrow> False | VLazyImport _ \<Rightarrow> False | _ \<Rightarrow> True)"

definition field_of :: "'d ext \<Rightarrow> 'd rt_value \<Rightarrow> str \<Rightarrow> ('d, 'd rt_value) outcome" where
  "field_of X v name = (case v of
     VStruct _ fs \<Rightarrow> (case map_of fs name of
         Some w \<Rightarrow> Ok w | None \<Rightarrow> Err (IndexError (lit ''no field `'' @ name @ lit ''`'') None))
   | VMap m \<Rightarrow> Ok (or_nil (entry_get (value_eq X) (VStr name) m))
   | _ \<Rightarrow> Err (TypeError [] (type_name v) [] None))"

section \<open>Expressions\<close>

text \<open>A bare identifier as the key of a map entry stands for its name.\<close>

definition key_expr :: "'d expr \<Rightarrow> 'd expr" where
  "key_expr k = (case k of EIdent name sp \<Rightarrow> EStr [LiteralPart name] sp | _ \<Rightarrow> k)"

definition entry_exprs :: "('d expr \<times> 'd expr) list \<Rightarrow> 'd expr list" where
  "entry_exprs entries = concat (map (\<lambda>(k, v). [key_expr k, v]) entries)"

text \<open>The expressions the semantics is about; the lengths fit the 8-bit operands of the code.\<close>

inductive plain :: "'d expr \<Rightarrow> bool" where
  "plain (EInt n sp)"
| "plain (EStr [LiteralPart t] sp)"
| "plain (EBool b sp)"
| "plain (ENil sp)"
| "plain (EIdent x sp)"
| "list_all plain items \<Longrightarrow> length items < 256 \<Longrightarrow> plain (EVecLit items sp)"
| "list_all plain items \<Longrightarrow> length items < 256 \<Longrightarrow> plain (ESetLit items sp)"
| "list_all plain (entry_exprs entries) \<Longrightarrow> length entries < 256 \<Longrightarrow> plain (EMapLit entries sp)"
| "plain l \<Longrightarrow> plain r \<Longrightarrow> plain (EBinOp b l r sp)"
| "plain a \<Longrightarrow> plain (EUnaryOp u a sp)"
| "plain cond \<Longrightarrow> plain yes \<Longrightarrow> pred_option plain no \<Longrightarrow> plain (EIf cond yes no sp)"
| "plain a \<Longrightarrow> plain (EParen a sp)"
| "plain a \<Longrightarrow> plain (EField a name sp)"

inductive evals ::
  "'d ext \<Rightarrow> (str \<Rightarrow> 'd rt_value option) \<Rightarrow> 'd expr \<Rightarrow> ('d, 'd rt_value) outcome \<Rightarrow> bool"
and evals_all ::
  "'d ext \<Rightarrow> (str \<Rightarrow> 'd rt_value option) \<Rightarrow> 'd expr list \<Rightarrow> ('d, 'd rt_value list) outcome \<Rightarrow> bool"
for X look where
  ev_int: "evals X look (EInt n sp) (Ok (VInt n))"
| ev_str: "evals X look (EStr [LiteralPart t] sp) (Ok (VStr t))"
| ev_bool: "evals X look (EBool b sp) (Ok (VBool b))"
| ev_nil: "evals X look (ENil sp) (Ok VNil)"
| ev_ident: "look x = Some v \<Longrightarrow> evals X look (EIdent x sp) (Ok v)"
| ev_unbound: "look x = None \<Longrightarrow> evals X look (EIdent x sp) (Err (NameError x None))"
| ev_vec: "evals_all X look items (Ok vs) \<Longrightarrow> evals X look (EVecLit items sp) (Ok (VVec vs))"
| ev_vec_err: "evals_all X look items (Err e) \<Longrightarrow> evals X look (EVecLit items sp) (Err e)"
| ev_set: "evals_all X look items (Ok vs) \<Longrightarrow> evals X look (ESetLit items sp) (Ok (value_set X vs))"
| ev_set_err: "evals_all X look items (Err e) \<Longrightarrow> evals X look (ESetLit items sp) (Err e)"
| ev_map: "evals_all X look (entry_exprs entries) (Ok vs) \<Longrightarrow>
    evals X look (EMapLit entries sp) (Ok (value_map X (pairs_of vs)))"
| ev_map_err: "evals_all X look (entry_exprs entries) (Err e) \<Longrightarrow> evals X look (EMapLit entries sp) (Err e)"
| ev_bin: "strict_op b \<Longrightarrow> evals X look l (Ok v) \<Longrightarrow> evals X look r (Ok w) \<Longrightarrow>
    evals X look (EBinOp b l r sp) (erased (apply_bin X b v w))"
| ev_bin_left: "evals X look l (Err e) \<Longrightarrow> evals X look (EBinOp b l r sp) (Err e)"
| ev_bin_right: "strict_op b \<Longrightarrow> evals X look l (Ok v) \<Longrightarrow> evals X look r (Err e) \<Longrightarrow>
    evals X look (EBinOp b l r sp) (Err e)"
| ev_and_stop: "evals X look l (Ok v) \<Longrightarrow> \<not> is_truthy X v \<Longrightarrow> evals X look (EBinOp BAnd l r sp) (Ok v)"
| ev_and_go: "evals X look l (Ok v) \<Longrightarrow> is_truthy X v \<Longrightarrow> evals X look r res \<Longrightarrow> evals X look (EBinOp BAnd l r sp) res"
| ev_or_stop: "evals X look l (Ok v) \<Longrightarrow> is_truthy X v \<Longrightarrow> evals X look (EBinOp BOr l r sp) (Ok v)"
| ev_or_go: "evals X look l (Ok v) \<Longrightarrow> \<not> is_truthy X v \<Longrightarrow> evals X look r res \<Longrightarrow> evals X look (EBinOp BOr l r sp) res"
| ev_un: "evals X look a (Ok v) \<Longrightarrow> evals X look (EUnaryOp u a sp) (erased (apply_un X u v))"
| ev_un_err: "evals X look a (Err e) \<Longrightarrow> evals X look (EUnaryOp u a sp) (Err e)"
| ev_if_yes: "evals X look cond (Ok v) \<Longrightarrow> is_truthy X v \<Longrightarrow> evals X look yes res \<Longrightarrow> evals X look (EIf cond yes no sp) res"
| ev_if_no: "evals X look cond (Ok v) \<Longrightarrow> \<not> is_truthy X v \<Longrightarrow> evals X look no res \<Longrightarrow>
    evals X look (EIf cond yes (Some no) sp) res"
| ev_if_nil: "evals X look cond (Ok v) \<Longrightarrow> \<not> is_truthy X v \<Longrightarrow> evals X look (EIf cond yes None sp) (Ok VNil)"
| ev_if_err: "evals X look cond (Err e) \<Longrightarrow> evals X look (EIf cond yes no sp) (Err e)"
| ev_paren: "evals X look a res \<Longrightarrow> evals X look (EParen a sp) res"
| ev_field: "evals X look a (Ok v) \<Longrightarrow> own_value v \<Longrightarrow> evals X look (EField a name sp) (erased (field_of X v name))"
| ev_field_err: "evals X look a (Err e) \<Longrightarrow> evals X look (EField a name sp) (Err e)"
| ev_none: "evals_all X look [] (Ok [])"
| ev_more: "evals X look e (Ok v) \<Longrightarrow> evals_all X look es (Ok vs) \<Longrightarrow> evals_all X look (e # es) (Ok (v # vs))"
| ev_first_err: "evals X look e (Err x) \<Longrightarrow> evals_all X look (e # es) (Err x)"
| ev_rest_err: "evals X look e (Ok v) \<Longrightarrow> evals_all X look es (Err x) \<Longrightarrow> evals_all X look (e # es) (Err x)"

end
