(* ===== verification/Vm_Step_Spec.thy ===== *)
theory Vm_Step_Spec
  imports Vm_Step Vm_Signal_Spec
begin

text \<open>
  The instruction cycle as a whole: the bound of a dispatch loop only decides whether it
  answers, and what happens when calls, exceptions, imports and transactions meet.
\<close>

section \<open>The bound does not matter\<close>

text \<open>\<open>m'\<close> agrees with \<open>m\<close> wherever \<open>m\<close> is not cut off.\<close>

definition extends :: "('d, 'a) vm \<Rightarrow> ('d, 'a) vm \<Rightarrow> bool" where
  "extends m m' \<longleftrightarrow> (\<forall>s. fst (m s) \<noteq> VFuel \<longrightarrow> m' s = m s)"

named_theorems extends_intros \<open>congruence of \<open>extends\<close>\<close>

lemma extendsD: "extends m m' \<Longrightarrow> fst (m s) \<noteq> VFuel \<Longrightarrow> m' s = m s"
  by (simp add: extends_def)

lemma extends_refl [extends_intros]: "extends m m"
  by (simp add: extends_def)

lemma extends_bind [extends_intros]:
  assumes "extends m m'" and "\<And>a. extends (f a) (f' a)"
  shows "extends (bindV m f) (bindV m' f')"
  unfolding extends_def
proof (intro allI impI)
  fix s assume cut: "fst (bindV m f s) \<noteq> VFuel"
  obtain r s1 where m: "m s = (r, s1)" by fastforce
  then have "r \<noteq> VFuel" using cut by (auto simp: bindV_def)
  then have m': "m' s = (r, s1)" using extendsD [OF assms(1), of s] m by simp
  show "bindV m' f' s = bindV m f s"
  proof (cases r)
    case (VOk a)
    then show ?thesis using cut m m' extendsD [OF assms(2), of a s1] by (simp add: bindV_def)
  qed (use m m' in \<open>simp_all add: bindV_def\<close>)
qed

lemma extends_then [extends_intros]:
  "extends m m' \<Longrightarrow> extends n n' \<Longrightarrow> extends (thenV m n) (thenV m' n')"
  by (simp add: thenV_def extends_bind)

lemma extends_if [extends_intros]:
  "(b \<Longrightarrow> extends m m') \<Longrightarrow> (\<not> b \<Longrightarrow> extends n n') \<Longrightarrow> extends (if b then m else n) (if b then m' else n')"
  by simp

lemma extends_state:
  assumes "\<And>s. extends (f s) (f' s)"
  shows "extends (\<lambda>s. f s (g s)) (\<lambda>s. f' s (g s))"
  using assms by (simp add: extends_def)

lemma extends_after [extends_intros]:
  assumes "extends m m'"
  shows "extends (afterV m c) (afterV m' c)"
  unfolding extends_def
proof (intro allI impI)
  fix s assume "fst (afterV m c s) \<noteq> VFuel"
  then have "fst (m s) \<noteq> VFuel" by (auto simp: afterV_def split: prod.splits vres.splits)
  then show "afterV m' c s = afterV m c s" using extendsD [OF assms] by (simp add: afterV_def)
qed

lemma extends_option [extends_intros]:
  "extends n n' \<Longrightarrow> (\<And>a. extends (f a) (f' a)) \<Longrightarrow> extends (case x of None \<Rightarrow> n | Some a \<Rightarrow> f a) (case x of None \<Rightarrow> n' | Some a \<Rightarrow> f' a)"
  by (cases x) simp_all

lemma extends_list [extends_intros]:
  "extends n n' \<Longrightarrow> (\<And>a b. extends (f a b) (f' a b)) \<Longrightarrow> extends (case x of [] \<Rightarrow> n | a # b \<Rightarrow> f a b) (case x of [] \<Rightarrow> n' | a # b \<Rightarrow> f' a b)"
  by (cases x) simp_all

lemma extends_prod [extends_intros]:
  "(\<And>a b. extends (f a b) (f' a b)) \<Longrightarrow> extends (case x of (a, b) \<Rightarrow> f a b) (case x of (a, b) \<Rightarrow> f' a b)"
  by (cases x) simp_all

lemma extends_sum [extends_intros]:
  "(\<And>a. extends (g a) (g' a)) \<Longrightarrow> (\<And>a. extends (f a) (f' a)) \<Longrightarrow>
   extends (case x of Inl a \<Rightarrow> g a | Inr a \<Rightarrow> f a) (case x of Inl a \<Rightarrow> g' a | Inr a \<Rightarrow> f' a)"
  by (cases x) simp_all

text \<open>Runners.\<close>

definition runner_extends :: "'d runner \<Rightarrow> 'd runner \<Rightarrow> bool" where
  "runner_extends R R' \<longleftrightarrow> (\<forall>k t. extends (R k t) (R' k t))"

lemma extends_run: "runner_extends R R' \<Longrightarrow> extends (R k t) (R' k t)"
  by (simp add: runner_extends_def)

lemmas run_intros = extends_intros extends_run

lemma extends_nested:
  assumes "runner_extends R R'"
  shows "extends (nested R k c env args) (nested R' k c env args)"
  using extends_after [OF extends_run [OF assms]] by (simp add: nested_def extends_def)

lemma extends_call_sync: "runner_extends R R' \<Longrightarrow> extends (call_sync R a args) (call_sync R' a args)"
  unfolding call_sync_def by (intro run_intros extends_nested)

lemma extends_map_calls:
  "(\<And>x. extends (f x) (f' x)) \<Longrightarrow> extends (map_calls f xs) (map_calls f' xs)"
  by (induction xs) (simp_all add: extends_intros)

lemma extends_fold_calls:
  "(\<And>a x. extends (f a x) (f' a x)) \<Longrightarrow> extends (fold_calls f a xs) (fold_calls f' a xs)"
  by (induction xs arbitrary: a) (simp_all add: extends_intros)

lemma extends_find_call:
  "(\<And>x. extends (f x) (f' x)) \<Longrightarrow> extends (find_call X f xs) (find_call X f' xs)"
  by (induction xs) (auto intro!: extends_intros)

lemma extends_over_items:
  "(\<And>c a xs. extends (f c a xs) (f' c a xs)) \<Longrightarrow> extends (over_items X name sp args f) (over_items X name sp args f')"
  unfolding over_items_def by (intro extends_intros)

lemmas call_intros = extends_nested extends_call_sync extends_map_calls extends_fold_calls extends_find_call extends_over_items

lemma extends_ho:
  assumes "runner_extends R R'"
  shows "extends (ho_map X R sp args) (ho_map X R' sp args)"
    "extends (ho_filter X R sp args) (ho_filter X R' sp args)"
    "extends (ho_fold X R sp args) (ho_fold X R' sp args)"
    "extends (ho_reduce X R sp args) (ho_reduce X R' sp args)"
    "extends (ho_find X R sp args) (ho_find X R' sp args)"
    "extends (ho_each X R sp args) (ho_each X R' sp args)"
  unfolding ho_map_def ho_filter_def ho_fold_def ho_reduce_def ho_find_def ho_each_def
  by (intro call_intros run_intros assms)+

lemma extends_eval_src:
  assumes "runner_extends R R'"
  shows "extends (eval_src H R sp args) (eval_src H R' sp args)"
proof -
  let ?body = "\<lambda>R c s. bindV (R ClosureLoop (length (frames s))) (\<lambda>r.
      thenV (restore (length (frames s)) (length (stack s)) (length (loop_handlers s))) (retV r))
      (push_frame (closure_vm_new c []) None [] s)"
  have "extends (bindV (R ClosureLoop d) g) (bindV (R' ClosureLoop d) g)" for d and g :: "'a rt_value \<Rightarrow> ('a, 'a rt_value) vm"
    by (intro extends_intros extends_run [OF assms])
  then have "extends (?body R c) (?body R' c)" for c by (simp add: extends_def)
  then have "extends (bindV (compile_types H p) (?body R)) (bindV (compile_types H p) (?body R'))" for p
    by (intro extends_bind extends_refl)
  then show ?thesis
    by (simp add: eval_src_def extends_refl split: list.split rt_value.split sum.split)
qed

lemma extends_call_native:
  "runner_extends R R' \<Longrightarrow> extends (call_native H R n args) (call_native H R' n args)"
  unfolding call_native_def Let_def by (intro extends_intros extends_ho extends_eval_src)

lemma extends_call_value:
  "runner_extends R R' \<Longrightarrow> extends (call_value H R v args) (call_value H R' v args)"
  by (simp add: call_value_def extends_refl extends_call_native split: rt_value.split)

lemma extends_do_call:
  assumes "runner_extends R R'"
  shows "extends (do_call H R n) (do_call H R' n)"
proof -
  have "extends (bindV (split_off n) (\<lambda>args. bindV pop_val (\<lambda>callee. call_value H R callee args)))
     (bindV (split_off n) (\<lambda>args. bindV pop_val (\<lambda>callee. call_value H R' callee args)))"
    by (intro extends_intros extends_call_value assms)
  then show ?thesis by (simp add: do_call_def extends_def)
qed

lemma extends_do_spawn:
  assumes "runner_extends R R'"
  shows "extends (do_spawn R c) (do_spawn R' c)"
  unfolding extends_def
proof (intro allI impI)
  fix s assume cut: "fst (do_spawn R c s) \<noteq> VFuel"
  let ?t = "push_frame (closure_vm_new c []) (Some (length (actor_envs s))) []
    (s\<lparr>actors := actors s @ [new_actor (length (actor_envs s))], actor_envs := actor_envs s @ [[]],
       spawning := Some (length (actors s))\<rparr>)"
  have "fst (R InitLoop (length (frames s)) ?t) \<noteq> VFuel"
    using cut by (auto simp: do_spawn_def Let_def split: prod.splits vres.splits)
  then show "do_spawn R' c s = do_spawn R c s"
    using extendsD [OF extends_run [OF assms]] by (simp add: do_spawn_def Let_def)
qed

lemma extends_spawn_actor:
  "runner_extends R R' \<Longrightarrow> extends (spawn_actor R name n) (spawn_actor R' name n)"
  unfolding spawn_actor_def by (intro extends_intros extends_do_spawn)

lemma extends_dispatch_request:
  assumes "runner_extends R R'"
  shows "extends (dispatch_request R a msg sp) (dispatch_request R' a msg sp)"
proof -
  have "extends (run_handler R c args env) (run_handler R' c args env)" for c args env
    unfolding run_handler_def by (intro extends_intros extends_nested assms)
  then show ?thesis
    by (auto simp: dispatch_request_def extends_def Let_def split: rt_value.splits option.splits)
qed

lemma extends_actor_request:
  "runner_extends R R' \<Longrightarrow> extends (actor_request R v msg) (actor_request R' v msg)"
  by (auto simp: actor_request_def extends_refl split: rt_value.split intro!: extends_intros extends_dispatch_request)

lemma extends_load_module:
  assumes "runner_extends R R'"
  shows "extends (load_module H R path sp) (load_module H R' path sp)"
proof -
  have "extends (run_module H R p f c) (run_module H R' p f c)" for p f c
    unfolding run_module_def
    by (rule extends_state) (intro extends_intros extends_run [OF assms])
  then have "extends (bindV (compile_types H p) (run_module H R path f)) (bindV (compile_types H p) (run_module H R' path f))" for p f
    by (intro extends_bind extends_refl)
  then show ?thesis
    by (auto simp: load_module_def extends_def split: option.splits sum.splits)
qed

lemma extends_load_namespace:
  "runner_extends R R' \<Longrightarrow> extends (load_namespace H R p) (load_namespace H R' p)"
  unfolding load_namespace_def Let_def by (intro extends_intros extends_load_module)

lemma extends_resolve:
  assumes "runner_extends R R'"
  shows "extends (resolve_lazy_local H R i v) (resolve_lazy_local H R' i v)"
    "extends (resolve_lazy_upvalue H R i v) (resolve_lazy_upvalue H R' i v)"
    "extends (resolve_global H R name v) (resolve_global H R' name v)"
proof -
  have "extends (resolve_lazy_import H R p name) (resolve_lazy_import H R' p name)" for p
    unfolding resolve_lazy_import_def Let_def by (intro extends_intros extends_load_module assms)
  then show "extends (resolve_global H R name v) (resolve_global H R' name v)"
    by (simp add: resolve_global_def extends_refl extends_bind split: rt_value.split)
  show "extends (resolve_lazy_local H R i v) (resolve_lazy_local H R' i v)"
    "extends (resolve_lazy_upvalue H R i v) (resolve_lazy_upvalue H R' i v)"
    using extends_load_namespace [OF assms]
    by (simp_all add: resolve_lazy_local_def resolve_lazy_upvalue_def extends_refl extends_bind split: rt_value.split)
qed

lemma extends_load:
  assumes "runner_extends R R'"
  shows "extends (load_local H R) (load_local H R')" "extends (load_upvalue H R) (load_upvalue H R')"
    "extends (load_global H R) (load_global H R')"
  unfolding load_local_def load_upvalue_def load_global_def
  by (intro extends_intros extends_resolve assms)+

lemma extends_import_op:
  assumes "runner_extends R R'"
  shows "extends (import_op H R) (import_op H R')"
proof -
  have "extends (import_module H R p a l) (import_module H R' p a l)" for p a l
    unfolding import_module_def Let_def by (intro extends_intros extends_load_module assms)
  then show ?thesis
    unfolding import_op_def by (intro extends_intros) (simp split: rt_value.split add: extends_refl extends_bind)
qed

lemma extends_method_call:
  assumes "runner_extends R R'"
  shows "extends (method_call H R name n) (method_call H R' name n)"
proof -
  let ?mod = "\<lambda>R args m. bindV (getV (\<lambda>s. modules s ! m)) (\<lambda>md. case map_of (md_exports md) name of
         Some f \<Rightarrow> call_value H R f args
       | None \<Rightarrow> raise_here (ImportError (md_name md) (lit ''no export `'' @ name @ lit ''`'')))"
  let ?glob = "\<lambda>R recv args. bindV (getV (\<lambda>s. map_of (globals s) name)) (\<lambda>g. case g of
         Some v \<Rightarrow> bindV (resolve_global H R name v) (\<lambda>f. call_value H R f (recv # args))
       | None \<Rightarrow> raise_here (NameError name))"
  have "extends (?mod R args m) (?mod R' args m)" for args m
    by (intro extends_intros extends_call_value assms)
  moreover have "extends (?glob R recv args) (?glob R' recv args)" for recv args
    by (intro extends_intros extends_call_value extends_resolve assms)
  ultimately show ?thesis
    unfolding method_call_def by (intro extends_intros) (simp split: rt_value.split)
qed

lemma extends_exec_op:
  assumes "runner_extends R R'"
  shows "extends (exec_op H R p) (exec_op H R' p)"
  by (cases p; simp only: exec_op.simps;
    (rule extends_refl | intro extends_intros extends_load extends_do_call extends_method_call extends_spawn_actor
        extends_actor_request extends_import_op assms))

text \<open>One turn of a loop, with the loop itself as a parameter.\<close>

definition turn :: "'d host \<Rightarrow> 'd runner \<Rightarrow> 'd runner" where
  "turn H R k target = (\<lambda>s.
     if length (frames s) \<le> target then loop_end k s
     else case step H R s of
         (VOk _, s') \<Rightarrow> R k target s'
       | (VErr e, s') \<Rightarrow> bindV (loop_signal k e target) (\<lambda>out. case out of
             SigContinue \<Rightarrow> R k target
           | SigDone v \<Rightarrow> retV v) s'
       | (VPanic, s') \<Rightarrow> (VPanic, s')
       | (VFuel, s') \<Rightarrow> (VFuel, s'))"

lemma dispatch_turn: "dispatch H (Suc n) = turn H (dispatch H n)"
  by (intro ext) (simp add: turn_def)

lemma turn_extends:
  assumes "runner_extends R R'"
  shows "runner_extends (turn H R) (turn H R')"
  unfolding runner_extends_def extends_def
proof (intro allI impI)
  fix k t s assume cut: "fst (turn H R k t s) \<noteq> VFuel"
  show "turn H R' k t s = turn H R k t s"
  proof (cases "length (frames s) \<le> t")
    case True
    then show ?thesis by (simp add: turn_def)
  next
    case False
    have st: "extends (step H R) (step H R')" unfolding step_def by (intro extends_intros extends_exec_op assms)
    obtain r s1 where r: "step H R s = (r, s1)" by fastforce
    have "r \<noteq> VFuel" using cut False r by (auto simp: turn_def)
    then have r': "step H R' s = (r, s1)" using extendsD [OF st, of s] r by simp
    have loop: "extends (case out of SigContinue \<Rightarrow> R k t | SigDone v \<Rightarrow> retV v)
        (case out of SigContinue \<Rightarrow> R' k t | SigDone v \<Rightarrow> retV v)" for out
      using extends_run [OF assms] by (simp add: extends_refl split: signal_outcome.split)
    have sig: "extends (bindV (loop_signal k e t) (case_signal_outcome (R k t) retV))
        (bindV (loop_signal k e t) (case_signal_outcome (R' k t) retV))" for e
      by (rule extends_bind [OF extends_refl loop])
    show ?thesis
      using cut False r r' extendsD [OF extends_run [OF assms], of k t s1] extendsD [OF sig, where s = s1]
      by (cases r) (simp_all add: turn_def)
  qed
qed

lemma dispatch_Suc: "runner_extends (dispatch H n) (dispatch H (Suc n))"
proof (induction n)
  case 0
  then show ?case by (simp add: runner_extends_def extends_def)
next
  case (Suc n)
  show ?case unfolding dispatch_turn [of H "Suc n"] by (subst dispatch_turn) (rule turn_extends [OF Suc.IH])
qed

text \<open>
  The bound of a dispatch loop only decides whether it answers: when the loop with bound
  \<open>n\<close> is not cut off, every larger bound gives the same outcome and the same state, for
  every kind of loop, whatever nested calls, spawns, requests and imports it makes.
\<close>

theorem dispatch_bound_irrelevant:
  assumes "dispatch H n k target s = (r, s')" and "r \<noteq> VFuel" and "n \<le> m"
  shows "dispatch H m k target s = (r, s')"
  using assms(3)
proof (induction rule: dec_induct)
  case base
  show ?case by (rule assms(1))
next
  case (step m)
  then show ?case using extendsD [OF extends_run [OF dispatch_Suc], of H m k target s] assms(2) by simp
qed

end
