(* ===== verification/Compiler_Code.thy ===== *)
theory Compiler_Code
  imports Compiler
begin

text \<open>
  What the compiler emits for one function: code and constants are appended to those of the
  context, and a jump is patched inside what was appended.
\<close>

section \<open>Appended code\<close>

text \<open>The compiler is at a function without enclosing function, with these code and constants.\<close>

definition code_of :: "'d func_ctx \<Rightarrow> u8 list" where
  "code_of f = ch_code (fc_chunk f)"

definition consts_of :: "'d func_ctx \<Rightarrow> 'd rt_value list" where
  "consts_of f = ch_consts (fc_chunk f)"

definition add_code :: "u8 list \<Rightarrow> 'd rt_value list \<Rightarrow> 'd func_ctx \<Rightarrow> 'd func_ctx" where
  "add_code bs ks f = chunk_update (\<lambda>k. put_consts (ch_consts k @ ks)
     (put_code (ch_code k @ bs) (ch_spans k @ replicate (length bs) span_dummy) k)) f"

definition emitted :: "u8 list \<Rightarrow> 'd rt_value list \<Rightarrow> 'd compiler \<Rightarrow> 'd compiler" where
  "emitted bs ks c = c\<lparr>func_stack := (case func_stack c of f # fs \<Rightarrow> add_code bs ks f # fs | [] \<Rightarrow> [])\<rparr>"

lemma add_code_simps [simp]:
  "code_of (add_code bs ks f) = code_of f @ bs" "consts_of (add_code bs ks f) = consts_of f @ ks"
  "fc_locals (add_code bs ks f) = fc_locals f" "fc_depth (add_code bs ks f) = fc_depth f"
  "fc_type (add_code bs ks f) = fc_type f" "fc_upvalues (add_code bs ks f) = fc_upvalues f"
  by (simp_all add: add_code_def code_of_def consts_of_def chunk_update_def put_defs)

lemma add_code_add_code [simp]: "add_code bs ks (add_code as js f) = add_code (as @ bs) (js @ ks) f"
  by (simp add: add_code_def chunk_update_def put_defs replicate_add)

lemma add_code_Nil [simp]: "add_code [] [] f = f"
  by (simp add: add_code_def chunk_update_def put_defs)

lemma emitted_stack: "func_stack c = [f] \<Longrightarrow> func_stack (emitted bs ks c) = [add_code bs ks f]"
  by (simp add: emitted_def)

lemma emitted_emitted [simp]: "emitted bs ks (emitted as js c) = emitted (as @ bs) (js @ ks) c"
  by (simp add: emitted_def split: list.split)

lemma emitted_Nil [simp]: "emitted [] [] c = c"
  by (simp add: emitted_def split: list.split)

lemma emitted_tables [simp]: "variants (emitted bs ks c) = variants c" "structs (emitted bs ks c) = structs c"
  by (simp_all add: emitted_def)

section \<open>Emission\<close>

lemma emit_op_run: "func_stack c = [f] \<Longrightarrow> emit_op p c = Some ((), emitted [opcode_byte p] [] c)"
  by (simp add: emit_op_def current_mut_def emitted_def add_code_def chunk_update_def put_defs)

lemma emit_u8_run: "func_stack c = [f] \<Longrightarrow> emit_u8 v c = Some ((), emitted [v] [] c)"
  by (simp add: emit_u8_def current_mut_def emitted_def add_code_def chunk_update_def put_defs write_u8_def)

lemma emit_index_run: "func_stack c = [f] \<Longrightarrow> emit_index n c = Some ((), emitted [of_nat n] [] c)"
  by (simp add: emit_index_def emit_u8_run)

text \<open>The two bytes of a 16-bit operand.\<close>

definition u16_bytes :: "u16 \<Rightarrow> u8 list" where
  "u16_bytes w = write_u16 [] w"

lemma length_u16_bytes [simp]: "length (u16_bytes w) = 2"
  by (simp add: u16_bytes_def write_u16_def)

lemma emit_u16_run: "func_stack c = [f] \<Longrightarrow> emit_u16 v c = Some ((), emitted (u16_bytes v) [] c)"
  by (simp add: emit_u16_def current_mut_def emitted_def add_code_def chunk_update_def put_defs write_u16_def
      u16_bytes_def numeral_2_eq_2)

lemma op_index_run: "func_stack c = [f] \<Longrightarrow> op_index p n c = Some ((), emitted [opcode_byte p, of_nat n] [] c)"
  by (simp add: op_index_def thenC_def bindC_def emit_op_run emit_index_run emitted_stack)

lemma code_len_run: "func_stack c = [f] \<Longrightarrow> current_code_len c = Some (length (code_of f), c)"
  by (simp add: current_code_len_def current_def code_of_def)

lemma emit_jump_run:
  "func_stack c = [f] \<Longrightarrow>
   emit_jump p c = Some (Suc (length (code_of f)), emitted (opcode_byte p # u16_bytes 0) [] c)"
  by (simp add: emit_jump_def thenC_def bindC_def emit_op_run emit_u16_run code_len_run emitted_stack retC_def)

lemma patch_u16_run:
  assumes "func_stack c = [f]" and "addr = length (code_of f) + length as"
  shows "patch_u16 addr v (emitted (as @ u16_bytes w @ bs) ks c) = Some ((), emitted (as @ u16_bytes v @ bs) ks c)"
proof -
  have "(code_of f @ as @ u16_bytes w @ bs)[addr := ucast (and v 0xff), addr + 1 := ucast (drop_bit 8 v)] =
      code_of f @ as @ u16_bytes v @ bs"
    using assms(2) by (simp add: list_update_append u16_bytes_def write_u16_def)
  then show ?thesis
    using assms
    by (simp add: patch_u16_def bindC_def current_def current_mut_def emitted_def add_code_def chunk_update_def
        put_defs code_of_def u16_bytes_def write_u16_def)
qed

lemma patch_jump_run:
  assumes "func_stack c = [f]" and "addr = length (code_of f) + length as"
  shows "patch_jump addr (emitted (as @ u16_bytes w @ bs) ks c) =
    Some ((), emitted (as @ u16_bytes (of_nat (length (code_of f) + length as + 2 + length bs)) @ bs) ks c)"
  using patch_u16_run [OF assms]
  by (simp add: patch_jump_def bindC_def code_len_run [OF emitted_stack [OF assms(1)]] add.assoc)

section \<open>Constants\<close>

lemma position_Some: "position P xs = Some i \<Longrightarrow> i < length xs \<and> P (xs ! i)"
  by (induction xs arbitrary: i) (auto split: if_splits)

text \<open>The constant at the emitted index equals the value; it is the value unless an equal one was there.\<close>

lemma emit_const_run:
  assumes "func_stack c = [f]" and "length (consts_of f) \<le> 256" and "emit_const X v c = Some (i, c')"
  shows "\<exists>ks w. c' = emitted [] ks c \<and> length (consts_of f @ ks) \<le> 256 \<and> unat i < length (consts_of f @ ks)
    \<and> (consts_of f @ ks) ! unat i = w \<and> (w = v \<or> value_eq X w v)"
proof (cases "position (\<lambda>w. value_eq X w v) (consts_of f)")
  case (Some j)
  then have "j < length (consts_of f)" "value_eq X (consts_of f ! j) v" by (auto dest: position_Some)
  moreover from this have "unat (of_nat j :: u8) = j" using assms(2) by (simp add: unat_of_nat)
  ultimately show ?thesis
    using assms Some by (intro exI [of _ "[]"]) (auto simp: emit_const_def bindC_def current_def consts_of_def)
next
  case None
  then have "length (consts_of f) \<le> 255" "i = of_nat (length (consts_of f))" "c' = emitted [] [v] c"
    using assms(1,3)
    by (auto simp: emit_const_def bindC_def current_def consts_of_def current_mut_def emitted_def add_code_def
        chunk_update_def put_defs split: if_splits)
  moreover from this have "unat i = length (consts_of f)" by (simp add: unat_of_nat)
  ultimately show ?thesis by (intro exI [of _ "[v]"]) simp
qed

lemma op_const_run:
  assumes "func_stack c = [f]" and "length (consts_of f) \<le> 256" and "op_const X p v c = Some ((), c')"
  shows "\<exists>i ks w. c' = emitted [opcode_byte p, i] ks c \<and> length (consts_of f @ ks) \<le> 256
    \<and> unat i < length (consts_of f @ ks) \<and> (consts_of f @ ks) ! unat i = w \<and> (w = v \<or> value_eq X w v)"
proof -
  obtain i c1 where 1: "emit_const X v c = Some (i, c1)" and 2: "thenC (emit_op p) (emit_u8 i) c1 = Some ((), c')"
    using assms(3) by (auto simp: op_const_def bindC_Some)
  from emit_const_run [OF assms(1,2) 1] obtain ks w where ks: "c1 = emitted [] ks c" "length (consts_of f @ ks) \<le> 256"
    "unat i < length (consts_of f @ ks)" "(consts_of f @ ks) ! unat i = w" "w = v \<or> value_eq X w v" by blast
  have "c' = emitted [opcode_byte p, i] ks c"
    using 2 ks(1) by (simp add: thenC_def bindC_def emit_op_run emit_u8_run emitted_stack [OF assms(1)]
        emitted_stack [OF emitted_stack [OF assms(1)]])
  with ks show ?thesis by blast
qed

lemma value_eq_str [simp]: "value_eq X w (VStr t) \<longleftrightarrow> w = VStr t"
  by (cases w) auto

lemma value_eq_int [simp]: "value_eq X w (VInt n) \<longleftrightarrow> w = VInt n"
  by (cases w) auto

end
