(* ===== verification/Vm_Exec.thy ===== *)
theory Vm_Exec
  imports Vm_Step_Spec Compiler_Code
begin

text \<open>
  Running code symbolically: what the fetches, the stack operations and one turn of a dispatch
  loop do on a state whose top frame is known; a sample host and sample code for examples.
\<close>

section \<open>Fetching\<close>

lemma current_frame_run [vm_simps]: "frames s = f # fs \<Longrightarrow> current_frame s = (VOk f, s)"
  by (simp add: current_frame_def)

lemma current_span_run [vm_simps]: "frames s = f # fs \<Longrightarrow> current_span s = (VOk (frame_span f), s)"
  by (simp add: current_span_def vm_simps)

lemma raise_here_run [vm_simps]: "frames s = f # fs \<Longrightarrow> raise_here e s = (VErr (e (Some (frame_span f))), s)"
  by (simp add: raise_here_def vm_simps)

lemma set_ip_run [vm_simps]: "frames s = f # fs \<Longrightarrow> set_ip a s = (VOk (), set_top (f\<lparr>fr_ip := a\<rparr>) s)"
  by (simp add: set_ip_def vm_simps)

text \<open>The instruction pointer of the top frame moves over \<open>n\<close> bytes.\<close>

definition advance_ip :: "nat \<Rightarrow> 'd frame \<Rightarrow> 'd frame" where
  "advance_ip n f = f\<lparr>fr_ip := fr_ip f + n\<rparr>"

lemma advance_ip_simps [simp]:
  "fr_ip (advance_ip n f) = fr_ip f + n" "fr_closure (advance_ip n f) = fr_closure f"
  "fr_base (advance_ip n f) = fr_base f" "fr_actor_env (advance_ip n f) = fr_actor_env f"
  "frame_code (advance_ip n f) = frame_code f" "advance_ip m (advance_ip n f) = advance_ip (n + m) f"
  by (simp_all add: advance_ip_def frame_code_def)

text \<open>The bytes \<open>bs\<close> are next in the code of the frame.\<close>

definition next_bytes :: "u8 list \<Rightarrow> 'd frame \<Rightarrow> bool" where
  "next_bytes bs f \<longleftrightarrow> take (length bs) (drop (fr_ip f) (frame_code f)) = bs"

lemma next_bytes_Nil [simp]: "next_bytes [] f"
  by (simp add: next_bytes_def)

lemma next_bytes_Cons [simp]:
  "next_bytes (b # bs) f \<longleftrightarrow>
     fr_ip f < length (frame_code f) \<and> frame_code f ! fr_ip f = b \<and> next_bytes bs (advance_ip 1 f)"
proof (cases "fr_ip f < length (frame_code f)")
  case True
  then have "drop (fr_ip f) (frame_code f) = frame_code f ! fr_ip f # drop (Suc (fr_ip f)) (frame_code f)"
    by (simp add: Cons_nth_drop_Suc)
  then show ?thesis using True by (simp add: next_bytes_def)
next
  case False
  then show ?thesis by (simp add: next_bytes_def)
qed

lemma next_bytes_append: "next_bytes (as @ bs) f \<longleftrightarrow> next_bytes as f \<and> next_bytes bs (advance_ip (length as) f)"
  by (induction as arbitrary: f) (simp_all add: advance_ip_def)

lemma fetch_u8_run [vm_simps]:
  "frames s = f # fs \<Longrightarrow> fr_ip f < length (frame_code f) \<Longrightarrow>
   fetch_u8 s = (VOk (frame_code f ! fr_ip f), set_top (advance_ip 1 f) s)"
  by (simp add: fetch_u8_def read_u8_def advance_ip_def vm_simps)

lemma read_index_run [vm_simps]:
  "frames s = f # fs \<Longrightarrow> fr_ip f < length (frame_code f) \<Longrightarrow>
   read_index s = (VOk (unat (frame_code f ! fr_ip f)), set_top (advance_ip 1 f) s)"
  by (simp add: read_index_def vm_simps)

lemma fetch_u16_run [vm_simps]:
  assumes "frames s = f # fs" and "next_bytes (u16_bytes w) f"
  shows "fetch_u16 s = (VOk w, set_top (advance_ip 2 f) s)"
proof -
  have "read_u16 (frame_code f) (fr_ip f) = Some (w, fr_ip f + 2)"
    using assms(2) by (simp add: u16_bytes_def write_u16_def read_u16_def u16_split)
  then show ?thesis using assms(1) by (simp add: fetch_u16_def vm_simps advance_ip_def)
qed

lemma read_addr_run [vm_simps]:
  "frames s = f # fs \<Longrightarrow> next_bytes (u16_bytes w) f \<Longrightarrow> read_addr s = (VOk (unat w), set_top (advance_ip 2 f) s)"
  unfolding read_addr_def by (simp add: bindV_def fetch_u16_run retV_def)

lemma fetch_op_run [vm_simps]:
  "frames s = f # fs \<Longrightarrow> fr_ip f < length (frame_code f) \<Longrightarrow> frame_code f ! fr_ip f = opcode_byte p \<Longrightarrow>
   p \<noteq> OpEnd \<Longrightarrow> fetch_op s = (VOk p, set_top (advance_ip 1 f) s)"
  by (simp add: fetch_op_def vm_simps op.decode_encode del: opcode_byte.simps)

lemma set_top_run [simp]:
  "frames (set_top f s) = f # tl (frames s)" "set_top g (set_top f s) = set_top g s"
  by (simp_all add: set_top_def)

lemma const_at_run [vm_simps]:
  "frames s = f # fs \<Longrightarrow> i < length (ch_consts (cl_chunk (fr_closure f))) \<Longrightarrow>
   const_at i s = (VOk (ch_consts (cl_chunk (fr_closure f)) ! i), s)"
  by (simp add: const_at_def vm_simps Let_def)

lemma push_val_run [vm_simps]: "push_val v s = (VOk (), s\<lparr>stack := stack s @ [v]\<rparr>)"
  by (simp add: push_val_def vm_simps)

lemma pop_val_run [vm_simps]: "stack s = st @ [v] \<Longrightarrow> pop_val s = (VOk v, s\<lparr>stack := st\<rparr>)"
  by (simp add: pop_val_def)

section \<open>Turns\<close>

text \<open>One instruction that succeeds.\<close>

lemma dispatch_ok:
  assumes "target < length (frames s)" and "step H (dispatch H n) s = (VOk u, s')"
  shows "dispatch H (Suc n) k target s = dispatch H n k target s'"
  using assms by simp

lemma dispatch_end:
  "length (frames s) \<le> target \<Longrightarrow> dispatch H (Suc n) k target s = loop_end k s"
  by simp

lemma step_run [vm_simps]:
  assumes "frames s = f # fs" and "fr_ip f < length (frame_code f)" and "frame_code f ! fr_ip f = opcode_byte p"
    and "p \<noteq> OpEnd"
  shows "step H R s = exec_op H R p (set_top (advance_ip 1 f) s)"
  by (simp add: step_def bindV_def fetch_op_run [OF assms])

section \<open>Samples\<close>

definition sample_host :: "fixed host" where
  "sample_host =
     \<lparr>h_ext = fixed_ext, h_native = (\<lambda>_ args. retV (case args of v # _ \<Rightarrow> v | [] \<Rightarrow> VNil)), h_file = (\<lambda>p. p),
      h_canonical = Some, h_read = (\<lambda>_. Ok []), h_parse = (\<lambda>_. Ok \<lparr>pr_stmts = [], pr_span = span_dummy\<rparr>),
      h_drain_async = retV (), h_await = (\<lambda>_. retV VNil)\<rparr>"

definition sample_code :: "u8 list \<Rightarrow> 'd rt_value list \<Rightarrow> 'd chunk" where
  "sample_code code consts = Chunk code consts [] [] [] [] 0 0 None"

text \<open>A loop with bound 3 runs the code \<open>nil return\<close> to its value; so does every larger bound.\<close>

theorem dispatch_bound_irrelevant_witness:
  "fst (dispatch sample_host 100 ClosureLoop 0
     (push_frame (closure_vm_new (sample_code [opcode_byte OpNil, opcode_byte OpReturn] []) []) None [] sample_state)) = VOk VNil"
proof -
  let ?s = "push_frame (closure_vm_new (sample_code [opcode_byte OpNil, opcode_byte OpReturn] []) []) None [] sample_state"
  have run: "fst (dispatch sample_host 3 ClosureLoop 0 ?s) = VOk VNil"
    by (simp add: eval_nat_numeral push_frame_def advance_ip_def vm_simps frame_code_def closure_vm_new_def sample_code_def set_top_def push_val_def pop_val_def
        return_from_frame_def pop_or_nil_def close_upvalues_above_def sample_state_def drop_inner_handlers_def
        truncate_stack_def Let_def del: opcode_byte.simps)
  obtain s' where d: "dispatch sample_host 3 ClosureLoop 0 ?s = (VOk VNil, s')"
    using run by (metis prod.collapse)
  show ?thesis using dispatch_bound_irrelevant [OF d, of 100] by simp
qed

end
