(* ===== verification/Compiler_Correct.thy ===== *)
theory Compiler_Correct
  imports Eval_Spec Vm_Exec
begin

text \<open>
  The compiler and the virtual machine together implement the semantics of plain expressions:
  the code of an expression, wherever it is loaded, pushes the value of the expression or raises
  its error.
\<close>

section \<open>Configurations\<close>

text \<open>
  The states of one run differ in the instruction pointer of the top frame and in the operand
  stack only.
\<close>

definition cfg :: "'d vm_state \<Rightarrow> 'd frame \<Rightarrow> 'd frame list \<Rightarrow> nat \<Rightarrow> 'd rt_value list \<Rightarrow> 'd vm_state" where
  "cfg s fr fs ip st = s\<lparr>frames := fr\<lparr>fr_ip := ip\<rparr> # fs, stack := st\<rparr>"

definition code_at :: "'d frame \<Rightarrow> nat \<Rightarrow> u8 list \<Rightarrow> bool" where
  "code_at fr ip bs \<longleftrightarrow> take (length bs) (drop ip (frame_code fr)) = bs"

lemma code_at_Nil [simp]: "code_at fr ip []"
  by (simp add: code_at_def)

lemma code_at_Cons [simp]:
  "code_at fr ip (b # bs) \<longleftrightarrow> ip < length (frame_code fr) \<and> frame_code fr ! ip = b \<and> code_at fr (Suc ip) bs"
proof (cases "ip < length (frame_code fr)")
  case True
  then have "drop ip (frame_code fr) = frame_code fr ! ip # drop (Suc ip) (frame_code fr)"
    by (simp add: Cons_nth_drop_Suc)
  then show ?thesis using True by (simp add: code_at_def)
next
  case False
  then show ?thesis by (simp add: code_at_def)
qed

lemma code_at_append [simp]: "code_at fr ip (as @ bs) \<longleftrightarrow> code_at fr ip as \<and> code_at fr (ip + length as) bs"
  by (induction as arbitrary: ip) simp_all

lemma frame_code_ip [simp]: "frame_code (fr\<lparr>fr_ip := ip\<rparr>) = frame_code fr"
  by (simp add: frame_code_def)

lemma cfg_simps [simp]:
  "frames (cfg s fr fs ip st) = fr\<lparr>fr_ip := ip\<rparr> # fs" "stack (cfg s fr fs ip st) = st"
  "globals (cfg s fr fs ip st) = globals s" "cells (cfg s fr fs ip st) = cells s"
  by (simp_all add: cfg_def)

lemma set_top_cfg [simp]: "set_top (fr\<lparr>fr_ip := ip'\<rparr>) (cfg s fr fs ip st) = cfg s fr fs ip' st"
  by (simp add: cfg_def set_top_def)

lemma current_frame_cfg [simp]: "current_frame (cfg s fr fs ip st) = (VOk (fr\<lparr>fr_ip := ip\<rparr>), cfg s fr fs ip st)"
  by (simp add: current_frame_def)

section \<open>Instructions on configurations\<close>

lemma fetch_u8_cfg [simp]: "code_at fr ip [b] \<Longrightarrow> fetch_u8 (cfg s fr fs ip st) = (VOk b, cfg s fr fs (Suc ip) st)"
  by (simp add: fetch_u8_def bindV_def read_u8_def modV_def retV_def)

lemma read_index_cfg [simp]:
  "code_at fr ip [b] \<Longrightarrow> read_index (cfg s fr fs ip st) = (VOk (unat b), cfg s fr fs (Suc ip) st)"
  by (simp add: read_index_def bindV_def retV_def)

lemma read_addr_cfg [simp]:
  assumes "code_at fr ip (u16_bytes w)"
  shows "read_addr (cfg s fr fs ip st) = (VOk (unat w), cfg s fr fs (ip + 2) st)"
proof -
  have "read_u16 (frame_code fr) ip = Some (w, ip + 2)"
    using assms by (simp add: u16_bytes_def write_u16_def read_u16_def u16_split)
  then show ?thesis by (simp add: read_addr_def fetch_u16_def bindV_def modV_def retV_def)
qed

lemma step_cfg:
  assumes "code_at fr ip [opcode_byte p]" and "p \<noteq> OpEnd"
  shows "step H R (cfg s fr fs ip st) = exec_op H R p (cfg s fr fs (Suc ip) st)"
  using assms op.decode_encode [OF assms(2)]
  by (simp add: step_def fetch_op_def bindV_def retV_def)

lemma push_val_cfg [simp]: "push_val v (cfg s fr fs ip st) = (VOk (), cfg s fr fs ip (st @ [v]))"
  by (simp add: push_val_def modV_def cfg_def)

lemma pop_val_cfg [simp]: "pop_val (cfg s fr fs ip (st @ [v])) = (VOk v, cfg s fr fs ip st)"
  by (simp add: pop_val_def cfg_def)

lemma pop_val2_cfg [simp]: "pop_val (cfg s fr fs ip (st @ [v, w])) = (VOk w, cfg s fr fs ip (st @ [v]))"
  using pop_val_cfg [of s fr fs ip "st @ [v]" w] by simp

lemma split_off_cfg [simp]:
  "n = length vs \<Longrightarrow> split_off n (cfg s fr fs ip (st @ vs)) = (VOk vs, cfg s fr fs ip st)"
  by (simp add: split_off_def truncate_stack_def cfg_def)

lemma peek_val_cfg [simp]: "peek_val 0 (cfg s fr fs ip (st @ [v])) = (VOk v, cfg s fr fs ip (st @ [v]))"
  by (simp add: peek_val_def nth_append)

lemma set_ip_cfg [simp]: "set_ip a (cfg s fr fs ip st) = (VOk (), cfg s fr fs a st)"
  by (simp add: set_ip_def bindV_def modV_def)

text \<open>\<open>step_ok\<close> and \<open>step_err\<close>: one instruction, whatever runs nested loops.\<close>

definition step_ok :: "'d host \<Rightarrow> 'd vm_state \<Rightarrow> 'd vm_state \<Rightarrow> bool" where
  "step_ok H s s' \<longleftrightarrow> (\<forall>R. step H R s = (VOk (), s'))"

definition runs :: "'d host \<Rightarrow> 'd vm_state \<Rightarrow> 'd vm_state \<Rightarrow> bool" where
  "runs H = (step_ok H)\<^sup>*\<^sup>*"

definition fails :: "'d host \<Rightarrow> 'd vm_state \<Rightarrow> 'd interp_error \<Rightarrow> bool" where
  "fails H s e \<longleftrightarrow> (\<exists>s1 e' s2. runs H s s1 \<and> frames s1 \<noteq> [] \<and> (\<forall>R. step H R s1 = (VErr e', s2)) \<and> erase e' = e)"

lemma runs_refl [simp]: "runs H s s"
  by (simp add: runs_def)

lemma runs_trans [trans]: "runs H a b \<Longrightarrow> runs H b c \<Longrightarrow> runs H a c"
  by (simp add: runs_def)

lemma runs_step: "step_ok H a b \<Longrightarrow> runs H a b"
  by (simp add: runs_def)

lemma runs_fails: "runs H a b \<Longrightarrow> fails H b e \<Longrightarrow> fails H a e"
  unfolding fails_def using runs_trans by blast

lemma step_ok_cfg:
  assumes "code_at fr ip [opcode_byte p]" and "p \<noteq> OpEnd"
    and "\<And>R. exec_op H R p (cfg s fr fs (Suc ip) st) = (VOk (), cfg s fr fs ip' st')"
  shows "runs H (cfg s fr fs ip st) (cfg s fr fs ip' st')"
  using assms by (intro runs_step) (simp add: step_ok_def step_cfg del: code_at_Cons)

lemma step_err_cfg:
  assumes "code_at fr ip [opcode_byte p]" and "p \<noteq> OpEnd"
    and "\<And>R. exec_op H R p (cfg s fr fs (Suc ip) st) = (VErr e, s')"
  shows "fails H (cfg s fr fs ip st) (erase e)"
  unfolding fails_def using assms
  by (intro exI [of _ "cfg s fr fs ip st"] exI [of _ e] exI [of _ s']) (simp add: step_cfg del: code_at_Cons)

section \<open>Code that behaves\<close>

text \<open>Code and constants of a part of the compiled function are at their place in the frame.\<close>

definition loaded :: "'d func_ctx \<Rightarrow> u8 list \<Rightarrow> 'd rt_value list \<Rightarrow> 'd frame \<Rightarrow> bool" where
  "loaded f bs ks fr \<longleftrightarrow> code_at fr (length (code_of f)) bs \<and> length (code_of f) + length bs < 65536 \<and>
     (\<exists>rest. ch_consts (cl_chunk (fr_closure fr)) = consts_of f @ ks @ rest)"

lemma loaded_append:
  "loaded f (as @ bs) (js @ ks) fr \<Longrightarrow> loaded f as js fr \<and> loaded (add_code as js f) bs ks fr"
  by (auto simp: loaded_def)

text \<open>Values a variable can hold so that reading it has no effect.\<close>

definition direct :: "'d rt_value \<Rightarrow> bool" where
  "direct v = (case v of VShared _ \<Rightarrow> False | VLazyImport _ \<Rightarrow> False | _ \<Rightarrow> True)"

text \<open>Every name has its value in the slot the compiler knows, or in a global.\<close>

definition var_ok :: "(str \<Rightarrow> 'd rt_value option) \<Rightarrow> 'd func_ctx \<Rightarrow> 'd vm_state \<Rightarrow> 'd frame \<Rightarrow> 'd rt_value list \<Rightarrow> str \<Rightarrow> bool" where
  "var_ok look f s fr st x = (case resolve_local x f of
     Some slot \<Rightarrow> slot < 256 \<and> fr_base fr + slot < length st \<and> look x = Some (st ! (fr_base fr + slot))
   | None \<Rightarrow> look x = map_of (globals s) x)"

definition env_ok :: "(str \<Rightarrow> 'd rt_value option) \<Rightarrow> 'd func_ctx \<Rightarrow> 'd vm_state \<Rightarrow> 'd frame \<Rightarrow> 'd rt_value list \<Rightarrow> bool" where
  "env_ok look f s fr st \<longleftrightarrow> fr_actor_env fr = None \<and> (\<forall>x. var_ok look f s fr st x) \<and> (\<forall>x v. look x = Some v \<longrightarrow> direct v)"

lemma var_ok_push: "var_ok look f s fr st x \<Longrightarrow> var_ok look f s fr (st @ vs) x"
  by (auto simp: var_ok_def nth_append split: option.splits)

lemma env_ok_push: "env_ok look f s fr st \<Longrightarrow> env_ok look f s fr (st @ vs)"
  by (simp add: env_ok_def var_ok_push)

lemma env_ok_add_code [simp]: "env_ok look (add_code bs ks f) s fr st = env_ok look f s fr st"
  by (simp add: env_ok_def var_ok_def resolve_local_def)

definition outcome_from ::
  "'d host \<Rightarrow> 'd vm_state \<Rightarrow> 'd frame \<Rightarrow> 'd frame list \<Rightarrow> nat \<Rightarrow> 'd rt_value list \<Rightarrow> nat \<Rightarrow> 'd rt_value list \<Rightarrow>
     ('d, 'd rt_value list) outcome \<Rightarrow> bool" where
  "outcome_from H s fr fs ip us ip' st r = (case r of
     Inr vs \<Rightarrow> runs H (cfg s fr fs ip us) (cfg s fr fs ip' (st @ vs))
   | Inl e \<Rightarrow> fails H (cfg s fr fs ip us) e)"

lemma outcome_runs:
  "runs H (cfg s fr fs ip us) (cfg s fr fs ip1 us1) \<Longrightarrow> outcome_from H s fr fs ip1 us1 ip' st r \<Longrightarrow>
   outcome_from H s fr fs ip us ip' st r"
  by (cases r) (auto simp: outcome_from_def intro: runs_trans runs_fails)

lemma outcome_then_runs:
  "outcome_from H s fr fs ip us ip1 st r \<Longrightarrow> (\<And>vs. runs H (cfg s fr fs ip1 (st @ vs)) (cfg s fr fs ip2 (st @ vs))) \<Longrightarrow>
   outcome_from H s fr fs ip us ip2 st r"
  by (cases r) (auto simp: outcome_from_def intro: runs_trans)

text \<open>The code a computation emits turns the values \<open>us\<close> on the stack into the result.\<close>

definition behaves ::
  "'d host \<Rightarrow> (str \<Rightarrow> 'd rt_value option) \<Rightarrow> 'd rt_value list \<Rightarrow> 'd compile \<Rightarrow> ('d, 'd rt_value list) outcome \<Rightarrow> bool" where
  "behaves H look us m r \<longleftrightarrow> (\<forall>c f bs ks s fr fs st. func_stack c = [f] \<longrightarrow> length (consts_of f) \<le> 256 \<longrightarrow>
     m c = Some ((), emitted bs ks c) \<longrightarrow> loaded f bs ks fr \<longrightarrow> env_ok look f s fr st \<longrightarrow>
     outcome_from H s fr fs (length (code_of f)) (st @ us) (length (code_of f) + length bs) st r)"

definition emits :: "'d compile \<Rightarrow> bool" where
  "emits m \<longleftrightarrow> (\<forall>c f c'. func_stack c = [f] \<longrightarrow> length (consts_of f) \<le> 256 \<longrightarrow> m c = Some ((), c') \<longrightarrow>
     (\<exists>bs ks. c' = emitted bs ks c \<and> length (consts_of f @ ks) \<le> 256))"

lemma emitsD:
  assumes "emits m" and "func_stack c = [f]" and "length (consts_of f) \<le> 256" and "m c = Some ((), c')"
  obtains bs ks where "c' = emitted bs ks c" and "length (consts_of (add_code bs ks f)) \<le> 256"
  using assms unfolding emits_def by fastforce

lemma emitted_inject:
  assumes "func_stack c = [f]" and "emitted bs ks c = emitted bs' ks' c"
  shows "bs = bs'" and "ks = ks'"
proof -
  have "add_code bs ks f = add_code bs' ks' f"
    using arg_cong [OF assms(2), of func_stack] by (simp add: emitted_stack [OF assms(1)])
  then have "code_of (add_code bs ks f) = code_of (add_code bs' ks' f)"
    "consts_of (add_code bs ks f) = consts_of (add_code bs' ks' f)" by simp_all
  then show "bs = bs'" "ks = ks'" by simp_all
qed

lemma emits_then: "emits m \<Longrightarrow> emits n \<Longrightarrow> emits (thenC m n)"
  unfolding emits_def thenC_Some
proof (intro allI impI, elim exE conjE)
  fix c f c' c1
  assume m: "\<forall>c f c'. func_stack c = [f] \<longrightarrow> length (consts_of f) \<le> 256 \<longrightarrow> m c = Some ((), c') \<longrightarrow>
      (\<exists>bs ks. c' = emitted bs ks c \<and> length (consts_of f @ ks) \<le> 256)"
    and n: "\<forall>c f c'. func_stack c = [f] \<longrightarrow> length (consts_of f) \<le> 256 \<longrightarrow> n c = Some ((), c') \<longrightarrow>
      (\<exists>bs ks. c' = emitted bs ks c \<and> length (consts_of f @ ks) \<le> 256)"
    and c: "func_stack c = [f]" "length (consts_of f) \<le> 256" "m c = Some ((), c1)" "n c1 = Some ((), c')"
  obtain bs ks where 1: "c1 = emitted bs ks c" "length (consts_of f @ ks) \<le> 256" using m c(1-3) by blast
  then obtain bs' ks' where "c' = emitted bs' ks' c1" "length (consts_of (add_code bs ks f) @ ks') \<le> 256"
    using n emitted_stack [OF c(1), of bs ks] c(4) by fastforce
  then show "\<exists>bs ks. c' = emitted bs ks c \<and> length (consts_of f @ ks) \<le> 256" using 1 by fastforce
qed

lemma behavesI:
  assumes "\<And>c f bs ks s fr fs st. func_stack c = [f] \<Longrightarrow> length (consts_of f) \<le> 256 \<Longrightarrow>
    m c = Some ((), emitted bs ks c) \<Longrightarrow> loaded f bs ks fr \<Longrightarrow> env_ok look f s fr st \<Longrightarrow>
    outcome_from H s fr fs (length (code_of f)) (st @ us) (length (code_of f) + length bs) st r"
  shows "behaves H look us m r"
  using assms unfolding behaves_def by blast

lemma behavesD:
  assumes "behaves H look us m r" and "func_stack c = [f]" and "length (consts_of f) \<le> 256"
    and "m c = Some ((), emitted bs ks c)" and "loaded f bs ks fr" and "env_ok look f s fr st"
  shows "outcome_from H s fr fs (length (code_of f)) (st @ us) (length (code_of f) + length bs) st r"
  using assms unfolding behaves_def by blast

section \<open>Composition\<close>

definition prepend :: "'a list \<Rightarrow> ('d, 'a list) outcome \<Rightarrow> ('d, 'a list) outcome" where
  "prepend xs r = (case r of Inr vs \<Rightarrow> Ok (xs @ vs) | Inl e \<Rightarrow> Err e)"

lemma prepend_simps [simp]: "prepend xs (Ok vs) = Ok (xs @ vs)" "prepend xs (Err e) = Err e"
  by (simp_all add: prepend_def)

text \<open>A computation split in two: where each part is loaded.\<close>

lemma then_split:
  assumes "emits m" and "emits n" and "func_stack c = [f]" and "length (consts_of f) \<le> 256"
    and "thenC m n c = Some ((), emitted bs ks c)" and "loaded f bs ks fr"
  obtains as js as' js' where "m c = Some ((), emitted as js c)" and "loaded f as js fr"
    and "n (emitted as js c) = Some ((), emitted as' js' (emitted as js c))" and "loaded (add_code as js f) as' js' fr"
    and "length (consts_of (add_code as js f)) \<le> 256" and "bs = as @ as'"
proof -
  obtain c1 where m: "m c = Some ((), c1)" and n: "n c1 = Some ((), emitted bs ks c)"
    using assms(5) by (auto simp: thenC_Some)
  obtain as js where 1: "c1 = emitted as js c" "length (consts_of (add_code as js f)) \<le> 256"
    by (rule emitsD [OF assms(1,3,4) m])
  obtain as' js' where 2: "emitted bs ks c = emitted as' js' c1"
    by (rule emitsD [OF assms(2) emitted_stack [OF assms(3)] 1(2) n [unfolded 1(1)]]) (use 1 in blast)
  have "bs = as @ as'" "ks = js @ js'" using emitted_inject [OF assms(3) 2 [unfolded 1(1) emitted_emitted]] by simp_all
  then show ?thesis using that m n 1 2 loaded_append assms(6) by metis
qed

lemma behaves_then:
  assumes "emits m" and "emits n" and "behaves H look us m (Ok vs)" and "behaves H look vs n r"
  shows "behaves H look us (thenC m n) r"
proof (rule behavesI)
  fix c :: "'a compiler" and f bs ks and s :: "'a vm_state" and fr fs st
  assume c: "func_stack c = [f]" "length (consts_of f) \<le> 256" and run: "thenC m n c = Some ((), emitted bs ks c)"
    and ld: "loaded f bs ks fr" and env: "env_ok look f s fr st"
  from then_split [OF assms(1,2) c run ld] obtain as js as' js'
    where 1: "m c = Some ((), emitted as js c)" "loaded f as js fr"
      and 2: "n (emitted as js c) = Some ((), emitted as' js' (emitted as js c))" "loaded (add_code as js f) as' js' fr"
      "length (consts_of (add_code as js f)) \<le> 256" and bs: "bs = as @ as'" by metis
  have a: "outcome_from H s fr fs (length (code_of f)) (st @ us) (length (code_of f) + length as) st (Ok vs)"
    by (rule behavesD [OF assms(3) c 1 env])
  have b: "outcome_from H s fr fs (length (code_of f) + length as) (st @ vs)
      (length (code_of f) + length as + length as') st r"
    using behavesD [OF assms(4) emitted_stack [OF c(1)] 2(3,1,2), of s st fs] env by simp
  show "outcome_from H s fr fs (length (code_of f)) (st @ us) (length (code_of f) + length bs) st r"
    using a b by (cases r) (auto simp: outcome_from_def bs add.assoc intro: runs_trans runs_fails)
qed

lemma behaves_then_err:
  assumes "emits m" and "emits n" and "behaves H look us m (Err e)"
  shows "behaves H look us (thenC m n) (Err e)"
proof (rule behavesI)
  fix c :: "'a compiler" and f bs ks and s :: "'a vm_state" and fr fs st
  assume c: "func_stack c = [f]" "length (consts_of f) \<le> 256" and run: "thenC m n c = Some ((), emitted bs ks c)"
    and ld: "loaded f bs ks fr" and env: "env_ok look f s fr st"
  from then_split [OF assms(1,2) c run ld] obtain as js where 1: "m c = Some ((), emitted as js c)" "loaded f as js fr"
    by metis
  show "outcome_from H s fr fs (length (code_of f)) (st @ us) (length (code_of f) + length bs) st (Err e)"
    using behavesD [OF assms(3) c 1 env, of fs] by (simp add: outcome_from_def)
qed

text \<open>Values below the operands stay.\<close>

lemma behaves_frame: "behaves H look us m r \<Longrightarrow> behaves H look (xs @ us) m (prepend xs r)"
proof (rule behavesI)
  fix c :: "'a compiler" and f bs ks and s :: "'a vm_state" and fr fs st
  assume m: "behaves H look us m r" and c: "func_stack c = [f]" "length (consts_of f) \<le> 256"
    and run: "m c = Some ((), emitted bs ks c)" and ld: "loaded f bs ks fr" and env: "env_ok look f s fr st"
  show "outcome_from H s fr fs (length (code_of f)) (st @ xs @ us) (length (code_of f) + length bs) st (prepend xs r)"
    using behavesD [OF m c run ld env_ok_push [OF env], of fs xs]
    by (cases r) (simp_all add: outcome_from_def)
qed

section \<open>Emission without bindings\<close>

lemma emitsI:
  "(\<And>c f c'. func_stack c = [f] \<Longrightarrow> length (consts_of f) \<le> 256 \<Longrightarrow> m c = Some ((), c') \<Longrightarrow>
     \<exists>bs ks. c' = emitted bs ks c \<and> length (consts_of f @ ks) \<le> 256) \<Longrightarrow> emits m"
  by (simp add: emits_def)

lemma emits_ret [intro, simp]: "emits (retC ())"
  by (rule emitsI, rule exI [of _ "[]"], rule exI [of _ "[]"]) (auto simp: retC_def)

lemma emits_op [intro, simp]: "emits (emit_op p)"
  by (rule emitsI, rule exI [of _ "[opcode_byte p]"], rule exI [of _ "[]"]) (simp add: emit_op_run)

lemma emits_index [intro, simp]: "emits (op_index p n)"
  by (rule emitsI, rule exI [of _ "[opcode_byte p, of_nat n]"], rule exI [of _ "[]"]) (simp add: op_index_run)

lemma emits_const [intro, simp]: "emits (op_const X p v)"
proof (rule emitsI)
  fix c :: "'a compiler" and f c'
  assume "func_stack c = [f]" "length (consts_of f) \<le> 256" "op_const X p v c = Some ((), c')"
  from op_const_run [OF this] show "\<exists>bs ks. c' = emitted bs ks c \<and> length (consts_of f @ ks) \<le> 256" by blast
qed

lemma emits_seq [intro]: "list_all emits ms \<Longrightarrow> emits (seqC ms)"
  by (induction ms) (auto intro: emits_then)

lemma resolve_upvalue_script: "func_stack c = [f] \<Longrightarrow> resolve_upvalue x c = Some (None, c)"
  by (cases c) (simp add: resolve_upvalue_def)

lemma emit_var_script:
  "func_stack c = [f] \<Longrightarrow> emit_var X loc up glob x c =
     (case resolve_local x f of Some slot \<Rightarrow> op_index loc slot c | None \<Rightarrow> op_const X glob (VStr x) c)"
  by (simp add: emit_var_def bindC_def current_def resolve_upvalue_script split: option.split)

lemma emits_var [intro, simp]: "emits (emit_var X loc up glob x)"
proof (rule emitsI)
  fix c :: "'a compiler" and f c'
  assume c: "func_stack c = [f]" "length (consts_of f) \<le> 256" and run: "emit_var X loc up glob x c = Some ((), c')"
  have "\<exists>m. emits m \<and> m c = Some ((), c')"
    using run unfolding emit_var_script [OF c(1)] by (cases "resolve_local x f") auto
  then show "\<exists>bs ks. c' = emitted bs ks c \<and> length (consts_of f @ ks) \<le> 256"
    using c unfolding emits_def by blast
qed

section \<open>Instructions\<close>

lemma behaves_instr:
  assumes "p \<noteq> OpEnd"
    and "\<And>R s fr fs ip st. exec_op H R p (cfg s fr fs ip (st @ us)) = (VOk (), cfg s fr fs ip (st @ vs))"
  shows "behaves H look us (emit_op p) (Ok vs)"
proof (rule behavesI)
  fix c :: "'a compiler" and f bs ks and s :: "'a vm_state" and fr fs st
  assume c: "func_stack c = [f]" and run: "emit_op p c = Some ((), emitted bs ks c)" and ld: "loaded f bs ks fr"
  have "bs = [opcode_byte p]" using run emitted_inject(1) [OF c, of bs ks "[opcode_byte p]" "[]"] by (simp add: emit_op_run [OF c])
  then show "outcome_from H s fr fs (length (code_of f)) (st @ us) (length (code_of f) + length bs) st (Ok vs)"
    using ld by (auto simp: outcome_from_def loaded_def intro!: step_ok_cfg [OF _ assms(1)] assms(2))
qed

lemma behaves_instr_err:
  assumes "p \<noteq> OpEnd"
    and "\<And>s fr fs ip st. \<exists>e s'. (\<forall>R. exec_op H R p (cfg s fr fs ip (st @ us)) = (VErr e, s')) \<and> erase e = e0"
  shows "behaves H look us (emit_op p) (Err e0)"
proof (rule behavesI)
  fix c :: "'a compiler" and f bs ks and s :: "'a vm_state" and fr fs st
  assume c: "func_stack c = [f]" and run: "emit_op p c = Some ((), emitted bs ks c)" and ld: "loaded f bs ks fr"
  have "bs = [opcode_byte p]" using run emitted_inject(1) [OF c, of bs ks "[opcode_byte p]" "[]"] by (simp add: emit_op_run [OF c])
  moreover obtain e s' where "\<And>R. exec_op H R p (cfg s fr fs (Suc (length (code_of f))) (st @ us)) = (VErr e, s')" "erase e = e0"
    using assms(2) by blast
  ultimately show "outcome_from H s fr fs (length (code_of f)) (st @ us) (length (code_of f) + length bs) st (Err e0)"
    using ld step_err_cfg [OF _ assms(1), of fr "length (code_of f)" H s fs "st @ us" e s'] by (simp add: outcome_from_def loaded_def)
qed

text \<open>An instruction with a count, and one with a constant.\<close>

lemma behaves_count:
  assumes "p \<noteq> OpEnd" and "n < 256"
    and "\<And>R s fr fs ip st. code_at fr ip [of_nat n] \<Longrightarrow>
      exec_op H R p (cfg s fr fs ip (st @ us)) = (VOk (), cfg s fr fs (Suc ip) (st @ vs))"
  shows "behaves H look us (op_index p n) (Ok vs)"
proof (rule behavesI)
  fix c :: "'a compiler" and f bs ks and s :: "'a vm_state" and fr fs st
  assume c: "func_stack c = [f]" and run: "op_index p n c = Some ((), emitted bs ks c)" and ld: "loaded f bs ks fr"
  have "bs = [opcode_byte p, of_nat n]"
    using run emitted_inject(1) [OF c, of bs ks "[opcode_byte p, of_nat n]" "[]"] by (simp add: op_index_run [OF c])
  then show "outcome_from H s fr fs (length (code_of f)) (st @ us) (length (code_of f) + length bs) st (Ok vs)"
    using ld by (auto simp: outcome_from_def loaded_def intro!: step_ok_cfg [OF _ assms(1)] assms(3))
qed

text \<open>The constant that an instruction finds behind its index.\<close>

definition const_index :: "'d frame \<Rightarrow> nat \<Rightarrow> 'd rt_value \<Rightarrow> bool" where
  "const_index fr i v \<longleftrightarrow> i < length (ch_consts (cl_chunk (fr_closure fr))) \<and> ch_consts (cl_chunk (fr_closure fr)) ! i = v"

lemma const_at_cfg [simp]: "const_index fr i v \<Longrightarrow> const_at i (cfg s fr fs ip st) = (VOk v, cfg s fr fs ip st)"
  by (simp add: const_at_def bindV_def retV_def const_index_def Let_def)

lemma const_name_cfg [simp]: "const_index fr i (VStr n) \<Longrightarrow> const_name i (cfg s fr fs ip st) = (VOk n, cfg s fr fs ip st)"
  by (simp add: const_name_def bindV_def retV_def)

lemma op_const_loaded:
  assumes "func_stack c = [f]" and "length (consts_of f) \<le> 256" and "op_const X p v c = Some ((), emitted bs ks c)"
    and "loaded f bs ks fr" and "\<And>w. value_eq X w v \<Longrightarrow> w = v"
  obtains i where "bs = [opcode_byte p, i]" and "const_index fr (unat i) v"
    and "code_at fr (length (code_of f)) [opcode_byte p, i]"
proof -
  from op_const_run [OF assms(1-3)] obtain i ks' w where
    e: "emitted bs ks c = emitted [opcode_byte p, i] ks' c" and
    i: "unat i < length (consts_of f @ ks')" "(consts_of f @ ks') ! unat i = w" "w = v \<or> value_eq X w v" by blast
  have "bs = [opcode_byte p, i]" "ks = ks'" using emitted_inject [OF assms(1) e] by auto
  from this obtain rest where ks: "ch_consts (cl_chunk (fr_closure fr)) = (consts_of f @ ks') @ rest"
    using assms(4) by (auto simp: loaded_def simp del: code_at_Cons)
  have "w = v" using i(3) assms(5) by blast
  then have "const_index fr (unat i) v"
    unfolding const_index_def ks using i(1,2) nth_append [of "consts_of f @ ks'" rest "unat i"] by simp
  moreover have "code_at fr (length (code_of f)) [opcode_byte p, i]"
    using assms(4) \<open>bs = [opcode_byte p, i]\<close> by (simp add: loaded_def del: code_at_Cons)
  ultimately show ?thesis using that \<open>bs = [opcode_byte p, i]\<close> by blast
qed

lemma behaves_const:
  assumes "p \<noteq> OpEnd" and "\<And>w. value_eq (h_ext H) w v \<Longrightarrow> w = v"
    and "\<And>R s fr fs ip st i. code_at fr ip [i] \<Longrightarrow> const_index fr (unat i) v \<Longrightarrow>
      exec_op H R p (cfg s fr fs ip (st @ us)) = (VOk (), cfg s fr fs (Suc ip) (st @ vs))"
  shows "behaves H look us (op_const (h_ext H) p v) (Ok vs)"
proof (rule behavesI)
  fix c :: "'a compiler" and f bs ks and s :: "'a vm_state" and fr fs st
  assume c: "func_stack c = [f]" "length (consts_of f) \<le> 256"
    and run: "op_const (h_ext H) p v c = Some ((), emitted bs ks c)" and ld: "loaded f bs ks fr"
  from op_const_loaded [OF c run ld assms(2)] obtain i where i: "bs = [opcode_byte p, i]" "const_index fr (unat i) v"
    "code_at fr (length (code_of f)) [opcode_byte p, i]" by metis
  then show "outcome_from H s fr fs (length (code_of f)) (st @ us) (length (code_of f) + length bs) st (Ok vs)"
    by (auto simp: outcome_from_def intro!: step_ok_cfg [OF _ assms(1)] assms(3))
qed

lemma behaves_const_err:
  assumes "p \<noteq> OpEnd" and "\<And>w. value_eq (h_ext H) w v \<Longrightarrow> w = v"
    and "\<And>s fr fs ip st i. code_at fr ip [i] \<Longrightarrow> const_index fr (unat i) v \<Longrightarrow>
      \<exists>e s'. (\<forall>R. exec_op H R p (cfg s fr fs ip (st @ us)) = (VErr e, s')) \<and> erase e = e0"
  shows "behaves H look us (op_const (h_ext H) p v) (Err e0)"
proof (rule behavesI)
  fix c :: "'a compiler" and f bs ks and s :: "'a vm_state" and fr fs st
  assume c: "func_stack c = [f]" "length (consts_of f) \<le> 256"
    and run: "op_const (h_ext H) p v c = Some ((), emitted bs ks c)" and ld: "loaded f bs ks fr"
  from op_const_loaded [OF c run ld assms(2)] obtain i where i: "bs = [opcode_byte p, i]" "const_index fr (unat i) v"
    "code_at fr (length (code_of f)) [opcode_byte p, i]" by metis
  then obtain e s' where "\<And>R. exec_op H R p (cfg s fr fs (Suc (length (code_of f))) (st @ us)) = (VErr e, s')" "erase e = e0"
    using assms(3) [of fr "Suc (length (code_of f))" i s fs st] by (metis code_at_Cons)
  then show "outcome_from H s fr fs (length (code_of f)) (st @ us) (length (code_of f) + length bs) st (Err e0)"
    using i step_err_cfg [OF _ assms(1), of fr "length (code_of f)" H s fs "st @ us" e s'] by (simp add: outcome_from_def)
qed

section \<open>Jumps\<close>

lemma count_numerals: "(2 :: nat) = Suc (Suc 0)" "(3 :: nat) = Suc (Suc (Suc 0))"
  "(4 :: nat) = Suc (Suc (Suc (Suc 0)))" "(6 :: nat) = Suc (Suc (Suc (Suc (Suc (Suc 0)))))"
  by simp_all

definition short_tail :: "opcode \<Rightarrow> 'd compile \<Rightarrow> 'd compile" where
  "short_tail p r = bindC (emit_jump p) (\<lambda>j. seqC [emit_op OpPop, r, patch_jump j])"

definition if_tail :: "'d compile \<Rightarrow> 'd compile option \<Rightarrow> 'd compile" where
  "if_tail yes no = bindC (emit_jump OpJumpIfFalse) (\<lambda>else_jump.
     seqC [yes, bindC (emit_jump OpJump) (\<lambda>end_jump.
       seqC [patch_jump else_jump, or_nil_code no, patch_jump end_jump])])"

lemma thenC_ret: "thenC m (retC ()) = m"
  by (intro ext) (auto simp: thenC_def bindC_def retC_def split: option.split)

lemma compile_short_tail: "compile_short p l r = thenC l (thenC (emit_op OpDup) (short_tail p r))"
  by (simp add: compile_short_def short_tail_def thenC_ret)

lemma compile_if_tail: "compile_if cond yes no = thenC cond (if_tail yes no)"
  by (simp add: compile_if_def if_tail_def thenC_ret)

text \<open>The shape of the code, with every jump patched to the address behind the part it skips.\<close>

lemma short_tail_code:
  assumes "emits r" and "func_stack c = [f]" and "length (consts_of f) \<le> 256"
    and "short_tail p r c = Some ((), c')"
  defines "c1 \<equiv> emitted (opcode_byte p # u16_bytes 0 @ [opcode_byte OpPop]) [] c"
  obtains bs ks where "r c1 = Some ((), emitted bs ks c1)" and "length (consts_of f @ ks) \<le> 256"
    and "c' = emitted (opcode_byte p # u16_bytes (of_nat (length (code_of f) + 4 + length bs)) @ opcode_byte OpPop # bs) ks c"
proof -
  have st: "func_stack c1 = [add_code (opcode_byte p # u16_bytes 0 @ [opcode_byte OpPop]) [] f]"
    by (simp add: c1_def emitted_stack [OF assms(2)])
  have "\<exists>c2. r c1 = Some ((), c2) \<and> patch_jump (Suc (length (code_of f))) c2 = Some ((), c')"
    using assms(4) unfolding short_tail_def c1_def
    by (auto simp: bindC_def thenC_def emit_jump_run [OF assms(2)] emit_op_run [OF emitted_stack [OF assms(2)]] retC_def
        split: option.splits)
  then obtain c2 where r: "r c1 = Some ((), c2)" and pj: "patch_jump (Suc (length (code_of f))) c2 = Some ((), c')" by blast
  obtain bs ks where c2: "c2 = emitted bs ks c1" "length (consts_of f @ ks) \<le> 256"
    by (rule emitsD [OF assms(1) st _ r]) (use assms(3) in auto)
  have "c' = emitted (opcode_byte p # u16_bytes (of_nat (length (code_of f) + 4 + length bs)) @ opcode_byte OpPop # bs) ks c"
    using pj c2(1) patch_jump_run [OF assms(2), of "Suc (length (code_of f))" "[opcode_byte p]" 0 "opcode_byte OpPop # bs" ks]
    by (simp add: c1_def algebra_simps)
  then show ?thesis using that r c2 by blast
qed

lemma if_tail_code:
  assumes "emits yes" and "emits (or_nil_code no)" and "func_stack c = [f]" and "length (consts_of f) \<le> 256"
    and "if_tail yes no c = Some ((), c')"
  defines "c1 \<equiv> emitted (opcode_byte OpJumpIfFalse # u16_bytes 0) [] c"
  obtains by1 k1 b2 k2 where "yes c1 = Some ((), emitted by1 k1 c1)"
    and "or_nil_code no (emitted (opcode_byte OpJumpIfFalse # u16_bytes (of_nat (length (code_of f) + 6 + length by1))
           @ by1 @ opcode_byte OpJump # u16_bytes 0) k1 c) =
         Some ((), emitted b2 k2 (emitted (opcode_byte OpJumpIfFalse # u16_bytes (of_nat (length (code_of f) + 6 + length by1))
           @ by1 @ opcode_byte OpJump # u16_bytes 0) k1 c))"
    and "c' = emitted (opcode_byte OpJumpIfFalse # u16_bytes (of_nat (length (code_of f) + 6 + length by1))
           @ by1 @ opcode_byte OpJump # u16_bytes (of_nat (length (code_of f) + 6 + length by1 + length b2)) @ b2) (k1 @ k2) c"
    and "length (consts_of f @ k1 @ k2) \<le> 256"
proof -
  have st: "func_stack c1 = [add_code (opcode_byte OpJumpIfFalse # u16_bytes 0) [] f]"
    by (simp add: c1_def emitted_stack [OF assms(3)])
  obtain c2 where y: "yes c1 = Some ((), c2)"
    and rest: "bindC (emit_jump OpJump) (\<lambda>end_jump.
       seqC [patch_jump (Suc (length (code_of f))), or_nil_code no, patch_jump end_jump]) c2 = Some ((), c')"
    using assms(5) unfolding if_tail_def c1_def
    by (auto simp: bindC_def thenC_def emit_jump_run [OF assms(3)] retC_def split: option.splits)
  obtain b1 k1 where c2: "c2 = emitted b1 k1 c1" "length (consts_of f @ k1) \<le> 256"
    by (rule emitsD [OF assms(1) st _ y]) (use assms(4) in auto)
  let ?A = "of_nat (length (code_of f) + 6 + length b1) :: u16"
  let ?c3 = "emitted (opcode_byte OpJumpIfFalse # u16_bytes ?A @ b1 @ opcode_byte OpJump # u16_bytes 0) k1 c"
  have st2: "func_stack c2 = [add_code (opcode_byte OpJumpIfFalse # u16_bytes 0 @ b1) k1 f]"
    using c2(1) by (simp add: c1_def emitted_stack [OF assms(3)])
  have p1: "patch_jump (Suc (length (code_of f)))
      (emitted (opcode_byte OpJump # u16_bytes 0) [] c2) = Some ((), ?c3)"
    using patch_jump_run [OF assms(3), of "Suc (length (code_of f))" "[opcode_byte OpJumpIfFalse]" 0
        "b1 @ opcode_byte OpJump # u16_bytes 0" k1] c2(1) by (simp add: c1_def algebra_simps)
  obtain c4 where n: "or_nil_code no ?c3 = Some ((), c4)"
    and pj: "patch_jump (length (code_of f) + 4 + length b1) c4 = Some ((), c')"
    using rest p1
    by (auto simp: bindC_def thenC_def emit_jump_run [OF st2] retC_def count_numerals split: option.splits)
  have st3: "func_stack ?c3 = [add_code (opcode_byte OpJumpIfFalse # u16_bytes ?A @ b1 @ opcode_byte OpJump # u16_bytes 0) k1 f]"
    by (simp add: emitted_stack [OF assms(3)])
  obtain b2 k2 where c4: "c4 = emitted b2 k2 ?c3" "length (consts_of f @ k1 @ k2) \<le> 256"
    by (rule emitsD [OF assms(2) st3 _ n]) (use c2(2) in auto)
  have "c' = emitted (opcode_byte OpJumpIfFalse # u16_bytes ?A @ b1 @ opcode_byte OpJump
      # u16_bytes (of_nat (length (code_of f) + 6 + length b1 + length b2)) @ b2) (k1 @ k2) c"
    using pj patch_jump_run [OF assms(3), of "length (code_of f) + 4 + length b1"
        "opcode_byte OpJumpIfFalse # u16_bytes ?A @ b1 @ [opcode_byte OpJump]" 0 b2 "k1 @ k2"] c4(1)
    by (simp add: algebra_simps)
  then show ?thesis using that [of b1 k1 b2 k2] y c2 n c4 by simp
qed

lemma emits_short_tail [intro]: "emits r \<Longrightarrow> emits (short_tail p r)"
  by (rule emitsI) (blast elim: short_tail_code)

lemma emits_if_tail [intro]: "emits yes \<Longrightarrow> emits (or_nil_code no) \<Longrightarrow> emits (if_tail yes no)"
  by (rule emitsI) (blast elim: if_tail_code)

lemma jump_cfg:
  assumes "code_at fr ip (opcode_byte OpJump # u16_bytes w)"
  shows "runs H (cfg s fr fs ip st) (cfg s fr fs (unat w) st)"
proof -
  have w: "code_at fr (Suc ip) (u16_bytes w)" and p: "code_at fr ip [opcode_byte OpJump]" using assms by simp_all
  show ?thesis by (rule step_ok_cfg [OF p]) (simp_all add: read_addr_cfg [OF w] bindV_def)
qed

lemma jump_false_cfg:
  assumes "code_at fr ip (opcode_byte OpJumpIfFalse # u16_bytes w)"
  shows "runs H (cfg s fr fs ip (st @ [v])) (cfg s fr fs (if is_truthy (h_ext H) v then ip + 3 else unat w) st)"
proof -
  have w: "code_at fr (Suc ip) (u16_bytes w)" and p: "code_at fr ip [opcode_byte OpJumpIfFalse]" using assms by simp_all
  show ?thesis by (rule step_ok_cfg [OF p]) (simp_all add: read_addr_cfg [OF w] jump_when_def bindV_def retV_def count_numerals)
qed

lemma jump_true_cfg:
  assumes "code_at fr ip (opcode_byte OpJumpIfTrue # u16_bytes w)"
  shows "runs H (cfg s fr fs ip (st @ [v])) (cfg s fr fs (if is_truthy (h_ext H) v then unat w else ip + 3) st)"
proof -
  have w: "code_at fr (Suc ip) (u16_bytes w)" and p: "code_at fr ip [opcode_byte OpJumpIfTrue]" using assms by simp_all
  show ?thesis by (rule step_ok_cfg [OF p]) (simp_all add: read_addr_cfg [OF w] jump_when_def bindV_def retV_def count_numerals)
qed

lemma pop_cfg:
  assumes "code_at fr ip [opcode_byte OpPop]"
  shows "runs H (cfg s fr fs ip (st @ [v])) (cfg s fr fs (Suc ip) st)"
  by (rule step_ok_cfg [of _ _ OpPop]) (use assms in \<open>simp_all add: bindV_def retV_def\<close>)

lemma unat_addr: "n < 65536 \<Longrightarrow> unat (of_nat n :: u16) = n"
  by (simp add: unat_of_nat)

text \<open>Which of the two conditional jumps of \<open>and\<close> and \<open>or\<close> is taken.\<close>

definition takes :: "'d ext \<Rightarrow> opcode \<Rightarrow> 'd rt_value \<Rightarrow> bool option" where
  "takes X p v = (case p of OpJumpIfFalse \<Rightarrow> Some (\<not> is_truthy X v) | OpJumpIfTrue \<Rightarrow> Some (is_truthy X v) | _ \<Rightarrow> None)"

lemma cond_jump_cfg:
  assumes "takes (h_ext H) p v = Some b" and "code_at fr ip (opcode_byte p # u16_bytes w)"
  shows "runs H (cfg s fr fs ip (st @ [v])) (cfg s fr fs (if b then unat w else ip + 3) st)"
  using assms jump_false_cfg [of fr ip w H s fs st v] jump_true_cfg [of fr ip w H s fs st v]
  by (auto simp: takes_def split: opcode.splits if_splits)

lemma behaves_short_tail:
  assumes "emits r" and "takes (h_ext H) p v = Some b" and "\<not> b \<Longrightarrow> behaves H look [] r res"
  shows "behaves H look [v, v] (short_tail p r) (if b then Ok [v] else res)"
proof (rule behavesI)
  fix c :: "'a compiler" and f bs ks and s :: "'a vm_state" and fr fs st
  assume c: "func_stack c = [f]" "length (consts_of f) \<le> 256"
    and run: "short_tail p r c = Some ((), emitted bs ks c)" and ld: "loaded f bs ks fr" and env: "env_ok look f s fr st"
  let ?n = "length (code_of f)"
  let ?pre = "opcode_byte p # u16_bytes 0 @ [opcode_byte OpPop]"
  from short_tail_code [OF assms(1) c run] obtain br kr where
    r: "r (emitted ?pre [] c) = Some ((), emitted br kr (emitted ?pre [] c))" and
    e: "emitted bs ks c = emitted (opcode_byte p # u16_bytes (of_nat (?n + 4 + length br)) @ opcode_byte OpPop # br) kr c"
    by metis
  have bs: "bs = opcode_byte p # u16_bytes (of_nat (?n + 4 + length br)) @ opcode_byte OpPop # br" "ks = kr"
    using emitted_inject [OF c(1) e] by auto
  have small: "?n + 4 + length br < 65536" and at: "code_at fr ?n (opcode_byte p # u16_bytes (of_nat (?n + 4 + length br)))"
    "code_at fr (?n + 3) [opcode_byte OpPop]"
    and ld': "loaded (add_code ?pre [] f) br kr fr"
    using ld by (auto simp: loaded_def bs count_numerals)
  have jump: "runs H (cfg s fr fs ?n (st @ [v, v])) (cfg s fr fs (if b then ?n + 4 + length br else ?n + 3) (st @ [v]))"
    using cond_jump_cfg [OF assms(2) at(1), of s fs "st @ [v]"] unat_addr [OF small] by (simp split: if_splits)
  show "outcome_from H s fr fs ?n (st @ [v, v]) (?n + length bs) st (if b then Ok [v] else res)"
  proof (cases b)
    case True
    then show ?thesis using jump by (simp add: outcome_from_def bs count_numerals)
  next
    case False
    have "runs H (cfg s fr fs ?n (st @ [v, v])) (cfg s fr fs (?n + 4) st)"
      using runs_trans [OF jump] pop_cfg [OF at(2), of H s fs st v] False by (simp add: count_numerals)
    moreover have "outcome_from H s fr fs (?n + 4) (st @ []) (?n + 4 + length br) st res"
      using behavesD [OF assms(3) [OF False] emitted_stack [OF c(1)] _ r ld', of s st fs] c(2) env
      by (simp add: count_numerals)
    ultimately have "outcome_from H s fr fs ?n (st @ [v, v]) (?n + 4 + length br) st res"
      by - (rule outcome_runs [of H s fr fs _ _ "?n + 4" st]; simp)
    then show ?thesis using False by (simp add: bs count_numerals add.assoc)
  qed
qed

lemma behaves_if_tail:
  assumes "emits yes" and "emits (or_nil_code no)"
    and "is_truthy (h_ext H) v \<Longrightarrow> behaves H look [] yes res"
    and "\<not> is_truthy (h_ext H) v \<Longrightarrow> behaves H look [] (or_nil_code no) res"
  shows "behaves H look [v] (if_tail yes no) res"
proof (rule behavesI)
  fix c :: "'a compiler" and f bs ks and s :: "'a vm_state" and fr fs st
  assume c: "func_stack c = [f]" "length (consts_of f) \<le> 256"
    and run: "if_tail yes no c = Some ((), emitted bs ks c)" and ld: "loaded f bs ks fr" and env: "env_ok look f s fr st"
  let ?n = "length (code_of f)"
  let ?pre = "opcode_byte OpJumpIfFalse # u16_bytes 0"
  let ?mid = "\<lambda>b1 :: u8 list. opcode_byte OpJumpIfFalse # u16_bytes (of_nat (?n + 6 + length b1)) @ b1 @ opcode_byte OpJump # u16_bytes 0"
  from if_tail_code [OF assms(1,2) c run] obtain b1 k1 b2 k2 where
    y: "yes (emitted ?pre [] c) = Some ((), emitted b1 k1 (emitted ?pre [] c))" and
    n: "or_nil_code no (emitted (?mid b1) k1 c) = Some ((), emitted b2 k2 (emitted (?mid b1) k1 c))" and
    e: "emitted bs ks c = emitted (opcode_byte OpJumpIfFalse # u16_bytes (of_nat (?n + 6 + length b1)) @ b1
      @ opcode_byte OpJump # u16_bytes (of_nat (?n + 6 + length b1 + length b2)) @ b2) (k1 @ k2) c" and
    len: "length (consts_of f @ k1 @ k2) \<le> 256" by metis
  have bs: "bs = opcode_byte OpJumpIfFalse # u16_bytes (of_nat (?n + 6 + length b1)) @ b1
      @ opcode_byte OpJump # u16_bytes (of_nat (?n + 6 + length b1 + length b2)) @ b2" "ks = k1 @ k2"
    using emitted_inject [OF c(1) e] by auto
  have small: "?n + 6 + length b1 + length b2 < 65536" "?n + 6 + length b1 < 65536"
    using ld by (auto simp: loaded_def bs)
  have at: "code_at fr ?n (opcode_byte OpJumpIfFalse # u16_bytes (of_nat (?n + 6 + length b1)))"
    "code_at fr (?n + 3 + length b1) (opcode_byte OpJump # u16_bytes (of_nat (?n + 6 + length b1 + length b2)))"
    "code_at fr (?n + 3) b1" "code_at fr (?n + 6 + length b1) b2"
    using ld unfolding loaded_def bs by (auto simp: count_numerals)
  have ld1: "loaded (add_code ?pre [] f) b1 k1 fr" and ld2: "loaded (add_code (?mid b1) k1 f) b2 k2 fr"
    using ld at(3,4) small by (auto simp: loaded_def bs count_numerals)
  have jump: "runs H (cfg s fr fs ?n (st @ [v])) (cfg s fr fs (if is_truthy (h_ext H) v then ?n + 3 else ?n + 6 + length b1) st)"
    using jump_false_cfg [OF at(1), of H s fs st v] unat_addr [OF small(2)] by (simp split: if_splits)
  show "outcome_from H s fr fs ?n (st @ [v]) (?n + length bs) st res"
  proof (cases "is_truthy (h_ext H) v")
    case True
    have y1: "outcome_from H s fr fs (?n + 3) (st @ []) (?n + 3 + length b1) st res"
      using behavesD [OF assms(3) [OF True] emitted_stack [OF c(1)] _ y ld1, of s st fs] c(2) env
      by (simp add: count_numerals)
    have "runs H (cfg s fr fs (?n + 3 + length b1) (st @ vs)) (cfg s fr fs (?n + 6 + length b1 + length b2) (st @ vs))" for vs
      using jump_cfg [OF at(2), of H s fs "st @ vs"] unat_addr [OF small(1)] by simp
    with y1 have "outcome_from H s fr fs (?n + 3) st (?n + 6 + length b1 + length b2) st res"
      by - (rule outcome_then_runs [of H s fr fs "?n + 3" st "?n + 3 + length b1"]; simp)
    with jump True have "outcome_from H s fr fs ?n (st @ [v]) (?n + 6 + length b1 + length b2) st res"
      by (intro outcome_runs [of H s fr fs ?n "st @ [v]" "?n + 3" st]) simp_all
    then show ?thesis by (simp add: bs count_numerals add.assoc)
  next
    case False
    have "outcome_from H s fr fs (?n + 6 + length b1) (st @ []) (?n + 6 + length b1 + length b2) st res"
      using behavesD [OF assms(4) [OF False] emitted_stack [OF c(1)] _ n ld2, of s st fs] len env
      by (simp add: count_numerals)
    with jump False have "outcome_from H s fr fs ?n (st @ [v]) (?n + 6 + length b1 + length b2) st res"
      by (intro outcome_runs [of H s fr fs ?n "st @ [v]" "?n + 6 + length b1" st]) simp_all
    then show ?thesis by (simp add: bs count_numerals add.assoc)
  qed
qed

end
