(* ===== verification/Compiler_Plain.thy ===== *)
theory Compiler_Plain
  imports Compiler_Correct
begin

text \<open>
  The compiler is correct on plain expressions: its code implements the big-step semantics.
\<close>

section \<open>What the compiler does on plain expressions\<close>

lemma compile_plain:
  "compile_expr X (EInt n sp) = op_const X OpConst (VInt n)"
  "compile_expr X (EStr [LiteralPart t] sp) = op_const X OpConst (VStr t)"
  "compile_expr X (EBool b sp) = emit_op (if b then OpTrue else OpFalse)"
  "compile_expr X (ENil sp) = emit_op OpNil"
  "compile_expr X (EIdent x sp) = emit_load X x"
  "compile_expr X (EVecLit items sp) = compile_items OpNewVec (map (compile_expr X) items)"
  "compile_expr X (ESetLit items sp) = compile_items OpNewSet (map (compile_expr X) items)"
  "compile_expr X (EMapLit entries sp) =
     compile_map X (map (\<lambda>(k, v). ((k, compile_expr X k), (v, compile_expr X v))) entries)"
  "compile_expr X (EBinOp bo l r sp) = compile_binop bo (compile_expr X l) (compile_expr X r)"
  "compile_expr X (EUnaryOp u a sp) = thenC (compile_expr X a) (emit_op (unary_code u))"
  "compile_expr X (EIf cond yes no sp) =
     compile_if (compile_expr X cond) (compile_expr X yes) (map_option (compile_expr X) no)"
  "compile_expr X (EParen a sp) = compile_expr X a"
  "compile_expr X (EField a name sp) = thenC (compile_expr X a) (op_const X OpField (VStr name))"
  by (simp_all add: compile_expr.simps emit_str_def thenC_ret)

text \<open>An operand is compiled as an expression or, a bare identifier, without reading a shared cell.\<close>

definition operand_code :: "'d ext \<Rightarrow> 'd expr \<Rightarrow> 'd compile \<Rightarrow> bool" where
  "operand_code X e m \<longleftrightarrow> m = compile_expr X e \<or> (\<exists>x sp. e = EIdent x sp \<and> m = emit_load_ref X x)"

lemma operand_code_refl [simp]: "operand_code X e (compile_expr X e)"
  by (simp add: operand_code_def)

lemma thenC_assoc: "thenC (thenC a b) m = thenC a (thenC b m)"
  by (intro ext) (auto simp: thenC_def bindC_def split: option.split)

lemma thenC_ret_left: "thenC (retC ()) m = m"
  by (intro ext) (simp add: thenC_def bindC_def retC_def)

lemma seqC_append: "seqC (as @ bs) = thenC (seqC as) (seqC bs)"
  by (induction as) (simp_all add: thenC_ret_left thenC_assoc)

lemma compile_map_operands:
  obtains ms where "list_all2 (operand_code X) (entry_exprs entries) ms"
    and "compile_expr X (EMapLit entries sp) = thenC (seqC ms) (op_index OpNewMap (length entries))"
proof -
  have "\<exists>ms. list_all2 (operand_code X) (entry_exprs entries) ms \<and>
      seqC (map (\<lambda>(k, v). thenC (compile_key X k) (compile_call_arg X v))
        (map (\<lambda>(k, v). ((k, compile_expr X k), (v, compile_expr X v))) entries)) = seqC ms"
  proof (induction entries)
    case Nil
    then show ?case by (intro exI [of _ "[]"]) (simp add: entry_exprs_def)
  next
    case (Cons kv entries)
    then obtain ms where ms: "list_all2 (operand_code X) (entry_exprs entries) ms"
      "seqC (map (\<lambda>(k, v). thenC (compile_key X k) (compile_call_arg X v))
        (map (\<lambda>(k, v). ((k, compile_expr X k), (v, compile_expr X v))) entries)) = seqC ms" by blast
    obtain k v where kv: "kv = (k, v)" by fastforce
    have k: "compile_key X (k, compile_expr X k) = compile_expr X (key_expr k)"
      by (simp add: compile_key_def key_expr_def compile_plain emit_str_def split: expr.split)
    have v: "operand_code X v (compile_call_arg X (v, compile_expr X v))"
      by (simp add: operand_code_def compile_call_arg_def split: expr.split)
    show ?case
      by (rule exI [of _ "compile_expr X (key_expr k) # compile_call_arg X (v, compile_expr X v) # ms"])
        (use ms k v in \<open>simp add: kv entry_exprs_def thenC_assoc\<close>)
  qed
  then show ?thesis using that by (auto simp: compile_plain compile_map_def)
qed

lemma emits_operand: "emits (compile_expr X e) \<Longrightarrow> operand_code X e m \<Longrightarrow> emits m"
  by (auto simp: operand_code_def emit_load_ref_def)

lemma emits_operands: "list_all (\<lambda>e. emits (compile_expr X e)) es \<Longrightarrow> list_all2 (operand_code X) es ms \<Longrightarrow> emits (seqC ms)"
proof (rule emits_seq)
  assume a: "list_all (\<lambda>e. emits (compile_expr X e)) es" and b: "list_all2 (operand_code X) es ms"
  from b a show "list_all emits ms" by (induction rule: list_all2_induct) (auto intro: emits_operand)
qed

lemma emits_binop: "emits l \<Longrightarrow> emits r \<Longrightarrow> emits (compile_binop b l r)"
proof (cases "binop_code b")
  case (Some p)
  assume "emits l" "emits r"
  moreover have "compile_binop b l r = thenC l (thenC r (emit_op p))"
    using Some by (cases b) (simp_all add: compile_binop_def emit_binop_simple_def thenC_ret)
  ultimately show ?thesis by (simp add: emits_then)
next
  case None
  assume "emits l" "emits r"
  then show ?thesis using None
    by (cases b) (auto simp: compile_binop_def compile_short_tail intro!: emits_then)
qed

lemma emits_or_nil: "pred_option emits no \<Longrightarrow> emits (or_nil_code no)"
  by (cases no) (simp_all add: or_nil_code_def)

lemma plain_emits: "plain e \<Longrightarrow> emits (compile_expr X e)"
proof (induction rule: plain.induct)
  case (8 entries sp)
  obtain ms where "list_all2 (operand_code X) (entry_exprs entries) ms"
    "compile_expr X (EMapLit entries sp) = thenC (seqC ms) (op_index OpNewMap (length entries))"
    by (rule compile_map_operands)
  with 8 show ?case by (auto intro!: emits_then emits_operands simp: list_all_iff)
next
  case (11 cond yes no sp)
  then have "pred_option emits (map_option (compile_expr X) no)" by (cases no) auto
  with 11 show ?case by (auto simp: compile_plain compile_if_tail intro!: emits_then emits_or_nil)
qed (auto simp: compile_plain emit_load_def compile_items_def list_all_iff intro!: emits_then emits_seq emits_binop)

section \<open>Instructions of plain expressions\<close>

definition single :: "('d, 'a) outcome \<Rightarrow> ('d, 'a list) outcome" where
  "single r = (case r of Inr v \<Rightarrow> Ok [v] | Inl e \<Rightarrow> Err e)"

lemma single_simps [simp]: "single (Ok v) = Ok [v]" "single (Err e) = Err e"
  by (simp_all add: single_def)

text \<open>An instruction whose effect is an operation on the values it pops.\<close>

lemma behaves_apply:
  assumes "p \<noteq> OpEnd"
    and "\<And>R s fr fs ip st. exec_op H R p (cfg s fr fs ip (st @ us)) =
      (case r of Inr v \<Rightarrow> (VOk (), cfg s fr fs ip (st @ [v])) | Inl e \<Rightarrow> (VErr e, cfg s fr fs ip st))"
  shows "behaves H look us (emit_op p) (single (erased r))"
proof (cases r)
  case (Inl e)
  then show ?thesis by (auto intro!: behaves_instr_err [OF assms(1)] simp: assms(2))
next
  case (Inr v)
  then show ?thesis by (auto intro!: behaves_instr [OF assms(1)] simp: assms(2))
qed

lemma binop_cfg:
  "binop f (cfg s fr fs ip (st @ [v, w])) =
     (case f v w of Inr x \<Rightarrow> (VOk (), cfg s fr fs ip (st @ [x])) | Inl e \<Rightarrow> (VErr e, cfg s fr fs ip st))"
  by (simp add: binop_def bindV_def liftV_def retV_def failV_def split: sum.split)

lemma cmp_op_cfg:
  "cmp_op f (cfg s fr fs ip (st @ [v, w])) =
     (case truth (f v w) of Inr x \<Rightarrow> (VOk (), cfg s fr fs ip (st @ [x])) | Inl e \<Rightarrow> (VErr e, cfg s fr fs ip st))"
  by (simp add: cmp_op_def bindV_def liftV_def retV_def failV_def truth_def split: sum.split)

lemma behaves_binop_code:
  assumes "binop_code b = Some p"
  shows "behaves H look [v, w] (emit_op p) (single (erased (apply_bin (h_ext H) b v w)))"
  by (rule behaves_apply; use assms in \<open>cases b; auto simp: apply_bin_def binop_cfg cmp_op_cfg bindV_def retV_def\<close>)

lemma behaves_unary_code:
  "behaves H look [v] (emit_op (unary_code u)) (single (erased (apply_un (h_ext H) u v)))"
  by (rule behaves_apply; cases u; simp add: apply_un_def bindV_def liftV_def retV_def failV_def split: sum.split)

lemma behaves_push:
  assumes "p \<noteq> OpEnd" and "\<And>R s fr fs ip st. exec_op H R p (cfg s fr fs ip st) = (VOk (), cfg s fr fs ip (st @ [v]))"
  shows "behaves H look [] (emit_op p) (Ok [v])"
  by (rule behaves_instr) (simp_all add: assms)

lemma behaves_constant: "(\<And>w. value_eq (h_ext H) w v \<Longrightarrow> w = v) \<Longrightarrow> behaves H look [] (op_const (h_ext H) OpConst v) (Ok [v])"
  by (rule behaves_const) (simp_all add: bindV_def)

lemma behaves_collection:
  assumes "n = length vs" and "n < 256"
  shows "behaves H look vs (op_index OpNewVec n) (Ok [VVec vs])"
    and "behaves H look vs (op_index OpNewSet n) (Ok [value_set (h_ext H) vs])"
  using assms by (auto intro!: behaves_count simp: bindV_def unat_of_nat)

lemma behaves_new_map:
  assumes "2 * n = length vs" and "n < 256"
  shows "behaves H look vs (op_index OpNewMap n) (Ok [value_map (h_ext H) (pairs_of vs)])"
  by (rule behaves_count) (use assms in \<open>simp_all add: bindV_def unat_of_nat\<close>)

lemma committed_own: "own_value v \<Longrightarrow> committed s v = v"
  by (cases v) (simp_all add: committed_def own_value_def)

lemma behaves_field:
  assumes "own_value v"
  shows "behaves H look [v] (op_const (h_ext H) OpField (VStr name)) (single (erased (field_of (h_ext H) v name)))"
proof (cases "field_of (h_ext H) v name")
  case (Inr w)
  then show ?thesis using assms committed_own [OF assms]
    by (auto intro!: behaves_const
        simp: bindV_def do_field_def field_of_def own_value_def split: rt_value.splits option.splits)
next
  case (Inl e)
  then show ?thesis using assms committed_own [OF assms]
    by (auto intro!: behaves_const_err
        simp: bindV_def do_field_def field_of_def own_value_def raise_here_def current_span_def retV_def failV_def
          erase_def split: rt_value.splits option.splits)
qed

section \<open>Variables\<close>

text \<open>The two ways to load a variable do the same on a value that is read without effect.\<close>

definition loads :: "opcode \<Rightarrow> opcode \<Rightarrow> bool" where
  "loads loc glob \<longleftrightarrow> (loc, glob) = (OpLoadLocal, OpLoadGlobal) \<or> (loc, glob) = (OpLoadLocalRef, OpLoadGlobalRef)"

lemma direct_reads:
  assumes "direct v"
  shows "resolve_lazy_local H R slot v = retV v" "resolve_global H R x v = retV v" "read_shared v = retV v"
  using assms by (auto simp: direct_def resolve_lazy_local_def resolve_global_def read_shared_def split: rt_value.splits)

lemma load_local_cfg:
  assumes "loads loc glob" and "direct v" and "code_at fr ip [b]"
    and "fr_base fr + unat b < length st" and "st ! (fr_base fr + unat b) = v"
  shows "exec_op H R loc (cfg s fr fs ip st) = (VOk (), cfg s fr fs (Suc ip) (st @ [v]))"
proof -
  have "local_val (unat b) (cfg s fr fs (Suc ip) st) = (VOk v, cfg s fr fs (Suc ip) st)"
    using assms(4,5) by (simp add: local_val_def bindV_def getV_def retV_def)
  then show ?thesis using assms(1,3) direct_reads [OF assms(2)]
    by (auto simp: loads_def load_local_def bindV_def retV_def)
qed

lemma load_global_cfg:
  assumes "loads loc glob" and "fr_actor_env fr = None" and "code_at fr ip [b]" and "const_index fr (unat b) (VStr x)"
  shows "map_of (globals s) x = Some v \<Longrightarrow> direct v \<Longrightarrow>
      exec_op H R glob (cfg s fr fs ip st) = (VOk (), cfg s fr fs (Suc ip) (st @ [v]))"
    and "map_of (globals s) x = None \<Longrightarrow>
      exec_op H R glob (cfg s fr fs ip st) =
        (VErr (NameError x (Some (frame_span (fr\<lparr>fr_ip := Suc ip\<rparr>)))), cfg s fr fs (Suc ip) st)"
proof -
  show "exec_op H R glob (cfg s fr fs ip st) = (VOk (), cfg s fr fs (Suc ip) (st @ [v]))"
    if "map_of (globals s) x = Some v" "direct v"
  proof -
    have "lookup_global x (cfg s fr fs (Suc ip) st) = (VOk v, cfg s fr fs (Suc ip) st)"
      using that assms(2) by (simp add: lookup_global_def bindV_def getV_def retV_def)
    then show ?thesis using assms(1,3,4) direct_reads [OF that(2)]
      by (auto simp: loads_def load_global_def bindV_def retV_def)
  qed
  show "exec_op H R glob (cfg s fr fs ip st) =
      (VErr (NameError x (Some (frame_span (fr\<lparr>fr_ip := Suc ip\<rparr>)))), cfg s fr fs (Suc ip) st)"
    if "map_of (globals s) x = None"
  proof -
    have "lookup_global x (cfg s fr fs (Suc ip) st) =
        (VErr (NameError x (Some (frame_span (fr\<lparr>fr_ip := Suc ip\<rparr>)))), cfg s fr fs (Suc ip) st)"
      using that assms(2) by (simp add: lookup_global_def bindV_def getV_def raise_here_def current_span_def retV_def failV_def)
    then show ?thesis using assms(1,3,4) by (auto simp: loads_def load_global_def bindV_def)
  qed
qed

lemma behaves_var:
  assumes "loads loc glob"
  shows "behaves H look [] (emit_var (h_ext H) loc up glob x)
    (case look x of Some v \<Rightarrow> Ok [v] | None \<Rightarrow> Err (NameError x None))"
proof (rule behavesI)
  fix c :: "'a compiler" and f bs ks and s :: "'a vm_state" and fr fs st
  assume c: "func_stack c = [f]" "length (consts_of f) \<le> 256"
    and run: "emit_var (h_ext H) loc up glob x c = Some ((), emitted bs ks c)"
    and ld: "loaded f bs ks fr" and env: "env_ok look f s fr st"
  let ?n = "length (code_of f)"
  have ne: "loc \<noteq> OpEnd" "glob \<noteq> OpEnd" using assms by (auto simp: loads_def)
  have act: "fr_actor_env fr = None" and var: "var_ok look f s fr st x" and dir: "\<And>v. look x = Some v \<Longrightarrow> direct v"
    using env by (auto simp: env_ok_def)
  show "outcome_from H s fr fs ?n (st @ []) (?n + length bs) st (case look x of Some v \<Rightarrow> Ok [v] | None \<Rightarrow> Err (NameError x None))"
  proof (cases "resolve_local x f")
    case (Some slot)
    then have slot: "slot < 256" "fr_base fr + slot < length st" "look x = Some (st ! (fr_base fr + slot))"
      using var by (auto simp: var_ok_def)
    have "op_index loc slot c = Some ((), emitted bs ks c)" using run Some by (simp add: emit_var_script [OF c(1)])
    then have bs: "bs = [opcode_byte loc, of_nat slot]"
      using emitted_inject(1) [OF c(1), of bs ks "[opcode_byte loc, of_nat slot]" "[]"] by (simp add: op_index_run [OF c(1)])
    have at: "code_at fr ?n [opcode_byte loc]" "code_at fr (Suc ?n) [of_nat slot]" using ld by (simp_all add: loaded_def bs)
    have u: "unat (of_nat slot :: u8) = slot" using slot(1) by (simp add: unat_of_nat)
    have "runs H (cfg s fr fs ?n st) (cfg s fr fs (Suc (Suc ?n)) (st @ [st ! (fr_base fr + slot)]))"
      by (rule step_ok_cfg [OF at(1) ne(1)], rule load_local_cfg [OF assms dir [OF slot(3)] at(2)]) (use slot u in simp_all)
    then show ?thesis using slot(3) by (simp add: outcome_from_def bs)
  next
    case None
    then have look: "look x = map_of (globals s) x" using var by (simp add: var_ok_def)
    have oc: "op_const (h_ext H) glob (VStr x) c = Some ((), emitted bs ks c)"
      using run None by (simp add: emit_var_script [OF c(1)])
    obtain i where i: "bs = [opcode_byte glob, i]" "const_index fr (unat i) (VStr x)" "code_at fr ?n [opcode_byte glob, i]"
      by (rule op_const_loaded [OF c oc ld]) auto
    have at: "code_at fr ?n [opcode_byte glob]" "code_at fr (Suc ?n) [i]" using i(3) by simp_all
    show ?thesis
    proof (cases "look x")
      case (Some v)
      have "runs H (cfg s fr fs ?n st) (cfg s fr fs (Suc (Suc ?n)) (st @ [v]))"
        by (rule step_ok_cfg [OF at(1) ne(2)], rule load_global_cfg(1) [OF assms act at(2) i(2) _ dir [OF Some]])
          (use Some look in simp)
      then show ?thesis using Some by (simp add: outcome_from_def i(1))
    next
      case None
      have "fails H (cfg s fr fs ?n st) (erase (NameError x (Some (frame_span (fr\<lparr>fr_ip := Suc (Suc ?n)\<rparr>)))))"
        by (rule step_err_cfg [OF at(1) ne(2)], rule load_global_cfg(2) [OF assms act at(2) i(2)]) (use None look in simp)
      then show ?thesis using None by (simp add: outcome_from_def erase_def)
    qed
  qed
qed

section \<open>Correctness\<close>

lemma operand_code_ident:
  "operand_code X (EIdent x sp) m \<Longrightarrow> m = emit_load X x \<or> m = emit_load_ref X x"
  by (auto simp: operand_code_def compile_plain)

lemma operand_code_other: "operand_code X e m \<Longrightarrow> (\<And>x sp. e \<noteq> EIdent x sp) \<Longrightarrow> m = compile_expr X e"
  by (auto simp: operand_code_def)

inductive_simps plain_simps [simp]:
  "plain (EVecLit items sp)" "plain (ESetLit items sp)" "plain (EMapLit entries sp)" "plain (EBinOp bo l r sp)"
  "plain (EUnaryOp u a sp)" "plain (EIf cond yes no sp)" "plain (EParen a sp)" "plain (EField a name sp)"

lemma evals_all_length:
  shows "evals X look e r \<Longrightarrow> True" and "evals_all X look es rs \<Longrightarrow> \<forall>vs. rs = Ok vs \<longrightarrow> length vs = length es"
  by (induction rule: evals_evals_all.inducts) auto

lemma entry_exprs_length: "length (entry_exprs entries) = 2 * length entries"
  by (induction entries) (auto simp: entry_exprs_def)

lemma plain_operands: "list_all plain es \<Longrightarrow> list_all2 (operand_code X) es ms \<Longrightarrow> emits (seqC ms)"
  by (rule emits_operands) (auto simp: list_all_iff plain_emits)

lemma operands_self: "list_all2 (operand_code X) es (map (compile_expr X) es)"
  by (simp add: list_all2_map2 list_all2_same)

lemma binop_strict: "strict_op b \<Longrightarrow> \<exists>p. binop_code b = Some p \<and> compile_binop b l r = thenC l (thenC r (emit_op p))"
  by (cases b) (auto simp: strict_op_def compile_binop_def emit_binop_simple_def thenC_ret)

lemma compile_binop_left:
  assumes "emits r"
  obtains n where "emits n" and "compile_binop b l r = thenC l n"
proof (cases "strict_op b")
  case True
  with binop_strict [OF True] that assms show ?thesis by (meson emits_then emits_op)
next
  case False
  then have "compile_binop b l r = thenC l (thenC (emit_op OpDup) (short_tail (if b = BAnd then OpJumpIfFalse else OpJumpIfTrue) r))"
    by (auto simp: strict_op_def compile_binop_def compile_short_tail)
  then show ?thesis using that assms by (meson emits_then emits_op emits_short_tail)
qed

text \<open>Two operands, then what uses them.\<close>

lemma behaves_two:
  assumes "emits l" and "emits r" and "emits n" and "behaves H look [] l (Ok [v])" and "behaves H look [] r (single rr)"
    and "\<And>w. rr = Ok w \<Longrightarrow> behaves H look [v, w] n res" and "\<And>e. rr = Err e \<Longrightarrow> res = Err e"
  shows "behaves H look [] (thenC l (thenC r n)) res"
proof (rule behaves_then [OF assms(1) emits_then [OF assms(2,3)] assms(4)], cases rr)
  case (Inl e)
  then show "behaves H look [v] (thenC r n) res"
    using behaves_then_err [OF assms(2,3)] behaves_frame [OF assms(5), of "[v]"] assms(7) by simp
next
  case (Inr w)
  then show "behaves H look [v] (thenC r n) res"
    using behaves_then [OF assms(2,3)] behaves_frame [OF assms(5), of "[v]"] assms(6) by simp
qed

lemma behaves_if:
  assumes "emits m" and "emits yes" and "emits (or_nil_code no)" and "behaves H look [] m (Ok [v])"
    and "is_truthy (h_ext H) v \<Longrightarrow> behaves H look [] yes res"
    and "\<not> is_truthy (h_ext H) v \<Longrightarrow> behaves H look [] (or_nil_code no) res"
  shows "behaves H look [] (thenC m (if_tail yes no)) res"
  using assms by (blast intro: behaves_then emits_if_tail behaves_if_tail)

lemma behaves_short_stop:
  assumes "emits l" and "emits r" and "behaves H look [] l (Ok [v])" and "takes (h_ext H) p v = Some True"
  shows "behaves H look [] (compile_short p l r) (Ok [v])"
proof -
  have dup: "behaves H look [v] (emit_op OpDup) (Ok [v, v])"
    by (rule behaves_instr) (simp_all add: bindV_def)
  have tail: "behaves H look [v, v] (short_tail p r) (Ok [v])"
    using behaves_short_tail [OF assms(2,4), of look "Ok [v]"] by simp
  show ?thesis unfolding compile_short_tail
    by (intro behaves_then [OF assms(1) _ assms(3)] behaves_then [OF _ _ dup tail] emits_then emits_short_tail assms emits_op)
qed

lemma behaves_short_go:
  assumes "emits l" and "emits r" and "behaves H look [] l (Ok [v])" and "takes (h_ext H) p v = Some False"
    and "behaves H look [] r res"
  shows "behaves H look [] (compile_short p l r) res"
proof -
  have dup: "behaves H look [v] (emit_op OpDup) (Ok [v, v])"
    by (rule behaves_instr) (simp_all add: bindV_def)
  have tail: "behaves H look [v, v] (short_tail p r) res"
    using behaves_short_tail [OF assms(2,4), of look res] assms(5) by simp
  show ?thesis unfolding compile_short_tail
    by (intro behaves_then [OF assms(1) _ assms(3)] behaves_then [OF _ _ dup tail] emits_then emits_short_tail assms emits_op)
qed

lemma compile_correct:
  shows "evals X look e r \<Longrightarrow> X = h_ext H \<Longrightarrow> plain e \<Longrightarrow> operand_code X e m \<Longrightarrow> behaves H look [] m (single r)"
    and "evals_all X look es rs \<Longrightarrow> X = h_ext H \<Longrightarrow> list_all plain es \<Longrightarrow> list_all2 (operand_code X) es ms \<Longrightarrow>
      behaves H look [] (seqC ms) rs"
proof (induction arbitrary: m and ms rule: evals_evals_all.inducts)
  case (ev_int n sp)
  then show ?case by (auto dest!: operand_code_other simp: compile_plain intro!: behaves_constant)
next
  case (ev_str t sp)
  then show ?case by (auto dest!: operand_code_other simp: compile_plain intro!: behaves_constant)
next
  case (ev_bool b sp)
  then show ?case by (auto dest!: operand_code_other simp: compile_plain intro!: behaves_push)
next
  case (ev_nil sp)
  then show ?case by (auto dest!: operand_code_other simp: compile_plain intro!: behaves_push)
next
  case (ev_ident x v sp)
  then show ?case using behaves_var [of OpLoadLocal OpLoadGlobal H look OpLoadUpvalue x]
      behaves_var [of OpLoadLocalRef OpLoadGlobalRef H look OpLoadUpvalueRef x]
    by (auto dest!: operand_code_ident simp: emit_load_def emit_load_ref_def loads_def)
next
  case (ev_unbound x sp)
  then show ?case using behaves_var [of OpLoadLocal OpLoadGlobal H look OpLoadUpvalue x]
      behaves_var [of OpLoadLocalRef OpLoadGlobalRef H look OpLoadUpvalueRef x]
    by (auto dest!: operand_code_ident simp: emit_load_def emit_load_ref_def loads_def)
next
  case (ev_vec items vs sp)
  have "length vs = length items" using evals_all_length(2) [OF ev_vec(1)] by simp
  moreover have "m = thenC (seqC (map (compile_expr X) items)) (op_index OpNewVec (length items))"
    using operand_code_other [OF ev_vec(5)] by (simp add: compile_plain compile_items_def)
  ultimately show ?case using ev_vec.prems ev_vec(2) [OF _ _ operands_self]
    by (auto intro!: behaves_then [OF _ _ _ behaves_collection(1)] plain_operands operands_self)
next
  case (ev_vec_err items e sp)
  have "m = thenC (seqC (map (compile_expr X) items)) (op_index OpNewVec (length items))"
    using operand_code_other [OF ev_vec_err(5)] by (simp add: compile_plain compile_items_def)
  then show ?case using ev_vec_err.prems ev_vec_err(2) [OF _ _ operands_self]
    by (auto intro!: behaves_then_err plain_operands operands_self)
next
  case (ev_set items vs sp)
  have "length vs = length items" using evals_all_length(2) [OF ev_set(1)] by simp
  moreover have "m = thenC (seqC (map (compile_expr X) items)) (op_index OpNewSet (length items))"
    using operand_code_other [OF ev_set(5)] by (simp add: compile_plain compile_items_def)
  ultimately show ?case using ev_set.prems ev_set(2) [OF _ _ operands_self]
    by (auto intro!: behaves_then [OF _ _ _ behaves_collection(2)] plain_operands operands_self)
next
  case (ev_set_err items e sp)
  have "m = thenC (seqC (map (compile_expr X) items)) (op_index OpNewSet (length items))"
    using operand_code_other [OF ev_set_err(5)] by (simp add: compile_plain compile_items_def)
  then show ?case using ev_set_err.prems ev_set_err(2) [OF _ _ operands_self]
    by (auto intro!: behaves_then_err plain_operands operands_self)
next
  case (ev_map entries vs sp)
  obtain ms where ms: "list_all2 (operand_code X) (entry_exprs entries) ms"
    "compile_expr X (EMapLit entries sp) = thenC (seqC ms) (op_index OpNewMap (length entries))"
    by (rule compile_map_operands)
  have "m = compile_expr X (EMapLit entries sp)" using operand_code_other [OF ev_map(5)] by simp
  moreover have "2 * length entries = length vs" using evals_all_length(2) [OF ev_map(1)] by (simp add: entry_exprs_length)
  ultimately show ?case using ev_map.prems ev_map(2) [OF _ _ ms(1)] ms
    by (auto intro!: behaves_then [OF _ _ _ behaves_new_map] plain_operands)
next
  case (ev_map_err entries e sp)
  obtain ms where ms: "list_all2 (operand_code X) (entry_exprs entries) ms"
    "compile_expr X (EMapLit entries sp) = thenC (seqC ms) (op_index OpNewMap (length entries))"
    by (rule compile_map_operands)
  have "m = compile_expr X (EMapLit entries sp)" using operand_code_other [OF ev_map_err(5)] by simp
  then show ?case using ev_map_err.prems ev_map_err(2) [OF _ _ ms(1)] ms
    by (auto intro!: behaves_then_err plain_operands)
next
  case (ev_bin b l v r w sp)
  obtain p where p: "binop_code b = Some p"
    "compile_binop b (compile_expr X l) (compile_expr X r) = thenC (compile_expr X l) (thenC (compile_expr X r) (emit_op p))"
    using binop_strict [OF ev_bin(1)] by blast
  have m: "m = thenC (compile_expr X l) (thenC (compile_expr X r) (emit_op p))"
    using operand_code_other [OF ev_bin.prems(3)] p(2) by (simp add: compile_plain)
  have l: "behaves H look [] (compile_expr X l) (Ok [v])" and r: "behaves H look [] (compile_expr X r) (Ok [w])"
    using ev_bin by auto
  have "emits (compile_expr X l)" "emits (compile_expr X r)" using ev_bin.prems by (auto intro: plain_emits)
  then show ?case unfolding m using behaves_binop_code [OF p(1), of H look v w] ev_bin.prems(1)
    by (intro behaves_two [OF _ _ _ l, where rr = "Ok w"]) (use r in auto)
next
  case (ev_bin_left l e b r sp)
  have l: "behaves H look [] (compile_expr X l) (Err e)" using ev_bin_left by auto
  have m: "m = compile_binop b (compile_expr X l) (compile_expr X r)"
    using operand_code_other [OF ev_bin_left.prems(3)] by (simp add: compile_plain)
  have em: "emits (compile_expr X l)" "emits (compile_expr X r)" using ev_bin_left.prems by (auto intro: plain_emits)
  obtain n where "emits n" "m = thenC (compile_expr X l) n" using compile_binop_left [OF em(2)] m by metis
  then show ?case using behaves_then_err [OF em(1) _ l] by auto
next
  case (ev_bin_right b l v r e sp)
  obtain p where p: "binop_code b = Some p"
    "compile_binop b (compile_expr X l) (compile_expr X r) = thenC (compile_expr X l) (thenC (compile_expr X r) (emit_op p))"
    using binop_strict [OF ev_bin_right(1)] by blast
  have m: "m = thenC (compile_expr X l) (thenC (compile_expr X r) (emit_op p))"
    using operand_code_other [OF ev_bin_right.prems(3)] p(2) by (simp add: compile_plain)
  have l: "behaves H look [] (compile_expr X l) (Ok [v])" and r: "behaves H look [] (compile_expr X r) (Err e)"
    using ev_bin_right by auto
  have "emits (compile_expr X l)" "emits (compile_expr X r)" using ev_bin_right.prems by (auto intro: plain_emits)
  then show ?case unfolding m by (intro behaves_two [OF _ _ _ l, where rr = "Err e"]) (use r in auto)
next
  case (ev_and_stop l v r sp)
  have "m = compile_short OpJumpIfFalse (compile_expr X l) (compile_expr X r)"
    using operand_code_other [OF ev_and_stop.prems(3)] by (simp add: compile_plain compile_binop_def)
  then show ?case using ev_and_stop by (auto intro!: behaves_short_stop plain_emits simp: takes_def)
next
  case (ev_and_go l v r res sp)
  have "m = compile_short OpJumpIfFalse (compile_expr X l) (compile_expr X r)"
    using operand_code_other [OF ev_and_go.prems(3)] by (simp add: compile_plain compile_binop_def)
  then show ?case using ev_and_go by (auto intro!: behaves_short_go [where v = v] plain_emits simp: takes_def)
next
  case (ev_or_stop l v r sp)
  have "m = compile_short OpJumpIfTrue (compile_expr X l) (compile_expr X r)"
    using operand_code_other [OF ev_or_stop.prems(3)] by (simp add: compile_plain compile_binop_def)
  then show ?case using ev_or_stop by (auto intro!: behaves_short_stop plain_emits simp: takes_def)
next
  case (ev_or_go l v r res sp)
  have "m = compile_short OpJumpIfTrue (compile_expr X l) (compile_expr X r)"
    using operand_code_other [OF ev_or_go.prems(3)] by (simp add: compile_plain compile_binop_def)
  then show ?case using ev_or_go by (auto intro!: behaves_short_go [where v = v] plain_emits simp: takes_def)
next
  case (ev_un a v u sp)
  have "m = thenC (compile_expr X a) (emit_op (unary_code u))"
    using operand_code_other [OF ev_un.prems(3)] by (simp add: compile_plain)
  then show ?case using ev_un by (auto intro!: behaves_then [OF _ _ _ behaves_unary_code] plain_emits)
next
  case (ev_un_err a e u sp)
  have "m = thenC (compile_expr X a) (emit_op (unary_code u))"
    using operand_code_other [OF ev_un_err.prems(3)] by (simp add: compile_plain)
  then show ?case using ev_un_err by (auto intro!: behaves_then_err plain_emits)
next
  case (ev_if_yes cond v yes res no sp)
  have m: "m = thenC (compile_expr X cond) (if_tail (compile_expr X yes) (map_option (compile_expr X) no))"
    using operand_code_other [OF ev_if_yes.prems(3)] by (simp add: compile_plain compile_if_tail)
  have em: "emits (compile_expr X cond)" "emits (compile_expr X yes)" "emits (or_nil_code (map_option (compile_expr X) no))"
    using ev_if_yes.prems by (auto intro!: plain_emits emits_or_nil simp: option.pred_map comp_def elim!: option.pred_mono_strong)
  have c: "behaves H look [] (compile_expr X cond) (Ok [v])" and y: "behaves H look [] (compile_expr X yes) (single res)"
    using ev_if_yes by auto
  show ?case unfolding m by (rule behaves_if [OF em c]) (use ev_if_yes y in auto)
next
  case (ev_if_no cond v no res yes sp)
  have m: "m = thenC (compile_expr X cond) (if_tail (compile_expr X yes) (Some (compile_expr X no)))"
    using operand_code_other [OF ev_if_no.prems(3)] by (simp add: compile_plain compile_if_tail)
  have em: "emits (compile_expr X cond)" "emits (compile_expr X yes)" "emits (or_nil_code (Some (compile_expr X no)))"
    using ev_if_no.prems by (auto intro!: plain_emits emits_or_nil)
  have c: "behaves H look [] (compile_expr X cond) (Ok [v])" and n: "behaves H look [] (compile_expr X no) (single res)"
    using ev_if_no by auto
  show ?case unfolding m by (rule behaves_if [OF em c]) (use ev_if_no n in \<open>auto simp: or_nil_code_def\<close>)
next
  case (ev_if_nil cond v yes sp)
  have m: "m = thenC (compile_expr X cond) (if_tail (compile_expr X yes) None)"
    using operand_code_other [OF ev_if_nil.prems(3)] by (simp add: compile_plain compile_if_tail)
  have em: "emits (compile_expr X cond)" "emits (compile_expr X yes)" "emits (or_nil_code None)"
    using ev_if_nil.prems by (auto intro!: plain_emits emits_or_nil)
  have c: "behaves H look [] (compile_expr X cond) (Ok [v])" using ev_if_nil by auto
  show ?case unfolding m
    by (rule behaves_if [OF em c]) (use ev_if_nil in \<open>auto simp: or_nil_code_def intro!: behaves_push\<close>)
next
  case (ev_if_err cond e yes no sp)
  have m: "m = thenC (compile_expr X cond) (if_tail (compile_expr X yes) (map_option (compile_expr X) no))"
    using operand_code_other [OF ev_if_err.prems(3)] by (simp add: compile_plain compile_if_tail)
  have em: "emits (compile_expr X cond)" "emits (compile_expr X yes)" "emits (or_nil_code (map_option (compile_expr X) no))"
    using ev_if_err.prems by (auto intro!: plain_emits emits_or_nil simp: option.pred_map comp_def elim!: option.pred_mono_strong)
  have "behaves H look [] (compile_expr X cond) (Err e)" using ev_if_err by auto
  then show ?case unfolding m by (auto intro!: behaves_then_err emits_if_tail em)
next
  case (ev_paren a res sp)
  then show ?case using operand_code_other [OF ev_paren.prems(3)] by (simp add: compile_plain)
next
  case (ev_field a v name sp)
  have "m = thenC (compile_expr X a) (op_const X OpField (VStr name))"
    using operand_code_other [OF ev_field.prems(3)] by (simp add: compile_plain)
  then show ?case using ev_field by (auto intro!: behaves_then [OF _ _ _ behaves_field] plain_emits)
next
  case (ev_field_err a e name sp)
  have "m = thenC (compile_expr X a) (op_const X OpField (VStr name))"
    using operand_code_other [OF ev_field_err.prems(3)] by (simp add: compile_plain)
  then show ?case using ev_field_err by (auto intro!: behaves_then_err plain_emits)
next
  case (ev_more e v es vs)
  from ev_more.prems(3) obtain m' ms' where ms: "ms = m' # ms'" "operand_code X e m'" "list_all2 (operand_code X) es ms'"
    by (auto simp: list_all2_Cons1)
  have hd: "behaves H look [] m' (Ok [v])" and tl: "behaves H look [] (seqC ms') (Ok vs)"
    using ev_more ms by auto
  have "behaves H look [v] (seqC ms') (Ok (v # vs))" using behaves_frame [OF tl, of "[v]"] by simp
  then show ?case using ms ev_more.prems
    by (auto intro!: behaves_then [OF _ _ hd] emits_operand [OF plain_emits] plain_operands)
next
  case (ev_first_err e x es)
  from ev_first_err.prems(3) obtain m' ms' where ms: "ms = m' # ms'" "operand_code X e m'" "list_all2 (operand_code X) es ms'"
    by (auto simp: list_all2_Cons1)
  have "behaves H look [] m' (Err x)" using ev_first_err ms by auto
  then show ?case using ms ev_first_err.prems
    by (auto intro!: behaves_then_err emits_operand [OF plain_emits] plain_operands)
next
  case (ev_rest_err e v es x)
  from ev_rest_err.prems(3) obtain m' ms' where ms: "ms = m' # ms'" "operand_code X e m'" "list_all2 (operand_code X) es ms'"
    by (auto simp: list_all2_Cons1)
  have hd: "behaves H look [] m' (Ok [v])" and tl: "behaves H look [] (seqC ms') (Err x)"
    using ev_rest_err ms by auto
  have "behaves H look [v] (seqC ms') (Err x)" using behaves_frame [OF tl, of "[v]"] by simp
  then show ?case using ms ev_rest_err.prems
    by (auto intro!: behaves_then [OF _ _ hd] emits_operand [OF plain_emits] plain_operands)
next
  case (ev_none)
  then show ?case
    by (auto simp: behaves_def outcome_from_def retC_def dest: emitted_inject [where bs = "[]" and ks = "[]", simplified])
qed

end
