(* ===== verification/Compiler_Spec.thy ===== *)
theory Compiler_Spec
  imports Compiler_Plain
begin

text \<open>
  Compiled programs on the virtual machine: a program that is one plain expression computes what
  the semantics says; and two programs on which the compiler goes wrong.
\<close>

section \<open>Runs inside a dispatch loop\<close>

lemma step_ok_frames: "step_ok H s s' \<Longrightarrow> frames s \<noteq> []"
  by (auto simp: step_ok_def step_def fetch_op_def fetch_u8_def current_frame_def bindV_def)

lemma dispatch_step_ok: "step_ok H s s' \<Longrightarrow> dispatch H (Suc n) kind 0 s = dispatch H n kind 0 s'"
  using step_ok_frames [of H s s'] by (simp add: step_ok_def)

lemma dispatch_runs:
  assumes "runs H s s'"
  shows "\<exists>k. \<forall>n. dispatch H (k + n) kind 0 s = dispatch H n kind 0 s'"
  using assms unfolding runs_def
proof (induction rule: converse_rtranclp_induct)
  case base
  show ?case by (rule exI [of _ 0]) simp
next
  case (step a b)
  then obtain k where "\<forall>n. dispatch H (k + n) kind 0 b = dispatch H n kind 0 s'" by blast
  then show ?case using dispatch_step_ok [OF step(1)] by (intro exI [of _ "Suc k"]) simp
qed

text \<open>Errors of plain expressions are not control signals.\<close>

definition ordinary :: "'d interp_error \<Rightarrow> bool" where
  "ordinary e = (case e of NameError _ _ \<Rightarrow> True | TypeError _ _ _ _ \<Rightarrow> True | IndexError _ _ \<Rightarrow> True
     | DivisionByZero _ \<Rightarrow> True | _ \<Rightarrow> False)"

lemma ordinary_erase [simp]: "ordinary (erase e) = ordinary e"
  by (cases e) (simp_all add: ordinary_def erase_def)

lemma promoted_ordinary:
  "promoted X cat op v w f = Err e \<Longrightarrow> (\<And>x y e. f x y = Err e \<Longrightarrow> ordinary e) \<Longrightarrow> ordinary e"
  by (auto simp: promoted_def type_err_def ordinary_def split: option.splits)

lemma quotient_ordinary: "decimal_quotient X x y = Err e \<Longrightarrow> ordinary e"
  by (auto simp: decimal_quotient_def ordinary_def split: if_splits)

lemma arith_ordinary:
  "op_add X v w = Err e \<Longrightarrow> ordinary e" "op_sub X v w = Err e \<Longrightarrow> ordinary e" "op_mul X v w = Err e \<Longrightarrow> ordinary e"
  "op_div X v w = Err e \<Longrightarrow> ordinary e" "op_modulo v w = Err e \<Longrightarrow> ordinary e" "op_cmp X op v w = Err e \<Longrightarrow> ordinary e"
  by (auto simp: op_add_def op_sub_def op_mul_def op_div_def op_modulo_def op_cmp_def Let_def type_err_def
      ordinary_def [of "DivisionByZero None"] ordinary_def [of "TypeError _ _ _ _"]
      split: rt_value.splits if_splits elim!: promoted_ordinary dest: quotient_ordinary)

lemma truth_ordinary: "truth (bindE r (\<lambda>c. Ok (g c))) = Err e \<Longrightarrow> (\<And>e. r = Err e \<Longrightarrow> ordinary e) \<Longrightarrow> ordinary e"
  by (cases r) (auto simp: truth_def)

lemma apply_bin_ordinary: "apply_bin X b v w = Err e \<Longrightarrow> ordinary e"
  by (cases b) (auto simp: apply_bin_def op_lt_def op_gt_def op_lte_def op_gte_def
      dest: arith_ordinary truth_ordinary [OF _ arith_ordinary(6)])

lemma apply_un_ordinary: "apply_un X u v = Err e \<Longrightarrow> ordinary e"
  by (cases u; cases v) (auto simp: apply_un_def expected_def ordinary_def)

lemma field_of_ordinary: "field_of X v name = Err e \<Longrightarrow> ordinary e"
  by (auto simp: field_of_def ordinary_def split: rt_value.splits option.splits)

lemma erased_ordinary: "erased r = Err e \<Longrightarrow> (\<And>e. r = Err e \<Longrightarrow> ordinary e) \<Longrightarrow> ordinary e"
  by (cases r) auto

lemma evals_ordinary:
  shows "evals X look e r \<Longrightarrow> \<forall>x. r = Err x \<longrightarrow> ordinary x"
    and "evals_all X look es rs \<Longrightarrow> \<forall>x. rs = Err x \<longrightarrow> ordinary x"
  by (induction rule: evals_evals_all.inducts)
    (auto dest: erased_ordinary [OF _ apply_bin_ordinary] erased_ordinary [OF _ apply_un_ordinary]
        erased_ordinary [OF _ field_of_ordinary] simp: ordinary_def [of "NameError _ _"])

lemma handle_ordinary: "ordinary e \<Longrightarrow> handle_signal e t s = (VErr e, s)"
  by (cases e) (simp_all add: ordinary_def failV_def)

section \<open>Whole programs\<close>

text \<open>The state in which the code of a program starts.\<close>

definition script_frame :: "'d chunk \<Rightarrow> 'd frame" where
  "script_frame k = \<lparr>fr_closure = closure_vm_new k [], fr_ip = 0, fr_base = 0, fr_actor_env = None\<rparr>"

lemma script_start: "push_frame (closure_vm_new k []) None [] (ctx_new s) = cfg (ctx_new s) (script_frame k) [] 0 []"
  by (simp add: push_frame_def cfg_def script_frame_def ctx_new_def)

lemma script_code [simp]: "frame_code (script_frame k) = ch_code k" "fr_base (script_frame k) = 0"
  "fr_actor_env (script_frame k) = None" "ch_consts (cl_chunk (fr_closure (script_frame k))) = ch_consts k"
  by (simp_all add: script_frame_def frame_code_def closure_vm_new_def)

lemma return_script:
  assumes "code_at (script_frame k) ip [opcode_byte OpReturn]" and "n \<ge> 2"
  shows "\<exists>s'. dispatch H n ScriptLoop 0 (cfg (ctx_new s) (script_frame k) [] ip [v]) = (VOk VNil, s')
    \<and> stack s' = [v] \<and> live_actors s' = live_actors s"
proof -
  obtain m where n: "n = Suc (Suc m)" using le_Suc_ex [OF assms(2)] by auto
  have step: "step H R (cfg (ctx_new s) (script_frame k) [] ip ([] @ [v])) =
      exec_op H R OpReturn (cfg (ctx_new s) (script_frame k) [] (Suc ip) ([] @ [v]))" for R
    by (rule step_cfg [OF assms(1)]) simp
  let ?s = "ctx_new s\<lparr>stack := [v]\<rparr>"
  have "exec_op H R OpReturn (cfg (ctx_new s) (script_frame k) [] (Suc ip) ([] @ [v])) = (VOk (), ?s)" for R
    unfolding exec_op.simps bindV_def pop_val_cfg
    by (simp add: return_from_frame_def close_upvalues_above_def cfg_def ctx_new_def thenV_def bindV_def modV_def
        drop_inner_handlers_def truncate_stack_def Let_def)
  then show ?thesis using step by (simp add: n ctx_new_def retV_def)
qed

lemma drain_nothing: "n > 0 \<Longrightarrow> live_actors s = [] \<Longrightarrow> drain_mailboxes n R 0 s = (VOk (), s)"
  by (cases n) simp_all

text \<open>The result of running a chunk from the outcome of its first part.\<close>

lemma run_chunk_value:
  assumes "runs H (cfg (ctx_new s) (script_frame k) [] 0 []) (cfg (ctx_new s) (script_frame k) [] ip [v])"
    and "code_at (script_frame k) ip [opcode_byte OpReturn]" and "live_actors s = []"
  shows "\<exists>n0. \<forall>n \<ge> n0. fst (run_chunk H n k s) = VOk v"
proof -
  obtain j where j: "\<And>n. dispatch H (j + n) ScriptLoop 0 (cfg (ctx_new s) (script_frame k) [] 0 []) =
      dispatch H n ScriptLoop 0 (cfg (ctx_new s) (script_frame k) [] ip [v])"
    using dispatch_runs [OF assms(1)] by blast
  have "fst (run_chunk H n k s) = VOk v" if "n \<ge> j + 2" for n
  proof -
    define m where "m = n - j"
    have n: "n = j + m" "m \<ge> 2" using that by (simp_all add: m_def)
    obtain s' where "dispatch H m ScriptLoop 0 (cfg (ctx_new s) (script_frame k) [] ip [v]) = (VOk VNil, s')"
      "stack s' = [v]" "live_actors s' = live_actors s"
      using return_script [OF assms(2) n(2)] by blast
    then show ?thesis using assms(3) n drain_nothing [of n s']
      by (simp add: run_chunk_def script_start j bindV_def thenV_def pop_or_nil_def pop_val_def)
  qed
  then show ?thesis by blast
qed

lemma run_chunk_error:
  assumes "fails H (cfg (ctx_new s) (script_frame k) [] 0 []) e" and "ordinary e"
  shows "\<exists>n0. \<forall>n \<ge> n0. \<exists>e'. fst (run_chunk H n k s) = VErr e' \<and> erase e' = e"
proof -
  from assms(1) obtain s1 e' s2 where run: "runs H (cfg (ctx_new s) (script_frame k) [] 0 []) s1" and "frames s1 \<noteq> []"
    and err: "\<And>R. step H R s1 = (VErr e', s2)" and e: "erase e' = e" unfolding fails_def by blast
  obtain j where j: "\<And>n. dispatch H (j + n) ScriptLoop 0 (cfg (ctx_new s) (script_frame k) [] 0 []) =
      dispatch H n ScriptLoop 0 s1" using dispatch_runs [OF run] by blast
  have "ordinary e'" using assms(2) e by (metis ordinary_erase)
  have "fst (run_chunk H n k s) = VErr e'" if "n \<ge> Suc j" for n
  proof -
    define m where "m = n - Suc j"
    have n: "n = j + Suc m" using that by (simp add: m_def)
    have "dispatch H (Suc m) ScriptLoop 0 s1 = (VErr e', s2)"
      using \<open>frames s1 \<noteq> []\<close> err handle_ordinary [OF \<open>ordinary e'\<close>] by (simp add: bindV_def)
    then have "dispatch H n ScriptLoop 0 (cfg (ctx_new s) (script_frame k) [] 0 []) = (VErr e', s2)" by (simp only: n j)
    then show ?thesis by (simp add: run_chunk_def script_start bindV_def del: dispatch.simps)
  qed
  then show ?thesis using e by blast
qed

lemma compile_single:
  assumes "plain e" and "compile_program_with_types X \<lparr>pr_stmts = [SExpr e], pr_span = sp\<rparr> vs ss = Some (k, vs', ss')"
  defines "c \<equiv> (compiler_new FtScript)\<lparr>variants := vs, structs := ss\<rparr>"
  obtains bs ks where "compile_expr X e c = Some ((), emitted bs ks c)"
    and "ch_code k = bs @ [opcode_byte OpReturn]" and "ch_consts k = ks"
proof -
  have st: "func_stack c = [func_ctx_new FtScript (Some (lit ''<script>''))]"
    by (simp add: c_def compiler_new_def)
  obtain c1 c2 where 1: "compile_expr X e c = Some ((), c1)" and 2: "emit_op OpReturn c1 = Some ((), c2)"
    and k: "case func_stack c2 of f # _ \<Rightarrow> k = fc_chunk f | [] \<Rightarrow> False"
    using assms(2) unfolding c_def compile_program_with_types_def
    by (auto simp: thenC_Some split: option.splits list.splits)
  obtain bs ks where bs: "c1 = emitted bs ks c"
    by (rule emitsD [OF plain_emits [OF assms(1)] st _ 1])
      (auto simp: consts_of_def func_ctx_new_def chunk_new_def)
  have "c2 = emitted (bs @ [opcode_byte OpReturn]) ks c"
    using 2 emit_op_run [OF emitted_stack [OF st], of OpReturn bs ks] bs by simp
  then have "k = fc_chunk (add_code (bs @ [opcode_byte OpReturn]) ks (func_ctx_new FtScript (Some (lit ''<script>''))))"
    using k by (simp add: emitted_stack [OF st])
  then show ?thesis using that [of bs ks] 1 bs
    by (simp add: add_code_def chunk_update_def put_defs func_ctx_new_def chunk_new_def)
qed

text \<open>Evaluating the compiler on a concrete program.\<close>

lemmas compile_run = thenC_def bindC_def retC_def current_def current_mut_def chunk_update_def put_defs
  emit_op_def emit_u8_def emit_index_def emit_const_def op_const_def op_index_def write_u8_def func_ctx_new_def chunk_new_def
  compiler_new_def compile_program_with_types_def emit_load_def emit_var_def resolve_local_def resolve_upvalue_def

definition sample_sum :: "'d expr" where
  "sample_sum = EBinOp BAdd (EInt 1 span_dummy) (EIdent (lit ''x'') span_dummy) span_dummy"

lemma sample_sum_code:
  "\<exists>k. compile_program_with_types X \<lparr>pr_stmts = [SExpr sample_sum], pr_span = span_dummy\<rparr> vs ss = Some (k, vs, ss) \<and> length (ch_code k) < 65536"
  by (simp add: sample_sum_def compile_run compile_plain compile_binop_def emit_binop_simple_def op_named_def)

lemma compiled_plain_runs:
  assumes "evals (h_ext H) (map_of (globals s)) e r" and "plain e"
    and "compile_program_with_types (h_ext H) \<lparr>pr_stmts = [SExpr e], pr_span = sp\<rparr> vs ss = Some (k, vs', ss')"
    and "length (ch_code k) < 65536" and "live_actors s = []" and "list_all (direct \<circ> snd) (globals s)"
  shows "\<exists>n0. \<forall>n \<ge> n0. case r of
      Inr v \<Rightarrow> fst (run_chunk H n k s) = VOk v
    | Inl err \<Rightarrow> \<exists>err'. fst (run_chunk H n k s) = VErr err' \<and> erase err' = err"
proof -
  let ?c = "(compiler_new FtScript)\<lparr>variants := vs, structs := ss\<rparr> :: 'a compiler"
  let ?f = "func_ctx_new FtScript (Some (lit ''<script>'')) :: 'a func_ctx"
  let ?fr = "script_frame k"
  obtain bs ks where m: "compile_expr (h_ext H) e ?c = Some ((), emitted bs ks ?c)"
    and code: "ch_code k = bs @ [opcode_byte OpReturn]" and pool: "ch_consts k = ks"
    by (rule compile_single [OF assms(2,3)])
  have st: "func_stack ?c = [?f]" by (simp add: compiler_new_def)
  have empty: "code_of ?f = []" "consts_of ?f = []" "fc_locals ?f = []"
    by (simp_all add: code_of_def consts_of_def func_ctx_new_def chunk_new_def)
  have ld: "loaded ?f bs ks ?fr" using code pool assms(4) by (simp add: loaded_def empty code_at_def)
  have dir: "direct v" if "map_of (globals s) x = Some v" for x v
    using assms(6) map_of_SomeD [OF that] by (force simp: list_all_iff)
  have env: "env_ok (map_of (globals s)) ?f (ctx_new s) ?fr []"
    by (simp add: env_ok_def var_ok_def resolve_local_def empty ctx_new_def dir)
  have out: "outcome_from H (ctx_new s) ?fr [] 0 [] (length bs) [] (single r)"
    using behavesD [OF compile_correct(1) [OF assms(1) refl assms(2) operand_code_refl] st _ m ld env, of "[]"]
    by (simp add: empty)
  show ?thesis
  proof (cases r)
    case (Inr v)
    have "code_at ?fr (length bs) [opcode_byte OpReturn]" by (simp add: code)
    from run_chunk_value [OF _ this assms(5), of H v] show ?thesis using out Inr by (simp add: outcome_from_def)
  next
    case (Inl err)
    then have "ordinary err" using evals_ordinary(1) [OF assms(1)] by simp
    from run_chunk_error [OF _ this] show ?thesis using out Inl by (simp add: outcome_from_def)
  qed
qed

text \<open>
  C1. Compiled code does what the language says: a program that is one plain expression
  (literals, variables, collections, operators with short circuit, conditionals, fields), compiled
  and run by the virtual machine, returns the value of the expression, and raises its error
  if it has one, for every sufficiently large bound of the dispatch loop.
\<close>

theorem compiled_expression_runs:
  assumes "evals (h_ext H) (map_of (globals s)) e r" and "plain e"
    and "compile_program_with_types (h_ext H) \<lparr>pr_stmts = [SExpr e], pr_span = sp\<rparr> vs ss = Some (k, vs', ss')"
    and "length (ch_code k) < 65536" and "live_actors s = []" and "list_all (direct \<circ> snd) (globals s)"
  shows "\<exists>n0. \<forall>n \<ge> n0. case r of
      Inr v \<Rightarrow> fst (run_chunk H n k s) = VOk v
    | Inl err \<Rightarrow> \<exists>err'. fst (run_chunk H n k s) = VErr err' \<and> erase err' = err"
  by (rule compiled_plain_runs [OF assms])

theorem compiled_expression_runs_witness:
  "\<exists>k n0. compile_program_with_types fixed_ext \<lparr>pr_stmts = [SExpr sample_sum], pr_span = span_dummy\<rparr> [] [] = Some (k, [], []) \<and>
     fst (run_chunk sample_host n0 k (sample_state\<lparr>globals := [(lit ''x'', VInt 41)]\<rparr>)) = VOk (VInt 42)"
proof -
  let ?s = "sample_state\<lparr>globals := [(lit ''x'', VInt 41)]\<rparr> :: fixed vm_state"
  obtain k where k: "compile_program_with_types fixed_ext \<lparr>pr_stmts = [SExpr sample_sum], pr_span = span_dummy\<rparr> [] [] = Some (k, [], [])"
    and len: "length (ch_code k) < 65536" using sample_sum_code by blast
  have ext: "h_ext sample_host = fixed_ext" by (simp add: sample_host_def)
  have p: "plain (sample_sum :: fixed expr)" unfolding sample_sum_def by (intro plain.intros)
  have "evals fixed_ext (map_of (globals ?s)) sample_sum (erased (apply_bin fixed_ext BAdd (VInt 1) (VInt 41)))"
    unfolding sample_sum_def by (rule ev_bin) (auto intro: evals_evals_all.intros simp: strict_op_def)
  then have e: "evals (h_ext sample_host) (map_of (globals ?s)) sample_sum (Ok (VInt 42))"
    by (simp add: ext apply_bin_def op_add_def erased_def)
  have "list_all (direct \<circ> snd) (globals ?s)" "live_actors ?s = []"
    by (simp_all add: sample_state_def direct_def)
  from compiled_expression_runs [OF e p k [folded ext] len this(2) this(1)]
  show ?thesis using k by auto
qed

end
