(* ===== verification/Compiler_Findings.thy ===== *)
theory Compiler_Findings
  imports Compiler_Spec
begin

text \<open>
  Programs that leave the expressions of \<open>Eval_Spec\<close>, compiled and run: a binding inside an
  operand, two equal decimals in one chunk, and an exception that crosses a builtin.
\<close>

section \<open>Bindings inside an operand\<close>

text \<open>The program \<open>1 + { let y = 2; y }\<close>.\<close>

definition leaky :: "'d program" where
  "leaky = \<lparr>pr_stmts = [SExpr (EBinOp BAdd (EInt 1 span_dummy)
      (EBlock [SLet (lit ''y'') None (EInt 2 span_dummy) span_dummy] (Some (EIdent (lit ''y'') span_dummy)) span_dummy) span_dummy)],
     pr_span = span_dummy\<rparr>"

lemma compile_block_simp:
  "compile_expr X (EBlock stmts result sp) = compile_block (map (compile_stmt X) stmts) (map_option (compile_expr X) result)"
  by (simp add: compile_expr.simps)

lemma compile_let:
  "compile_stmt X (SLet name t v sp) = thenC (compile_expr X v) (define_binding X name)"
  by (simp add: compile_stmt.simps)

definition leaky_code :: "u8 list" where
  "leaky_code = [opcode_byte OpConst, 0, opcode_byte OpConst, 1, opcode_byte OpStoreLocal, 0, opcode_byte OpLoadLocal, 0,
     opcode_byte OpPopLocalKeep, 1, opcode_byte OpAdd, opcode_byte OpReturn]"

lemma leaky_compiles:
  "\<exists>k. compile_program_with_types X leaky vs ss = Some (k, vs, ss) \<and> ch_code k = leaky_code \<and> ch_consts k = [VInt 1, VInt 2]"
  by (simp add: leaky_def leaky_code_def compile_run compile_plain compile_block_simp compile_let compile_binop_def emit_binop_simple_def
     compile_block_def begin_scope_def end_scope_def define_binding_def at_script_top_def store_new_local_def declare_local_def or_nil_code_def)

text \<open>
  C34. A \<open>let\<close> inside an operand breaks the operator: the compiler numbers the new local by the
  locals alone, so that \<open>1 + { let y = 2; y }\<close> stores \<open>y\<close> over the pending \<open>1\<close> and the addition
  finds one operand; the virtual machine panics in every run of more than six turns.
\<close>

theorem let_in_operand_panics:
  "\<exists>k. compile_program_with_types (h_ext H) leaky vs ss = Some (k, vs, ss) \<and> (\<forall>n. fst (run_chunk H (n + 7) k s) = VPanic)"
proof -
  obtain k where k: "compile_program_with_types (h_ext H) leaky vs ss = Some (k, vs, ss)"
    and c: "ch_code k = leaky_code" "ch_consts k = [VInt 1, VInt 2]"
    using leaky_compiles by blast
  have step: "\<exists>s'. dispatch H (n + 7) ScriptLoop 0 (push_frame (closure_vm_new k []) None [] (ctx_new s)) = (VPanic, s')" for n
    by (simp add: eval_nat_numeral push_frame_def advance_ip_def vm_simps frame_code_def closure_vm_new_def c
        leaky_code_def set_top_def push_val_def pop_val_def ctx_new_def bindV_def set_local_def modV_def Let_def
        load_local_def local_val_def getV_def resolve_lazy_local_def read_shared_def pop_local_keep_def
        close_upvalues_above_def truncate_stack_def binop_def thenV_def del: opcode_byte.simps)
  have "fst (run_chunk H (n + 7) k s) = VPanic" for n
    using step [of n] by (auto simp: run_chunk_def bindV_def)
  then show ?thesis using k by blast
qed

section \<open>Equal decimals in one chunk\<close>

definition two_decimals :: "'d \<Rightarrow> 'd \<Rightarrow> 'd program" where
  "two_decimals a b =
     \<lparr>pr_stmts = [SExpr (EVecLit [EDecimal a span_dummy, EDecimal b span_dummy] span_dummy)], pr_span = span_dummy\<rparr>"

lemma compile_decimal: "compile_expr X (EDecimal d sp) = op_const X OpConst (VDecimal d)"
  by (simp add: compile_expr.simps)

lemma two_decimals_compile:
  "\<exists>k. compile_program_with_types X (two_decimals a b) vs ss = Some (k, vs, ss)
     \<and> ch_code k = [opcode_byte OpConst, 0, opcode_byte OpConst, if dec_eq X a b then 0 else 1, opcode_byte OpNewVec, 2, opcode_byte OpReturn]
     \<and> ch_consts k = (if dec_eq X a b then [VDecimal a] else [VDecimal a, VDecimal b])"
  by (auto simp: two_decimals_def compile_run compile_plain compile_decimal compile_items_def)

text \<open>
  The constant pool merges constants that are equal as values: of two decimals that compare
  equal but are written differently (\<open>1.0\<close> and \<open>1.00\<close>), the vector \<open>[a, b]\<close> holds the first one twice.
\<close>

theorem equal_decimals_merge:
  "\<exists>k. compile_program_with_types (h_ext H) (two_decimals a b) vs ss = Some (k, vs, ss)
     \<and> (\<exists>s'. dispatch H (n + 5) ScriptLoop 0 (push_frame (closure_vm_new k []) None [] (ctx_new s)) = (VOk VNil, s')
          \<and> stack s' = [VVec [VDecimal a, VDecimal (if dec_eq (h_ext H) a b then a else b)]])"
proof -
  obtain k where k: "compile_program_with_types (h_ext H) (two_decimals a b) vs ss = Some (k, vs, ss)"
    and c: "ch_code k = [opcode_byte OpConst, 0, opcode_byte OpConst, if dec_eq (h_ext H) a b then 0 else 1,
        opcode_byte OpNewVec, 2, opcode_byte OpReturn]"
      "ch_consts k = (if dec_eq (h_ext H) a b then [VDecimal a] else [VDecimal a, VDecimal b])"
    using two_decimals_compile [of "h_ext H" a b vs ss] by blast
  have five: "n + 5 = Suc (Suc (Suc (Suc (Suc n))))" by simp
  show ?thesis unfolding five using k
    by (cases "dec_eq (h_ext H) a b") (simp_all add: c push_frame_def advance_ip_def vm_simps frame_code_def
        closure_vm_new_def set_top_def push_val_def pop_val_def ctx_new_def bindV_def modV_def getV_def retV_def thenV_def
        Let_def split_off_def return_from_frame_def close_upvalues_above_def drop_inner_handlers_def truncate_stack_def
        del: opcode_byte.simps)
qed

section \<open>Exceptions across a builtin\<close>

text \<open>A function of one parameter that raises the value \<open>v\<close>.\<close>

definition raiser :: "'d rt_value \<Rightarrow> 'd closure_vm" where
  "raiser v = (closure_vm_new (sample_code [opcode_byte OpConst, 0, opcode_byte OpRaise] [v]) [])\<lparr>cl_arity := 1\<rparr>"

lemma raiser_simps [simp]:
  "ch_code (cl_chunk (raiser v)) = [opcode_byte OpConst, 0, opcode_byte OpRaise]" "ch_consts (cl_chunk (raiser v)) = [v]"
  "cl_arity (raiser v) = 1" "cl_actor_env (raiser v) = None"
  by (simp_all add: raiser_def closure_vm_new_def sample_code_def)

lemma upvalues_ok_frames: "upvalues_ok s \<Longrightarrow> stack t = stack s @ xs \<Longrightarrow> upvals t = upvals s \<Longrightarrow> open_upvalues t = open_upvalues s \<Longrightarrow> upvalues_ok t"
  by (force simp: upvalues_ok_def)

lemma callback_caught_outside:
  assumes "frames s = f # fs" and "exception_handlers s = h # hs" and "eh_frame h = length (frames s)" and "eh_rescue h = Some pc"
    and "list_all (\<lambda>g. eh_frame g \<le> length (frames s)) hs"
    and "closures s ! c = raiser v" and "upvalues_ok s" and "eh_stack h \<le> length (stack s)"
  shows "\<exists>s'. call_sync (dispatch H (n + 3)) c [x] s = (VOk v, s') \<and> frames s' = f\<lparr>fr_ip := pc\<rparr> # fs \<and> exception_handlers s' = hs
     \<and> stack s' = take (eh_stack h) (stack s) \<and> pending_exception s' = Some v"
proof -
  let ?d = "length (frames s)"
  let ?s0 = "push_frame (raiser v) None [x] s"
  let ?fr = "\<lambda>ip. \<lparr>fr_closure = raiser v, fr_ip = ip, fr_base = length (stack s), fr_actor_env = None\<rparr>"
  define s2 where "s2 = s\<lparr>stack := stack s @ [x], frames := ?fr 3 # frames s\<rparr>"
  let ?sp = "Some (frame_span (?fr 3))"
  have s2: "frames s2 = ?fr 3 # frames s" "stack s2 = stack s @ [x]" "exception_handlers s2 = exception_handlers s"
      "upvals s2 = upvals s" "open_upvalues s2 = open_upvalues s" "loop_handlers s2 = loop_handlers s"
    by (simp_all add: s2_def)
  have 1: "step H R ?s0 = (VOk (), s\<lparr>stack := stack s @ [x, v], frames := ?fr 2 # frames s\<rparr>)" for R
    by (simp add: push_frame_def vm_simps frame_code_def set_top_def push_val_def advance_ip_def bindV_def
        numeral_2_eq_2 del: opcode_byte.simps)
  have 2: "step H R (s\<lparr>stack := stack s @ [x, v], frames := ?fr 2 # frames s\<rparr>) = (VErr (UserException v ?sp), s2)" for R
    by (simp add: s2_def vm_simps frame_code_def set_top_def pop_val_def advance_ip_def bindV_def butlast_append
        numeral_3_eq_3 del: opcode_byte.simps)
  have "dispatch H (n + 3) ClosureLoop ?d ?s0 = dispatch H (Suc (Suc n)) ClosureLoop ?d
      (s\<lparr>stack := stack s @ [x, v], frames := ?fr 2 # frames s\<rparr>)"
    using dispatch_ok [OF _ 1, of ?d "Suc (Suc n)"] by (simp only: numeral_3_eq_3 add_Suc_right add_0_right) (simp add: push_frame_def del: dispatch.simps)
  then have run: "dispatch H (n + 3) ClosureLoop ?d ?s0 =
      bindV (unwind_exception v ?sp ?d) (\<lambda>out. case out of
             SigContinue \<Rightarrow> dispatch H (Suc n) ClosureLoop ?d
           | SigDone v \<Rightarrow> retV v) s2"
    by (simp only: dispatch.simps 2) simp
  have "upvalues_ok s2" by (rule upvalues_ok_frames [OF assms(7) s2(2,4,5)])
  moreover have "list_all (\<lambda>g. eh_frame g \<le> ?d) (exception_handlers s2)" using assms(2,3,5) s2(3) by simp
  ultimately obtain s3 where u: "unwind_exception v ?sp ?d s2 = unwind_exception v ?sp ?d s3"
    and s3: "frames s3 = frames s" "stack s3 = stack s" "exception_handlers s3 = h # hs" "loop_handlers s3 = loop_handlers s"
    using unwind_to [of s2 ?d ?d v ?sp] s2 assms(2) by auto
  have "unwind_exception v ?sp ?d s3 = (VOk SigContinue, set_top (f\<lparr>fr_ip := pc\<rparr>) (enter_handler h hs v s3))"
    using assms(1,3,4) s3 by (subst unwind_exception.simps) (simp add: handlers_from_def jump_to_run)
  with u run obtain s4 where "dispatch H (n + 3) ClosureLoop ?d ?s0 = (VOk v, s4)"
    and "frames s4 = f\<lparr>fr_ip := pc\<rparr> # fs" "exception_handlers s4 = hs" "stack s4 = take (eh_stack h) (stack s)" "pending_exception s4 = Some v"
      "loop_handlers s4 = loop_handlers s"
    using assms(1) s3 by (simp add: bindV_def pop_or_nil_def pop_val_def set_top_def)
  then show ?thesis using assms(1,6,8)
    by (simp add: call_sync_def check_arity_def vm_simps nested_def afterV_def restore_def keep_loops_def truncate_stack_def thenV_def)
qed

text \<open>
  An exception in a callback is lost to the \<open>rescue\<close> around the builtin: the nested dispatch
  loop of \<open>map\<close> enters the handler of its caller, takes the raised value off the stack and returns it as the
  result of the callback; \<open>map\<close> succeeds with it, and the rescue code runs on the vector.
\<close>

theorem exception_in_callback_becomes_result:
  assumes "frames s = f # fs" and "exception_handlers s = h # hs" and "eh_frame h = length (frames s)" and "eh_rescue h = Some pc"
    and "list_all (\<lambda>g. eh_frame g \<le> length (frames s)) hs"
    and "closures s ! c = raiser v" and "upvalues_ok s" and "eh_stack h \<le> length (stack s)"
  shows "\<exists>s'. ho_map X (dispatch H (n + 3)) sp [VVec [x], VClosure c] s = (VOk (), s')
     \<and> frames s' = f\<lparr>fr_ip := pc\<rparr> # fs \<and> exception_handlers s' = hs
     \<and> stack s' = take (eh_stack h) (stack s) @ [VVec [v]]"
proof -
  obtain s' where "call_sync (dispatch H (n + 3)) c [x] s = (VOk v, s')"
    and "frames s' = f\<lparr>fr_ip := pc\<rparr> # fs" "exception_handlers s' = hs" "stack s' = take (eh_stack h) (stack s)"
    using callback_caught_outside [OF assms] by blast
  then show ?thesis
    by (simp add: ho_map_def over_items_def two_args_def bindV_def liftV_def retV_def push_val_def modV_def)
qed

theorem exception_in_callback_becomes_result_witness:
  "\<exists>s'. ho_map fixed_ext (dispatch sample_host 3) span_dummy [VVec [VInt 1], VClosure 0]
       ((sample_state :: fixed vm_state)\<lparr>frames := [sample_frame 0], closures := [raiser (VInt 7)],
          exception_handlers := [\<lparr>eh_rescue = Some 9, eh_ensure = None, eh_stack = 0, eh_frame = 1\<rparr>]\<rparr>) = (VOk (), s')
     \<and> stack s' = [VVec [VInt 7]]"
  using exception_in_callback_becomes_result [of "(sample_state :: fixed vm_state)\<lparr>frames := [sample_frame 0],
       closures := [raiser (VInt 7)],
       exception_handlers := [\<lparr>eh_rescue = Some 9, eh_ensure = None, eh_stack = 0, eh_frame = 1\<rparr>]\<rparr>"
     "sample_frame 0" "[]" "\<lparr>eh_rescue = Some 9, eh_ensure = None, eh_stack = 0, eh_frame = 1\<rparr>" "[]" 9 0 "VInt 7"
     fixed_ext sample_host 0 span_dummy "VInt 1"]
  by (auto simp: sample_state_def upvalues_ok_def open_sorted_def)

end
