(* ===== verification/Tw_State.thy ===== *)
theory Tw_State
  imports Vm_Txn Env Ast
begin

text \<open>
  The state of the tree-walking interpreter (\<open>Interpreter\<close> in \<open>src/interpreter/mod.rs\<close>), the
  computations on it, and what they share: scopes, shared cells and transactions, printing.

  Everything behind an \<open>Rc\<close> lives in a store and is referred to by its index: environments,
  closures, cells, actor instances and modules. The transaction stack has the innermost
  context first; the other maps are entry lists. A \<open>RefCell\<close> panics when it is borrowed mutably while another borrow
  is outstanding: \<open>it_held\<close> has the scopes that are borrowed during an evaluation. \<open>it_host\<close> stands for what the
  operating system keeps for the process, as the working directory and the files; native functions change it.
\<close>

section \<open>State\<close>

record 'd tw_closure =
  tc_params :: "param list"
  tc_body :: "'d expr"
  tc_env :: env_ref
  tc_name :: "str option"

text \<open>The side of an \<open>ActorInstance\<close> that the tree-walker uses.\<close>

record 'd tw_actor =
  ta_pid :: nat
  ta_env :: env_ref
  ta_handlers :: "(str \<times> 'd expr func_def) list"
  ta_mailbox :: "'d envelope list"

record 'd interp =
  it_envs :: "'d env_store"
  it_global :: env_ref
  it_funcs :: "'d tw_closure list"
  it_cells :: "'d shared_cell list"
  it_txns :: "'d transaction list"
  it_variants :: "(str \<times> str \<times> nat) list"
  it_structs :: "(str \<times> str list) list"
  it_actor_defs :: "(str \<times> 'd stmt actor_def) list"
  it_actors :: "'d tw_actor list"
  it_live :: "nat list"
  it_pids :: "(nat \<times> nat) list"
  it_next_pid :: nat
  it_modules :: "'d module_data list"
  it_std :: "(str \<times> nat) list"
  it_cache :: "(str \<times> nat) list"
  it_loading :: "str list"
  it_held :: "env_ref list"
  it_host :: nat

section \<open>Computations\<close>

text \<open>
  The outcomes are those of the virtual machine: a value, an error or control signal, a panic,
  and \<open>VFuel\<close> for a walk cut off by its bound (or one up a chain of scopes without end).
\<close>

type_synonym ('d, 'a) im = "'d interp \<Rightarrow> ('d, 'a) vres \<times> 'd interp"

definition retI :: "'a \<Rightarrow> ('d, 'a) im" where
  "retI a = (\<lambda>s. (VOk a, s))"

definition failI :: "'d interp_error \<Rightarrow> ('d, 'a) im" where
  "failI e = (\<lambda>s. (VErr e, s))"

definition stopI :: "('d, 'a) vres \<Rightarrow> ('d, 'a) im" where
  "stopI r = (\<lambda>s. (r, s))"

definition bindI :: "('d, 'a) im \<Rightarrow> ('a \<Rightarrow> ('d, 'b) im) \<Rightarrow> ('d, 'b) im" where
  "bindI m f = (\<lambda>s. case m s of
       (VOk a, s') \<Rightarrow> f a s' | (VErr e, s') \<Rightarrow> (VErr e, s') | (VPanic, s') \<Rightarrow> (VPanic, s')
     | (VFuel, s') \<Rightarrow> (VFuel, s'))"

text \<open>A \<open>match\<close> on the result of a computation, in which errors do not propagate by themselves.\<close>

definition catchI :: "('d, 'a) im \<Rightarrow> ('a \<Rightarrow> ('d, 'b) im) \<Rightarrow> ('d interp_error \<Rightarrow> ('d, 'b) im) \<Rightarrow> ('d, 'b) im" where
  "catchI m f h = (\<lambda>s. case m s of
       (VOk a, s') \<Rightarrow> f a s' | (VErr e, s') \<Rightarrow> h e s' | (VPanic, s') \<Rightarrow> (VPanic, s')
     | (VFuel, s') \<Rightarrow> (VFuel, s'))"

definition thenI :: "('d, 'a) im \<Rightarrow> ('d, 'b) im \<Rightarrow> ('d, 'b) im" where
  "thenI m n = bindI m (\<lambda>_. n)"

definition getI :: "('d interp \<Rightarrow> 'a) \<Rightarrow> ('d, 'a) im" where
  "getI f = (\<lambda>s. (VOk (f s), s))"

definition modI :: "('d interp \<Rightarrow> 'd interp) \<Rightarrow> ('d, unit) im" where
  "modI f = (\<lambda>s. (VOk (), f s))"

definition liftI :: "('d, 'a) outcome \<Rightarrow> ('d, 'a) im" where
  "liftI r = (case r of Inl e \<Rightarrow> failI e | Inr a \<Rightarrow> retI a)"

text \<open>\<open>map_err(|e| e.with_span(span))\<close>.\<close>

definition spannedI :: "span \<Rightarrow> ('d, 'a) im \<Rightarrow> ('d, 'a) im" where
  "spannedI sp m = catchI m retI (\<lambda>e. failI (with_span sp e))"

fun mapI :: "('b \<Rightarrow> ('d, 'a) im) \<Rightarrow> 'b list \<Rightarrow> ('d, 'a list) im" where
  "mapI f [] = retI []"
| "mapI f (x # xs) = bindI (f x) (\<lambda>v. bindI (mapI f xs) (\<lambda>vs. retI (v # vs)))"

definition eachI :: "('b \<Rightarrow> ('d, 'a) im) \<Rightarrow> 'b list \<Rightarrow> ('d, unit) im" where
  "eachI f xs = bindI (mapI f xs) (\<lambda>_. retI ())"

lemmas im_monad = retI_def failI_def stopI_def bindI_def catchI_def thenI_def getI_def modI_def liftI_def

named_theorems im_simps

lemma runI_simps [im_simps]:
  "retI a s = (VOk a, s)" "failI e s = (VErr e, s)" "stopI t s = (t, s)"
  "getI g s = (VOk (g s), s)" "modI h s = (VOk (), h s)"
  "liftI (Ok a) = retI a" "liftI (Err e) = failI e"
  "bindI (retI a) f = f a" "bindI (failI e) f = failI e"
  "catchI (retI a) f k = f a" "catchI (failI e) f k = k e"
  by (simp_all add: im_monad)

lemma bindI_run [im_simps]:
  "m s = (VOk a, s') \<Longrightarrow> bindI m f s = f a s'"
  "m s = (VErr e, s') \<Longrightarrow> bindI m f s = (VErr e, s')"
  "m s = (VPanic, s') \<Longrightarrow> bindI m f s = (VPanic, s')"
  "m s = (VFuel, s') \<Longrightarrow> bindI m f s = (VFuel, s')"
  by (simp_all add: bindI_def)

lemma catchI_run [im_simps]:
  "m s = (VOk a, s') \<Longrightarrow> catchI m f h s = f a s'"
  "m s = (VErr e, s') \<Longrightarrow> catchI m f h s = h e s'"
  "m s = (VPanic, s') \<Longrightarrow> catchI m f h s = (VPanic, s')"
  "m s = (VFuel, s') \<Longrightarrow> catchI m f h s = (VFuel, s')"
  by (simp_all add: catchI_def)

section \<open>The host\<close>

text \<open>
  What lies outside: the native functions by name (functions of their arguments and of what they
  can read behind them, to a result and a state of the operating system), the files of modules (with their printed form;
  what a path resolves to and what a file contains depends on the operating system), the parser, the asynchronous drain
  and the await loop of the scheduler, and the kinds of native resources.
\<close>

record 'd tw_host =
  th_ext :: "'d ext"
  th_native :: "str \<Rightarrow> 'd rt_value list \<Rightarrow> 'd interp \<Rightarrow> ('d, 'd rt_value) outcome \<times> nat"
  th_file :: "str \<Rightarrow> str"
  th_shown :: "str \<Rightarrow> str"
  th_canonical :: "nat \<Rightarrow> str \<Rightarrow> str option"
  th_read :: "nat \<Rightarrow> str \<Rightarrow> (str, str) result"
  th_parse :: "str \<Rightarrow> (str \<times> span, 'd program) result"
  th_drain_async :: "('d, unit) im"
  th_await :: "nat \<Rightarrow> ('d, 'd rt_value) im"
  th_resource :: "nat \<Rightarrow> native_resource"

text \<open>
  The evaluator as its parts see it: an expression in a scope, a statement in a scope (which gives
  \<open>nil\<close>), the call of a function.
\<close>

datatype (plugins only:) 'd job =
    JExpr env_ref "'d expr"
  | JStmt env_ref "'d stmt"
  | JCall "'d rt_value" "'d rt_value list" span

type_synonym 'd walker = "'d job \<Rightarrow> ('d, 'd rt_value) im"

definition eval_e :: "'d walker \<Rightarrow> env_ref \<Rightarrow> 'd expr \<Rightarrow> ('d, 'd rt_value) im" where
  "eval_e R env e = R (JExpr env e)"

definition exec_s :: "'d walker \<Rightarrow> env_ref \<Rightarrow> 'd stmt \<Rightarrow> ('d, 'd rt_value) im" where
  "exec_s R env s = R (JStmt env s)"

definition call_f :: "'d walker \<Rightarrow> span \<Rightarrow> 'd rt_value \<Rightarrow> 'd rt_value list \<Rightarrow> ('d, 'd rt_value) im" where
  "call_f R sp f args = R (JCall f args sp)"

section \<open>Scopes\<close>

definition lookupI :: "str \<Rightarrow> env_ref \<Rightarrow> ('d, 'd rt_value option) im" where
  "lookupI x env = (\<lambda>s. case env_get x env (it_envs s) of Some r \<Rightarrow> (VOk r, s) | None \<Rightarrow> (VFuel, s))"

text \<open>\<open>env.borrow_mut().define(..)\<close>.\<close>

definition defineI :: "str \<Rightarrow> 'd rt_value \<Rightarrow> env_ref \<Rightarrow> ('d, unit) im" where
  "defineI x v env = (\<lambda>s. if env \<in> set (it_held s) then (VPanic, s)
     else (VOk (), s\<lparr>it_envs := env_define x v env (it_envs s)\<rparr>))"

definition child_scope :: "env_ref \<Rightarrow> ('d, env_ref) im" where
  "child_scope env = (\<lambda>s. case env_child env (it_envs s) of (r, st) \<Rightarrow> (VOk r, s\<lparr>it_envs := st\<rparr>))"

text \<open>\<open>env.borrow_mut().assign(..)\<close> borrows every scope on the way to the one that binds the name.\<close>

partial_function (option) assign_panics :: "env_ref list \<Rightarrow> str \<Rightarrow> env_ref \<Rightarrow> 'd env_store \<Rightarrow> bool option" where
  "assign_panics held x r st =
     (if r \<in> set held then Some True
      else if map_of (bindings (st ! r)) x \<noteq> None then Some False
      else (case parent (st ! r) of Some p \<Rightarrow> assign_panics held x p st | None \<Rightarrow> Some False))"

lemma assign_panics_held: "assign_panics held x r st = Some True \<Longrightarrow> held \<noteq> []"
proof -
  note ind = assign_panics.raw_induct [where P = "\<lambda>held x r st y. y \<longrightarrow> held \<noteq> []" and xa = "(((held, x), r), st)", unfolded prod.case]
  have "assign_panics held x r st = Some y \<Longrightarrow> y \<longrightarrow> held \<noteq> []" for y
    by (erule ind [rotated]) (auto split: if_splits option.splits)
  then show "assign_panics held x r st = Some True \<Longrightarrow> held \<noteq> []" by blast
qed

lemma assign_panics_none [simp]: "assign_panics [] x r st \<noteq> Some True"
  using assign_panics_held by blast

definition assignI :: "str \<Rightarrow> 'd rt_value \<Rightarrow> env_ref \<Rightarrow> ('d, bool) im" where
  "assignI x v env = (\<lambda>s. if assign_panics (it_held s) x env (it_envs s) = Some True then (VPanic, s)
     else case env_assign x v env (it_envs s) of
       Some (ok, st) \<Rightarrow> (VOk ok, s\<lparr>it_envs := st\<rparr>) | None \<Rightarrow> (VFuel, s))"

text \<open>A computation during which a scope stays borrowed; the borrow ends with its value or error.\<close>

definition holding :: "env_ref \<Rightarrow> ('d, 'a) im \<Rightarrow> ('d, 'a) im" where
  "holding r m = (\<lambda>s. case m (s\<lparr>it_held := r # it_held s\<rparr>) of
       (VOk a, s') \<Rightarrow> (VOk a, s'\<lparr>it_held := tl (it_held s')\<rparr>)
     | (VErr e, s') \<Rightarrow> (VErr e, s'\<lparr>it_held := tl (it_held s')\<rparr>)
     | (VPanic, s') \<Rightarrow> (VPanic, s') | (VFuel, s') \<Rightarrow> (VFuel, s'))"

definition alloc_func :: "'d tw_closure \<Rightarrow> ('d, 'd rt_value) im" where
  "alloc_func c = (\<lambda>s. (VOk (VFunc (length (it_funcs s))), s\<lparr>it_funcs := it_funcs s @ [c]\<rparr>))"

section \<open>Shared cells\<close>

text \<open>The read of a cell by an identifier, and the write through one.\<close>

definition read_cell :: "nat \<Rightarrow> ('d, 'd rt_value) im" where
  "read_cell a = (\<lambda>s. case stm_read a (it_txns s) (it_cells s) of (v, ts) \<Rightarrow> (VOk v, s\<lparr>it_txns := ts\<rparr>))"

definition put_cell :: "nat \<Rightarrow> 'd rt_value \<Rightarrow> ('d, unit) im" where
  "put_cell a v = modI (\<lambda>s. case stm_write a v (it_txns s) (it_cells s) of
     (ts, cs) \<Rightarrow> s\<lparr>it_txns := ts, it_cells := cs\<rparr>)"

definition alloc_cell :: "'d rt_value \<Rightarrow> ('d, 'd rt_value) im" where
  "alloc_cell v = (\<lambda>s. (VOk (VShared (length (it_cells s))),
     s\<lparr>it_cells := it_cells s @ [\<lparr>sc_value = v, sc_version = 0\<rparr>]\<rparr>))"

text \<open>The committed value behind a shared reference: transactions are not consulted.\<close>

definition deref :: "'d rt_value \<Rightarrow> 'd interp \<Rightarrow> 'd rt_value" where
  "deref v s = (case v of VShared a \<Rightarrow> sc_value (it_cells s ! a) | _ \<Rightarrow> v)"

datatype commit_outcome = CommitDone | CommitConflict

text \<open>\<open>commit_txn\<close> on a context that was popped.\<close>

definition commit_txn :: "'d transaction \<Rightarrow> ('d, commit_outcome) im" where
  "commit_txn t = (\<lambda>s. case it_txns s of
     p # ps \<Rightarrow> (VOk CommitDone, s\<lparr>it_txns := merge_into t p # ps\<rparr>)
   | [] \<Rightarrow> if conflicts t (it_cells s) then (VOk CommitConflict, s)
           else (VOk CommitDone, s\<lparr>it_cells := apply_writes (tx_writes t) (it_cells s)\<rparr>))"

definition push_txn :: "('d, unit) im" where
  "push_txn = modI (\<lambda>s. s\<lparr>it_txns := transaction_new # it_txns s\<rparr>)"

text \<open>\<open>txn_stack.pop().expect(...)\<close> before a commit, and the \<open>pop\<close> that discards.\<close>

definition take_txn :: "('d, 'd transaction) im" where
  "take_txn = (\<lambda>s. case it_txns s of t # ts \<Rightarrow> (VOk t, s\<lparr>it_txns := ts\<rparr>) | [] \<Rightarrow> (VPanic, s))"

definition drop_txn :: "('d, unit) im" where
  "drop_txn = modI (\<lambda>s. s\<lparr>it_txns := tl (it_txns s)\<rparr>)"

section \<open>Printing\<close>

definition heap_of :: "'d tw_host \<Rightarrow> 'd interp \<Rightarrow> heap_view" where
  "heap_of H s = \<lparr>func_name = (\<lambda>a. tc_name (it_funcs s ! a)), closure_name = (\<lambda>_. None),
     cell_version = (\<lambda>a. sc_version (it_cells s ! a)), module_label = (\<lambda>a. md_name (it_modules s ! a)),
     resource_kind = th_resource H\<rparr>"

definition showI :: "'d tw_host \<Rightarrow> 'd rt_value \<Rightarrow> ('d, str) im" where
  "showI H v = getI (\<lambda>s. value_show (th_ext H) (heap_of H s) v)"

end
