(* ===== verification/Tw_Eval.thy ===== *)
theory Tw_Eval
  imports Tw_State Vm_Step
begin

text \<open>
  The evaluator of the tree-walking interpreter (\<open>src/interpreter/mod.rs\<close>): operators, function
  calls and the higher-order builtins, assignment, pattern matching, loops, exceptions,
  transactions, actors, modules, and the walk over expressions and statements.

  Every part takes the evaluator as an argument; the walk at the end gives each level of nesting one
  unit of its bound, and a loop goes round by evaluating itself again.
\<close>

section \<open>Operators\<close>

definition tw_add :: "'d ext \<Rightarrow> 'd rt_value \<Rightarrow> 'd rt_value \<Rightarrow> ('d, 'd rt_value) outcome" where
  "tw_add X l r = (case (l, r) of (VStr a, VStr b) \<Rightarrow> Ok (VStr (a @ b)) | _ \<Rightarrow> op_add X l r)"

definition tw_truth :: "('d, bool) outcome \<Rightarrow> ('d, 'd rt_value) outcome" where
  "tw_truth r = bindE r (\<lambda>b. Ok (VBool b))"

text \<open>The strict operators of \<open>Expr::BinOp\<close>; \<open>and\<close> and \<open>or\<close> are handled before.\<close>

fun tw_binop :: "'d ext \<Rightarrow> bin_op \<Rightarrow> 'd rt_value \<Rightarrow> 'd rt_value \<Rightarrow> ('d, 'd rt_value) outcome" where
  "tw_binop X BAdd l r = tw_add X l r"
| "tw_binop X BSub l r = op_sub X l r"
| "tw_binop X BMul l r = op_mul X l r"
| "tw_binop X BDiv l r = op_div X l r"
| "tw_binop X BMod l r = op_modulo l r"
| "tw_binop X BEq l r = Ok (VBool (value_eq X l r))"
| "tw_binop X BNeq l r = Ok (VBool (\<not> value_eq X l r))"
| "tw_binop X BLt l r = tw_truth (op_lt X l r)"
| "tw_binop X BGt l r = tw_truth (op_gt X l r)"
| "tw_binop X BLte l r = tw_truth (op_lte X l r)"
| "tw_binop X BGte l r = tw_truth (op_gte X l r)"
| "tw_binop X BAnd l r = Ok VNil"
| "tw_binop X BOr l r = Ok VNil"

text \<open>\<open>apply_binop\<close> of a compound assignment.\<close>

definition apply_binop :: "'d ext \<Rightarrow> bin_op \<Rightarrow> 'd rt_value \<Rightarrow> 'd rt_value \<Rightarrow> ('d, 'd rt_value) outcome" where
  "apply_binop X b l r = (case b of
     BAdd \<Rightarrow> tw_add X l r
   | BSub \<Rightarrow> op_sub X l r
   | BMul \<Rightarrow> op_mul X l r
   | BDiv \<Rightarrow> op_div X l r
   | BMod \<Rightarrow> op_modulo l r
   | _ \<Rightarrow> Err (RuntimeError (lit ''unsupported compound-assign operator: '' @ bin_op_as_str b) None))"

definition tw_unary :: "'d ext \<Rightarrow> span \<Rightarrow> unary_op \<Rightarrow> 'd rt_value \<Rightarrow> ('d, 'd rt_value) outcome" where
  "tw_unary X sp u v = (case u of
     UNeg \<Rightarrow> (case v of
         VInt n \<Rightarrow> Ok (VInt (- n))
       | VDecimal d \<Rightarrow> Ok (VDecimal (dec_neg X d))
       | _ \<Rightarrow> Err (TypeError (lit ''number'') (type_name v) (lit ''negate'') (Some sp)))
   | UNot \<Rightarrow> Ok (VBool (\<not> is_truthy X v)))"

text \<open>\<open>iter_to_vec\<close>: what a \<open>for\<close> loop and the higher-order builtins run over.\<close>

definition iter_list :: "'d rt_value \<Rightarrow> ('d, 'd rt_value list) outcome" where
  "iter_list v = (case v of
     VVec xs \<Rightarrow> Ok xs
   | VSet xs \<Rightarrow> Ok xs
   | VMap m \<Rightarrow> Ok (map (\<lambda>p. VVec [fst p, snd p]) m)
   | VStr s \<Rightarrow> Ok (map (\<lambda>c. VStr [c]) s)
   | _ \<Rightarrow> Err (TypeError (lit ''Vec, Set, Map, or Str (iterable)'') (type_name v) (lit ''for..in'') None))"

section \<open>Names\<close>

definition name_error :: "str \<Rightarrow> span \<Rightarrow> 'd interp_error" where
  "name_error x sp = NameError x (Some sp)"

text \<open>An argument: a bare identifier bound to a shared cell is passed by reference.\<close>

definition eval_arg :: "'d walker \<Rightarrow> env_ref \<Rightarrow> 'd expr \<Rightarrow> ('d, 'd rt_value) im" where
  "eval_arg R env a = (case a of
     EIdent x _ \<Rightarrow> bindI (lookupI x env) (\<lambda>r. case r of
         Some (VShared c) \<Rightarrow> retI (VShared c)
       | _ \<Rightarrow> eval_e R env a)
   | _ \<Rightarrow> eval_e R env a)"

text \<open>A message: an unbound name, and every call of a name, stands for a variant.\<close>

definition eval_message :: "'d walker \<Rightarrow> env_ref \<Rightarrow> 'd expr \<Rightarrow> ('d, 'd rt_value) im" where
  "eval_message R env msg = (case msg of
     EIdent x _ \<Rightarrow> bindI (lookupI x env) (\<lambda>r. case r of Some v \<Rightarrow> retI v | None \<Rightarrow> retI (VVariant x []))
   | ECall (EIdent x _) args _ \<Rightarrow> bindI (mapI (eval_e R env) args) (\<lambda>vs. retI (VVariant x vs))
   | _ \<Rightarrow> eval_e R env msg)"

text \<open>The pieces of an interpolated string; a string value is inserted without quotes.\<close>

definition piece :: "'d tw_host \<Rightarrow> 'd rt_value \<Rightarrow> ('d, str) im" where
  "piece H v = (case v of VStr s \<Rightarrow> retI s | _ \<Rightarrow> showI H v)"

fun eval_parts :: "'d tw_host \<Rightarrow> 'd walker \<Rightarrow> env_ref \<Rightarrow> 'd expr ast_str_part list \<Rightarrow> ('d, str) im" where
  "eval_parts H R env [] = retI []"
| "eval_parts H R env (LiteralPart t # ps) = bindI (eval_parts H R env ps) (\<lambda>s. retI (t @ s))"
| "eval_parts H R env (ExprPart e # ps) =
     bindI (eval_e R env e) (\<lambda>v. bindI (piece H v) (\<lambda>t. bindI (eval_parts H R env ps) (\<lambda>s. retI (t @ s))))"

text \<open>
  One entry of a map literal. A value that is a name is looked up in an \<open>if let\<close>, whose borrow of the scope lasts while
  the name is evaluated.
\<close>

definition entry_value :: "'d walker \<Rightarrow> env_ref \<Rightarrow> 'd expr \<Rightarrow> ('d, 'd rt_value) im" where
  "entry_value R env v = (case v of
     EIdent x _ \<Rightarrow> bindI (lookupI x env) (\<lambda>r. case r of
         Some (VShared c) \<Rightarrow> retI (VShared c)
       | _ \<Rightarrow> holding env (eval_e R env v))
   | _ \<Rightarrow> eval_e R env v)"

definition eval_entry :: "'d walker \<Rightarrow> env_ref \<Rightarrow> 'd expr \<times> 'd expr \<Rightarrow> ('d, 'd rt_value \<times> 'd rt_value) im" where
  "eval_entry R env kv = bindI (case fst kv of EIdent x _ \<Rightarrow> retI (VStr x) | k \<Rightarrow> eval_e R env k) (\<lambda>k.
     bindI (entry_value R env (snd kv)) (\<lambda>v. retI (k, v)))"

definition eval_opt :: "'d walker \<Rightarrow> env_ref \<Rightarrow> 'd expr option \<Rightarrow> ('d, 'd rt_value) im" where
  "eval_opt R env e = (case e of Some e \<Rightarrow> eval_e R env e | None \<Rightarrow> retI VNil)"

section \<open>Loops and exceptions\<close>

text \<open>
  One round of a loop: \<open>break\<close> leaves with the given outcome, \<open>continue\<close> goes on like the end of the
  body, every other error propagates.
\<close>

definition loop_round :: "('d, 'd rt_value) im \<Rightarrow> ('d, 'd rt_value) im \<Rightarrow> ('d rt_value option \<Rightarrow> ('d, 'd rt_value) im) \<Rightarrow> ('d, 'd rt_value) im" where
  "loop_round body again leave = catchI body (\<lambda>_. again) (\<lambda>e. case e of
     BreakSignal v _ \<Rightarrow> leave v
   | ContinueSignal _ \<Rightarrow> again
   | _ \<Rightarrow> failI e)"

fun for_items :: "'d walker \<Rightarrow> env_ref \<Rightarrow> str \<Rightarrow> 'd expr \<Rightarrow> 'd rt_value list \<Rightarrow> ('d, 'd rt_value) im" where
  "for_items R env var body [] = retI VNil"
| "for_items R env var body (x # xs) = bindI (child_scope env) (\<lambda>r. thenI (defineI var x r)
     (loop_round (eval_e R r body) (for_items R env var body xs) (\<lambda>_. retI VNil)))"

text \<open>The first clause without a type or with that of the exception.\<close>

definition rescues :: "'d rt_value \<Rightarrow> 'd expr rescue_clause \<Rightarrow> bool" where
  "rescues exc r = (case rc_type r of
     None \<Rightarrow> True
   | Some tn \<Rightarrow> (case exc of VVariant n _ \<Rightarrow> n = tn | VStruct n _ \<Rightarrow> n = tn | _ \<Rightarrow> False))"

definition rescue_body :: "'d walker \<Rightarrow> env_ref \<Rightarrow> 'd rt_value \<Rightarrow> 'd expr rescue_clause \<Rightarrow> ('d, 'd rt_value) im" where
  "rescue_body R env exc r = bindI (child_scope env) (\<lambda>c.
     thenI (case rc_bind r of Some b \<Rightarrow> defineI b exc c | None \<Rightarrow> retI ()) (eval_e R c (rc_body r)))"

definition rescued :: "'d walker \<Rightarrow> env_ref \<Rightarrow> 'd expr rescue_clause list \<Rightarrow> span \<Rightarrow> 'd interp_error \<Rightarrow> ('d, 'd rt_value) im" where
  "rescued R env rs sp e = (case e of
     UserException v _ \<Rightarrow> (case filter (rescues v) rs of
         r # _ \<Rightarrow> rescue_body R env v r
       | [] \<Rightarrow> failI (UserException v (Some sp)))
   | _ \<Rightarrow> failI e)"

text \<open>\<open>ensure\<close> is evaluated after a value and after an error; its own outcome is discarded.\<close>

definition ensured :: "('d, 'd rt_value) im option \<Rightarrow> ('d, 'd rt_value) im \<Rightarrow> ('d, 'd rt_value) im" where
  "ensured ens m = (case ens of
     None \<Rightarrow> m
   | Some c \<Rightarrow>
       let after = (\<lambda>r. catchI c (\<lambda>_. r) (\<lambda>_. r))
       in catchI m (\<lambda>v. after (retI v)) (\<lambda>e. after (failI e)))"

section \<open>Transactions\<close>

definition max_retries :: nat where
  "max_retries = 64"

text \<open>The commit at the end of an attempt: on a conflict the attempt is repeated.\<close>

definition commit_attempt :: "('d, 'a) im \<Rightarrow> ('d, 'a) im \<Rightarrow> ('d, 'a) im" where
  "commit_attempt again m = bindI take_txn (\<lambda>t. bindI (commit_txn t) (\<lambda>out. case out of
     CommitDone \<Rightarrow> m | CommitConflict \<Rightarrow> again))"

text \<open>\<open>eval_transact\<close> with the attempts that are left.\<close>

primrec transact_attempts :: "nat \<Rightarrow> ('d, 'd rt_value) im \<Rightarrow> span \<Rightarrow> ('d, 'd rt_value) im" where
  "transact_attempts 0 body sp =
     failI (RuntimeError (lit ''transaction exceeded '' @ show_nat max_retries @ lit '' retries'') (Some sp))"
| "transact_attempts (Suc n) body sp =
     (let again = transact_attempts n body sp
      in thenI push_txn (catchI body
           (\<lambda>v. commit_attempt again (retI v))
           (\<lambda>e. case e of
              RetrySignal _ \<Rightarrow> thenI drop_txn again
            | ReplySignal _ _ \<Rightarrow> commit_attempt again (failI e)
            | ReturnSignal _ _ \<Rightarrow> commit_attempt again (failI e)
            | _ \<Rightarrow> thenI drop_txn (failI e))))"

section \<open>Assignment\<close>

definition assign_name :: "str \<Rightarrow> span \<Rightarrow> env_ref \<Rightarrow> 'd rt_value \<Rightarrow> ('d, unit) im" where
  "assign_name x sp env v = bindI (lookupI x env) (\<lambda>bound. case bound of
     Some (VShared a) \<Rightarrow> put_cell a v
   | _ \<Rightarrow> bindI (assignI x v env) (\<lambda>ok. if ok then retI () else failI (name_error x sp)))"

text \<open>The collection with the field or the element replaced.\<close>

definition with_field :: "'d ext \<Rightarrow> 'd rt_value \<Rightarrow> str \<Rightarrow> 'd rt_value \<Rightarrow> span \<Rightarrow> ('d, 'd rt_value) outcome" where
  "with_field X obj name v sp = (case obj of
     VStruct n fs \<Rightarrow> Ok (VStruct n (entry_insert (=) name v fs))
   | VMap m \<Rightarrow> Ok (VMap (entry_insert (value_eq X) (VStr name) v m))
   | _ \<Rightarrow> Err (TypeError (lit ''Struct or Map'') (type_name obj) (lit ''field assignment `.'' @ name) (Some sp)))"

definition with_index :: "'d ext \<Rightarrow> 'd rt_value \<Rightarrow> 'd rt_value \<Rightarrow> 'd rt_value \<Rightarrow> span \<Rightarrow> ('d, 'd rt_value) outcome" where
  "with_index X coll idx v sp = (case coll of
     VVec xs \<Rightarrow> (case idx of
         VInt n \<Rightarrow> (case to_usize n of
             Some i \<Rightarrow> if i < length xs then Ok (VVec (xs[i := v]))
                       else Err (IndexError (lit ''index out of bounds: '' @ show_int n) (Some sp))
           | None \<Rightarrow> Err (IndexError (lit ''index out of bounds: '' @ show_int n) (Some sp)))
       | _ \<Rightarrow> Err (TypeError (lit ''Int'') (type_name idx) (lit ''index assignment'') (Some sp)))
   | VMap m \<Rightarrow> Ok (VMap (entry_insert (value_eq X) idx v m))
   | _ \<Rightarrow> Err (TypeError (lit ''Vec or Map'') (type_name coll) (lit ''index assignment'') (Some sp)))"

text \<open>\<open>assign_to\<close>: a field or an element is assigned by assigning the updated collection to its own target.\<close>

function assign_to :: "'d ext \<Rightarrow> 'd walker \<Rightarrow> env_ref \<Rightarrow> 'd expr \<Rightarrow> 'd rt_value \<Rightarrow> ('d, unit) im" where
  "assign_to X R env target v = (case target of
     EIdent x sp \<Rightarrow> assign_name x sp env v
   | EField obj name sp \<Rightarrow> bindI (eval_e R env obj) (\<lambda>ov.
       bindI (liftI (with_field X ov name v sp)) (\<lambda>w. assign_to X R env obj w))
   | EIndex coll i sp \<Rightarrow> bindI (eval_e R env coll) (\<lambda>cv. bindI (eval_e R env i) (\<lambda>iv.
       bindI (liftI (with_index X cv iv v sp)) (\<lambda>w. assign_to X R env coll w)))
   | _ \<Rightarrow> failI (RuntimeError (lit ''invalid assignment target'') (Some (expr_span target))))"
  by pat_completeness auto
termination
  by (relation "measure (\<lambda>(X, R, env, target, v). size target)") auto

declare assign_to.simps [simp del]

end
