(* ===== verification/Tw_Call.thy ===== *)
theory Tw_Call
  imports Tw_Eval
begin

text \<open>
  The tree-walking interpreter, continued (\<open>src/interpreter/mod.rs\<close>): pattern matching, function calls
  and the higher-order builtins, modules, actors.
\<close>

section \<open>Pattern matching\<close>

text \<open>The value of a literal pattern; an interpolated value is printed with its quotes.\<close>

fun lit_parts :: "'d tw_host \<Rightarrow> 'd walker \<Rightarrow> env_ref \<Rightarrow> 'd expr ast_str_part list \<Rightarrow> ('d, str) im" where
  "lit_parts H R env [] = retI []"
| "lit_parts H R env (LiteralPart t # ps) = bindI (lit_parts H R env ps) (\<lambda>s. retI (t @ s))"
| "lit_parts H R env (ExprPart e # ps) =
     bindI (eval_e R env e) (\<lambda>v. bindI (showI H v) (\<lambda>t. bindI (lit_parts H R env ps) (\<lambda>s. retI (t @ s))))"

fun lit_pattern_value :: "'d tw_host \<Rightarrow> 'd walker \<Rightarrow> env_ref \<Rightarrow> ('d, 'd expr) lit_pattern \<Rightarrow> ('d, 'd rt_value) im" where
  "lit_pattern_value H R env (LPInt n) = retI (VInt n)"
| "lit_pattern_value H R env (LPDecimal d) = retI (VDecimal d)"
| "lit_pattern_value H R env (LPBool b) = retI (VBool b)"
| "lit_pattern_value H R env LPNil = retI VNil"
| "lit_pattern_value H R env (LPStr ps) = bindI (lit_parts H R env ps) (\<lambda>s. retI (VStr s))"

text \<open>A pattern as a computation that binds in a scope and says whether it matched.\<close>

type_synonym 'd pat_match = "'d rt_value \<Rightarrow> env_ref \<Rightarrow> ('d, bool) im"

fun pat_all :: "'d pat_match list \<Rightarrow> 'd rt_value list \<Rightarrow> env_ref \<Rightarrow> ('d, bool) im" where
  "pat_all (m # ms) (v # vs) env = bindI (m v env) (\<lambda>ok. if ok then pat_all ms vs env else retI False)"
| "pat_all _ _ env = retI True"

fun pat_fields :: "(str \<times> 'd pat_match) list \<Rightarrow> (str \<times> 'd rt_value) list \<Rightarrow> env_ref \<Rightarrow> ('d, bool) im" where
  "pat_fields [] vf env = retI True"
| "pat_fields (q # qs) vf env = (case map_of vf (fst q) of
     Some v \<Rightarrow> bindI (snd q v env) (\<lambda>ok. if ok then pat_fields qs vf env else retI False)
   | None \<Rightarrow> retI False)"

text \<open>An alternative binds in a scope of its own; the bindings of the one that matches are copied.\<close>

definition copy_bindings :: "env_ref \<Rightarrow> env_ref \<Rightarrow> ('d, unit) im" where
  "copy_bindings sub env = bindI (getI (\<lambda>s. bindings_clone sub (it_envs s)))
     (eachI (\<lambda>(k, v). defineI k v env))"

fun pat_or :: "'d pat_match list \<Rightarrow> 'd pat_match" where
  "pat_or [] v env = retI False"
| "pat_or (m # ms) v env = bindI (child_scope env) (\<lambda>sub. bindI (m v sub) (\<lambda>ok.
     if ok then thenI (copy_bindings sub env) (retI True) else pat_or ms v env))"

primrec match_pattern :: "'d tw_host \<Rightarrow> 'd walker \<Rightarrow> ('d, 'd expr) pattern \<Rightarrow> 'd pat_match" where
  "match_pattern H R (PWildcard sp) = (\<lambda>v env. retI True)"
| "match_pattern H R (PLit l sp) = (\<lambda>v env.
     bindI (lit_pattern_value H R env l) (\<lambda>w. retI (value_eq (th_ext H) w v)))"
| "match_pattern H R (PBind x sp) = (\<lambda>v env. thenI (defineI x v env) (retI True))"
| "match_pattern H R (PVariant n ps sp) = (\<lambda>v env. case v of
      VVariant n' vs \<Rightarrow>
        if n' \<noteq> n \<or> length ps \<noteq> length vs then retI False else pat_all (map (match_pattern H R) ps) vs env
    | _ \<Rightarrow> retI False)"
| "match_pattern H R (PStruct fs rest sp) = (\<lambda>v env. case v of
      VStruct n vf \<Rightarrow> pat_fields (map (map_prod id (match_pattern H R)) fs) vf env
    | _ \<Rightarrow> retI False)"
| "match_pattern H R (PVec ps rest sp) = (\<lambda>v env. case v of
      VVec vs \<Rightarrow>
        if (if rest then length vs < length ps else length vs \<noteq> length ps) then retI False
        else pat_all (map (match_pattern H R) ps) vs env
    | _ \<Rightarrow> retI False)"
| "match_pattern H R (POr ps sp) = pat_or (map (match_pattern H R) ps)"
| "match_pattern H R (PGuard p g sp) = (\<lambda>v env. bindI (match_pattern H R p v env) (\<lambda>ok.
     if ok then bindI (eval_e R env g) (\<lambda>b. retI (is_truthy (th_ext H) b)) else retI False))"

text \<open>The arms of a \<open>match\<close>, each in a scope of its own.\<close>

definition arm_guarded :: "'d tw_host \<Rightarrow> 'd walker \<Rightarrow> env_ref \<Rightarrow> 'd expr option \<Rightarrow> ('d, bool) im" where
  "arm_guarded H R env g = (case g of
     Some e \<Rightarrow> bindI (eval_e R env e) (\<lambda>b. retI (is_truthy (th_ext H) b)) | None \<Rightarrow> retI True)"

fun eval_arms :: "'d tw_host \<Rightarrow> 'd walker \<Rightarrow> env_ref \<Rightarrow> span \<Rightarrow> 'd rt_value \<Rightarrow> ('d, 'd expr) match_arm list \<Rightarrow> ('d, 'd rt_value) im" where
  "eval_arms H R env sp v [] = failI (PatternMatchFail v (Some sp))"
| "eval_arms H R env sp v (a # as) = bindI (child_scope env) (\<lambda>c.
     bindI (match_pattern H R (arm_pattern a) v c) (\<lambda>ok.
       if ok then bindI (arm_guarded H R c (arm_guard a)) (\<lambda>g.
         if g then eval_e R c (arm_body a) else eval_arms H R env sp v as)
       else eval_arms H R env sp v as))"

section \<open>Calls\<close>

definition two_arguments :: "string \<Rightarrow> span \<Rightarrow> 'd rt_value list \<Rightarrow> ('d, 'd rt_value \<times> 'd rt_value) outcome" where
  "two_arguments name sp args =
     (case args of [a, b] \<Rightarrow> Ok (a, b) | _ \<Rightarrow> Err (ArityError 2 (length args) (lit name) (Some sp)))"

definition items_spanned :: "span \<Rightarrow> 'd rt_value \<Rightarrow> ('d, 'd rt_value list) im" where
  "items_spanned sp coll = spannedI sp (liftI (iter_list coll))"

definition over_coll ::
  "string \<Rightarrow> span \<Rightarrow> 'd rt_value list \<Rightarrow> ('d rt_value \<Rightarrow> 'd rt_value list \<Rightarrow> ('d, 'd rt_value) im) \<Rightarrow> ('d, 'd rt_value) im" where
  "over_coll name sp args body = bindI (liftI (two_arguments name sp args)) (\<lambda>(coll, f).
     bindI (items_spanned sp coll) (body f))"

fun foldI :: "('a \<Rightarrow> 'b \<Rightarrow> ('d, 'a) im) \<Rightarrow> 'a \<Rightarrow> 'b list \<Rightarrow> ('d, 'a) im" where
  "foldI f acc [] = retI acc"
| "foldI f acc (x # xs) = bindI (f acc x) (\<lambda>acc'. foldI f acc' xs)"

definition tw_map :: "'d walker \<Rightarrow> span \<Rightarrow> 'd rt_value list \<Rightarrow> ('d, 'd rt_value) im" where
  "tw_map R sp args = over_coll ''map'' sp args (\<lambda>f items.
     bindI (mapI (\<lambda>x. call_f R sp f [x]) items) (\<lambda>out. retI (VVec out)))"

definition tw_filter :: "'d ext \<Rightarrow> 'd walker \<Rightarrow> span \<Rightarrow> 'd rt_value list \<Rightarrow> ('d, 'd rt_value) im" where
  "tw_filter X R sp args = over_coll ''filter'' sp args (\<lambda>f items.
     bindI (mapI (\<lambda>x. bindI (call_f R sp f [x]) (\<lambda>keep. retI (x, is_truthy X keep))) items)
       (\<lambda>rs. retI (VVec (map fst (filter snd rs)))))"

definition tw_fold :: "'d walker \<Rightarrow> span \<Rightarrow> 'd rt_value list \<Rightarrow> ('d, 'd rt_value) im" where
  "tw_fold R sp args = (case args of
     [coll, init, f] \<Rightarrow> bindI (items_spanned sp coll) (foldI (\<lambda>acc x. call_f R sp f [acc, x]) init)
   | _ \<Rightarrow> failI (ArityError 3 (length args) (lit ''fold'') (Some sp)))"

definition tw_reduce :: "'d walker \<Rightarrow> span \<Rightarrow> 'd rt_value list \<Rightarrow> ('d, 'd rt_value) im" where
  "tw_reduce R sp args = over_coll ''reduce'' sp args (\<lambda>f items. case items of
     [] \<Rightarrow> failI (RuntimeError (lit ''reduce of empty collection'') (Some sp))
   | x # xs \<Rightarrow> foldI (\<lambda>acc y. call_f R sp f [acc, y]) x xs)"

fun find_item :: "'d ext \<Rightarrow> ('d rt_value \<Rightarrow> ('d, 'd rt_value) im) \<Rightarrow> 'd rt_value list \<Rightarrow> ('d, 'd rt_value) im" where
  "find_item X f [] = retI VNil"
| "find_item X f (x # xs) = bindI (f x) (\<lambda>r. if is_truthy X r then retI x else find_item X f xs)"

definition tw_find :: "'d ext \<Rightarrow> 'd walker \<Rightarrow> span \<Rightarrow> 'd rt_value list \<Rightarrow> ('d, 'd rt_value) im" where
  "tw_find X R sp args = over_coll ''find'' sp args (\<lambda>f items. find_item X (\<lambda>x. call_f R sp f [x]) items)"

definition tw_each :: "'d walker \<Rightarrow> span \<Rightarrow> 'd rt_value list \<Rightarrow> ('d, 'd rt_value) im" where
  "tw_each R sp args = over_coll ''each'' sp args (\<lambda>f items.
     thenI (eachI (\<lambda>x. call_f R sp f [x]) items) (retI VNil))"

text \<open>The statements of \<open>eval\<close> run in the global scope; the last one gives the result.\<close>

fun eval_last :: "'d walker \<Rightarrow> env_ref \<Rightarrow> 'd stmt list \<Rightarrow> ('d, 'd rt_value) im" where
  "eval_last R g [] = retI VNil"
| "eval_last R g [s] = (case s of
     SExpr e \<Rightarrow> eval_e R g e
   | SSemi e \<Rightarrow> thenI (eval_e R g e) (retI VNil)
   | _ \<Rightarrow> thenI (exec_s R g s) (retI VNil))"
| "eval_last R g (s # s' # ss) = thenI (exec_s R g s) (eval_last R g (s' # ss))"

definition tw_eval_src :: "'d tw_host \<Rightarrow> 'd walker \<Rightarrow> span \<Rightarrow> 'd rt_value list \<Rightarrow> ('d, 'd rt_value) im" where
  "tw_eval_src H R sp args = (case args of
     [] \<Rightarrow> failI (ArityError 1 0 (lit ''eval'') (Some sp))
   | v # _ \<Rightarrow> (case v of
       VStr src \<Rightarrow> (case th_parse H src of
           Err d \<Rightarrow> failI (RuntimeError (lit ''eval parse error: '' @ fst d) (Some sp))
         | Ok p \<Rightarrow> bindI (getI it_global) (\<lambda>g. eval_last R g (pr_stmts p)))
     | _ \<Rightarrow> failI (TypeError (lit ''Str'') (type_name v) (lit ''eval'') (Some sp))))"

text \<open>
  A native function gets the committed value behind a shared reference; \<open>assoc\<close> and \<open>push\<close> keep a
  reference to a cell of the self-hosted virtual machine.
\<close>

definition is_vm_shared_cell :: "'d ext \<Rightarrow> 'd rt_value \<Rightarrow> bool" where
  "is_vm_shared_cell X v = (case v of
     VMap m \<Rightarrow> (case entry_get (value_eq X) (VStr (lit ''__shared_cell__'')) m of
         Some (VBool b) \<Rightarrow> b | _ \<Rightarrow> False)
   | _ \<Rightarrow> False)"

definition native_arg :: "'d ext \<Rightarrow> str \<Rightarrow> 'd interp \<Rightarrow> 'd rt_value \<Rightarrow> 'd rt_value" where
  "native_arg X name s a = (case a of
     VShared c \<Rightarrow> if (name = lit ''assoc'' \<or> name = lit ''push'') \<and> is_vm_shared_cell X (deref a s)
                  then a else deref a s
   | _ \<Rightarrow> a)"

text \<open>The native function proper; it may change the state of the operating system.\<close>

definition tw_call_native :: "'d tw_host \<Rightarrow> str \<Rightarrow> 'd rt_value list \<Rightarrow> ('d, 'd rt_value) im" where
  "tw_call_native H name args = (\<lambda>s. case th_native H name args s of (r, w) \<Rightarrow> liftI r (s\<lparr>it_host := w\<rparr>))"

definition call_builtin_fn :: "'d tw_host \<Rightarrow> 'd walker \<Rightarrow> span \<Rightarrow> str \<Rightarrow> 'd rt_value list \<Rightarrow> ('d, 'd rt_value) im" where
  "call_builtin_fn H R sp name args =
     (let X = th_ext H in
      if name = lit ''map'' then tw_map R sp args
      else if name = lit ''filter'' then tw_filter X R sp args
      else if name = lit ''fold'' then tw_fold R sp args
      else if name = lit ''reduce'' then tw_reduce R sp args
      else if name = lit ''find'' then tw_find X R sp args
      else if name = lit ''each'' then tw_each R sp args
      else if name = lit ''eval'' then tw_eval_src H R sp args
      else spannedI sp (tw_call_native H name args))"

text \<open>\<open>bind_params\<close>: the parameters in a new scope under that of the closure or of the actor.\<close>

definition bind_params :: "env_ref \<Rightarrow> param list \<Rightarrow> 'd rt_value list \<Rightarrow> ('d, env_ref) im" where
  "bind_params env params args = bindI (child_scope env) (\<lambda>c.
     thenI (eachI (\<lambda>(p, a). defineI (pa_name p) a c) (zip params args)) (retI c))"

definition call_closure :: "'d walker \<Rightarrow> span \<Rightarrow> 'd tw_closure \<Rightarrow> 'd rt_value list \<Rightarrow> ('d, 'd rt_value) im" where
  "call_closure R sp c args =
     (if length (tc_params c) \<noteq> length args
      then failI (ArityError (length (tc_params c)) (length args)
             (case tc_name c of Some n \<Rightarrow> n | None \<Rightarrow> lit ''<lambda>'') (Some sp))
      else bindI (bind_params (tc_env c) (tc_params c) args) (\<lambda>env.
        catchI (eval_e R env (tc_body c)) retI (\<lambda>e. case e of ReturnSignal v _ \<Rightarrow> retI v | _ \<Rightarrow> failI e)))"

definition call_function :: "'d tw_host \<Rightarrow> 'd walker \<Rightarrow> span \<Rightarrow> 'd rt_value \<Rightarrow> 'd rt_value list \<Rightarrow> ('d, 'd rt_value) im" where
  "call_function H R sp f args = (case f of
     VFunc a \<Rightarrow> bindI (getI (\<lambda>s. it_funcs s ! a)) (\<lambda>c. call_closure R sp c args)
   | VNative n \<Rightarrow> bindI (getI (\<lambda>s. map (native_arg (th_ext H) n s) args)) (call_builtin_fn H R sp n)
   | _ \<Rightarrow> failI (TypeError (lit ''callable'') (type_name f) (lit ''call'') (Some sp)))"

end
