(* ===== verification/Tw_Walk.thy ===== *)
theory Tw_Walk
  imports Tw_Call Send_Value
begin

text \<open>
  The tree-walking interpreter, completed (\<open>src/interpreter/mod.rs\<close>): modules, actors, the evaluation of
  every expression and statement, and the entry points.
\<close>

section \<open>Modules\<close>

definition alloc_tw_module :: "'d module_data \<Rightarrow> ('d, nat) im" where
  "alloc_tw_module m = (\<lambda>s. (VOk (length (it_modules s)), s\<lparr>it_modules := it_modules s @ [m]\<rparr>))"

text \<open>The bindings of the scope of the module are its exports. An error leaves the file on the load stack.\<close>

definition finish_tw_module :: "str \<Rightarrow> str \<Rightarrow> env_ref \<Rightarrow> ('d, nat) im" where
  "finish_tw_module path file env =
     thenI (modI (\<lambda>s. s\<lparr>it_loading := butlast (it_loading s)\<rparr>))
       (bindI (getI (\<lambda>s. bindings_clone env (it_envs s))) (\<lambda>exports.
        bindI (alloc_tw_module \<lparr>md_name = path, md_source = Some file, md_exports = exports\<rparr>) (\<lambda>m.
        thenI (modI (\<lambda>s. s\<lparr>it_cache := entry_insert (=) file m (it_cache s)\<rparr>)) (retI m))))"

definition run_tw_module :: "'d walker \<Rightarrow> str \<Rightarrow> str \<Rightarrow> 'd program \<Rightarrow> ('d, nat) im" where
  "run_tw_module R path file p = bindI (getI it_global) (\<lambda>g. bindI (child_scope g) (\<lambda>env.
     thenI (modI (\<lambda>s. s\<lparr>it_loading := it_loading s @ [file]\<rparr>))
       (thenI (eachI (exec_s R env) (pr_stmts p)) (finish_tw_module path file env))))"

definition tw_import_error :: "str \<Rightarrow> str \<Rightarrow> span \<Rightarrow> 'd interp_error" where
  "tw_import_error path msg sp = ImportError path msg (Some sp)"

definition tw_load_module :: "'d tw_host \<Rightarrow> 'd walker \<Rightarrow> str \<Rightarrow> span \<Rightarrow> ('d, nat) im" where
  "tw_load_module H R path sp = (\<lambda>s.
     case map_of (it_std s) path of Some m \<Rightarrow> (VOk m, s) | None \<Rightarrow>
     (case th_canonical H (it_host s) (th_file H path) of
        None \<Rightarrow> (VErr (tw_import_error path (lit ''module file not found: '' @ th_shown H (th_file H path)) sp), s)
      | Some file \<Rightarrow>
     (case map_of (it_cache s) file of Some m \<Rightarrow> (VOk m, s) | None \<Rightarrow>
      if file \<in> set (it_loading s)
      then (VErr (tw_import_error path (cycle_message (it_loading s) file) sp), s)
      else case th_read H (it_host s) file of
          Err e \<Rightarrow> (VErr (tw_import_error path (lit ''failed to read module: '' @ e) sp), s)
        | Ok src \<Rightarrow>
      (case th_parse H src of
          Err d \<Rightarrow> (VErr (tw_import_error path (lit ''parse error: '' @ fst d) sp), s)
        | Ok p \<Rightarrow> run_tw_module R path file p s))))"

text \<open>The name an import binds: the alias, or the last segment of the path.\<close>

definition import_name :: "import_def \<Rightarrow> str" where
  "import_name imp = (case im_alias imp of Some a \<Rightarrow> a | None \<Rightarrow> last (split_dots (im_path imp)))"

definition eval_import :: "'d tw_host \<Rightarrow> 'd walker \<Rightarrow> env_ref \<Rightarrow> import_def \<Rightarrow> ('d, unit) im" where
  "eval_import H R env imp =
     (if im_lazy imp then defineI (import_name imp) (VLazyImport (im_path imp)) env
      else bindI (tw_load_module H R (im_path imp) (im_span imp)) (\<lambda>m.
        defineI (import_name imp) (VModule m) env))"

text \<open>An identifier: a lazy import is loaded and bound in the current scope, a shared cell is read.\<close>

definition eval_ident :: "'d tw_host \<Rightarrow> 'd walker \<Rightarrow> env_ref \<Rightarrow> str \<Rightarrow> span \<Rightarrow> ('d, 'd rt_value) im" where
  "eval_ident H R env x sp = bindI (lookupI x env) (\<lambda>r. case r of
     None \<Rightarrow> failI (name_error x sp)
   | Some (VLazyImport p) \<Rightarrow> bindI (tw_load_module H R p sp) (\<lambda>m.
       thenI (defineI x (VModule m) env) (retI (VModule m)))
   | Some (VShared a) \<Rightarrow> read_cell a
   | Some v \<Rightarrow> retI v)"

section \<open>Actors\<close>

definition tw_message_text :: "'d rt_value \<Rightarrow> str" where
  "tw_message_text v = lit ''actor messages must be variants, got '' @ type_name v"

text \<open>\<open>dispatch_request\<close>: a handler that ends without \<open>reply\<close> answers \<open>nil\<close>.\<close>

definition run_on_clause :: "'d walker \<Rightarrow> nat \<Rightarrow> 'd expr func_def \<Rightarrow> 'd rt_value list \<Rightarrow> span \<Rightarrow> ('d, 'd rt_value) im" where
  "run_on_clause R a oc args sp = bindI (getI (\<lambda>s. ta_env (it_actors s ! a))) (\<lambda>aenv.
     bindI (child_scope aenv) (\<lambda>c.
     if length (fd_params oc) \<noteq> length args
     then failI (ArityError (length (fd_params oc)) (length args) (lit ''on '' @ fd_name oc) (Some sp))
     else thenI (eachI (\<lambda>(p, v). defineI (pa_name p) v c) (zip (fd_params oc) args))
       (catchI (eval_e R c (fd_body oc)) (\<lambda>_. retI VNil)
         (\<lambda>e. case e of ReplySignal v _ \<Rightarrow> retI v | _ \<Rightarrow> failI e))))"

definition tw_dispatch :: "'d walker \<Rightarrow> nat \<Rightarrow> 'd rt_value \<Rightarrow> span \<Rightarrow> ('d, 'd rt_value) im" where
  "tw_dispatch R a msg sp = (case msg of
     VVariant n args \<Rightarrow> bindI (getI (\<lambda>s. map_of (ta_handlers (it_actors s ! a)) n)) (\<lambda>h. case h of
         None \<Rightarrow> failI (RuntimeError (no_handler n) (Some sp))
       | Some oc \<Rightarrow> run_on_clause R a oc args sp)
   | _ \<Rightarrow> failI (RuntimeError (tw_message_text msg) (Some sp)))"

text \<open>\<open>spawn\<close>: the members run in the scope of the actor; the values of the arguments are not used.\<close>

definition spawn_member :: "'d walker \<Rightarrow> env_ref \<Rightarrow> 'd stmt \<Rightarrow> ('d, unit) im" where
  "spawn_member R env m = (case m of
     SStateDecl x _ e _ \<Rightarrow> bindI (eval_e R env e) (\<lambda>v. defineI x v env)
   | SFuncDef d \<Rightarrow> bindI (alloc_func \<lparr>tc_params = fd_params d, tc_body = fd_body d, tc_env = env,
         tc_name = Some (fd_name d)\<rparr>) (\<lambda>v. defineI (fd_name d) v env)
   | _ \<Rightarrow> retI ())"

definition on_handlers :: "'d stmt list \<Rightarrow> (str \<times> 'd expr func_def) list" where
  "on_handlers body = entries_of (=)
     (concat (map (\<lambda>m. case m of SOnClause oc \<Rightarrow> [(fd_name oc, oc)] | _ \<Rightarrow> []) body))"

text \<open>The new instance with its pid, registered and added to the live actors.\<close>

definition new_tw_actor :: "env_ref \<Rightarrow> (str \<times> 'd expr func_def) list \<Rightarrow> ('d, nat) im" where
  "new_tw_actor env hs = (\<lambda>s.
     let a = length (it_actors s); pid = it_next_pid s in
     (VOk a, s\<lparr>it_actors := it_actors s @ [\<lparr>ta_pid = pid, ta_env = env, ta_handlers = hs, ta_mailbox = []\<rparr>],
        it_next_pid := pid + 1, it_pids := entry_insert (=) pid a (it_pids s)\<rparr>))"

definition eval_spawn :: "'d walker \<Rightarrow> env_ref \<Rightarrow> str \<Rightarrow> 'd expr list \<Rightarrow> span \<Rightarrow> ('d, 'd rt_value) im" where
  "eval_spawn R env name args sp = bindI (getI (\<lambda>s. map_of (it_actor_defs s) name)) (\<lambda>d. case d of
     None \<Rightarrow> failI (name_error name sp)
   | Some ad \<Rightarrow> bindI (child_scope env) (\<lambda>aenv.
       thenI (eachI (eval_e R env) args)
      (thenI (eachI (spawn_member R aenv) (ad_body ad))
      (bindI (new_tw_actor aenv (on_handlers (ad_body ad))) (\<lambda>a.
       thenI (defineI (lit ''self'') (VActor a) aenv)
         (thenI (modI (\<lambda>s. s\<lparr>it_live := it_live s @ [a]\<rparr>)) (retI (VActor a))))))))"

definition tw_enqueue :: "nat \<Rightarrow> 'd rt_value \<Rightarrow> 'd interp \<Rightarrow> 'd interp" where
  "tw_enqueue a msg s = s\<lparr>it_actors := (it_actors s)[a := (it_actors s ! a)\<lparr>ta_mailbox :=
     ta_mailbox (it_actors s ! a) @ [\<lparr>en_msg = msg, en_reply_slot = None\<rparr>]\<rparr>]\<rparr>"

definition eval_send :: "'d walker \<Rightarrow> env_ref \<Rightarrow> 'd expr \<Rightarrow> 'd expr \<Rightarrow> span \<Rightarrow> ('d, 'd rt_value) im" where
  "eval_send R env actor msg sp = bindI (eval_e R env actor) (\<lambda>av. case av of
     VActor a \<Rightarrow> bindI (eval_message R env msg) (\<lambda>mv. thenI (modI (tw_enqueue a mv)) (retI VNil))
   | _ \<Rightarrow> failI (TypeError (lit ''Actor'') (type_name av) (lit ''send (`!`)'') (Some sp)))"

definition eval_request :: "'d walker \<Rightarrow> env_ref \<Rightarrow> 'd expr \<Rightarrow> 'd expr \<Rightarrow> span \<Rightarrow> ('d, 'd rt_value) im" where
  "eval_request R env actor msg sp = bindI (eval_e R env actor) (\<lambda>av. case av of
     VActor a \<Rightarrow> bindI (eval_message R env msg) (\<lambda>mv. tw_dispatch R a mv sp)
   | _ \<Rightarrow> failI (TypeError (lit ''Actor'') (type_name av) (lit ''request (`?`)'') (Some sp)))"

section \<open>Expressions\<close>

text \<open>A call of a name constructs a variant or a struct if there is one of that name.\<close>

definition construct_variant :: "'d walker \<Rightarrow> env_ref \<Rightarrow> str \<Rightarrow> nat \<Rightarrow> 'd expr list \<Rightarrow> span \<Rightarrow> ('d, 'd rt_value) im" where
  "construct_variant R env name n args sp =
     (if n \<noteq> length args then failI (ArityError n (length args) name (Some sp))
      else bindI (mapI (eval_e R env) args) (\<lambda>vs. retI (VVariant name vs)))"

definition construct_tw_struct :: "'d walker \<Rightarrow> env_ref \<Rightarrow> str \<Rightarrow> 'd expr list \<Rightarrow> span \<Rightarrow> ('d, 'd rt_value) im" where
  "construct_tw_struct R env name args sp = (case args of
     [a] \<Rightarrow> bindI (eval_e R env a) (\<lambda>v. case v of
         VMap m \<Rightarrow> retI (VStruct name (entries_of (=) (string_entries m)))
       | _ \<Rightarrow> failI (TypeError (lit ''Map'') (type_name v) (lit ''constructing '' @ name) (Some sp)))
   | _ \<Rightarrow> failI (ArityError 1 (length args) name (Some sp)))"

definition apply_call :: "'d walker \<Rightarrow> env_ref \<Rightarrow> 'd expr \<Rightarrow> 'd expr list \<Rightarrow> span \<Rightarrow> ('d, 'd rt_value) im" where
  "apply_call R env callee args sp = bindI (eval_e R env callee) (\<lambda>f.
     bindI (mapI (eval_arg R env) args) (\<lambda>vs. call_f R sp f vs))"

definition eval_call :: "'d walker \<Rightarrow> env_ref \<Rightarrow> 'd expr \<Rightarrow> 'd expr list \<Rightarrow> span \<Rightarrow> ('d, 'd rt_value) im" where
  "eval_call R env callee args sp = (case callee of
     EIdent name _ \<Rightarrow> bindI (getI (\<lambda>s. (map_of (it_variants s) name, map_of (it_structs s) name))) (\<lambda>r. case r of
         (Some (_, n), _) \<Rightarrow> construct_variant R env name n args sp
       | (None, Some _) \<Rightarrow> construct_tw_struct R env name args sp
       | (None, None) \<Rightarrow> apply_call R env callee args sp)
   | _ \<Rightarrow> apply_call R env callee args sp)"

text \<open>A method of a module is one of its exports; any other method is a function on the receiver.\<close>

definition eval_method :: "'d walker \<Rightarrow> env_ref \<Rightarrow> 'd expr \<Rightarrow> str \<Rightarrow> 'd expr list \<Rightarrow> span \<Rightarrow> ('d, 'd rt_value) im" where
  "eval_method R env recv method args sp = bindI (eval_e R env recv) (\<lambda>rv. case rv of
     VModule m \<Rightarrow> bindI (getI (\<lambda>s. it_modules s ! m)) (\<lambda>md. case map_of (md_exports md) method of
         Some f \<Rightarrow> bindI (mapI (eval_arg R env) args) (call_f R sp f)
       | None \<Rightarrow> failI (ImportError (md_name md) (lit ''no export `'' @ method @ lit ''`'') (Some sp)))
   | _ \<Rightarrow> bindI (lookupI method env) (\<lambda>f. case f of
         Some f \<Rightarrow> bindI (mapI (eval_arg R env) args) (\<lambda>vs. call_f R sp f (rv # vs))
       | None \<Rightarrow> failI (name_error method sp)))"

definition eval_pipe :: "'d walker \<Rightarrow> env_ref \<Rightarrow> 'd expr \<Rightarrow> 'd expr \<Rightarrow> span \<Rightarrow> ('d, 'd rt_value) im" where
  "eval_pipe R env l r sp = bindI (eval_e R env l) (\<lambda>lv. case r of
     ECall callee args csp \<Rightarrow> bindI (eval_e R env callee) (\<lambda>f.
       bindI (mapI (eval_e R env) args) (\<lambda>vs. call_f R csp f (lv # vs)))
   | _ \<Rightarrow> bindI (eval_e R env r) (\<lambda>f. call_f R sp f [lv]))"

definition field_value :: "str \<Rightarrow> span \<Rightarrow> 'd ext \<Rightarrow> 'd rt_value \<Rightarrow> ('d, 'd rt_value) im" where
  "field_value name sp X v = (case v of
     VStruct _ fs \<Rightarrow> (case map_of fs name of
         Some w \<Rightarrow> retI w
       | None \<Rightarrow> failI (IndexError (lit ''no field `'' @ name @ lit ''`'') (Some sp)))
   | VMap m \<Rightarrow> retI (or_nil (entry_get (value_eq X) (VStr name) m))
   | VModule a \<Rightarrow> bindI (getI (\<lambda>s. it_modules s ! a)) (\<lambda>md. case map_of (md_exports md) name of
         Some w \<Rightarrow> retI w
       | None \<Rightarrow> failI (ImportError (md_name md) (lit ''no export `'' @ name @ lit ''`'') (Some sp)))
   | _ \<Rightarrow> failI (TypeError (lit ''Struct, Map, or Module'') (type_name v) (lit ''field access `.'' @ name) (Some sp)))"

definition eval_field :: "'d ext \<Rightarrow> 'd walker \<Rightarrow> env_ref \<Rightarrow> 'd expr \<Rightarrow> str \<Rightarrow> span \<Rightarrow> ('d, 'd rt_value) im" where
  "eval_field X R env target name sp = bindI (eval_e R env target) (\<lambda>v.
     bindI (getI (deref v)) (field_value name sp X))"

definition eval_binop :: "'d ext \<Rightarrow> 'd walker \<Rightarrow> env_ref \<Rightarrow> bin_op \<Rightarrow> 'd expr \<Rightarrow> 'd expr \<Rightarrow> span \<Rightarrow> ('d, 'd rt_value) im" where
  "eval_binop X R env b l r sp = bindI (eval_e R env l) (\<lambda>lv.
     if b = BAnd \<and> \<not> is_truthy X lv \<or> b = BOr \<and> is_truthy X lv then retI lv
     else bindI (eval_e R env r) (\<lambda>rv.
       if b = BAnd \<or> b = BOr then retI rv else spannedI sp (liftI (tw_binop X b lv rv))))"

definition eval_compound :: "'d ext \<Rightarrow> 'd walker \<Rightarrow> env_ref \<Rightarrow> bin_op \<Rightarrow> 'd expr \<Rightarrow> 'd expr \<Rightarrow> span \<Rightarrow> ('d, 'd rt_value) im" where
  "eval_compound X R env b target v sp = bindI (eval_e R env target) (\<lambda>cur. bindI (eval_e R env v) (\<lambda>rhs.
     bindI (spannedI sp (liftI (apply_binop X b cur rhs))) (\<lambda>w.
       thenI (spannedI sp (assign_to X R env target w)) (retI VNil))))"

text \<open>Control flow; a loop evaluates itself for its next round.\<close>

definition eval_if :: "'d ext \<Rightarrow> 'd walker \<Rightarrow> env_ref \<Rightarrow> 'd expr \<Rightarrow> 'd expr \<Rightarrow> 'd expr option \<Rightarrow> ('d, 'd rt_value) im" where
  "eval_if X R env c yes no = bindI (eval_e R env c) (\<lambda>v.
     if is_truthy X v then eval_e R env yes else eval_opt R env no)"

definition eval_block :: "'d walker \<Rightarrow> env_ref \<Rightarrow> 'd stmt list \<Rightarrow> 'd expr option \<Rightarrow> ('d, 'd rt_value) im" where
  "eval_block R env stmts e = bindI (child_scope env) (\<lambda>c. thenI (eachI (exec_s R c) stmts) (eval_opt R c e))"

definition eval_while :: "'d ext \<Rightarrow> 'd walker \<Rightarrow> env_ref \<Rightarrow> 'd expr \<Rightarrow> 'd expr \<Rightarrow> span \<Rightarrow> ('d, 'd rt_value) im" where
  "eval_while X R env c body sp = bindI (eval_e R env c) (\<lambda>v.
     if is_truthy X v
     then loop_round (eval_e R env body) (eval_e R env (EWhile c body sp)) (\<lambda>_. retI VNil)
     else retI VNil)"

definition eval_for :: "'d walker \<Rightarrow> env_ref \<Rightarrow> str \<Rightarrow> 'd expr \<Rightarrow> 'd expr \<Rightarrow> span \<Rightarrow> ('d, 'd rt_value) im" where
  "eval_for R env var items body sp = bindI (eval_e R env items) (\<lambda>v.
     bindI (spannedI sp (liftI (iter_list v))) (for_items R env var body))"

definition eval_loop :: "'d walker \<Rightarrow> env_ref \<Rightarrow> 'd expr \<Rightarrow> span \<Rightarrow> ('d, 'd rt_value) im" where
  "eval_loop R env body sp =
     loop_round (eval_e R env body) (eval_e R env (ELoop body sp)) (\<lambda>v. retI (or_nil v))"

definition eval_break :: "'d walker \<Rightarrow> env_ref \<Rightarrow> 'd expr option \<Rightarrow> span \<Rightarrow> ('d, 'd rt_value) im" where
  "eval_break R env e sp = bindI (case e of
     Some e \<Rightarrow> bindI (eval_e R env e) (\<lambda>v. retI (Some v)) | None \<Rightarrow> retI None) (\<lambda>v. failI (BreakSignal v (Some sp)))"

definition eval_try ::
  "'d walker \<Rightarrow> env_ref \<Rightarrow> 'd expr \<Rightarrow> 'd expr rescue_clause list \<Rightarrow> 'd expr option \<Rightarrow> span \<Rightarrow> ('d, 'd rt_value) im" where
  "eval_try R env body rs ens sp =
     ensured (map_option (eval_e R env) ens) (catchI (eval_e R env body) retI (rescued R env rs sp))"

definition eval_await :: "'d tw_host \<Rightarrow> 'd walker \<Rightarrow> env_ref \<Rightarrow> 'd expr \<Rightarrow> span \<Rightarrow> ('d, 'd rt_value) im" where
  "eval_await H R env e sp = bindI (eval_e R env e) (\<lambda>v. case v of
     VTask t \<Rightarrow> th_await H t
   | _ \<Rightarrow> failI (TypeError (lit ''Task'') (type_name v) (lit ''await'') (Some sp)))"

definition eval_index :: "'d ext \<Rightarrow> 'd walker \<Rightarrow> env_ref \<Rightarrow> 'd expr \<Rightarrow> 'd expr \<Rightarrow> span \<Rightarrow> ('d, 'd rt_value) im" where
  "eval_index X R env target i sp = bindI (eval_e R env target) (\<lambda>c. bindI (eval_e R env i) (\<lambda>k.
     spannedI sp (liftI (op_get X c k))))"

definition eval_assign :: "'d ext \<Rightarrow> 'd walker \<Rightarrow> env_ref \<Rightarrow> 'd expr \<Rightarrow> 'd expr \<Rightarrow> span \<Rightarrow> ('d, 'd rt_value) im" where
  "eval_assign X R env target e sp = bindI (eval_e R env e) (\<lambda>v.
     thenI (spannedI sp (assign_to X R env target v)) (retI VNil))"

definition eval_map_lit :: "'d ext \<Rightarrow> 'd walker \<Rightarrow> env_ref \<Rightarrow> ('d expr \<times> 'd expr) list \<Rightarrow> ('d, 'd rt_value) im" where
  "eval_map_lit X R env entries = bindI (mapI (eval_entry R env) entries) (\<lambda>ps. retI (value_map X ps))"

text \<open>One expression.\<close>

primrec eval_expr :: "'d tw_host \<Rightarrow> 'd walker \<Rightarrow> env_ref \<Rightarrow> 'd expr \<Rightarrow> ('d, 'd rt_value) im" where
  "eval_expr H R env (EInt n sp) = retI (VInt n)"
| "eval_expr H R env (EDecimal d sp) = retI (VDecimal d)"
| "eval_expr H R env (EStr parts sp) = bindI (eval_parts H R env parts) (\<lambda>s. retI (VStr s))"
| "eval_expr H R env (EBool b sp) = retI (VBool b)"
| "eval_expr H R env (ENil sp) = retI VNil"
| "eval_expr H R env (EIdent x sp) = eval_ident H R env x sp"
| "eval_expr H R env (EVecLit items sp) = bindI (mapI (eval_e R env) items) (\<lambda>vs. retI (VVec vs))"
| "eval_expr H R env (EMapLit entries sp) = eval_map_lit (th_ext H) R env entries"
| "eval_expr H R env (ESetLit items sp) =
     bindI (mapI (eval_e R env) items) (\<lambda>vs. retI (value_set (th_ext H) vs))"
| "eval_expr H R env (EBinOp b l r sp) = eval_binop (th_ext H) R env b l r sp"
| "eval_expr H R env (EUnaryOp u a sp) =
     bindI (eval_e R env a) (\<lambda>v. liftI (tw_unary (th_ext H) sp u v))"
| "eval_expr H R env (EPipe l r sp) = eval_pipe R env l r sp"
| "eval_expr H R env (EIf c yes no sp) = eval_if (th_ext H) R env c yes no"
| "eval_expr H R env (EMatch e arms sp) = bindI (eval_e R env e) (\<lambda>v. eval_arms H R env sp v arms)"
| "eval_expr H R env (ELambda params ret body sp) =
     alloc_func \<lparr>tc_params = params, tc_body = body, tc_env = env, tc_name = None\<rparr>"
| "eval_expr H R env (EBlock stmts e sp) = eval_block R env stmts e"
| "eval_expr H R env (EParen e sp) = eval_e R env e"
| "eval_expr H R env (ECall callee args sp) = eval_call R env callee args sp"
| "eval_expr H R env (EMethodCall recv method args sp) = eval_method R env recv method args sp"
| "eval_expr H R env (EIndex target i sp) = eval_index (th_ext H) R env target i sp"
| "eval_expr H R env (EField target name sp) = eval_field (th_ext H) R env target name sp"
| "eval_expr H R env (EActorSend actor msg sp) = eval_send R env actor msg sp"
| "eval_expr H R env (EActorRequest actor msg sp) = eval_request R env actor msg sp"
| "eval_expr H R env (ESpawn name args sp) = eval_spawn R env name args sp"
| "eval_expr H R env (ERaise e sp) = bindI (eval_e R env e) (\<lambda>v. failI (UserException v (Some sp)))"
| "eval_expr H R env (ETry body rs ens sp) = eval_try R env body rs ens sp"
| "eval_expr H R env (ETransact body sp) = transact_attempts max_retries (eval_e R env body) sp"
| "eval_expr H R env (ERetry sp) = failI (RetrySignal (Some sp))"
| "eval_expr H R env (EReturn e sp) = bindI (eval_opt R env e) (\<lambda>v. failI (ReturnSignal v (Some sp)))"
| "eval_expr H R env (EReply e sp) = bindI (eval_e R env e) (\<lambda>v. failI (ReplySignal v (Some sp)))"
| "eval_expr H R env (EYield sp) = thenI (th_drain_async H) (retI VNil)"
| "eval_expr H R env (EAwait e sp) = eval_await H R env e sp"
| "eval_expr H R env (ESharedExpr e sp) = bindI (eval_e R env e) alloc_cell"
| "eval_expr H R env (EAssign target e sp) = eval_assign (th_ext H) R env target e sp"
| "eval_expr H R env (ECompoundAssign b target e sp) = eval_compound (th_ext H) R env b target e sp"
| "eval_expr H R env (EWhile c body sp) = eval_while (th_ext H) R env c body sp"
| "eval_expr H R env (EFor var items body sp) = eval_for R env var items body sp"
| "eval_expr H R env (ELoop body sp) = eval_loop R env body sp"
| "eval_expr H R env (EBreak e sp) = eval_break R env e sp"
| "eval_expr H R env (EContinue sp) = failI (ContinueSignal (Some sp))"

section \<open>Statements\<close>

text \<open>A variant of an enum; one without arguments is a value as well.\<close>

definition define_variant :: "env_ref \<Rightarrow> str \<Rightarrow> variant_def \<Rightarrow> ('d, unit) im" where
  "define_variant env enum v =
     thenI (modI (\<lambda>s. s\<lparr>it_variants := entry_insert (=) (vd_name v) (enum, length (vd_fields v)) (it_variants s)\<rparr>))
       (if vd_fields v = [] then defineI (vd_name v) (VVariant (vd_name v) []) env else retI ())"

primrec eval_stmt :: "'d tw_host \<Rightarrow> 'd walker \<Rightarrow> env_ref \<Rightarrow> 'd stmt \<Rightarrow> ('d, unit) im" where
  "eval_stmt H R env (SLet x t e sp) = bindI (eval_e R env e) (\<lambda>v. defineI x v env)"
| "eval_stmt H R env (SSharedDecl x t e sp) = bindI (eval_e R env e) (\<lambda>v.
     bindI (alloc_cell v) (\<lambda>c. defineI x c env))"
| "eval_stmt H R env (SFuncDef d) = bindI (alloc_func \<lparr>tc_params = fd_params d, tc_body = fd_body d, tc_env = env,
     tc_name = Some (fd_name d)\<rparr>) (\<lambda>v. defineI (fd_name d) v env)"
| "eval_stmt H R env (STypeDef td) =
     modI (\<lambda>s. s\<lparr>it_structs := entry_insert (=) (td_name td) (map fst (td_fields td)) (it_structs s)\<rparr>)"
| "eval_stmt H R env (SEnumDef ed) = eachI (define_variant env (ed_name ed)) (ed_variants ed)"
| "eval_stmt H R env (SExpr e) = thenI (eval_e R env e) (retI ())"
| "eval_stmt H R env (SSemi e) = thenI (eval_e R env e) (retI ())"
| "eval_stmt H R env (SActorDef ad) =
     modI (\<lambda>s. s\<lparr>it_actor_defs := entry_insert (=) (ad_name ad) ad (it_actor_defs s)\<rparr>)"
| "eval_stmt H R env (SStateDecl x t e sp) =
     failI (RuntimeError (lit ''`state`/`on` may only appear inside an `actor` body'') (Some sp))"
| "eval_stmt H R env (SOnClause oc) =
     failI (RuntimeError (lit ''`state`/`on` may only appear inside an `actor` body'') (Some (fd_span oc)))"
| "eval_stmt H R env (SImport imp) = eval_import H R env imp"

section \<open>The walk\<close>

text \<open>The evaluator with a bound on the depth of nesting and iteration.\<close>

primrec walk :: "'d tw_host \<Rightarrow> nat \<Rightarrow> 'd walker" where
  "walk H 0 = (\<lambda>j s. (VFuel, s))"
| "walk H (Suc n) = (\<lambda>j. case j of
     JExpr env e \<Rightarrow> eval_expr H (walk H n) env e
   | JStmt env s \<Rightarrow> thenI (eval_stmt H (walk H n) env s) (retI VNil)
   | JCall f args sp \<Rightarrow> call_function H (walk H n) sp f args)"

section \<open>Entry points\<close>

text \<open>\<open>drain_mailboxes\<close>: every live actor in turn, actors spawned on the way included.\<close>

definition take_tw_message :: "nat \<Rightarrow> 'd interp \<Rightarrow> ('d rt_value \<times> 'd interp) option" where
  "take_tw_message a s = (case ta_mailbox (it_actors s ! a) of
     [] \<Rightarrow> None
   | e # es \<Rightarrow> Some (en_msg e, s\<lparr>it_actors := (it_actors s)[a := (it_actors s ! a)\<lparr>ta_mailbox := es\<rparr>]\<rparr>))"

primrec tw_drain :: "'d walker \<Rightarrow> nat \<Rightarrow> nat \<Rightarrow> ('d, unit) im" where
  "tw_drain R 0 i = (\<lambda>s. (VFuel, s))"
| "tw_drain R (Suc n) i = (\<lambda>s.
     if i < length (it_live s) then
       (case take_tw_message (it_live s ! i) s of
          Some (msg, s') \<Rightarrow>
            thenI (tw_dispatch R (it_live s ! i) msg span_dummy) (tw_drain R n i) s'
        | None \<Rightarrow> tw_drain R n (Suc i) s)
     else (VOk (), s))"

definition eval_program :: "'d tw_host \<Rightarrow> nat \<Rightarrow> 'd program \<Rightarrow> ('d, unit) im" where
  "eval_program H n p = bindI (getI it_global) (\<lambda>g. eachI (exec_s (walk H n) g) (pr_stmts p))"

definition parse_failure :: "str \<times> span \<Rightarrow> 'd interp_error" where
  "parse_failure d = RuntimeError (lit ''parse error: '' @ fst d) (Some (snd d))"

text \<open>\<open>run\<close> drains the mailboxes after a success and after an error, whose outcome it keeps.\<close>

definition tw_run :: "'d tw_host \<Rightarrow> nat \<Rightarrow> str \<Rightarrow> ('d, unit) im" where
  "tw_run H n src = (case th_parse H src of
     Err d \<Rightarrow> failI (parse_failure d)
   | Ok p \<Rightarrow> (catchI (eval_program H n p)
       (\<lambda>u. catchI (tw_drain (walk H n) n 0) (\<lambda>_. retI u) (\<lambda>_. retI u))
       (\<lambda>e. catchI (tw_drain (walk H n) n 0) (\<lambda>_. failI e) (\<lambda>_. failI e))))"

definition source_stmt :: "'d walker \<Rightarrow> env_ref \<Rightarrow> 'd rt_value \<Rightarrow> 'd stmt \<Rightarrow> ('d, 'd rt_value) im" where
  "source_stmt R g acc s = (case s of SExpr e \<Rightarrow> eval_e R g e | _ \<Rightarrow> thenI (exec_s R g s) (retI acc))"

text \<open>\<open>eval_source\<close>: the value of the last expression statement.\<close>

definition eval_source :: "'d tw_host \<Rightarrow> nat \<Rightarrow> str \<Rightarrow> ('d, 'd rt_value) im" where
  "eval_source H n src = (case th_parse H src of
     Err d \<Rightarrow> failI (parse_failure d)
   | Ok p \<Rightarrow> bindI (getI it_global) (\<lambda>g. foldI (source_stmt (walk H n) g) VNil (pr_stmts p)))"

fun is_definition :: "'d stmt \<Rightarrow> bool" where
  "is_definition (SFuncDef _) = True"
| "is_definition (SActorDef _) = True"
| "is_definition (STypeDef _) = True"
| "is_definition (SEnumDef _) = True"
| "is_definition (SImport _) = True"
| "is_definition _ = False"

definition load_definitions :: "'d tw_host \<Rightarrow> nat \<Rightarrow> str \<Rightarrow> ('d, unit) im" where
  "load_definitions H n src = (case th_parse H src of
     Err d \<Rightarrow> failI (parse_failure d)
   | Ok p \<Rightarrow> bindI (getI it_global) (\<lambda>g. eachI (exec_s (walk H n) g) (filter is_definition (pr_stmts p))))"

text \<open>\<open>call_function_by_name\<close>, for the workers: sendable values in, a sendable value or a message out.\<close>

definition call_function_by_name ::
  "'d tw_host \<Rightarrow> nat \<Rightarrow> str \<Rightarrow> 'd send_value list \<Rightarrow> ('d, (str, 'd send_value) result) im" where
  "call_function_by_name H n name args = (let X = th_ext H in
     bindI (getI it_global) (\<lambda>g. bindI (lookupI name g) (\<lambda>f. case f of
       None \<Rightarrow> retI (Err (lit ''function '' @ squote # name @ squote # lit '' not defined''))
     | Some f \<Rightarrow> catchI (call_function H (walk H n) span_dummy f (map (into_value X) args))
         (\<lambda>v. retI (from_value X v))
         (\<lambda>e. bindI (getI (heap_of H)) (\<lambda>hv. retI (Err (interp_error_render X hv e name)))))))"

end
