(* ===== verification/Tw_Keeps.thy ===== *)
theory Tw_Keeps
  imports Tw_Walk
begin

text \<open>
  What every evaluation of the tree-walker keeps, whatever its outcome: an order on states that the
  elementary updates respect is respected by the whole walk (the locale \<open>walk_order\<close>).
\<close>

section \<open>Computations that respect an order\<close>

text \<open>A computation that panics does so while a scope is borrowed.\<close>

fun kept :: "('d interp \<Rightarrow> 'd interp \<Rightarrow> bool) \<Rightarrow> 'd interp \<Rightarrow> ('d, 'a) vres \<times> 'd interp \<Rightarrow> bool" where
  "kept le s (VOk a, s') = le s s'"
| "kept le s (VErr e, s') = le s s'"
| "kept le s (VPanic, s') \<longleftrightarrow> it_held s' \<noteq> []"
| "kept le s (VFuel, s') = True"

definition keeps :: "('d interp \<Rightarrow> 'd interp \<Rightarrow> bool) \<Rightarrow> ('d, 'a) im \<Rightarrow> bool" where
  "keeps le m \<longleftrightarrow> (\<forall>s. kept le s (m s))"

lemma keepsI: "(\<And>s. kept le s (m s)) \<Longrightarrow> keeps le m"
  by (simp add: keeps_def)

lemma keepsD: "keeps le m \<Longrightarrow> kept le s (m s)"
  by (simp add: keeps_def)

named_theorems keeps_intros \<open>computations that respect an order\<close>

locale run_order =
  fixes le :: "'d interp \<Rightarrow> 'd interp \<Rightarrow> bool"
  assumes le_refl: "le s s"
    and le_trans: "le s s' \<Longrightarrow> le s' s'' \<Longrightarrow> le s s''"
begin

lemma keeps_ret [keeps_intros]: "keeps le (retI a)" "keeps le (failI e)" "keeps le (getI g)"
  by (simp_all add: keeps_def im_simps le_refl)

lemma keeps_mod: "(\<And>s. le s (h s)) \<Longrightarrow> keeps le (modI h)"
  by (simp add: keeps_def im_simps)

lemma kept_trans: "le s s1 \<Longrightarrow> kept le s1 (r, s2) \<Longrightarrow> kept le s (r, s2)"
  by (cases r) (auto intro: le_trans)

lemma keeps_catch [keeps_intros]:
  assumes "keeps le m" and "\<And>a. keeps le (f a)" and "\<And>e. keeps le (h e)"
  shows "keeps le (catchI m f h)"
proof (rule keepsI)
  fix s
  obtain r s1 where m: "m s = (r, s1)" by fastforce
  then have 1: "kept le s (r, s1)" using keepsD [OF assms(1), of s] by simp
  have on: "kept le s (n s1)" if "le s s1" "keeps le n" for n :: "('d, 'c) im"
    using kept_trans [OF that(1)] keepsD [OF that(2), of s1] by (cases "n s1") simp
  show "kept le s (catchI m f h s)"
    using 1 m on assms(2,3) by (cases r) (auto simp: catchI_run)
qed

lemma bindI_catch: "bindI m f = catchI m f failI"
  by (rule ext) (simp add: bindI_def catchI_def failI_def split: prod.split vres.split)

lemma keeps_bind [keeps_intros]: "keeps le m \<Longrightarrow> (\<And>a. keeps le (f a)) \<Longrightarrow> keeps le (bindI m f)"
  by (simp add: bindI_catch keeps_catch keeps_ret)

lemma keeps_then [keeps_intros]: "keeps le m \<Longrightarrow> keeps le n \<Longrightarrow> keeps le (thenI m n)"
  by (simp add: thenI_def keeps_bind)

lemma keeps_lift [keeps_intros]: "keeps le (liftI r)"
  by (cases r) (simp_all add: im_simps keeps_ret)

lemma keeps_spanned [keeps_intros]: "keeps le m \<Longrightarrow> keeps le (spannedI sp m)"
  by (simp add: spannedI_def keeps_intros)

lemma keeps_if [keeps_intros]: "(b \<Longrightarrow> keeps le m) \<Longrightarrow> (\<not> b \<Longrightarrow> keeps le n) \<Longrightarrow> keeps le (if b then m else n)"
  by simp

lemma keeps_map [keeps_intros]: "(\<And>x. keeps le (f x)) \<Longrightarrow> keeps le (mapI f xs)"
  by (induction xs) (simp_all add: keeps_intros)

lemma keeps_each [keeps_intros]: "(\<And>x. keeps le (f x)) \<Longrightarrow> keeps le (eachI f xs)"
  by (simp add: eachI_def keeps_intros)

lemma keeps_fold [keeps_intros]: "(\<And>a x. keeps le (f a x)) \<Longrightarrow> keeps le (foldI f a xs)"
  by (induction xs arbitrary: a) (simp_all add: keeps_intros)

lemma keeps_cases [keeps_intros]:
  "keeps le n \<Longrightarrow> (\<And>a. keeps le (f a)) \<Longrightarrow> keeps le (case x of None \<Rightarrow> n | Some a \<Rightarrow> f a)"
  "(\<And>a b. keeps le (g a b)) \<Longrightarrow> keeps le (case p of (a, b) \<Rightarrow> g a b)"
  "keeps le n \<Longrightarrow> (\<And>a b. keeps le (g' a b)) \<Longrightarrow> keeps le (case xs of [] \<Rightarrow> n | a # b \<Rightarrow> g' a b)"
    apply (cases x; simp)
   apply (cases p; simp)
  apply (cases xs; simp)
  done

lemma keeps_lookup [keeps_intros]: "keeps le (lookupI x env)"
  by (simp add: keeps_def lookupI_def le_refl split: option.split)

lemma keeps_jobs:
  assumes "\<And>j. keeps le (R j)"
  shows "keeps le (eval_e R env e)" "keeps le (exec_s R env st)" "keeps le (call_f R sp f args)"
  by (simp_all add: eval_e_def exec_s_def call_f_def assms)

end

text \<open>
  The elementary updates of the state, transactions and the loading of modules: what they keep,
  every evaluation keeps.
\<close>

locale walk_order = run_order le for le :: "'d interp \<Rightarrow> 'd interp \<Rightarrow> bool" +
  assumes le_define: "le s (s\<lparr>it_envs := env_define x v r (it_envs s)\<rparr>)"
    and le_child: "le s (s\<lparr>it_envs := snd (env_child r (it_envs s))\<rparr>)"
    and le_assign: "env_assign x v r (it_envs s) = Some (ok, st) \<Longrightarrow> le s (s\<lparr>it_envs := st\<rparr>)"
    and le_func: "le s (s\<lparr>it_funcs := it_funcs s @ [c]\<rparr>)"
    and le_read: "le s (s\<lparr>it_txns := snd (stm_read a (it_txns s) (it_cells s))\<rparr>)"
    and le_write: "le s (case stm_write a v (it_txns s) (it_cells s) of (ts, cs) \<Rightarrow> s\<lparr>it_txns := ts, it_cells := cs\<rparr>)"
    and le_cell: "le s (s\<lparr>it_cells := it_cells s @ [c']\<rparr>)"
    and le_held: "le (s\<lparr>it_held := r # it_held s\<rparr>) s' \<Longrightarrow> le s (s'\<lparr>it_held := tl (it_held s')\<rparr>)"
    and le_host: "le s (s\<lparr>it_host := w\<rparr>)"
    and le_tables: "le s (s\<lparr>it_variants := vs\<rparr>)" "le s (s\<lparr>it_structs := ss\<rparr>)" "le s (s\<lparr>it_actor_defs := ds\<rparr>)"
    and le_actors: "le s (s\<lparr>it_actors := as\<rparr>)" "le s (s\<lparr>it_live := ls\<rparr>)"
      "le s (s\<lparr>it_actors := as, it_next_pid := n, it_pids := ps\<rparr>)"
    and le_commit: "le (s\<lparr>it_txns := transaction_new # it_txns s\<rparr>) s' \<Longrightarrow>
      \<exists>u us. it_txns s' = u # us \<and> kept le s (commit_txn u (s'\<lparr>it_txns := us\<rparr>)) \<and> le s (s'\<lparr>it_txns := us\<rparr>)"
    and load: "(\<And>j. keeps le (R j)) \<Longrightarrow> keeps le (tw_load_module H R path sp)"
begin

lemma keeps_scopes [keeps_intros]:
  "keeps le (defineI x v env)" "keeps le (child_scope env)" "keeps le (assignI x v env)"
  by (auto simp: keeps_def defineI_def child_scope_def assignI_def im_simps le_define le_assign
      case_prod_unfold le_child dest: assign_panics_held split: option.split)

lemma keeps_holding [keeps_intros]:
  assumes "keeps le m"
  shows "keeps le (holding r m)"
proof (rule keepsI)
  fix s
  obtain q s' where m: "m (s\<lparr>it_held := r # it_held s\<rparr>) = (q, s')" by fastforce
  then have "kept le (s\<lparr>it_held := r # it_held s\<rparr>) (q, s')" using keepsD [OF assms] by metis
  then show "kept le s (holding r m s)" using m le_held by (cases q) (simp_all add: holding_def)
qed

lemma keeps_native [keeps_intros]: "keeps le (tw_call_native H name args)"
  unfolding keeps_def tw_call_native_def
  by (auto simp: im_simps le_host failI_def retI_def liftI_def split: prod.split sum.split)

lemma keeps_alloc [keeps_intros]: "keeps le (alloc_func c)" "keeps le (alloc_cell v)" "keeps le (new_tw_actor env hs)"
  by (simp_all add: keeps_def alloc_func_def alloc_cell_def new_tw_actor_def Let_def le_func le_cell le_actors)

lemma keeps_cells [keeps_intros]: "keeps le (read_cell a)" "keeps le (put_cell a v)"
  using le_write by (simp_all add: keeps_def read_cell_def put_cell_def im_simps case_prod_unfold le_read)

text \<open>
  The state when the body of a transaction has ended lies above that with one more transaction than
  before; a commit and a discard both take that one away.
\<close>

lemma le_kept: "le s s1 \<Longrightarrow> kept le s1 p \<Longrightarrow> kept le s p"
  by (cases p; cases "fst p") (auto intro: le_trans)

lemma keeps_transact:
  assumes "keeps le body"
  shows "keeps le (transact_attempts k body sp)"
proof (induction k)
  case 0
  then show ?case by (simp add: keeps_def im_simps le_refl)
next
  case (Suc k)
  let ?again = "transact_attempts k body sp"
  have commit: "kept le s (commit_attempt ?again r s')"
    if g: "le (s\<lparr>it_txns := transaction_new # it_txns s\<rparr>) s'" and r: "keeps le r" for s s' r
  proof -
    obtain u us where u: "it_txns s' = u # us" "kept le s (commit_txn u (s'\<lparr>it_txns := us\<rparr>))"
      using le_commit [OF g] by blast
    obtain out s2 where out: "commit_txn u (s'\<lparr>it_txns := us\<rparr>) = (VOk out, s2)"
      by (cases "commit_txn u (s'\<lparr>it_txns := us\<rparr>)"; cases us; cases "conflicts u (it_cells s')")
        (simp_all add: commit_txn_def)
    then have "le s s2" using u(2) by simp
    moreover have after: "kept le s2 ((case out of CommitDone \<Rightarrow> r | CommitConflict \<Rightarrow> ?again) s2)"
      using keepsD [OF r] keepsD [OF Suc.IH] by (cases out) simp_all
    ultimately show ?thesis
      using u(1) out le_kept [OF _ after] by (simp add: commit_attempt_def take_txn_def bindI_def)
  qed
  show ?case
  proof (rule keepsI)
    fix s :: "'d interp"
    let ?s = "s\<lparr>it_txns := transaction_new # it_txns s\<rparr> :: 'd interp"
    obtain r s' where b: "body ?s = (r, s')" by fastforce
    then have k: "kept le ?s (r, s')" using keepsD [OF assms, of ?s] by simp
    have ret: "keeps le (retI v)" "keeps le (failI e)" for v :: "'d rt_value" and e
      by (simp_all add: keeps_ret)
    have drop: "kept le s (thenI drop_txn m s')" if "le ?s s'" "keeps le m" for m :: "('d, 'd rt_value) im"
      using le_commit [OF that(1)] le_kept [OF _ keepsD [OF that(2)]]
      by (auto simp: thenI_def drop_txn_def im_simps bindI_def modI_def)
    show "kept le s (transact_attempts (Suc k) body sp s)"
      using b k commit [OF _ ret(1)] commit [OF _ ret(2)] drop [OF _ Suc.IH] drop [OF _ ret(2)]
      by (cases r) (auto simp: Let_def thenI_def push_txn_def bindI_def modI_def catchI_def split: interp_error.split)
  qed
qed

text \<open>The parts of the evaluator, for an evaluator that respects the order.\<close>

lemma keeps_expr_case [keeps_intros]:
  "(\<And>x sp. keeps le (f x sp)) \<Longrightarrow> keeps le m \<Longrightarrow> keeps le (case e of EIdent x sp \<Rightarrow> f x sp | _ \<Rightarrow> m)"
  by (cases e) simp_all

lemma keeps_show [keeps_intros]: "keeps le (showI H v)" "keeps le (piece H v)"
  by (simp_all add: showI_def piece_def keeps_intros split: rt_value.split)

lemma keeps_arg:
  assumes "\<And>j. keeps le (R j)"
  shows "keeps le (eval_arg R env a)" "keeps le (eval_message R env msg)" "keeps le (eval_opt R env o')"
    "keeps le (eval_entry R env kv)" "keeps le (arm_guarded H R env g)"
proof -
  note R = keeps_jobs [OF assms]
  have shared: "keeps le (case r of Some (VShared c) \<Rightarrow> retI (VShared c) | _ \<Rightarrow> eval_e R env a)" for r a
    by (simp add: keeps_intros R split: option.split rt_value.split)
  show arg: "keeps le (eval_arg R env a)" for a
    unfolding eval_arg_def by (intro keeps_intros shared R)
  show "keeps le (eval_message R env msg)"
    unfolding eval_message_def by (cases msg) (simp_all add: keeps_intros R split: expr.split option.split)
  show "keeps le (eval_opt R env o')" by (simp add: eval_opt_def keeps_intros R split: option.split)
  have held: "keeps le (case r of Some (VShared c) \<Rightarrow> retI (VShared c) | _ \<Rightarrow> holding env (eval_e R env a))" for r a
    by (simp add: keeps_intros R split: option.split rt_value.split)
  have "keeps le (entry_value R env v)" for v
    unfolding entry_value_def by (intro keeps_intros held R)
  then show "keeps le (eval_entry R env kv)"
    unfolding eval_entry_def by (intro keeps_intros) (cases "fst kv"; simp add: keeps_intros R)
  show "keeps le (arm_guarded H R env g)" by (simp add: arm_guarded_def keeps_intros R split: option.split)
qed

lemma keeps_parts:
  assumes "\<And>j. keeps le (R j)"
  shows "keeps le (eval_parts H R env ps)" "keeps le (lit_parts H R env ps)" "keeps le (lit_pattern_value H R env l)"
proof -
  show "keeps le (eval_parts H R env ps)"
  proof (induction ps)
    case (Cons p ps)
    then show ?case by (cases p) (simp_all add: keeps_intros keeps_jobs keeps_arg assms)
  qed (simp add: keeps_intros)
  show lit: "keeps le (lit_parts H R env ps)" for ps
  proof (induction ps)
    case (Cons p ps)
    then show ?case by (cases p) (simp_all add: keeps_intros keeps_jobs keeps_arg assms)
  qed (simp add: keeps_intros)
  show "keeps le (lit_pattern_value H R env l)" by (cases l) (simp_all add: keeps_intros lit)
qed

lemma keeps_loop:
  assumes "keeps le body" and "keeps le again" and "\<And>v. keeps le (leave v)"
  shows "keeps le (loop_round body again leave)"
  unfolding loop_round_def by (intro keeps_intros assms) (simp add: keeps_intros assms split: interp_error.split)

lemma keeps_for: "(\<And>j. keeps le (R j)) \<Longrightarrow> keeps le (for_items R env var body xs)"
  by (induction xs) (simp_all add: keeps_intros keeps_loop keeps_jobs)

lemma keeps_rescued:
  assumes "\<And>j. keeps le (R j)"
  shows "keeps le (rescued R env rs sp e)"
proof -
  have "keeps le (rescue_body R env v r)" for v r
    unfolding rescue_body_def by (intro keeps_intros keeps_jobs assms)
  then show ?thesis unfolding rescued_def by (simp add: keeps_intros split: interp_error.split list.split)
qed

lemma keeps_ensured: "keeps le m \<Longrightarrow> pred_option (keeps le) ens \<Longrightarrow> keeps le (ensured ens m)"
  by (cases ens) (simp_all add: ensured_def Let_def keeps_intros)

lemma keeps_assign_name: "keeps le (assign_name x sp env v)"
proof -
  have "keeps le (case b of Some (VShared a) \<Rightarrow> put_cell a v
      | _ \<Rightarrow> bindI (assignI x v env) (\<lambda>ok. if ok then retI () else failI (name_error x sp)))" for b
    by (simp add: keeps_intros split: option.split rt_value.split)
  then show ?thesis unfolding assign_name_def by (rule keeps_bind [OF keeps_lookup])
qed

lemma keeps_assign: "(\<And>j. keeps le (R j)) \<Longrightarrow> keeps le (assign_to X R env target v)"
proof (induction X R env target v rule: assign_to.induct)
  case (1 X R env target v)
  then show ?case
    by (subst assign_to.simps) (cases target; simp add: keeps_intros keeps_jobs keeps_assign_name)
qed

section \<open>Patterns\<close>

lemma keeps_pat_all: "list_all (\<lambda>m. \<forall>v env. keeps le (m v env)) ms \<Longrightarrow> keeps le (pat_all ms vs env)"
  by (induction ms vs env rule: pat_all.induct) (simp_all add: keeps_intros)

lemma keeps_pat_fields: "list_all (\<lambda>q. \<forall>v env. keeps le (snd q v env)) qs \<Longrightarrow> keeps le (pat_fields qs vf env)"
  by (induction qs) (simp_all add: keeps_intros split: option.split)

lemma keeps_pat_or: "list_all (\<lambda>m. \<forall>v env. keeps le (m v env)) ms \<Longrightarrow> keeps le (pat_or ms v env)"
proof (induction ms)
  case (Cons m ms)
  have "keeps le (copy_bindings sub env)" for sub
    unfolding copy_bindings_def by (intro keeps_intros)
  then show ?case using Cons by (simp add: keeps_intros)
qed (simp add: keeps_intros)

lemma keeps_match:
  assumes "\<And>j. keeps le (R j)"
  shows "keeps le (match_pattern H R p v env)"
proof (induction p arbitrary: v env)
  case (PVariant n ps sp)
  then show ?case by (cases v) (simp_all add: keeps_intros keeps_pat_all list_all_iff)
next
  case (PStruct fs rest sp)
  then show ?case by (cases v) (force simp: keeps_intros list_all_iff intro!: keeps_pat_fields)+
next
  case (PVec ps rest sp)
  then show ?case by (cases v) (simp_all add: keeps_intros keeps_pat_all list_all_iff)
next
  case (POr ps sp)
  then show ?case by (simp add: keeps_pat_or list_all_iff)
qed (simp_all add: keeps_intros keeps_parts keeps_jobs assms)

lemma keeps_arms:
  assumes "\<And>j. keeps le (R j)"
  shows "keeps le (eval_arms H R env sp v as)"
  by (induction as) (simp_all add: keeps_intros keeps_match keeps_arg keeps_jobs assms)

section \<open>Calls, actors and modules\<close>

lemma keeps_over:
  assumes "\<And>f items. keeps le (body f items)"
  shows "keeps le (over_coll name sp args body)"
  unfolding over_coll_def items_spanned_def by (intro keeps_intros assms)

lemma keeps_find_item: "(\<And>x. keeps le (f x)) \<Longrightarrow> keeps le (find_item X f xs)"
  by (induction xs) (simp_all add: keeps_intros)

lemma keeps_eval_last: "(\<And>j. keeps le (R j)) \<Longrightarrow> keeps le (eval_last R g ss)"
proof (induction R g ss rule: eval_last.induct)
  case (2 R g s)
  then show ?case by (cases s) (simp_all add: keeps_intros keeps_jobs)
qed (simp_all add: keeps_intros keeps_jobs)

lemma keeps_builtin:
  assumes "\<And>j. keeps le (R j)"
  shows "keeps le (call_builtin_fn H R sp name args)"
proof -
  note ho = tw_map_def tw_filter_def tw_fold_def tw_reduce_def tw_find_def tw_each_def items_spanned_def
  have "keeps le (tw_eval_src H R sp args)"
    by (simp add: tw_eval_src_def keeps_intros keeps_eval_last assms split: list.split rt_value.split sum.split)
  moreover have "keeps le (tw_fold R sp args)"
    by (auto simp: ho intro!: keeps_intros keeps_jobs assms split: list.split)
  ultimately show ?thesis
    unfolding call_builtin_fn_def Let_def
    by (auto simp: ho intro!: keeps_intros keeps_over keeps_find_item keeps_jobs assms split: list.split)
qed

lemma keeps_bind_params: "keeps le (bind_params env ps args)"
  unfolding bind_params_def by (intro keeps_intros)

lemma keeps_call:
  assumes "\<And>j. keeps le (R j)"
  shows "keeps le (call_function H R sp f args)"
proof -
  have "keeps le (call_closure R sp c args)" for c
    unfolding call_closure_def
    by (intro keeps_intros keeps_bind_params keeps_jobs assms) (simp_all add: keeps_intros split: interp_error.split)
  then show ?thesis
    unfolding call_function_def by (simp add: keeps_intros keeps_builtin assms split: rt_value.split)
qed

lemma keeps_import:
  assumes "\<And>j. keeps le (R j)"
  shows "keeps le (eval_import H R env imp)" "keeps le (eval_ident H R env x sp)"
proof -
  note l = load [OF assms]
  show "keeps le (eval_import H R env imp)" unfolding eval_import_def by (intro keeps_intros l)
  have "keeps le (case r of None \<Rightarrow> failI (name_error x sp)
     | Some (VLazyImport p) \<Rightarrow> bindI (tw_load_module H R p sp) (\<lambda>m. thenI (defineI x (VModule m) env) (retI (VModule m)))
     | Some (VShared a) \<Rightarrow> read_cell a | Some v \<Rightarrow> retI v)" for r
    by (simp add: keeps_intros l split: option.split rt_value.split)
  then show "keeps le (eval_ident H R env x sp)" unfolding eval_ident_def by (rule keeps_bind [OF keeps_lookup])
qed

lemma keeps_dispatch:
  assumes "\<And>j. keeps le (R j)"
  shows "keeps le (tw_dispatch R a msg sp)"
proof -
  have "keeps le (run_on_clause R a oc args sp)" for oc args
    unfolding run_on_clause_def
    by (intro keeps_intros keeps_jobs assms) (simp_all add: keeps_intros split: interp_error.split)
  then show ?thesis unfolding tw_dispatch_def by (simp add: keeps_intros split: rt_value.split option.split)
qed

lemma keeps_actors:
  assumes "\<And>j. keeps le (R j)"
  shows "keeps le (eval_spawn R env name args sp)" "keeps le (eval_send R env actor msg sp)"
    "keeps le (eval_request R env actor msg sp)"
proof -
  note R = keeps_jobs [OF assms] keeps_arg [OF assms] keeps_dispatch [OF assms]
  have member: "keeps le (spawn_member R env m)" for env m
    by (cases m) (simp_all add: spawn_member_def keeps_intros R)
  show "keeps le (eval_spawn R env name args sp)"
    unfolding eval_spawn_def by (intro keeps_intros R member keeps_mod le_actors)
  have "keeps le (modI (tw_enqueue a mv))" for a mv
    by (rule keeps_mod) (simp add: tw_enqueue_def le_actors)
  then have "keeps le (case av of VActor a \<Rightarrow> bindI (eval_message R env msg) (\<lambda>mv. thenI (modI (tw_enqueue a mv)) (retI VNil))
      | _ \<Rightarrow> failI (TypeError (lit ''Actor'') (type_name av) (lit ''send (`!`)'') (Some sp)))" for av
    by (simp add: keeps_intros R split: rt_value.split)
  then show "keeps le (eval_send R env actor msg sp)" unfolding eval_send_def by (intro keeps_bind R)
  have "keeps le (case av of VActor a \<Rightarrow> bindI (eval_message R env msg) (\<lambda>mv. tw_dispatch R a mv sp)
      | _ \<Rightarrow> failI (TypeError (lit ''Actor'') (type_name av) (lit ''request (`?`)'') (Some sp)))" for av
    by (simp add: keeps_intros R split: rt_value.split)
  then show "keeps le (eval_request R env actor msg sp)" unfolding eval_request_def by (intro keeps_bind R)
qed

section \<open>Expressions and statements\<close>

lemma keeps_eval_call:
  assumes "\<And>j. keeps le (R j)"
  shows "keeps le (eval_call R env callee args sp)" "keeps le (eval_method R env recv method args sp)"
    "keeps le (eval_pipe R env l r sp)"
proof -
  note R = keeps_jobs [OF assms] keeps_arg [OF assms]
  have applied: "keeps le (apply_call R env callee args sp)" for callee
    unfolding apply_call_def by (intro keeps_intros R)
  have variant: "keeps le (construct_variant R env name n args sp)" for name n
    unfolding construct_variant_def by (intro keeps_intros R)
  have struct: "keeps le (construct_tw_struct R env name args sp)" for name
    unfolding construct_tw_struct_def by (simp add: keeps_intros R split: list.split rt_value.split)
  show "keeps le (eval_call R env callee args sp)"
    unfolding eval_call_def by (intro keeps_intros applied variant struct)
  have "keeps le (bindI (mapI (eval_arg R env) args) (\<lambda>vs. call_f R sp f (g vs)))" for f g
    by (intro keeps_intros R)
  then have "keeps le (case rv of
       VModule m \<Rightarrow> bindI (getI (\<lambda>s. it_modules s ! m)) (\<lambda>md. case map_of (md_exports md) method of
         Some f \<Rightarrow> bindI (mapI (eval_arg R env) args) (call_f R sp f)
       | None \<Rightarrow> failI (ImportError (md_name md) (lit ''no export `'' @ method @ lit ''`'') (Some sp)))
     | _ \<Rightarrow> bindI (lookupI method env) (\<lambda>f. case f of
         Some f \<Rightarrow> bindI (mapI (eval_arg R env) args) (\<lambda>vs. call_f R sp f (rv # vs))
       | None \<Rightarrow> failI (name_error method sp)))" for rv
    by (simp add: keeps_intros R split: rt_value.split)
  then show "keeps le (eval_method R env recv method args sp)" unfolding eval_method_def by (intro keeps_bind R)
  show "keeps le (eval_pipe R env l r sp)"
    unfolding eval_pipe_def by (cases r) (simp_all add: keeps_intros R)
qed

lemma keeps_field:
  assumes "\<And>j. keeps le (R j)"
  shows "keeps le (eval_field X R env target name sp)"
proof -
  have "keeps le (field_value name sp X v)" for v
    unfolding field_value_def by (simp add: keeps_intros split: rt_value.split option.split)
  then show ?thesis unfolding eval_field_def by (intro keeps_intros keeps_jobs assms)
qed

lemma keeps_eval:
  assumes "\<And>j. keeps le (R j)" and "keeps le (th_drain_async H)" and "\<And>t. keeps le (th_await H t)"
  shows "keeps le (eval_expr H R env e)"
proof -
  note R = keeps_jobs [OF assms(1)] keeps_arg [OF assms(1)] keeps_assign [OF assms(1)]
  note parts = keeps_import [OF assms(1)] keeps_actors [OF assms(1)] keeps_eval_call [OF assms(1)] keeps_field [OF assms(1)]
    keeps_arms [OF assms(1)] keeps_for [OF assms(1)] keeps_parts [OF assms(1)]
  note defs = eval_map_lit_def eval_binop_def eval_if_def eval_block_def eval_index_def eval_assign_def
    eval_compound_def eval_while_def eval_for_def eval_loop_def eval_break_def
  have "keeps le (eval_try R env body rs ens sp)" for body rs ens sp
    unfolding eval_try_def
    by (intro keeps_ensured keeps_intros R keeps_rescued [OF assms(1)]) (cases ens; simp add: R)
  moreover have "keeps le (eval_await H R env e sp)" for e sp
    unfolding eval_await_def by (intro keeps_bind R) (simp add: keeps_intros assms(3) split: rt_value.split)
  ultimately show ?thesis
    by (cases e) (auto simp: defs intro!: keeps_intros keeps_loop keeps_transact R parts assms(2) split: option.split)
qed

lemma keeps_stmt:
  assumes "\<And>j. keeps le (R j)"
  shows "keeps le (eval_stmt H R env st)"
proof -
  have "keeps le (define_variant env enum v)" for enum v
    unfolding define_variant_def by (intro keeps_intros keeps_mod le_tables)
  then show ?thesis
    by (cases st) (auto intro!: keeps_intros keeps_mod le_tables keeps_jobs keeps_import assms)
qed

lemma walk_keeps:
  assumes "keeps le (th_drain_async H)" and "\<And>t. keeps le (th_await H t)"
  shows "keeps le (walk H n j)"
proof (induction n arbitrary: j)
  case 0
  then show ?case by (simp add: keeps_def)
next
  case (Suc n)
  then show ?case
    by (cases j) (simp_all add: keeps_eval [OF _ assms] keeps_stmt keeps_call keeps_intros)
qed

end

end
