(* ===== verification/Tw_Grows.thy ===== *)
theory Tw_Grows
  imports Tw_Keeps "HOL-Library.Sublist"
begin

text \<open>
  The order \<open>grows\<close> on the states of the tree-walker and its instance of \<open>walk_order\<close>: what every
  evaluation keeps, and the cache of modules.
\<close>

section \<open>The order\<close>

lemma prefix_butlast: "prefix (xs @ [x]) ys \<Longrightarrow> prefix xs (butlast ys)"
  by (auto simp: prefix_def butlast_append)

definition same_parents :: "'d env_store \<Rightarrow> 'd env_store \<Rightarrow> bool" where
  "same_parents st st' \<longleftrightarrow> prefix (map parent st) (map parent st')"

text \<open>
  A file that is being loaded is not entered into the cache by the loads it causes, and what is
  in the cache stays.
\<close>

definition cache_grows :: "str list \<Rightarrow> (str \<times> nat) list \<Rightarrow> (str \<times> nat) list \<Rightarrow> bool" where
  "cache_grows loading c c' \<longleftrightarrow> map_of c \<subseteq>\<^sub>m map_of c' \<and> (\<forall>f \<in> set loading. map_of c' f = map_of c f)"

definition grows :: "'d interp \<Rightarrow> 'd interp \<Rightarrow> bool" where
  "grows s s' \<longleftrightarrow> length (it_txns s') = length (it_txns s) \<and> it_global s' = it_global s \<and> it_std s' = it_std s
     \<and> prefix (it_funcs s) (it_funcs s') \<and> prefix (it_modules s) (it_modules s')
     \<and> same_parents (it_envs s) (it_envs s') \<and> length (it_cells s) \<le> length (it_cells s')
     \<and> it_held s' = it_held s \<and> prefix (it_loading s) (it_loading s') \<and> cache_grows (it_loading s) (it_cache s) (it_cache s')"

lemma parents_update [simp]: "map parent (st[r := insert_binding x v (st ! r)]) = map parent st"
  by (simp add: list_eq_iff_nth_eq)

lemma same_parents_simps [simp]:
  "same_parents st st" "same_parents st (env_define x v r st)" "same_parents st (snd (env_child r st))"
  by (simp_all add: same_parents_def env_define_def env_child_def env_new_def)

lemma same_parents_trans: "same_parents a b \<Longrightarrow> same_parents b c \<Longrightarrow> same_parents a c"
  unfolding same_parents_def by (rule prefix_order.trans)

lemma same_parents_assign: "env_assign x v r st = Some (ok, st') \<Longrightarrow> same_parents st st'"
proof -
  note ind = env_assign.raw_induct [where P = "\<lambda>x v r st y. same_parents st (snd y)" and xa = "(((x, v), r), st)",
      unfolded prod.case]
  have "env_assign x v r st = Some y \<Longrightarrow> same_parents st (snd y)" for y
    by (erule ind [rotated]) (fastforce simp: same_parents_def split: if_splits option.splits)
  then show "env_assign x v r st = Some (ok, st') \<Longrightarrow> same_parents st st'" by force
qed

lemma cache_grows_refl [simp]: "cache_grows l c c"
  by (simp add: cache_grows_def)

lemma cache_grows_trans: "cache_grows l a b \<Longrightarrow> cache_grows l' b c \<Longrightarrow> set l \<subseteq> set l' \<Longrightarrow> cache_grows l a c"
  unfolding cache_grows_def by (metis map_le_trans subsetD)

lemma grows_refl: "grows s s"
  by (simp add: grows_def)

lemma grows_trans: "grows s s' \<Longrightarrow> grows s' s'' \<Longrightarrow> grows s s''"
  unfolding grows_def
  by (auto intro: prefix_order.trans same_parents_trans cache_grows_trans dest: set_mono_prefix)

interpretation tw: run_order grows
  by unfold_locales (rule grows_refl, rule grows_trans)

section \<open>Transactions\<close>

lemma length_stm: "length (snd (stm_read a ts cs)) = length ts"
  "stm_write a v ts cs = (ts', cs') \<Longrightarrow> length ts' = length ts \<and> length cs' = length cs"
  by (auto simp: stm_read_def record_read_def stm_write_def write_cell_def split: option.split list.splits)

text \<open>
  The state when the body of a transaction has ended lies above that with one more transaction than
  before; a commit and a discard both take that one away.
\<close>

lemma grows_commit:
  assumes "grows (s\<lparr>it_txns := t # it_txns s\<rparr>) s'"
  shows "\<exists>u us. it_txns s' = u # us \<and> kept grows s (commit_txn u (s'\<lparr>it_txns := us\<rparr>)) \<and> grows s (s'\<lparr>it_txns := us\<rparr>)"
proof -
  obtain u us where u: "it_txns s' = u # us" "length us = length (it_txns s)"
    using assms by (cases "it_txns s'") (auto simp: grows_def)
  then have "kept grows s (commit_txn u (s'\<lparr>it_txns := us\<rparr>))" "grows s (s'\<lparr>it_txns := us\<rparr>)"
    using assms by (auto simp: grows_def commit_txn_def length_apply_writes split: list.split)
  then show ?thesis using u by blast
qed

section \<open>Modules\<close>

lemma grows_load:
  assumes R: "\<And>j. keeps grows (R j)"
  shows "keeps grows (tw_load_module H R path sp)"
proof (rule keepsI)
  fix s :: "'a interp"
  have run: "kept grows s (run_tw_module R path fl p s)"
    if "fl \<notin> set (it_loading s)" and "map_of (it_cache s) fl = None" for fl and p
  proof -
    let ?env = "length (it_envs s)"
    let ?s = "s\<lparr>it_envs := snd (env_child (it_global s) (it_envs s)), it_loading := it_loading s @ [fl]\<rparr>"
    obtain r s' where b: "eachI (exec_s R ?env) (pr_stmts p) ?s = (r, s')" by fastforce
    have "keeps grows (eachI (exec_s R ?env) (pr_stmts p))"
      by (intro tw.keeps_each tw.keeps_jobs R)
    then have k: "kept grows ?s (r, s')" using b by (metis keepsD)
    have up: "grows s ?s" by (simp add: grows_def)
    have run: "run_tw_module R path fl p s = bindI (\<lambda>_. (r, s')) (\<lambda>_. finish_tw_module path fl ?env) s"
      using b by (simp add: run_tw_module_def thenI_def bindI_def getI_def modI_def child_scope_def env_child_def env_new_def)
    show ?thesis
    proof (cases r)
      case (VOk u)
      then have g: "grows ?s s'" using k by simp
      then have c: "map_of (it_cache s') fl = None" "map_of (it_cache s) \<subseteq>\<^sub>m map_of (it_cache s')"
        "\<forall>f \<in> set (it_loading s). map_of (it_cache s') f = map_of (it_cache s) f"
        using that by (auto simp: grows_def cache_grows_def)
      then have "cache_grows (it_loading s) (it_cache s) (entry_insert (=) fl (length (it_modules s')) (it_cache s'))"
        using that by (auto simp: cache_grows_def map_le_def)
      moreover have "grows s s'" using up g by (rule grows_trans)
      moreover have "prefix (it_loading s) (butlast (it_loading s'))"
        using g prefix_butlast [of "it_loading s" fl] by (simp add: grows_def)
      ultimately show ?thesis
        using VOk run by (auto simp: bindI_def finish_tw_module_def thenI_def modI_def getI_def alloc_tw_module_def
          retI_def grows_def)
    next
      case (VErr e)
      then show ?thesis using k run grows_trans [OF up] by (simp add: bindI_def)
    qed (use k run in \<open>simp_all add: bindI_def\<close>)
  qed
  show "kept grows s (tw_load_module H R path sp s)"
    using run unfolding tw_load_module_def
    by (auto simp: grows_refl split: option.split sum.split)
qed

interpretation tw: walk_order grows
proof unfold_locales
  show "\<exists>u us. it_txns s' = u # us \<and> kept grows s (commit_txn u (s'\<lparr>it_txns := us\<rparr>)) \<and> grows s (s'\<lparr>it_txns := us\<rparr>)"
    if "grows (s\<lparr>it_txns := transaction_new # it_txns s\<rparr>) s'" for s s' :: "'a interp"
    by (rule grows_commit [OF that])
qed (auto simp: grows_def same_parents_assign length_stm grows_load split: prod.split)

section \<open>Every evaluation\<close>

text \<open>
  The scheduler of coroutines is a parameter of the walk. The properties are about evaluations that reach neither \<open>yield\<close> nor
  \<open>await\<close>: a host without a scheduler gives no answer there.
\<close>

definition no_scheduler :: "'d tw_host \<Rightarrow> bool" where
  "no_scheduler H \<longleftrightarrow> (\<forall>s. fst (th_drain_async H s) = VFuel) \<and> (\<forall>t s. fst (th_await H t s) = VFuel)"

definition host_grows :: "'d tw_host \<Rightarrow> bool" where
  "host_grows H \<longleftrightarrow> keeps grows (th_drain_async H) \<and> (\<forall>t. keeps grows (th_await H t))"

lemma keeps_no_answer: "(\<And>s. fst (m s) = VFuel) \<Longrightarrow> keeps le m"
  unfolding keeps_def by (metis kept.simps(4) prod.collapse)

lemma no_scheduler_grows: "no_scheduler H \<Longrightarrow> host_grows H"
  by (simp add: no_scheduler_def host_grows_def keeps_no_answer)

lemma walk_kept: "host_grows H \<Longrightarrow> kept grows s (walk H n j s)"
  by (simp add: host_grows_def tw.walk_keeps keepsD)

lemma walk_grows:
  assumes "host_grows H" and "walk H n j s = (r, s')" and "r \<noteq> VFuel"
  shows "(r = VPanic \<longrightarrow> it_held s' \<noteq> []) \<and> (r \<noteq> VPanic \<longrightarrow> grows s s')"
  using walk_kept [OF assms(1), of s n j] assms(2,3) by (cases r) simp_all

text \<open>The states after any number of evaluations; the files may change in between.\<close>

inductive later :: "'d tw_host \<Rightarrow> 'd interp \<Rightarrow> 'd interp \<Rightarrow> bool" for H and s where
  now: "later H s s"
| evaluated: "later H s s' \<Longrightarrow> walk H n j s' = (r, s'') \<Longrightarrow> r \<noteq> VFuel \<Longrightarrow> r \<noteq> VPanic \<Longrightarrow> later H s s''"
| outside: "later H s s' \<Longrightarrow> later H s (s'\<lparr>it_host := w\<rparr>)"

lemma later_grows:
  assumes "host_grows H" and "later H s s'"
  shows "grows s s'"
  using assms(2)
proof induction
  case now
  show ?case by (rule grows_refl)
next
  case (evaluated s' n j r s'')
  then show ?case using walk_grows [OF assms(1) evaluated.hyps(2,3)] grows_trans by blast
next
  case (outside s' w)
  then show ?case by (simp add: grows_def)
qed

text \<open>An interpreter with an empty global scope, and a host whose every module is \<open>let x = 1\<close>.\<close>

definition sample_interp :: "fixed interp" where
  "sample_interp = \<lparr>it_envs = [\<lparr>bindings = [], parent = None\<rparr>], it_global = 0, it_funcs = [], it_cells = [], it_txns = [],
     it_variants = [], it_structs = [], it_actor_defs = [], it_actors = [], it_live = [], it_pids = [], it_next_pid = 1,
     it_modules = [], it_std = [], it_cache = [], it_loading = [], it_held = [], it_host = 0\<rparr>"

definition sample_let :: "fixed stmt" where
  "sample_let = SLet (lit ''x'') None (EInt 1 span_dummy) span_dummy"

definition sample_tw_host :: "fixed tw_host" where
  "sample_tw_host = \<lparr>th_ext = fixed_ext, th_native = (\<lambda>_ _ s. (Ok VNil, it_host s)), th_file = (\<lambda>p. p), th_shown = (\<lambda>p. p), th_canonical = (\<lambda>_. Some),
     th_read = (\<lambda>_ _. Ok []), th_parse = (\<lambda>_. Ok \<lparr>pr_stmts = [sample_let], pr_span = span_dummy\<rparr>),
     th_drain_async = stopI VFuel, th_await = (\<lambda>_. stopI VFuel), th_resource = (\<lambda>_. undefined)\<rparr>"

lemma sample_no_scheduler: "no_scheduler sample_tw_host"
  by (simp add: no_scheduler_def sample_tw_host_def stopI_def)

lemmas sample_run = sample_interp_def sample_tw_host_def sample_let_def im_monad eval_e_def exec_s_def
  tw_load_module_def run_tw_module_def finish_tw_module_def alloc_tw_module_def child_scope_def env_child_def env_new_def
  defineI_def env_define_def bindings_clone_def eachI_def insert_binding_def numeral_2_eq_2 numeral_3_eq_3

lemma max_retries_Suc: "Suc 63 = max_retries"
  by (simp add: max_retries_def)

lemmas transact_first = transact_attempts.simps(2) [of 63, unfolded max_retries_Suc]

text \<open>
  C8. What every evaluation of an expression or statement and every call keeps, if it reaches neither \<open>yield\<close> nor \<open>await\<close>.
  With a value and with an error: transactions are balanced, the borrows of scopes have ended, the global scope
  and the built-in modules stay, scopes keep their parents, closures, modules and cells are only added,
  and no cached module is replaced. It panics only while a map literal borrows a scope: a commit always
  finds its transaction.
\<close>

theorem evaluation_keeps_state:
  assumes "no_scheduler H" and "walk H n j s = (r, s')" and "r \<noteq> VFuel"
  shows "if r = VPanic then it_held s' \<noteq> []
    else length (it_txns s') = length (it_txns s) \<and> it_held s' = it_held s \<and> it_global s' = it_global s \<and> it_std s' = it_std s
    \<and> prefix (map parent (it_envs s)) (map parent (it_envs s')) \<and> prefix (it_funcs s) (it_funcs s')
    \<and> prefix (it_modules s) (it_modules s') \<and> length (it_cells s) \<le> length (it_cells s')
    \<and> map_of (it_cache s) \<subseteq>\<^sub>m map_of (it_cache s')"
  using walk_grows [OF no_scheduler_grows [OF assms(1)] assms(2,3)] by (simp add: grows_def same_parents_def cache_grows_def)

theorem evaluation_keeps_state_witness:
  "\<exists>s'. walk sample_tw_host 3 (JExpr 0 (ETransact (ESharedExpr (EInt 1 span_dummy) span_dummy) span_dummy)) sample_interp = (VOk (VShared 0), s')
    \<and> length (it_txns s') = 0 \<and> map_of (it_cache sample_interp) \<subseteq>\<^sub>m map_of (it_cache s')"
proof -
  let ?j = "JExpr 0 (ETransact (ESharedExpr (EInt 1 span_dummy) span_dummy) span_dummy)"
  obtain s' where run: "walk sample_tw_host 3 ?j sample_interp = (VOk (VShared 0), s')"
    by (simp add: sample_run transact_first commit_attempt_def push_txn_def alloc_cell_def take_txn_def commit_txn_def conflicts_def
        transaction_new_def)
  show ?thesis
    using evaluation_keeps_state [OF sample_no_scheduler run] run by (simp add: sample_interp_def)
qed

text \<open>
  The borrow that a map literal holds is fatal for a lazy import: the name is loaded, and binding the module in the
  borrowed scope panics.
\<close>

lemma lazy_entry_panics:
  assumes "env_get x env (it_envs s) = Some (Some (VLazyImport p))"
    and "tw_load_module H (walk H n) p sp (s\<lparr>it_held := env # it_held s\<rparr>) = (VOk m, s1)" and "env \<in> set (it_held s1)"
  shows "entry_value (walk H (Suc n)) env (EIdent x sp) s = (VPanic, s1)"
proof -
  let ?s = "s\<lparr>it_held := env # it_held s\<rparr>"
  have look: "lookupI x env s = (VOk (Some (VLazyImport p)), s)" "lookupI x env ?s = (VOk (Some (VLazyImport p)), ?s)"
    using assms(1) by (simp_all add: lookupI_def)
  have "eval_e (walk H (Suc n)) env (EIdent x sp) ?s = (VPanic, s1)"
    using assms(2,3) look(2) by (simp add: eval_e_def eval_ident_def bindI_def thenI_def defineI_def)
  then show ?thesis using look(1) by (simp add: entry_value_def bindI_def holding_def)
qed

text \<open>
  C40. A map literal with a value that is the name of a lazy import panics once the module is loaded: with
  \<open>lazy import io\<close>, the expression \<open>{ h: io }\<close> ends the interpreter, although \<open>io\<close> alone evaluates to the module.
\<close>

theorem lazy_import_in_map_panics:
  assumes "no_scheduler H" and "env_get x env (it_envs s) = Some (Some (VLazyImport p))"
    and "tw_load_module H (walk H n) p sp (s\<lparr>it_held := env # it_held s\<rparr>) = (VOk m, s1)"
  shows "walk H (Suc (Suc n)) (JExpr env (EMapLit ((EIdent k ksp, EIdent x sp) # rest) msp)) s = (VPanic, s1)"
proof -
  have "keeps grows (tw_load_module H (walk H n) p sp)"
    by (rule tw.load) (simp add: keeps_def walk_kept no_scheduler_grows [OF assms(1)])
  then have "it_held s1 = env # it_held s"
    using keepsD [of grows "tw_load_module H (walk H n) p sp" "s\<lparr>it_held := env # it_held s\<rparr>"] assms(3) by (simp add: grows_def)
  then have "entry_value (walk H (Suc n)) env (EIdent x sp) s = (VPanic, s1)"
    by (intro lazy_entry_panics [OF assms(2,3)]) simp
  then show ?thesis
    by (subst walk.simps) (simp add: eval_map_lit_def eval_entry_def bindI_def retI_def del: walk.simps)
qed

definition lazy_scope :: "fixed interp" where
  "lazy_scope = sample_interp\<lparr>it_envs := [\<lparr>bindings = [(lit ''io'', VLazyImport (lit ''io''))], parent = None\<rparr>], it_std := [(lit ''io'', 0)]\<rparr>"

theorem lazy_import_in_map_panics_witness:
  "fst (walk sample_tw_host 2 (JExpr 0 (EMapLit [(EIdent (lit ''h'') span_dummy, EIdent (lit ''io'') span_dummy)] span_dummy)) lazy_scope) = VPanic"
proof -
  have g: "env_get (lit ''io'') 0 (it_envs lazy_scope) = Some (Some (VLazyImport (lit ''io'')))"
    by (simp add: lazy_scope_def env_get.simps [of _ 0])
  have l: "tw_load_module sample_tw_host (walk sample_tw_host 0) (lit ''io'') span_dummy (lazy_scope\<lparr>it_held := 0 # it_held lazy_scope\<rparr>)
      = (VOk 0, lazy_scope\<lparr>it_held := 0 # it_held lazy_scope\<rparr>)"
    by (simp add: tw_load_module_def lazy_scope_def)
  have two: "2 = Suc (Suc 0)" by simp
  show ?thesis
    unfolding two using lazy_import_in_map_panics [OF sample_no_scheduler g l, of "lit ''h''" span_dummy "[]" span_dummy] by simp
qed

lemma load_resolved:
  assumes "tw_load_module H R path sp s = (VOk m, s')"
  shows "map_of (it_std s) path = Some m \<and> s' = s
    \<or> map_of (it_std s) path = None \<and> (\<exists>fl. th_canonical H (it_host s) (th_file H path) = Some fl \<and> map_of (it_cache s') fl = Some m)"
  using assms unfolding tw_load_module_def
  by (auto simp: run_tw_module_def finish_tw_module_def thenI_def bindI_def getI_def modI_def alloc_tw_module_def retI_def
      child_scope_def split: option.splits if_splits sum.splits prod.splits vres.splits)

text \<open>
  C14. A module is loaded once: after a successful load of a path, and whatever is evaluated in between without \<open>yield\<close> and
  \<open>await\<close>, every further load of the path gives the same module and changes nothing, with whatever evaluator, if the
  path still resolves to the same file.
\<close>

theorem module_loaded_once:
  assumes "no_scheduler H" and "tw_load_module H (walk H k) path sp s = (VOk m, s1)" and "later H s1 s2"
    and "th_canonical H (it_host s2) (th_file H path) = th_canonical H (it_host s) (th_file H path)"
  shows "tw_load_module H R path sp' s2 = (VOk m, s2)"
proof -
  note H = no_scheduler_grows [OF assms(1)]
  have "kept grows s (tw_load_module H (walk H k) path sp s)"
    using tw.load [of "walk H k"] walk_kept [OF H] by (metis keepsD keepsI)
  then have "it_std s1 = it_std s" using assms(2) by (simp add: grows_def)
  moreover have "it_std s2 = it_std s1" "map_of (it_cache s1) \<subseteq>\<^sub>m map_of (it_cache s2)"
    using later_grows [OF H assms(3)] by (simp_all add: grows_def cache_grows_def)
  ultimately show ?thesis
    using load_resolved [OF assms(2)] assms(4) unfolding tw_load_module_def
    by (auto simp: map_le_def dom_def split: option.split)
qed

theorem module_loaded_once_witness:
  "\<exists>s. tw_load_module sample_tw_host (walk sample_tw_host 3) (lit ''m'') span_dummy sample_interp = (VOk 0, s)
    \<and> (\<exists>s'. walk sample_tw_host 1 (JExpr 0 (EInt 7 span_dummy)) s = (VOk (VInt 7), s')
      \<and> tw_load_module sample_tw_host (walk sample_tw_host 0) (lit ''m'') span_dummy s' = (VOk 0, s'))"
proof -
  obtain s :: "fixed interp" where l: "tw_load_module sample_tw_host (walk sample_tw_host 3) (lit ''m'') span_dummy sample_interp = (VOk 0, s)"
    by (simp add: sample_run)
  have w: "walk sample_tw_host 1 (JExpr 0 (EInt 7 span_dummy)) s = (VOk (VInt 7), s)"
    by (simp add: sample_run)
  have "later sample_tw_host s s" using later.evaluated [OF later.now w] by simp
  then have "tw_load_module sample_tw_host (walk sample_tw_host 0) (lit ''m'') span_dummy s = (VOk 0, s)"
    by (rule module_loaded_once [OF sample_no_scheduler l]) (simp add: sample_tw_host_def)
  then show ?thesis using l w by blast
qed

end
