(* ===== verification/Tw_Plain.thy ===== *)
theory Tw_Plain
  imports Tw_Grows Compiler_Spec
begin

text \<open>
  The tree-walker implements the big-step semantics of plain expressions, without any change of its state;
  so it agrees with the compiler and the virtual machine.
\<close>

section \<open>Enough depth\<close>

definition enough :: "(nat \<Rightarrow> bool) \<Rightarrow> bool" where
  "enough P \<longleftrightarrow> (\<exists>k. \<forall>n \<ge> k. P n)"

lemma enough_all: "(\<And>n. P n) \<Longrightarrow> enough P"
  by (simp add: enough_def)

lemma enough_next: "(\<And>n. P (Suc n)) \<Longrightarrow> enough P"
  unfolding enough_def by (metis Suc_le_D)

lemma enough_up: "enough P \<Longrightarrow> (\<And>n. P n \<Longrightarrow> Q (Suc n)) \<Longrightarrow> enough Q"
  unfolding enough_def by (metis Suc_le_D Suc_le_mono)

lemma enough_mono: "enough P \<Longrightarrow> (\<And>n. P n \<Longrightarrow> Q n) \<Longrightarrow> enough Q"
  by (auto simp: enough_def)

lemma enough_both:
  assumes "enough P" and "enough Q"
  shows "enough (\<lambda>n. P n \<and> Q n)"
proof -
  obtain k l where "\<forall>n \<ge> k. P n" "\<forall>n \<ge> l. Q n" using assms by (auto simp: enough_def)
  then show ?thesis unfolding enough_def by (intro exI [of _ "max k l"]) simp
qed

lemma enough_up2: "enough P \<Longrightarrow> enough Q \<Longrightarrow> (\<And>n. P n \<Longrightarrow> Q n \<Longrightarrow> S (Suc n)) \<Longrightarrow> enough S"
  using enough_up [OF enough_both] by blast

section \<open>Computations with a given outcome\<close>

definition agrees :: "('d, 'a) outcome \<Rightarrow> ('d, 'a) vres \<Rightarrow> bool" where
  "agrees r v \<longleftrightarrow> (case r of
     Inr a \<Rightarrow> v = VOk a
   | Inl e \<Rightarrow> (\<exists>e'. v = VErr e' \<and> erase e' = e))"

text \<open>The outcome, up to the position of an error, without a change of the state.\<close>

definition settles :: "('d, 'a) im \<Rightarrow> 'd interp \<Rightarrow> ('d, 'a) outcome \<Rightarrow> bool" where
  "settles m s r \<longleftrightarrow> (\<exists>v. m s = (v, s) \<and> agrees r v)"

lemma settles_ret [simp]: "settles (retI a) s (Ok a)" "settles (failI e) s (Err e') = (erase e = e')"
  by (auto simp: settles_def agrees_def im_simps)

lemma settles_bind: "settles m s (Ok a) \<Longrightarrow> settles (f a) s r \<Longrightarrow> settles (bindI m f) s r"
  by (auto simp: settles_def agrees_def bindI_def)

lemma settles_fail: "settles m s (Err e) \<Longrightarrow> settles (bindI m f) s (Err e)"
  by (auto simp: settles_def agrees_def bindI_def)

lemma settles_bindE: "settles m s q \<Longrightarrow> (\<And>a. q = Ok a \<Longrightarrow> settles (f a) s (g a)) \<Longrightarrow> settles (bindI m f) s (bindE q g)"
  by (cases q) (auto intro: settles_bind settles_fail)

lemma settles_return: "settles m s q \<Longrightarrow> settles (bindI m retI) s q"
  using settles_bindE [of m s q retI Ok] by (cases q) simp_all

lemma settles_lift: "settles (liftI r) s (erased r)"
  by (cases r) (simp_all add: im_simps)

lemma settles_spanned: "settles m s (erased r) \<Longrightarrow> settles (spannedI sp m) s (erased r)"
  by (cases r) (auto simp: settles_def agrees_def spannedI_def catchI_def retI_def failI_def)

text \<open>The outcomes of a list of expressions, up to the first error.\<close>

fun all_settle :: "('d expr \<Rightarrow> ('d, 'd rt_value) im) \<Rightarrow> 'd interp \<Rightarrow> 'd expr list \<Rightarrow> ('d, 'd rt_value list) outcome \<Rightarrow> bool" where
  "all_settle f s [] r \<longleftrightarrow> r = Ok []"
| "all_settle f s (e # es) r \<longleftrightarrow>
     (\<exists>x. settles (f e) s (Err x) \<and> r = Err x)
   \<or> (\<exists>v q. settles (f e) s (Ok v) \<and> all_settle f s es q \<and> r = bindE q (\<lambda>vs. Ok (v # vs)))"

lemma settles_map: "all_settle f s es r \<Longrightarrow> settles (mapI f es) s r"
proof (induction es arbitrary: r)
  case (Cons e es)
  then show ?case
  proof (elim all_settle.simps(2) [THEN iffD1, elim_format] disjE exE conjE)
    fix v q
    assume v: "settles (f e) s (Ok v)" and q: "all_settle f s es q" and r: "r = bindE q (\<lambda>vs. Ok (v # vs))"
    have "settles (bindI (mapI f es) (\<lambda>vs. retI (v # vs))) s r"
      using Cons.IH [OF q] r by (cases q) (auto intro: settles_bind settles_fail)
    then show ?thesis using v by (simp add: settles_bind)
  qed (auto intro: settles_fail)
qed simp

section \<open>The tree-walker on plain expressions\<close>

text \<open>The names of a scope, none of them a shared cell or a lazy import.\<close>

definition scope_ok :: "(str \<Rightarrow> 'd rt_value option) \<Rightarrow> env_ref \<Rightarrow> 'd interp \<Rightarrow> bool" where
  "scope_ok look env s \<longleftrightarrow> (\<forall>x. env_get x env (it_envs s) = Some (look x) \<and> pred_option direct (look x))"

lemma lookup_run: "scope_ok look env s \<Longrightarrow> lookupI x env s = (VOk (look x), s)"
  by (simp add: scope_ok_def lookupI_def)

lemma settles_ident:
  assumes "scope_ok look env s"
  shows "look x = Some v \<Longrightarrow> settles (eval_ident H R env x sp) s (Ok v)"
    and "look x = None \<Longrightarrow> settles (eval_ident H R env x sp) s (Err (NameError x None))"
proof -
  have "pred_option direct (look x)" using assms by (simp add: scope_ok_def)
  then show "look x = Some v \<Longrightarrow> settles (eval_ident H R env x sp) s (Ok v)"
    using lookup_run [OF assms, of x]
    by (cases v) (auto simp: eval_ident_def bindI_def direct_def settles_def agrees_def retI_def)
  show "look x = None \<Longrightarrow> settles (eval_ident H R env x sp) s (Err (NameError x None))"
    using lookup_run [OF assms, of x]
    by (auto simp: eval_ident_def bindI_def settles_def agrees_def failI_def name_error_def erase_def)
qed

lemma settles_det: "settles m s r \<Longrightarrow> settles m s r' \<Longrightarrow> r = r'"
  by (cases r; cases r') (auto simp: settles_def agrees_def)

text \<open>A name evaluates to what the scope has for it, whether the scope is borrowed or not.\<close>

definition ident_outcome :: "(str \<Rightarrow> 'd rt_value option) \<Rightarrow> str \<Rightarrow> ('d, 'd rt_value) outcome" where
  "ident_outcome look x = (case look x of Some v \<Rightarrow> Ok v | None \<Rightarrow> Err (NameError x None))"

definition names_settle :: "'d walker \<Rightarrow> (str \<Rightarrow> 'd rt_value option) \<Rightarrow> env_ref \<Rightarrow> 'd interp \<Rightarrow> bool" where
  "names_settle R look env s \<longleftrightarrow> (\<forall>x sp held. settles (eval_e R env (EIdent x sp)) (s\<lparr>it_held := held\<rparr>) (ident_outcome look x))"

lemma settles_holding: "settles m (s\<lparr>it_held := env # it_held s\<rparr>) r \<Longrightarrow> settles (holding env m) s r"
  by (cases r) (auto simp: settles_def agrees_def holding_def)

lemma settles_value:
  assumes "scope_ok look env s" and "names_settle R look env s" and "settles (eval_e R env e) s r"
  shows "settles (entry_value R env e) s r"
proof (cases e)
  case (EIdent x sp)
  have "settles (eval_e R env e) (s\<lparr>it_held := it_held s\<rparr>) (ident_outcome look x)"
    using assms(2) EIdent unfolding names_settle_def by blast
  then have r: "r = ident_outcome look x" using settles_det [OF assms(3)] by simp
  have held: "settles (holding env (eval_e R env e)) s r"
    using assms(2) EIdent r by (intro settles_holding) (simp add: names_settle_def)
  have "pred_option direct (look x)" using assms(1) by (simp add: scope_ok_def)
  then have "entry_value R env e s = holding env (eval_e R env e) s"
    using lookup_run [OF assms(1), of x] EIdent
    by (auto simp: entry_value_def bindI_def direct_def split: option.split rt_value.splits)
  then show ?thesis using held by (simp add: settles_def)
qed (use assms(3) in \<open>simp_all add: entry_value_def\<close>)

lemma settles_key:
  assumes "\<And>x sp. settles (eval_e R env (EStr [LiteralPart x] sp)) s (Ok (VStr x))"
    and "settles (eval_e R env (key_expr k)) s r"
  shows "settles (case k of EIdent x _ \<Rightarrow> retI (VStr x) | k \<Rightarrow> eval_e R env k) s r"
proof (cases k)
  case (EIdent x sp)
  then have "r = Ok (VStr x)" using settles_det [OF assms(2)] assms(1) by (auto simp: key_expr_def)
  then show ?thesis by (simp add: EIdent)
qed (use assms(2) in \<open>simp_all add: key_expr_def\<close>)

lemma settles_entries:
  assumes "scope_ok look env s" and str: "\<And>x sp. settles (eval_e R env (EStr [LiteralPart x] sp)) s (Ok (VStr x))"
    and names: "names_settle R look env s" and "all_settle (eval_e R env) s (entry_exprs entries) r"
  shows "settles (mapI (eval_entry R env) entries) s (bindE r (\<lambda>vs. Ok (pairs_of vs)))"
  using assms(4)
proof (induction entries arbitrary: r)
  case Nil
  then show ?case by (simp add: entry_exprs_def)
next
  case (Cons kv entries)
  obtain k v where kv: "kv = (k, v)" by fastforce
  note key = settles_key [OF str]
  note arg = settles_value [OF assms(1) names]
  have entry: "settles (eval_entry R env kv) s (bindE kr (\<lambda>a. bindE vr (\<lambda>b. Ok (a, b))))"
    if "settles (eval_e R env (key_expr k)) s kr" "settles (eval_e R env v) s vr" for kr vr
    unfolding eval_entry_def kv fst_conv snd_conv
    by (intro settles_bindE key [OF that(1)] arg [OF that(2)]) simp
  have stop: "settles (mapI (eval_entry R env) (kv # entries)) s (Err x)" if "settles (eval_entry R env kv) s (Err x)" for x
    using that by (simp add: settles_fail)
  have go: "settles (mapI (eval_entry R env) (kv # entries)) s (bindE (bindE q (\<lambda>vs. Ok (a # b # vs))) (\<lambda>vs. Ok (pairs_of vs)))"
    if "settles (eval_entry R env kv) s (Ok (a, b))" "all_settle (eval_e R env) s (entry_exprs entries) q" for a b q
    using settles_bindE [OF Cons.IH [OF that(2)], of "\<lambda>ps. retI ((a, b) # ps)" "\<lambda>ps. Ok ((a, b) # ps)"]
    by (cases q) (simp_all add: settles_bind [OF that(1)])
  consider (key) x where "settles (eval_e R env (key_expr k)) s (Err x)" "r = Err x"
    | (arg) a x where "settles (eval_e R env (key_expr k)) s (Ok a)" "settles (eval_e R env v) s (Err x)" "r = Err x"
    | (ok) a b q where "settles (eval_e R env (key_expr k)) s (Ok a)" "settles (eval_e R env v) s (Ok b)"
        "all_settle (eval_e R env) s (entry_exprs entries) q" "r = bindE (bindE q (\<lambda>vs. Ok (b # vs))) (\<lambda>vs. Ok (a # vs))"
    using Cons.prems by (auto simp: entry_exprs_def kv)
  then show ?case
  proof cases
    case key
    then have "settles (eval_entry R env kv) s (Err x)"
      using \<open>settles (eval_e R env (key_expr k)) s (Err x)\<close> settles_key [OF str] by (simp add: eval_entry_def kv settles_fail)
    then show ?thesis using stop key by simp
  next
    case arg
    then show ?thesis using stop entry [OF arg(1,2)] by simp
  next
    case ok
    then show ?thesis using go [OF _ ok(3)] entry [OF ok(1,2)] by (cases q) simp_all
  qed
qed

lemma settles_field:
  assumes "settles (eval_e R env a) s r"
  shows "r = Ok v \<Longrightarrow> own_value v \<Longrightarrow> settles (eval_field X R env a name sp) s (erased (field_of X v name))"
    and "r = Err e \<Longrightarrow> settles (eval_field X R env a name sp) s (Err e)"
proof -
  have "settles (field_value name sp X v) s (erased (field_of X v name))" if "own_value v"
    using that by (cases v) (auto simp: field_value_def field_of_def own_value_def erase_def split: option.split)
  moreover have "settles (getI (deref v)) s (Ok v)" if "own_value v"
    using that by (cases v) (auto simp: own_value_def deref_def settles_def agrees_def getI_def)
  ultimately show "r = Ok v \<Longrightarrow> own_value v \<Longrightarrow> settles (eval_field X R env a name sp) s (erased (field_of X v name))"
    using assms by (auto simp: eval_field_def intro!: settles_bind)
  show "r = Err e \<Longrightarrow> settles (eval_field X R env a name sp) s (Err e)"
    using assms by (auto simp: eval_field_def intro: settles_fail)
qed

lemma tw_binop_apply: "strict_op b \<Longrightarrow> tw_binop X b v w = apply_bin X b v w"
  by (cases b) (auto simp: strict_op_def apply_bin_def tw_truth_def truth_def tw_add_def op_add_def split: rt_value.split)

lemma tw_unary_apply: "erased (tw_unary X sp u v) = erased (apply_un X u v)"
  by (cases u; cases v) (simp_all add: tw_unary_def apply_un_def expected_def erase_def)

lemma settles_binop:
  assumes "settles (eval_e R env l) s (Ok v)"
  shows "strict_op b \<Longrightarrow> settles (eval_e R env r) s (Ok w) \<Longrightarrow> settles (eval_binop X R env b l r sp) s (erased (apply_bin X b v w))"
    and "strict_op b \<Longrightarrow> settles (eval_e R env r) s (Err e) \<Longrightarrow> settles (eval_binop X R env b l r sp) s (Err e)"
    and "\<not> is_truthy X v \<Longrightarrow> settles (eval_binop X R env BAnd l r sp) s (Ok v)"
    and "is_truthy X v \<Longrightarrow> settles (eval_e R env r) s q \<Longrightarrow> settles (eval_binop X R env BAnd l r sp) s q"
    and "is_truthy X v \<Longrightarrow> settles (eval_binop X R env BOr l r sp) s (Ok v)"
    and "\<not> is_truthy X v \<Longrightarrow> settles (eval_e R env r) s q \<Longrightarrow> settles (eval_binop X R env BOr l r sp) s q"
proof -
  show "strict_op b \<Longrightarrow> settles (eval_e R env r) s (Ok w) \<Longrightarrow> settles (eval_binop X R env b l r sp) s (erased (apply_bin X b v w))"
    by (auto simp: eval_binop_def strict_op_def tw_binop_apply intro!: settles_bind [OF assms] settles_spanned settles_lift
        intro: settles_bind)
  show "strict_op b \<Longrightarrow> settles (eval_e R env r) s (Err e) \<Longrightarrow> settles (eval_binop X R env b l r sp) s (Err e)"
    by (auto simp: eval_binop_def strict_op_def intro!: settles_bind [OF assms] intro: settles_fail)
qed (use assms in \<open>auto simp: eval_binop_def intro!: settles_bind [OF assms] settles_return\<close>)

text \<open>Enough depth for the semantics.\<close>

lemma walk_expr: "eval_e (walk H (Suc n)) env e = eval_expr H (walk H n) env e"
  by (simp add: eval_e_def)

definition settles_deep :: "'d tw_host \<Rightarrow> env_ref \<Rightarrow> 'd interp \<Rightarrow> 'd expr \<Rightarrow> ('d, 'd rt_value) outcome \<Rightarrow> bool" where
  "settles_deep H env s e r \<longleftrightarrow> enough (\<lambda>n. settles (eval_e (walk H n) env e) s r)"

lemma deep_0: "(\<And>R. settles (eval_expr H R env e) s r) \<Longrightarrow> settles_deep H env s e r"
  unfolding settles_deep_def by (rule enough_next) (simp add: walk_expr del: walk.simps)

lemma deep_1:
  "settles_deep H env s a q \<Longrightarrow> (\<And>R. settles (eval_e R env a) s q \<Longrightarrow> settles (eval_expr H R env e) s r) \<Longrightarrow>
    settles_deep H env s e r"
  unfolding settles_deep_def by (erule enough_up) (simp add: walk_expr del: walk.simps)

lemma deep_2:
  "settles_deep H env s a q \<Longrightarrow> settles_deep H env s b q' \<Longrightarrow>
    (\<And>R. settles (eval_e R env a) s q \<Longrightarrow> settles (eval_e R env b) s q' \<Longrightarrow> settles (eval_expr H R env e) s r) \<Longrightarrow>
    settles_deep H env s e r"
  unfolding settles_deep_def by (erule (1) enough_up2) (simp add: walk_expr del: walk.simps)

lemma deep_all:
  "enough (\<lambda>n. all_settle (eval_e (walk H n) env) s es q) \<Longrightarrow>
    (\<And>R. all_settle (eval_e R env) s es q \<Longrightarrow> settles (eval_expr H R env e) s r) \<Longrightarrow> settles_deep H env s e r"
  unfolding settles_deep_def by (erule enough_up) (simp add: walk_expr del: walk.simps)

lemma settles_str: "settles (eval_expr H R env (EStr [LiteralPart t] sp)) s (Ok (VStr t))"
  by (simp add: settles_def agrees_def bindI_def retI_def)

lemma deep_map:
  assumes "scope_ok look env s" and "enough (\<lambda>n. all_settle (eval_e (walk H n) env) s (entry_exprs entries) q)"
  shows "settles_deep H env s (EMapLit entries sp) (bindE q (\<lambda>vs. Ok (value_map (th_ext H) (pairs_of vs))))"
proof -
  have str: "enough (\<lambda>n. \<forall>x sp. settles (eval_e (walk H n) env (EStr [LiteralPart x] sp)) s (Ok (VStr x)))"
    by (rule enough_next) (simp add: walk_expr settles_str del: walk.simps eval_expr.simps)
  have names: "enough (\<lambda>n. names_settle (walk H n) look env s)"
  proof (rule enough_next, unfold names_settle_def, intro allI)
    fix n x sp held
    have "scope_ok look env (s\<lparr>it_held := held\<rparr>)" using assms(1) by (simp add: scope_ok_def)
    then show "settles (eval_e (walk H (Suc n)) env (EIdent x sp)) (s\<lparr>it_held := held\<rparr>) (ident_outcome look x)"
      by (simp add: walk_expr settles_ident ident_outcome_def del: walk.simps split: option.split)
  qed
  have "settles (eval_map_lit (th_ext H) R env entries) s (bindE q (\<lambda>vs. Ok (value_map (th_ext H) (pairs_of vs))))"
    if "all_settle (eval_e R env) s (entry_exprs entries) q"
      "(\<forall>x sp. settles (eval_e R env (EStr [LiteralPart x] sp)) s (Ok (VStr x))) \<and> names_settle R look env s" for R
    using settles_entries [OF assms(1) _ _ that(1)] that(2)
    by (cases q) (auto simp: eval_map_lit_def intro: settles_bind settles_fail)
  then show ?thesis
    unfolding settles_deep_def by (intro enough_up2 [OF assms(2) enough_both [OF str names]]) (simp add: walk_expr del: walk.simps)
qed

lemma walk_implements:
  assumes ok: "scope_ok look env s"
  shows "evals (th_ext H) look e r \<Longrightarrow> settles_deep H env s e r"
    and "evals_all (th_ext H) look es rs \<Longrightarrow> enough (\<lambda>n. all_settle (eval_e (walk H n) env) s es rs)"
proof (induction rule: evals_evals_all.inducts)
  case (ev_str t sp)
  show ?case by (rule deep_0) (rule settles_str)
next
  case (ev_ident x v sp)
  then show ?case by (intro deep_0) (simp add: settles_ident [OF ok])
next
  case (ev_unbound x sp)
  then show ?case by (intro deep_0) (simp add: settles_ident [OF ok])
next
  case (ev_vec items vs sp)
  show ?case by (rule deep_all [OF ev_vec(2)]) (auto intro: settles_bind settles_map)
next
  case (ev_vec_err items e sp)
  show ?case by (rule deep_all [OF ev_vec_err(2)]) (auto intro: settles_fail settles_map)
next
  case (ev_set items vs sp)
  show ?case by (rule deep_all [OF ev_set(2)]) (auto intro: settles_bind settles_map)
next
  case (ev_set_err items e sp)
  show ?case by (rule deep_all [OF ev_set_err(2)]) (auto intro: settles_fail settles_map)
next
  case (ev_map entries vs sp)
  show ?case using deep_map [OF ok ev_map(2)] by simp
next
  case (ev_map_err entries e sp)
  show ?case using deep_map [OF ok ev_map_err(2)] by simp
next
  case (ev_bin b l v r w sp)
  show ?case by (rule deep_2 [OF ev_bin(3,5)]) (simp add: settles_binop ev_bin(1))
next
  case (ev_bin_left l e b r sp)
  show ?case by (rule deep_1 [OF ev_bin_left(2)]) (simp add: eval_binop_def settles_fail)
next
  case (ev_bin_right b l v r e sp)
  show ?case by (rule deep_2 [OF ev_bin_right(3,5)]) (simp add: settles_binop ev_bin_right(1))
next
  case (ev_and_stop l v r sp)
  then show ?case by (intro deep_1 [OF ev_and_stop(2)]) (simp add: settles_binop)
next
  case (ev_and_go l v r res sp)
  show ?case by (rule deep_2 [OF ev_and_go(2,5)]) (simp add: settles_binop ev_and_go(3))
next
  case (ev_or_stop l v r sp)
  then show ?case by (intro deep_1 [OF ev_or_stop(2)]) (simp add: settles_binop)
next
  case (ev_or_go l v r res sp)
  show ?case by (rule deep_2 [OF ev_or_go(2,5)]) (simp add: settles_binop ev_or_go(3))
next
  case (ev_un a v u sp)
  show ?case
    by (rule deep_1 [OF ev_un(2)])
      (auto intro!: settles_bind simp: tw_unary_apply [of _ sp u v, symmetric] settles_lift)
next
  case (ev_un_err a e u sp)
  show ?case by (rule deep_1 [OF ev_un_err(2)]) (simp add: settles_fail)
next
  case (ev_if_yes cond v yes res no sp)
  show ?case by (rule deep_2 [OF ev_if_yes(2,5)]) (simp add: eval_if_def settles_bind ev_if_yes(3))
next
  case (ev_if_no cond v no res yes sp)
  show ?case by (rule deep_2 [OF ev_if_no(2,5)]) (simp add: eval_if_def eval_opt_def settles_bind ev_if_no(3))
next
  case (ev_if_nil cond v yes sp)
  then show ?case by (intro deep_1 [OF ev_if_nil(2)]) (simp add: eval_if_def eval_opt_def settles_bind)
next
  case (ev_if_err cond e yes no sp)
  show ?case by (rule deep_1 [OF ev_if_err(2)]) (simp add: eval_if_def settles_fail)
next
  case (ev_paren a res sp)
  show ?case by (rule deep_1 [OF ev_paren(2)]) simp
next
  case (ev_field a v name sp)
  then show ?case by (intro deep_1 [OF ev_field(2)]) (simp add: settles_field)
next
  case (ev_field_err a e name sp)
  show ?case by (rule deep_1 [OF ev_field_err(2)]) (simp add: settles_field)
next
  case (ev_more e v es vs)
  show ?case
    by (rule enough_mono [OF enough_both [OF ev_more(2) [unfolded settles_deep_def] ev_more(4)]]) force
next
  case (ev_first_err e x es)
  show ?case by (rule enough_mono [OF ev_first_err(2) [unfolded settles_deep_def]]) simp
next
  case (ev_rest_err e v es x)
  show ?case
    by (rule enough_mono [OF enough_both [OF ev_rest_err(2) [unfolded settles_deep_def] ev_rest_err(4)]]) force
qed (auto intro!: deep_0 enough_all)

lemma walk_outcome:
  assumes "scope_ok look env s" and "evals (th_ext H) look e r"
  shows "\<exists>n0. \<forall>n \<ge> n0. \<exists>v. walk H n (JExpr env e) s = (v, s) \<and> agrees r v"
  using walk_implements(1) [OF assms] by (simp add: settles_deep_def enough_def settles_def eval_e_def)

text \<open>
  C10. The tree-walker does what the language says: a plain expression evaluated in a scope
  gives the value or the error of the semantics, for every sufficiently large depth, and
  leaves the interpreter as it was.
\<close>

theorem tree_walk_implements_semantics:
  assumes "evals (th_ext H) look e r"
    and "\<And>x. env_get x env (it_envs s) = Some (look x) \<and> pred_option direct (look x)"
  shows "\<exists>n0. \<forall>n \<ge> n0. \<exists>v. walk H n (JExpr env e) s = (v, s) \<and> (case r of
      Inr w \<Rightarrow> v = VOk w
    | Inl err \<Rightarrow> \<exists>err'. v = VErr err' \<and> erase err' = err)"
  using walk_outcome [of look env s H e r] assms by (simp add: scope_ok_def agrees_def)

lemma sample_sum_evals: "evals fixed_ext (map_of [(lit ''x'', VInt 41)]) sample_sum (Ok (VInt 42))"
proof -
  have "evals fixed_ext (map_of [(lit ''x'', VInt 41)]) sample_sum (erased (apply_bin fixed_ext BAdd (VInt 1) (VInt 41)))"
    unfolding sample_sum_def by (rule ev_bin) (auto intro: evals_evals_all.intros simp: strict_op_def)
  then show ?thesis by (simp add: apply_bin_def op_add_def erased_def)
qed

definition sample_scope :: "fixed interp" where
  "sample_scope = sample_interp\<lparr>it_envs := [\<lparr>bindings = [(lit ''x'', VInt 41)], parent = None\<rparr>]\<rparr>"

lemma sample_scope_get: "env_get x 0 (it_envs sample_scope) = Some (map_of [(lit ''x'', VInt 41)] x)"
  by (simp add: env_get.simps [of x 0] sample_scope_def)

theorem tree_walk_implements_semantics_witness:
  "\<exists>n. walk sample_tw_host n (JExpr 0 sample_sum) sample_scope = (VOk (VInt 42), sample_scope)"
proof -
  have e: "evals (th_ext sample_tw_host) (map_of [(lit ''x'', VInt 41)]) sample_sum (Ok (VInt 42))"
    using sample_sum_evals by (simp add: sample_tw_host_def)
  have g: "env_get x 0 (it_envs sample_scope) = Some (map_of [(lit ''x'', VInt 41)] x)
      \<and> pred_option direct (map_of [(lit ''x'', VInt 41)] x)" for x
    using sample_scope_get [of x] by (simp add: direct_def)
  from tree_walk_implements_semantics [OF e g] show ?thesis by auto
qed

text \<open>
  C2. The two engines agree: for a plain expression whose names have the same direct values in the globals of
  the virtual machine and in a scope of the tree-walker, running its compiled code and walking
  its tree end in the same value, or in errors that differ at most in position and wording.
\<close>

theorem engines_agree:
  assumes "evals X (map_of (globals s)) e r" and "plain e" and "h_ext H = X" and "th_ext H' = X"
    and "compile_program_with_types X \<lparr>pr_stmts = [SExpr e], pr_span = sp\<rparr> vs ss = Some (k, vs', ss')"
    and "length (ch_code k) < 65536" and "live_actors s = []" and "list_all (direct \<circ> snd) (globals s)"
    and "\<And>x. env_get x env (it_envs t) = Some (map_of (globals s) x)"
  shows "\<exists>n0. \<forall>n \<ge> n0. \<forall>m \<ge> n0. agrees r (fst (run_chunk H n k s)) \<and> agrees r (fst (walk H' m (JExpr env e) t))"
proof -
  have "pred_option direct (map_of (globals s) x)" for x
    using assms(8) map_of_SomeD [of "globals s" x] by (cases "map_of (globals s) x") (force simp: list_all_iff)+
  then have ok: "scope_ok (map_of (globals s)) env t" using assms(9) by (simp add: scope_ok_def)
  obtain a where a: "\<forall>n \<ge> a. \<exists>v. walk H' n (JExpr env e) t = (v, t) \<and> agrees r v"
    using walk_outcome [OF ok assms(1) [folded assms(4)]] by blast
  obtain b where b: "\<forall>n \<ge> b. agrees r (fst (run_chunk H n k s))"
    using compiled_plain_runs [OF assms(1) [folded assms(3)] assms(2) assms(5) [folded assms(3)] assms(6,7,8)]
    unfolding agrees_def by blast
  show ?thesis using a b by (intro exI [of _ "max a b"]) fastforce
qed

theorem engines_agree_witness:
  "\<exists>k n. compile_program_with_types fixed_ext \<lparr>pr_stmts = [SExpr sample_sum], pr_span = span_dummy\<rparr> [] [] = Some (k, [], [])
    \<and> fst (run_chunk sample_host n k (sample_state\<lparr>globals := [(lit ''x'', VInt 41)]\<rparr>)) = VOk (VInt 42)
    \<and> fst (walk sample_tw_host n (JExpr 0 sample_sum) sample_scope) = VOk (VInt 42)"
proof -
  let ?s = "sample_state\<lparr>globals := [(lit ''x'', VInt 41)]\<rparr> :: fixed vm_state"
  obtain k where k: "compile_program_with_types fixed_ext \<lparr>pr_stmts = [SExpr sample_sum], pr_span = span_dummy\<rparr> [] [] = Some (k, [], [])"
    and len: "length (ch_code k) < 65536" using sample_sum_code by blast
  have ext: "h_ext sample_host = fixed_ext" "th_ext sample_tw_host = fixed_ext"
    by (simp_all add: sample_host_def sample_tw_host_def)
  have p: "plain (sample_sum :: fixed expr)" unfolding sample_sum_def by (intro plain.intros)
  have s: "live_actors ?s = []" "list_all (direct \<circ> snd) (globals ?s)"
    by (simp_all add: sample_state_def direct_def)
  have e: "evals fixed_ext (map_of (globals ?s)) sample_sum (Ok (VInt 42))"
    and g: "env_get x 0 (it_envs sample_scope) = Some (map_of (globals ?s) x)" for x
    using sample_sum_evals sample_scope_get by simp_all
  from engines_agree [OF e p ext k len s g]
  show ?thesis using k by (auto simp: agrees_def)
qed

end
