(* ===== verification/Tw_Isolated.thy ===== *)
theory Tw_Isolated
  imports Tw_Grows
begin

text \<open>
  The tree-walker isolates transactions: what is evaluated inside an open transaction does not touch the
  contents of any cell, and a transaction that fails leaves none of its writes.
\<close>

section \<open>Isolation as an order\<close>

definition isolated :: "'d interp \<Rightarrow> 'd interp \<Rightarrow> bool" where
  "isolated s s' \<longleftrightarrow> length (it_txns s') = length (it_txns s) \<and> (it_txns s \<noteq> [] \<longrightarrow> prefix (it_cells s) (it_cells s'))"

lemma isolated_trans: "isolated s s' \<Longrightarrow> isolated s' s'' \<Longrightarrow> isolated s s''"
  by (auto simp: isolated_def intro: prefix_order.trans)

interpretation iso: run_order isolated
  by unfold_locales (auto simp: isolated_def intro: prefix_order.trans)

lemma isolated_commit:
  assumes "isolated (s\<lparr>it_txns := transaction_new # it_txns s\<rparr>) s'"
  shows "\<exists>u us. it_txns s' = u # us \<and> kept isolated s (commit_txn u (s'\<lparr>it_txns := us\<rparr>)) \<and> isolated s (s'\<lparr>it_txns := us\<rparr>)"
proof -
  obtain u us where u: "it_txns s' = u # us" "length us = length (it_txns s)"
    using assms by (cases "it_txns s'") (auto simp: isolated_def)
  then have "kept isolated s (commit_txn u (s'\<lparr>it_txns := us\<rparr>))" "isolated s (s'\<lparr>it_txns := us\<rparr>)"
    using assms by (auto simp: isolated_def commit_txn_def split: list.split)
  then show ?thesis using u by blast
qed

lemma isolated_load:
  assumes R: "\<And>j. keeps isolated (R j)"
  shows "keeps isolated (tw_load_module H R path sp)"
proof -
  have mods: "keeps isolated (modI (\<lambda>s. s\<lparr>it_loading := f s\<rparr>))" "keeps isolated (modI (\<lambda>s. s\<lparr>it_cache := g s\<rparr>))"
    "keeps isolated (alloc_tw_module m)" "keeps isolated (child_scope env)" for f g m env
    by (simp_all add: keeps_def modI_def isolated_def alloc_tw_module_def child_scope_def case_prod_unfold)
  have "keeps isolated (run_tw_module R path fl p)" for fl p
    unfolding run_tw_module_def finish_tw_module_def
    by (intro iso.keeps_bind iso.keeps_then iso.keeps_each iso.keeps_jobs iso.keeps_ret mods R)
  then show ?thesis
    unfolding keeps_def tw_load_module_def by (auto simp: iso.le_refl split: option.split sum.split)
qed

interpretation iso: walk_order isolated
proof unfold_locales
  show "\<exists>u us. it_txns s' = u # us \<and> kept isolated s (commit_txn u (s'\<lparr>it_txns := us\<rparr>)) \<and> isolated s (s'\<lparr>it_txns := us\<rparr>)"
    if "isolated (s\<lparr>it_txns := transaction_new # it_txns s\<rparr>) s'" for s s' :: "'a interp"
    by (rule isolated_commit [OF that])
qed (auto simp: isolated_def length_stm stm_write_def isolated_load split: prod.split list.splits)

definition host_isolated :: "'d tw_host \<Rightarrow> bool" where
  "host_isolated H \<longleftrightarrow> keeps isolated (th_drain_async H) \<and> (\<forall>t. keeps isolated (th_await H t))"

lemma walk_isolated: "host_isolated H \<Longrightarrow> kept isolated s (walk H n j s)"
  by (simp add: host_isolated_def iso.walk_keeps keepsD)

section \<open>Failed transactions\<close>

lemma attempt_run:
  "transact_attempts (Suc k) body sp s = (let again = transact_attempts k body sp in
     case body (s\<lparr>it_txns := transaction_new # it_txns s\<rparr>) of
       (VOk v, s1) \<Rightarrow> commit_attempt again (retI v) s1
     | (VErr e, s1) \<Rightarrow> (case e of
           RetrySignal _ \<Rightarrow> again (s1\<lparr>it_txns := tl (it_txns s1)\<rparr>)
         | ReplySignal _ _ \<Rightarrow> commit_attempt again (failI e) s1
         | ReturnSignal _ _ \<Rightarrow> commit_attempt again (failI e) s1
         | _ \<Rightarrow> (VErr e, s1\<lparr>it_txns := tl (it_txns s1)\<rparr>))
     | (VPanic, s1) \<Rightarrow> (VPanic, s1)
     | (VFuel, s1) \<Rightarrow> (VFuel, s1))"
  by (auto simp: Let_def thenI_def push_txn_def drop_txn_def bindI_def modI_def catchI_def failI_def
      split: prod.split vres.split interp_error.split)

lemma commit_outermost:
  "it_txns s = [u] \<Longrightarrow> commit_attempt again m s =
     (if conflicts u (it_cells s) then again (s\<lparr>it_txns := []\<rparr>)
      else m (s\<lparr>it_txns := [], it_cells := apply_writes (tx_writes u) (it_cells s)\<rparr>))"
  by (simp add: commit_attempt_def take_txn_def bindI_def commit_txn_def)

text \<open>A transaction whose body ends in an error other than \<open>return\<close> and \<open>reply\<close> publishes nothing.\<close>

definition publishes :: "'d interp_error \<Rightarrow> bool" where
  "publishes e \<longleftrightarrow> (case e of ReplySignal _ _ \<Rightarrow> True | ReturnSignal _ _ \<Rightarrow> True | _ \<Rightarrow> False)"

lemma attempts_roll_back:
  assumes body: "\<And>s. kept isolated s (body s)"
  shows "it_txns s = [] \<Longrightarrow> transact_attempts k body sp s = (VErr e, s') \<Longrightarrow> \<not> publishes e \<Longrightarrow>
    it_txns s' = [] \<and> prefix (it_cells s) (it_cells s')"
proof (induction k arbitrary: s)
  case 0
  then show ?case by (simp add: failI_def)
next
  case (Suc k)
  let ?s = "s\<lparr>it_txns := transaction_new # it_txns s\<rparr>"
  obtain r s1 where b: "body ?s = (r, s1)" by fastforce
  then have iso: "kept isolated ?s (r, s1)" using body [of ?s] by simp
  have ends: "\<exists>u. it_txns s1 = [u] \<and> prefix (it_cells s) (it_cells s1)" if "isolated ?s s1"
    using that Suc.prems(1) by (auto simp: isolated_def length_Suc_conv)
  have again: ?case if "transact_attempts k body sp (s1\<lparr>it_txns := []\<rparr>) = (VErr e, s')" "isolated ?s s1"
    using Suc.IH [OF _ that(1) Suc.prems(3)] ends [OF that(2)] by (auto intro: prefix_order.trans)
  have run: "(case (r, s1) of (VOk v, s1) \<Rightarrow> commit_attempt (transact_attempts k body sp) (retI v) s1
     | (VErr e, s1) \<Rightarrow> (case e of
           RetrySignal _ \<Rightarrow> transact_attempts k body sp (s1\<lparr>it_txns := tl (it_txns s1)\<rparr>)
         | ReplySignal _ _ \<Rightarrow> commit_attempt (transact_attempts k body sp) (failI e) s1
         | ReturnSignal _ _ \<Rightarrow> commit_attempt (transact_attempts k body sp) (failI e) s1
         | _ \<Rightarrow> (VErr e, s1\<lparr>it_txns := tl (it_txns s1)\<rparr>))
     | (VPanic, s1) \<Rightarrow> (VPanic, s1)
     | (VFuel, s1) \<Rightarrow> (VFuel, s1)) = (VErr e, s')"
    using Suc.prems(2) b by (simp only: attempt_run Let_def)
  have commit: ?case if "commit_attempt (transact_attempts k body sp) m s1 = (VErr e, s')" "isolated ?s s1"
      "\<And>s2 s3. m s2 \<noteq> (VErr e, s3)" for m
    using ends [OF that(2)] that again [OF _ that(2)] by (auto simp: commit_outermost split: if_splits)
  have pub: ?case if "commit_attempt (transact_attempts k body sp) (failI e1) s1 = (VErr e, s')" "isolated ?s s1" "publishes e1" for e1
    using commit [OF that(1,2)] that(3) Suc.prems(3) by (auto simp: failI_def)
  have fail: ?case if "(VErr e1, s1\<lparr>it_txns := tl (it_txns s1)\<rparr>) = (VErr e, s')" "isolated ?s s1" for e1
    using that ends [OF that(2)] by auto
  show ?case
  proof (cases r)
    case (VOk v)
    then show ?thesis using run iso commit [of "retI v"] by (simp add: retI_def)
  next
    case (VErr e1)
    then have i: "isolated ?s s1" using iso by simp
    then show ?thesis
      using run VErr pub [OF _ i, of e1] fail [OF _ i] again [OF _ i] ends [OF i]
      by (cases e1) (auto simp: publishes_def)
  qed (use run in simp_all)
qed

text \<open>
  C9. A transaction of the tree-walker that fails leaves no trace in the cells: when the evaluation of \<open>transact\<close>
  outside of other transactions ends in an error (an exception, a control signal, the
  exhausted retries), every cell that existed before has the content and the version it had. Only
  \<open>return\<close> and \<open>reply\<close> publish.
\<close>

theorem failed_transaction_rolls_back:
  assumes "host_isolated H" and "it_txns s = []"
    and "walk H n (JExpr env (ETransact body sp)) s = (VErr e, s')"
    and "\<nexists>v p. e = ReturnSignal v p \<or> e = ReplySignal v p"
  shows "it_txns s' = [] \<and> take (length (it_cells s)) (it_cells s') = it_cells s"
proof (cases n)
  case (Suc m)
  have p: "\<not> publishes e" using assms(4) by (cases e) (auto simp: publishes_def)
  have "it_txns s' = [] \<and> prefix (it_cells s) (it_cells s')"
  proof (rule attempts_roll_back [OF _ assms(2) _ p])
    show "kept isolated s (eval_e (walk H m) env body s)" for s
      using walk_isolated [OF assms(1)] by (simp only: eval_e_def)
    show "transact_attempts max_retries (eval_e (walk H m) env body) sp s = (VErr e, s')"
      using assms(3) by (simp add: Suc)
  qed
  then show ?thesis by (auto simp: prefix_def)
qed (use assms(3) in simp)

text \<open>\<open>transact { x = 2; raise nil }\<close> with a shared \<open>x\<close>.\<close>

definition sample_shared :: "fixed interp" where
  "sample_shared = sample_interp\<lparr>it_envs := [\<lparr>bindings = [(lit ''x'', VShared 0)], parent = None\<rparr>],
     it_cells := [\<lparr>sc_value = VInt 1, sc_version = 3\<rparr>]\<rparr>"

definition sample_write :: "fixed expr" where
  "sample_write = EAssign (EIdent (lit ''x'') span_dummy) (EInt 2 span_dummy) span_dummy"

definition sample_abort :: "fixed expr" where
  "sample_abort = EBlock [SSemi sample_write] (Some (ERaise (ENil span_dummy) span_dummy)) span_dummy"

lemma sample_host_isolated: "host_isolated sample_tw_host"
  by (simp add: host_isolated_def sample_tw_host_def keeps_no_answer stopI_def)

lemma sample_names:
  "env_get x 0 [\<lparr>bindings = bs, parent = None\<rparr>, e] = Some (map_of bs x)"
  "env_get x (Suc 0) [\<lparr>bindings = bs, parent = None\<rparr>, \<lparr>bindings = [], parent = Some 0\<rparr>] = Some (map_of bs x)"
  by (simp_all add: env_get.simps [of x "Suc 0"] env_get.simps [of x 0] split: option.split)

theorem failed_transaction_rolls_back_witness:
  "\<exists>e s'. walk sample_tw_host 6 (JExpr 0 (ETransact sample_abort span_dummy)) sample_shared = (VErr e, s')
    \<and> take 1 (it_cells s') = [\<lparr>sc_value = VInt 1, sc_version = 3\<rparr>]"
proof -
  have five: "(5::nat) = Suc (Suc (Suc (Suc (Suc 0))))" by simp
  let ?s = "sample_shared\<lparr>it_txns := [transaction_new]\<rparr>"
  let ?e = "UserException VNil (Some span_dummy)"
  obtain s1 where body: "eval_e (walk sample_tw_host 5) 0 sample_abort ?s = (VErr ?e, s1)"
    by (simp add: five sample_run sample_shared_def sample_abort_def sample_write_def eval_block_def eval_opt_def
        eval_assign_def assign_to.simps assign_name_def lookupI_def sample_names spannedI_def put_cell_def stm_write_def)
  have attempt: "transact_attempts max_retries (eval_e (walk sample_tw_host 5) 0 sample_abort) span_dummy sample_shared
      = (VErr ?e, s1\<lparr>it_txns := tl (it_txns s1)\<rparr>)"
    unfolding max_retries_Suc [symmetric] attempt_run
    using body by (simp add: sample_shared_def sample_interp_def Let_def)
  have "(6::nat) = Suc 5" by simp
  then obtain s' where run: "walk sample_tw_host 6 (JExpr 0 (ETransact sample_abort span_dummy)) sample_shared = (VErr ?e, s')"
    using attempt by (simp only: walk.simps eval_expr.simps job.case)
  have "it_txns sample_shared = []" "it_cells sample_shared = [\<lparr>sc_value = VInt 1, sc_version = 3\<rparr>]"
    by (simp_all add: sample_shared_def sample_interp_def)
  then show ?thesis
    using failed_transaction_rolls_back [OF sample_host_isolated _ run] run by simp
qed

end
