(* ===== verification/Tw_Spec.thy ===== *)
theory Tw_Spec
  imports Tw_Plain Tw_Isolated
begin

text \<open>
  Actors, native functions and modules of the tree-walker: when its mailboxes are drained, what a native
  function sees of a transaction, and what a module that fails to load leaves behind.
\<close>

section \<open>Draining mailboxes\<close>

definition mailboxes :: "'d interp \<Rightarrow> 'd envelope list list" where
  "mailboxes s = map ta_mailbox (it_actors s)"

text \<open>
  In the states of \<open>P\<close>, handling the next message of a live actor ends in a value, in \<open>P\<close> again, and touches neither
  the live actors nor any mailbox.
\<close>

definition quiet :: "'d walker \<Rightarrow> ('d interp \<Rightarrow> bool) \<Rightarrow> bool" where
  "quiet R P \<longleftrightarrow> (\<forall>a msg s s1. P s \<longrightarrow> a \<in> set (it_live s) \<longrightarrow> take_tw_message a s = Some (msg, s1) \<longrightarrow>
     (\<exists>v s2. tw_dispatch R a msg span_dummy s1 = (VOk v, s2) \<and> P s2 \<and> it_live s2 = it_live s1 \<and> mailboxes s2 = mailboxes s1))"

definition pending :: "nat \<Rightarrow> 'd interp \<Rightarrow> nat" where
  "pending i s = sum_list (map (\<lambda>a. length (mailboxes s ! a)) (drop i (it_live s)))"

lemma take_message_some:
  assumes "take_tw_message a s = Some (msg, s')" and "a < length (mailboxes s)"
  shows "it_live s' = it_live s \<and> (\<exists>e es. mailboxes s ! a = e # es \<and> mailboxes s' = (mailboxes s)[a := es])"
  using assms by (auto simp: take_tw_message_def mailboxes_def map_update split: list.splits)

lemma take_message_none: "take_tw_message a s = None \<Longrightarrow> a < length (mailboxes s) \<Longrightarrow> mailboxes s ! a = []"
  by (auto simp: take_tw_message_def mailboxes_def split: list.splits)

lemma pending_take:
  assumes "mailboxes s ! (it_live s ! i) = e # es" and "i < length (it_live s)" and "distinct (it_live s)"
    and "it_live s ! i < length (mailboxes s)" and "mailboxes s' = (mailboxes s)[it_live s ! i := es]" and "it_live s' = it_live s"
  shows "pending i s = Suc (pending i s')"
proof -
  have d: "drop i (it_live s) = it_live s ! i # drop (Suc i) (it_live s)"
    using assms(2) by (simp add: Cons_nth_drop_Suc)
  have notin: "it_live s ! i \<notin> set (drop (Suc i) (it_live s))"
    using assms(2,3) d by (metis distinct.simps(2) distinct_drop)
  have "mailboxes s' ! x = mailboxes s ! x" if "x \<in> set (drop (Suc i) (it_live s))" for x
    using that notin by (cases "x = it_live s ! i") (simp_all add: assms(5))
  then have "map (\<lambda>a. length (mailboxes s' ! a)) (drop (Suc i) (it_live s)) = map (\<lambda>a. length (mailboxes s ! a)) (drop (Suc i) (it_live s))"
    by (intro map_cong refl) simp
  then have "sum_list (map (\<lambda>a. length (mailboxes s' ! a)) (drop (Suc i) (it_live s)))
      = sum_list (map (\<lambda>a. length (mailboxes s ! a)) (drop (Suc i) (it_live s)))" by (simp only:)
  then show ?thesis unfolding pending_def assms(6) d using assms(1,4,5) by simp
qed

lemma drain_empties:
  assumes R: "quiet R P"
  shows "P s \<Longrightarrow> distinct (it_live s) \<Longrightarrow> set (it_live s) \<subseteq> {..<length (mailboxes s)} \<Longrightarrow>
    n > pending i s + (length (it_live s) - i) \<Longrightarrow>
    \<exists>s'. tw_drain R n i s = (VOk (), s') \<and> it_live s' = it_live s
      \<and> length (mailboxes s') = length (mailboxes s)
      \<and> (\<forall>a < length (mailboxes s). mailboxes s' ! a = (if a \<in> set (drop i (it_live s)) then [] else mailboxes s ! a))"
proof (induction n arbitrary: i s)
  case (Suc n)
  show ?case
  proof (cases "i < length (it_live s)")
    case False
    then show ?thesis by simp
  next
    case True
    let ?a = "it_live s ! i"
    have a: "?a < length (mailboxes s)" using subsetD [OF Suc.prems(3) nth_mem [OF True]] by simp
    have d: "drop i (it_live s) = ?a # drop (Suc i) (it_live s)"
      using True by (simp add: Cons_nth_drop_Suc)
    show ?thesis
    proof (cases "take_tw_message ?a s")
      case None
      have "pending i s = pending (Suc i) s" using take_message_none [OF None a] d by (simp add: pending_def)
      then have "n > pending (Suc i) s + (length (it_live s) - Suc i)" using Suc.prems(4) True by simp
      from Suc.IH [OF Suc.prems(1,2,3) this] show ?thesis
        using None True d take_message_none [OF None a] by auto
    next
      case (Some p)
      obtain msg s1 where p: "p = (msg, s1)" by fastforce
      obtain e es where s1: "it_live s1 = it_live s" "mailboxes s ! ?a = e # es" "mailboxes s1 = (mailboxes s)[?a := es]"
        using take_message_some [OF _ a, of msg s1] Some p by auto
      obtain v s2 where s2: "tw_dispatch R ?a msg span_dummy s1 = (VOk v, s2)" "it_live s2 = it_live s1"
        "mailboxes s2 = mailboxes s1" "P s2"
        using R [unfolded quiet_def, rule_format, OF Suc.prems(1) nth_mem [OF True] Some [unfolded p]] by blast
      have "pending i s = Suc (pending i s2)"
        by (rule pending_take [OF s1(2) True Suc.prems(2)]) (use a s1 s2 in simp_all)
      then have n: "n > pending i s2 + (length (it_live s2) - i)" using Suc.prems(4) s1 s2 by simp
      have lens: "length (mailboxes s2) = length (mailboxes s)" using s1 s2 by simp
      have "\<exists>s'. tw_drain R n i s2 = (VOk (), s') \<and> it_live s' = it_live s2 \<and> length (mailboxes s') = length (mailboxes s2)
        \<and> (\<forall>a < length (mailboxes s2). mailboxes s' ! a = (if a \<in> set (drop i (it_live s2)) then [] else mailboxes s2 ! a))"
        by (rule Suc.IH [OF s2(4) _ _ n]) (use Suc.prems s1 s2 lens in simp_all)
      moreover have "tw_drain R (Suc n) i s = tw_drain R n i s2"
        using True Some p s2(1) by (simp add: thenI_def bindI_def)
      ultimately show ?thesis using s1 s2 lens d by auto
    qed
  qed
qed simp

text \<open>
  C18. Every message is handled: when handling messages succeeds and sends no others, draining the mailboxes returns,
  for every bound above the number of messages and live actors, and leaves the mailbox of every live actor empty.
\<close>

theorem drain_delivers_all:
  assumes "quiet (walk H k) P" and "P s" and "distinct (it_live s)" and "set (it_live s) \<subseteq> {..<length (it_actors s)}"
    and "n > pending 0 s + length (it_live s)"
  shows "\<exists>s'. tw_drain (walk H k) n 0 s = (VOk (), s')
    \<and> list_all (\<lambda>a. ta_mailbox (it_actors s' ! a) = []) (it_live s)"
proof -
  have len: "length (mailboxes t) = length (it_actors t)" for t :: "'a interp" by (simp add: mailboxes_def)
  have "set (it_live s) \<subseteq> {..<length (mailboxes s)}" using assms(4) by (simp add: len)
  from drain_empties [where i = 0, OF assms(1,2,3) this] assms(5) obtain s' where s':
    "tw_drain (walk H k) n 0 s = (VOk (), s')" "length (mailboxes s') = length (mailboxes s)"
    "\<forall>a < length (mailboxes s). mailboxes s' ! a = (if a \<in> set (it_live s) then [] else mailboxes s ! a)" by auto
  have "ta_mailbox (it_actors s' ! a) = []" if "a \<in> set (it_live s)" for a
    using that s'(2,3) subsetD [OF assms(4) that] by (auto simp: len) (simp add: mailboxes_def)
  then show ?thesis using s'(1) by (simp add: list_all_iff)
qed

text \<open>Two actors in the global scope, the second with \<open>on Go: peer ! Ping\<close>; and one with \<open>on Go: 1\<close>.\<close>

definition sample_handler :: "fixed expr \<Rightarrow> fixed expr func_def" where
  "sample_handler body = FuncDef (lit ''Go'') [] None body span_dummy"

definition sample_actor :: "nat \<Rightarrow> fixed expr \<Rightarrow> fixed envelope list \<Rightarrow> fixed tw_actor" where
  "sample_actor pid body box = \<lparr>ta_pid = pid, ta_env = 0, ta_handlers = [(lit ''Go'', sample_handler body)], ta_mailbox = box\<rparr>"

definition go_message :: "fixed envelope" where
  "go_message = \<lparr>en_msg = VVariant (lit ''Go'') [], en_reply_slot = None\<rparr>"

definition one_actor :: "fixed interp" where
  "one_actor = sample_interp\<lparr>it_actors := [sample_actor 1 (EInt 1 span_dummy) [go_message, go_message]], it_live := [0]\<rparr>"

lemmas actor_run = sample_run sample_actor_def sample_handler_def go_message_def tw_dispatch_def run_on_clause_def

lemma one_actor_takes:
  assumes "it_actors s = [sample_actor 1 b (replicate k go_message)]" and "take_tw_message 0 s = Some (msg, s1)"
  shows "\<exists>j. msg = VVariant (lit ''Go'') [] \<and> s1 = s\<lparr>it_actors := [sample_actor 1 b (replicate j go_message)]\<rparr>"
  using assms by (cases k) (auto simp: take_tw_message_def sample_actor_def go_message_def)

lemma one_actor_handles:
  assumes "it_actors s = [sample_actor 1 (EInt 1 span_dummy) box]"
  shows "\<exists>envs. tw_dispatch (walk sample_tw_host 1) 0 (VVariant (lit ''Go'') []) span_dummy s = (VOk VNil, s\<lparr>it_envs := envs\<rparr>)"
  using assms by (simp add: actor_run) (rule exI, rule refl)

theorem drain_delivers_all_witness:
  "\<exists>s'. tw_drain (walk sample_tw_host 1) 4 0 one_actor = (VOk (), s') \<and> ta_mailbox (it_actors s' ! 0) = []"
proof -
  let ?P = "\<lambda>s :: fixed interp. it_live s = [0] \<and> (\<exists>k. it_actors s = [sample_actor 1 (EInt 1 span_dummy) (replicate k go_message)])"
  have "\<exists>v s2. tw_dispatch (walk sample_tw_host 1) a msg span_dummy s1 = (VOk v, s2) \<and> ?P s2 \<and> it_live s2 = it_live s1
      \<and> mailboxes s2 = mailboxes s1"
    if P: "?P s" and mem: "a \<in> set (it_live s)" and tk: "take_tw_message a s = Some (msg, s1)" for a msg and s s1 :: "fixed interp"
  proof -
    from P obtain k where k: "it_actors s = [sample_actor 1 (EInt 1 span_dummy) (replicate k go_message)]" by auto
    have a: "a = 0" using P mem by simp
    obtain j where j: "msg = VVariant (lit ''Go'') []"
      "s1 = s\<lparr>it_actors := [sample_actor 1 (EInt 1 span_dummy) (replicate j go_message)]\<rparr>"
      using one_actor_takes [OF k] tk a by blast
    obtain envs where "tw_dispatch (walk sample_tw_host 1) a msg span_dummy s1 = (VOk VNil, s1\<lparr>it_envs := envs\<rparr>)"
      using one_actor_handles [of s1] a j by auto
    then show ?thesis using P j(2) by (auto simp: mailboxes_def)
  qed
  then have q: "quiet (walk sample_tw_host 1) ?P" unfolding quiet_def by blast
  have P: "?P one_actor"
    by (auto simp: one_actor_def sample_interp_def intro!: exI [of _ 2] simp: numeral_2_eq_2)
  have "it_live one_actor = [0]" "length (it_actors one_actor) = 1" "pending 0 one_actor = 2"
    by (simp_all add: one_actor_def sample_interp_def sample_actor_def pending_def mailboxes_def)
  with drain_delivers_all [OF q P, of 4] show ?thesis by (simp del: walk.simps)
qed

definition two_actors :: "fixed interp" where
  "two_actors = sample_interp\<lparr>it_envs := [\<lparr>bindings = [(lit ''peer'', VActor 0)], parent = None\<rparr>],
     it_actors := [sample_actor 1 (EInt 1 span_dummy) [],
       sample_actor 2 (EActorSend (EIdent (lit ''peer'') span_dummy) (EIdent (lit ''Go'') span_dummy) span_dummy) [go_message]],
     it_live := [0, 1]\<rparr>"

text \<open>
  A message to an actor that comes earlier in the order of creation is not delivered any more: the drain goes
  through the actors once. Here the second actor answers \<open>Go\<close> by sending \<open>Go\<close> to the first, whose mailbox was
  found empty before; the drain ends well and the message stays.
\<close>

theorem drain_misses_message:
  "\<exists>s'. tw_drain (walk sample_tw_host 4) 5 0 two_actors = (VOk (), s')
     \<and> ta_mailbox (it_actors s' ! 0) = [go_message]"
proof -
  have five: "(5::nat) = Suc (Suc (Suc (Suc (Suc 0))))" "(4::nat) = Suc (Suc (Suc (Suc 0)))" by simp_all
  show ?thesis
    by (simp add: five two_actors_def actor_run take_tw_message_def eval_send_def eval_message_def eval_ident_def
        lookupI_def sample_names tw_enqueue_def)
qed

section \<open>Native functions and transactions\<close>

definition higher_order :: "str \<Rightarrow> bool" where
  "higher_order n \<longleftrightarrow> n \<in> set (map lit [''map'', ''filter'', ''fold'', ''reduce'', ''find'', ''each'', ''eval''])"

lemma call_builtin_native:
  "\<not> higher_order nm \<Longrightarrow> call_builtin_fn H R sp nm args = spannedI sp (tw_call_native H nm args)"
  by (auto simp: call_builtin_fn_def higher_order_def)

text \<open>
  C35. Inside a transaction a native function does not see the writes of the transaction: the name of a shared cell
  evaluates to the buffered value, but the call of a native function with that name as its argument gets the
  committed one. So \<open>xs = push(xs, 1); xs = push(xs, 2)\<close> in one transaction loses the first update.
\<close>

theorem native_call_sees_committed_value:
  assumes "env_get f env (it_envs s) = Some (Some (VNative nm))" and "\<not> higher_order nm"
    and "env_get x env (it_envs s) = Some (Some (VShared a))"
    and "it_txns s = t # ts" and "map_of (tx_writes t) a = Some w"
    and "map_of (it_variants s) f = None" and "map_of (it_structs s) f = None"
    and "\<not> is_vm_shared_cell (th_ext H) (sc_value (it_cells s ! a))"
  shows "walk H (Suc n) (JExpr env (EIdent x sp)) s = (VOk w, s)
    \<and> walk H (Suc (Suc n)) (JExpr env (ECall (EIdent f sp') [EIdent x sp] sp'')) s
      = (case th_native H nm [sc_value (it_cells s ! a)] s of
           (Inr v, w) \<Rightarrow> (VOk v, s\<lparr>it_host := w\<rparr>) | (Inl e, w) \<Rightarrow> (VErr (with_span sp'' e), s\<lparr>it_host := w\<rparr>))"
proof -
  have read: "read_cell a s = (VOk w, s)"
    using assms(4,5) by (simp add: read_cell_def stm_read_def)
  have x: "lookupI x env s = (VOk (Some (VShared a)), s)" and f: "lookupI f env s = (VOk (Some (VNative nm)), s)"
    using assms(1,3) by (simp_all add: lookupI_def)
  have 1: "walk H (Suc n) (JExpr env (EIdent x sp)) s = (VOk w, s)"
    using x read by (simp add: eval_ident_def bindI_def)
  have "eval_arg (walk H (Suc n)) env (EIdent x sp) s = (VOk (VShared a), s)"
    using x by (simp add: eval_arg_def bindI_def retI_def)
  moreover have "eval_e (walk H (Suc n)) env (EIdent f sp') s = (VOk (VNative nm), s)"
    using f by (simp add: eval_e_def eval_ident_def bindI_def retI_def)
  moreover have "native_arg (th_ext H) nm s (VShared a) = sc_value (it_cells s ! a)"
    using assms(8) by (simp add: native_arg_def deref_def)
  moreover have "call_f (walk H (Suc n)) sp'' (VNative nm) [VShared a] s
      = (case th_native H nm [native_arg (th_ext H) nm s (VShared a)] s of
           (Inr v, w) \<Rightarrow> (VOk v, s\<lparr>it_host := w\<rparr>) | (Inl e, w) \<Rightarrow> (VErr (with_span sp'' e), s\<lparr>it_host := w\<rparr>))"
    using assms(2)
    by (simp add: call_f_def call_function_def call_builtin_native tw_call_native_def bindI_def getI_def spannedI_def catchI_def liftI_def
        retI_def failI_def split: prod.split sum.split)
  ultimately have "walk H (Suc (Suc n)) (JExpr env (ECall (EIdent f sp') [EIdent x sp] sp'')) s
      = (case th_native H nm [sc_value (it_cells s ! a)] s of
           (Inr v, w) \<Rightarrow> (VOk v, s\<lparr>it_host := w\<rparr>) | (Inl e, w) \<Rightarrow> (VErr (with_span sp'' e), s\<lparr>it_host := w\<rparr>))"
    using assms(6,7)
    by (subst walk.simps) (simp add: eval_call_def apply_call_def bindI_def getI_def retI_def del: walk.simps)
  then show ?thesis using 1 by blast
qed

text \<open>A host with the builtin \<open>count\<close>, and a transaction that has pushed to the shared vector \<open>xs\<close>.\<close>

definition counting_host :: "fixed tw_host" where
  "counting_host = sample_tw_host\<lparr>th_native := (\<lambda>nm args s. (case args of [VVec xs] \<Rightarrow> Ok (VInt (int (length xs))) | _ \<Rightarrow> Ok VNil, it_host s))\<rparr>"

definition pushed :: "fixed interp" where
  "pushed = sample_interp\<lparr>it_envs := [\<lparr>bindings = [(lit ''count'', VNative (lit ''count'')), (lit ''xs'', VShared 0)], parent = None\<rparr>],
     it_cells := [\<lparr>sc_value = VVec [], sc_version = 0\<rparr>], it_txns := [\<lparr>tx_writes = [(0, VVec [VInt 1])], tx_reads = []\<rparr>]\<rparr>"

theorem native_call_sees_committed_value_witness:
  "fst (walk counting_host 1 (JExpr 0 (EIdent (lit ''xs'') span_dummy)) pushed) = VOk (VVec [VInt 1])
    \<and> fst (walk counting_host 2 (JExpr 0 (ECall (EIdent (lit ''count'') span_dummy) [EIdent (lit ''xs'') span_dummy] span_dummy)) pushed)
      = VOk (VInt 0)"
proof -
  have g: "env_get (lit ''count'') 0 (it_envs pushed) = Some (Some (VNative (lit ''count'')))"
    "env_get (lit ''xs'') 0 (it_envs pushed) = Some (Some (VShared 0))"
    by (simp_all add: pushed_def env_get.simps [of _ 0])
  have p: "\<not> higher_order (lit ''count'')" "it_txns pushed = [\<lparr>tx_writes = [(0, VVec [VInt 1])], tx_reads = []\<rparr>]"
    "map_of (it_variants pushed) (lit ''count'') = None" "map_of (it_structs pushed) (lit ''count'') = None"
    "\<not> is_vm_shared_cell (th_ext counting_host) (sc_value (it_cells pushed ! 0))"
    by (simp_all add: pushed_def higher_order_def sample_interp_def is_vm_shared_cell_def)
  have two: "1 = Suc 0" "2 = Suc (Suc 0)" by simp_all
  show ?thesis
    unfolding two
    using native_call_sees_committed_value [OF g(1) p(1) g(2) p(2) _ p(3,4,5), of "VVec [VInt 1]" 0 span_dummy span_dummy span_dummy]
    by (simp add: counting_host_def pushed_def del: walk.simps)
qed

section \<open>Modules that fail to load\<close>

text \<open>
  C36. A module whose statements fail stays on the stack of modules being loaded: in the evaluations that follow,
  without \<open>yield\<close> and \<open>await\<close> and before a module load around the failed one ends, every import that resolves to its file
  fails as a circular import, whatever has been evaluated in between.
\<close>

theorem failed_module_blocks_imports:
  assumes "no_scheduler H" and "map_of (it_std s) path = None" and "th_canonical H (it_host s) (th_file H path) = Some fl"
    and "map_of (it_cache s) fl = None" and "fl \<notin> set (it_loading s)" and "th_read H (it_host s) fl = Ok src" and "th_parse H src = Ok p"
    and "tw_load_module H (walk H k) path sp s = (VErr e, s1)" and "later H s1 s2"
    and "map_of (it_std s) path' = None" and "th_canonical H (it_host s2) (th_file H path') = Some fl"
  shows "tw_load_module H R path' sp' s2 = (VErr (ImportError path' (cycle_message (it_loading s2) fl) (Some sp')), s2)"
proof -
  let ?env = "length (it_envs s)"
  let ?s = "s\<lparr>it_envs := snd (env_child (it_global s) (it_envs s)), it_loading := it_loading s @ [fl]\<rparr>"
  let ?m = "eachI (exec_s (walk H k) ?env) (pr_stmts p)"
  have "run_tw_module (walk H k) path fl p s = thenI ?m (finish_tw_module path fl ?env) ?s"
    by (simp add: run_tw_module_def thenI_def bindI_def getI_def modI_def child_scope_def env_child_def env_new_def)
  moreover have "tw_load_module H (walk H k) path sp s = run_tw_module (walk H k) path fl p s"
    using assms(2-7) by (simp add: tw_load_module_def)
  ultimately have e: "thenI ?m (finish_tw_module path fl ?env) ?s = (VErr e, s1)" using assms(8) by simp
  have total: "fst (finish_tw_module path fl ?env t) \<noteq> VErr e" for t
    by (simp add: finish_tw_module_def thenI_def bindI_def getI_def modI_def alloc_tw_module_def retI_def)
  have m: "?m ?s = (VErr e, s1)"
    using e total by (auto simp: thenI_def bindI_def split: prod.splits vres.splits) (metis fst_conv)+
  have "keeps grows ?m"
    by (intro tw.keeps_each tw.keeps_jobs keepsI walk_kept no_scheduler_grows assms(1))
  then have "grows ?s s1" using m by (metis keepsD kept.simps(2))
  moreover have "grows s1 s2" by (rule later_grows [OF no_scheduler_grows [OF assms(1)] assms(9)])
  ultimately have "grows ?s s2" by (rule grows_trans)
  then have "it_std s2 = it_std s" "map_of (it_cache s2) fl = None" "fl \<in> set (it_loading s2)"
    using assms(4) set_mono_prefix [of "it_loading s @ [fl]" "it_loading s2"] by (auto simp: grows_def cache_grows_def)
  then show ?thesis using assms(10,11) by (simp add: tw_load_module_def tw_import_error_def)
qed

definition broken_host :: "fixed tw_host" where
  "broken_host = sample_tw_host\<lparr>th_parse := (\<lambda>_. Ok \<lparr>pr_stmts = [SExpr (ERaise (ENil span_dummy) span_dummy)], pr_span = span_dummy\<rparr>)\<rparr>"

theorem failed_module_blocks_imports_witness:
  "\<exists>e s. tw_load_module broken_host (walk broken_host 3) (lit ''m'') span_dummy sample_interp = (VErr e, s)
    \<and> fst (tw_load_module broken_host (walk broken_host 3) (lit ''m'') span_dummy s)
      = VErr (ImportError (lit ''m'') (cycle_message [lit ''m''] (lit ''m'')) (Some span_dummy))"
proof -
  have h: "no_scheduler broken_host" using sample_no_scheduler by (simp add: no_scheduler_def broken_host_def)
  have b: "map_of (it_std sample_interp) (lit ''m'') = None"
    "\<And>w. th_canonical broken_host w (th_file broken_host (lit ''m'')) = Some (lit ''m'')"
    "map_of (it_cache sample_interp) (lit ''m'') = None" "lit ''m'' \<notin> set (it_loading sample_interp)"
    "th_read broken_host (it_host sample_interp) (lit ''m'') = Ok []"
    "th_parse broken_host [] = Ok \<lparr>pr_stmts = [SExpr (ERaise (ENil span_dummy) span_dummy)], pr_span = span_dummy\<rparr>"
    by (simp_all add: sample_run broken_host_def)
  obtain s where l: "tw_load_module broken_host (walk broken_host 3) (lit ''m'') span_dummy sample_interp
      = (VErr (UserException VNil (Some span_dummy)), s)" and load: "it_loading s = [lit ''m'']"
    by (simp add: sample_run broken_host_def)
  have w: "walk broken_host 1 (JExpr 0 (EInt 7 span_dummy)) s = (VOk (VInt 7), s)"
    by (simp add: im_monad)
  have "later broken_host s s" using later.evaluated [OF later.now w] by simp
  from failed_module_blocks_imports [OF h b(1,2,3,4,5,6) l this b(1,2), of "walk broken_host 3" span_dummy] show ?thesis
    using l load by simp
qed

end
