(* ===== verification/Task.thy ===== *)
theory Task
  imports Builtins
begin

text \<open>
  Tasks (\<open>TaskState\<close> of \<open>src/value.rs\<close>) and their combinators (\<open>task_all\<close>, \<open>task_any\<close> and \<open>task_ready\<close> of
  \<open>src/interpreter/builtins.rs\<close>). A task is an address in a store, shared by whoever holds it. The poll function of a
  pending task belongs to a combinator or to the host: timers, sockets, threads.
\<close>

datatype poller = PollAll "nat list" | PollAny "nat list" | PollHost nat

datatype (plugins only: size) 'd task_state = TPending poller "nat option" | TReady "'d rt_value" | TConsumed

type_synonym 'd tasks = "'d task_state list"

section \<open>Polling\<close>

text \<open>
  A poll gives the value of the task if it is complete, and marks the tasks that a combinator consumed. The host answers
  for its operations; the last argument bounds the nesting of combinators.
\<close>

type_synonym 'd poll_result = "'d rt_value option \<times> 'd tasks"
type_synonym 'd poll = "poller \<Rightarrow> 'd tasks \<Rightarrow> 'd poll_result"

primrec poll_all :: "'d poll \<Rightarrow> nat list \<Rightarrow> 'd rt_value list \<Rightarrow> 'd tasks \<Rightarrow> 'd poll_result" where
  "poll_all poll [] results ts = (Some (VVec results), ts)"
| "poll_all poll (a # as) results ts = (case ts ! a of
     TReady v \<Rightarrow> poll_all poll as (results @ [v]) (ts[a := TConsumed])
   | TConsumed \<Rightarrow> poll_all poll as (results @ [VNil]) ts
   | TPending p d \<Rightarrow> (case poll p ts of
       (Some v, ts') \<Rightarrow> poll_all poll as (results @ [v]) (ts'[a := TConsumed])
     | (None, ts') \<Rightarrow> (None, ts')))"

primrec poll_any :: "'d poll \<Rightarrow> nat list \<Rightarrow> 'd tasks \<Rightarrow> 'd poll_result" where
  "poll_any poll [] ts = (None, ts)"
| "poll_any poll (a # as) ts = (case ts ! a of
     TReady v \<Rightarrow> (Some v, ts[a := TConsumed])
   | TConsumed \<Rightarrow> poll_any poll as ts
   | TPending p d \<Rightarrow> (case poll p ts of
       (Some v, ts') \<Rightarrow> (Some v, ts'[a := TConsumed])
     | (None, ts') \<Rightarrow> poll_any poll as ts'))"

type_synonym 'd answers = "nat \<Rightarrow> 'd rt_value option"

primrec poll_fn :: "nat \<Rightarrow> 'd answers \<Rightarrow> 'd poll" where
  "poll_fn 0 W p ts = (None, ts)"
| "poll_fn (Suc n) W p ts = (case p of
     PollHost h \<Rightarrow> (W h, ts)
   | PollAll as \<Rightarrow> poll_all (poll_fn n W) as [] ts
   | PollAny as \<Rightarrow> poll_any (poll_fn n W) as ts)"

text \<open>
  What whoever awaits a task does with it: the value if the task is complete, \<open>nil\<close> if it was consumed before. The task
  itself is then consumed. A combinator is newer than its inputs, so its address bounds the nesting.
\<close>

definition poll_task :: "'d answers \<Rightarrow> nat \<Rightarrow> 'd tasks \<Rightarrow> 'd poll_result" where
  "poll_task W a ts = (case ts ! a of
     TReady v \<Rightarrow> (Some v, ts)
   | TConsumed \<Rightarrow> (Some VNil, ts)
   | TPending p d \<Rightarrow> poll_fn (Suc a) W p ts)"

definition take_task :: "'d answers \<Rightarrow> nat \<Rightarrow> 'd tasks \<Rightarrow> 'd poll_result" where
  "take_task W a ts = (case poll_task W a ts of
     (Some v, ts') \<Rightarrow> (Some v, ts'[a := TConsumed]) | (None, ts') \<Rightarrow> (None, ts'))"

section \<open>Combinators\<close>

type_synonym 'd task_builtin = "'d rt_value list \<Rightarrow> 'd tasks \<Rightarrow> ('d, 'd rt_value) outcome \<times> 'd tasks"

definition new_task :: "'d task_state \<Rightarrow> 'd tasks \<Rightarrow> ('d, 'd rt_value) outcome \<times> 'd tasks" where
  "new_task st ts = (Ok (VTask (length ts)), ts @ [st])"

fun task_refs :: "string \<Rightarrow> nat \<Rightarrow> 'd rt_value list \<Rightarrow> ('d, nat list) outcome" where
  "task_refs name i [] = Ok []"
| "task_refs name i (v # vs) = (case v of
     VTask a \<Rightarrow> bindE (task_refs name (Suc i) vs) (\<lambda>as. Ok (a # as))
   | _ \<Rightarrow> Err (TypeError (lit ''Task'') (type_name v) (lit name @ lit ''['' @ show_nat i @ lit '']'') None))"

definition combined :: "string \<Rightarrow> (nat list \<Rightarrow> poller) \<Rightarrow> 'd task_builtin" where
  "combined name f args ts = (case one_arg name args (\<lambda>v. case v of
       VVec items \<Rightarrow> task_refs name 0 items | _ \<Rightarrow> Err (expected ''Vec'' v name)) of
     Ok as \<Rightarrow> new_task (TPending (f as) None) ts
   | Err e \<Rightarrow> (Err e, ts))"

definition bi_task_all :: "'d task_builtin" where
  "bi_task_all = combined ''task_all'' PollAll"

definition bi_task_any :: "'d task_builtin" where
  "bi_task_any = combined ''task_any'' PollAny"

definition bi_task_ready :: "'d task_builtin" where
  "bi_task_ready args ts = (case one_arg ''task_ready'' args Ok of
     Ok v \<Rightarrow> new_task (TReady v) ts | Err e \<Rightarrow> (Err e, ts))"

section \<open>Stores\<close>

primrec inputs :: "poller \<Rightarrow> nat list" where
  "inputs (PollAll as) = as"
| "inputs (PollAny as) = as"
| "inputs (PollHost h) = []"

text \<open>Combinators are newer than their inputs.\<close>

definition layered :: "'d tasks \<Rightarrow> bool" where
  "layered ts \<longleftrightarrow> (\<forall>a < length ts. case ts ! a of TPending p d \<Rightarrow> \<forall>b \<in> set (inputs p). b < a | _ \<Rightarrow> True)"

text \<open>Polling only consumes tasks.\<close>

definition consumes :: "'d tasks \<Rightarrow> 'd tasks \<Rightarrow> bool" where
  "consumes ts ts' \<longleftrightarrow> length ts' = length ts \<and> (\<forall>a < length ts. ts' ! a = ts ! a \<or> ts' ! a = TConsumed)"

lemma consumes_refl [simp]: "consumes ts ts"
  by (simp add: consumes_def)

lemma consumes_trans: "consumes ts us \<Longrightarrow> consumes us vs \<Longrightarrow> consumes ts vs"
  unfolding consumes_def by metis

lemma consumes_update: "consumes ts us \<Longrightarrow> consumes ts (us[a := TConsumed])"
  by (cases "a < length us") (auto simp: consumes_def nth_list_update)

lemma consumes_layered: "consumes ts ts' \<Longrightarrow> layered ts \<Longrightarrow> layered ts'"
  unfolding consumes_def layered_def
proof (intro allI impI)
  fix a assume c: "length ts' = length ts \<and> (\<forall>a < length ts. ts' ! a = ts ! a \<or> ts' ! a = TConsumed)"
    and l: "\<forall>a < length ts. case ts ! a of TPending p d \<Rightarrow> \<forall>b \<in> set (inputs p). b < a | _ \<Rightarrow> True" and a: "a < length ts'"
  then consider "ts' ! a = ts ! a" | "ts' ! a = TConsumed" by auto
  then show "case ts' ! a of TPending p d \<Rightarrow> \<forall>b \<in> set (inputs p). b < a | _ \<Rightarrow> True"
    using c l a by cases auto
qed

lemma poll_all_consumes:
  assumes "\<And>p ts. consumes ts (snd (poll p ts))"
  shows "consumes ts (snd (poll_all poll as results ts))"
proof (induction as arbitrary: results ts)
  case (Cons a as)
  show ?case
  proof (cases "ts ! a")
    case (TPending p d)
    obtain r us where r: "poll p ts = (r, us)" by fastforce
    then have "consumes ts us" "consumes ts (us[a := TConsumed])" using assms [of ts p] consumes_update by simp_all
    then show ?thesis
      using Cons [where ts = "us[a := TConsumed]"] consumes_trans r TPending by (auto split: option.split)
  next
    case (TReady v)
    then show ?thesis
      using Cons [where ts = "ts[a := TConsumed]"] consumes_update [of ts ts a] consumes_trans by auto
  next
    case TConsumed
    then show ?thesis using Cons by simp
  qed
qed simp

lemma poll_any_consumes:
  assumes "\<And>p ts. consumes ts (snd (poll p ts))"
  shows "consumes ts (snd (poll_any poll as ts))"
proof (induction as arbitrary: ts)
  case (Cons a as)
  show ?case
  proof (cases "ts ! a")
    case (TPending p d)
    obtain r us where r: "poll p ts = (r, us)" by fastforce
    then have "consumes ts us" "consumes ts (us[a := TConsumed])" using assms [of ts p] consumes_update by simp_all
    then show ?thesis using Cons [of us] consumes_trans r TPending by (auto split: option.split)
  next
    case (TReady v)
    then show ?thesis using consumes_update [of ts ts a] by simp
  next
    case TConsumed
    then show ?thesis using Cons by simp
  qed
qed simp

lemma poll_fn_consumes: "consumes ts (snd (poll_fn n W p ts))"
proof (induction n arbitrary: p ts)
  case (Suc n)
  then show ?case by (cases p) (simp_all add: poll_all_consumes poll_any_consumes)
qed simp

lemma take_task_consumes: "consumes ts (snd (take_task W a ts))"
proof -
  obtain r us where r: "poll_task W a ts = (r, us)" by fastforce
  have "consumes ts (snd (poll_task W a ts))"
    using poll_fn_consumes [of ts "Suc a" W] by (simp add: poll_task_def split: task_state.split)
  then have "consumes ts us" "consumes ts (us[a := TConsumed])" using r consumes_update by simp_all
  then show ?thesis using r by (simp add: take_task_def split: option.split)
qed

lemma take_task_length [simp]: "length (snd (take_task W a ts)) = length ts"
  using take_task_consumes [of ts W a] by (simp add: consumes_def)

text \<open>The bound on the nesting is enough, and every larger one gives the same.\<close>

lemma poll_all_cong:
  assumes "\<And>p ts'. consumes ts ts' \<Longrightarrow> (\<exists>a \<in> set as. \<exists>d. ts' ! a = TPending p d) \<Longrightarrow> f p ts' = g p ts'"
    and "\<And>p ts. consumes ts (snd (g p ts))"
  shows "poll_all f as results ts = poll_all g as results ts"
  using assms(1)
proof (induction as arbitrary: results ts)
  case (Cons a as)
  show ?case
  proof (cases "ts ! a")
    case (TPending p d)
    obtain r ts' where g: "g p ts = (r, ts')" by fastforce
    then have c: "consumes ts (ts'[a := TConsumed])" using assms(2) [of ts p] consumes_update by simp
    have "poll_all f as res (ts'[a := TConsumed]) = poll_all g as res (ts'[a := TConsumed])" for res
      by (rule Cons.IH) (use Cons.prems consumes_trans [OF c] in auto)
    then show ?thesis using Cons.prems [of ts p] TPending g by (auto split: option.splits)
  next
    case (TReady v)
    have c: "consumes ts (ts[a := TConsumed])" by (rule consumes_update) simp
    have "poll_all f as res (ts[a := TConsumed]) = poll_all g as res (ts[a := TConsumed])" for res
      by (rule Cons.IH) (use Cons.prems consumes_trans [OF c] in auto)
    then show ?thesis using TReady by simp
  next
    case TConsumed
    then show ?thesis using Cons.IH Cons.prems by simp
  qed
qed simp

lemma poll_any_cong:
  assumes "\<And>p ts'. consumes ts ts' \<Longrightarrow> (\<exists>a \<in> set as. \<exists>d. ts' ! a = TPending p d) \<Longrightarrow> f p ts' = g p ts'"
    and "\<And>p ts. consumes ts (snd (g p ts))"
  shows "poll_any f as ts = poll_any g as ts"
  using assms(1)
proof (induction as arbitrary: ts)
  case (Cons a as)
  show ?case
  proof (cases "ts ! a")
    case (TPending p d)
    obtain r ts' where g: "g p ts = (r, ts')" by fastforce
    then have c: "consumes ts ts'" using assms(2) [of ts p] by simp
    have "poll_any f as ts' = poll_any g as ts'"
      by (rule Cons.IH) (use Cons.prems consumes_trans [OF c] in auto)
    then show ?thesis using Cons.prems [of ts p] TPending g by (auto split: option.splits)
  qed (use Cons in auto)
qed simp

theorem poll_bound_irrelevant:
  assumes "layered ts" "\<forall>b \<in> set (inputs p). b < a" "a \<le> length ts" "a < n" "a < m"
  shows "poll_fn n W p ts = poll_fn m W p ts"
  using assms
proof (induction a arbitrary: p ts n m rule: less_induct)
  case (less a)
  obtain n' m' where n: "n = Suc n'" "m = Suc m'" using less.prems(4,5) by (cases n; cases m) auto
  have sub: "poll_fn n' W q ts' = poll_fn m' W q ts'"
    if c: "consumes ts ts'" and pending: "\<exists>b \<in> set (inputs p). \<exists>d. ts' ! b = TPending q d" for q ts'
  proof -
    obtain b d where b: "b \<in> set (inputs p)" "ts' ! b = TPending q d" using pending by blast
    then have ba: "b < a" "b < length ts'" using less.prems(2,3) c by (auto simp: consumes_def)
    have l: "layered ts'" by (rule consumes_layered [OF c less.prems(1)])
    then have "case ts' ! b of TPending p d \<Rightarrow> \<forall>c \<in> set (inputs p). c < b | _ \<Rightarrow> True" using ba(2) unfolding layered_def by blast
    then have "\<forall>c \<in> set (inputs q). c < b" using b(2) by simp
    moreover have "b \<le> length ts'" "b < n'" "b < m'" using ba less.prems(4,5) n by linarith+
    ultimately show ?thesis by (rule less.IH [OF ba(1) l])
  qed
  show ?case
  proof (cases p)
    case (PollAll as)
    have "poll_all (poll_fn n' W) as [] ts = poll_all (poll_fn m' W) as [] ts"
      by (rule poll_all_cong [OF _ poll_fn_consumes], rule sub) (use PollAll in simp_all)
    then show ?thesis using PollAll n by simp
  next
    case (PollAny as)
    have "poll_any (poll_fn n' W) as ts = poll_any (poll_fn m' W) as ts"
      by (rule poll_any_cong [OF _ poll_fn_consumes], rule sub) (use PollAny in simp_all)
    then show ?thesis using PollAny n by simp
  qed (simp add: n)
qed

end
