(* ===== verification/Scheduler.thy ===== *)
theory Scheduler
  imports Task
begin

text \<open>
  The coroutine scheduler (\<open>src/runtime/scheduler.rs\<close>) and what drives it: the asynchronous drain of the mailboxes
  and the top-level \<open>await\<close> (\<open>src/interpreter/mod.rs\<close>, \<open>src/vm/vm.rs\<close>). A coroutine is its resumption: given the
  value it waited for and the state it runs in, it returns or awaits a task. Instants are nanoseconds.
\<close>

section \<open>Coroutines\<close>

datatype (plugins only: size) ('d, 'c) resumed = Returned "('d, 'd rt_value) outcome" | Awaiting nat 'c

codatatype (plugins only:) ('w, 'd) coro =
  Coro (resume: "'d rt_value option \<Rightarrow> 'w \<Rightarrow> ('d, ('w, 'd) coro) resumed \<times> 'w")

text \<open>
  The state that coroutines and scheduler share: the tasks, the registered streams and listeners (token and task), the
  mailboxes of the live actors. It is extended by the state of the interpreter.
\<close>

record 'd async =
  as_tasks :: "'d tasks"
  as_io :: "(nat \<times> nat) list"
  as_tokens :: "(nat \<times> nat) list"
  as_next_token :: nat
  as_live :: "nat list"
  as_mail :: "nat \<Rightarrow> 'd rt_value list"

text \<open>Whether the stream could be cloned and the poll accepted it is up to the host.\<close>

definition register_stream_readable :: "bool \<Rightarrow> bool \<Rightarrow> nat \<Rightarrow> ('d, 'z) async_scheme \<Rightarrow> nat option \<times> ('d, 'z) async_scheme" where
  "register_stream_readable cloned accepted task w =
    (if \<not> cloned then (None, w)
     else let token = as_next_token w; w1 = w\<lparr>as_next_token := token + 1\<rparr> in
       if \<not> accepted then (None, w1)
       else (Some token, w1\<lparr>as_io := entry_insert (=) token task (as_io w1), as_tokens := entry_insert (=) task token (as_tokens w1)\<rparr>))"

definition deregister_stream :: "('d, 'z) async_scheme \<Rightarrow> nat \<Rightarrow> ('d, 'z) async_scheme" where
  "deregister_stream w token = (case entry_get (=) token (as_io w) of
     None \<Rightarrow> w
   | Some task \<Rightarrow> w\<lparr>as_io := entry_remove (=) token (as_io w), as_tokens := entry_remove (=) task (as_tokens w)\<rparr>)"

definition find_io_token :: "('d, 'z) async_scheme \<Rightarrow> nat \<Rightarrow> nat option" where
  "find_io_token w task = entry_get (=) task (as_tokens w)"

section \<open>The scheduler\<close>

record ('w, 'd) parked =
  pk_coro :: "('w, 'd) coro"
  pk_task :: nat
  pk_token :: "nat option"

record ('w, 'd) timer_parked =
  tm_deadline :: nat
  tm_coro :: "('w, 'd) coro"
  tm_task :: nat

text \<open>
  \<open>sd_ready\<close> is a stack, its top at the end; the timers, a heap in the code, are kept in the order of their deadlines,
  equal ones in the order of their insertion. \<open>sd_yielder\<close> tells whether the thread-local pointer to the yielder of a
  coroutine is set: it is set when a coroutine starts or continues and cleared when one returns, but not when one is
  suspended.
\<close>

record ('w, 'd) scheduler =
  sd_ready :: "(('w, 'd) coro \<times> 'd rt_value option) list"
  sd_parked :: "('w, 'd) parked list"
  sd_timers :: "('w, 'd) timer_parked list"
  sd_results :: "('d, 'd rt_value) outcome list"
  sd_yielder :: bool

type_synonym ('d, 'z) world = "('d, 'z) async_scheme"
type_synonym ('d, 'z) sched = "(('d, 'z) async_scheme, 'd) scheduler"

definition scheduler_new :: "('d, 'z) sched" where
  "scheduler_new = \<lparr>sd_ready = [], sd_parked = [], sd_timers = [], sd_results = [], sd_yielder = False\<rparr>"

definition spawn_handler :: "(('d, 'z) world, 'd) coro \<Rightarrow> ('d, 'z) sched \<Rightarrow> ('d, 'z) sched" where
  "spawn_handler co s = s\<lparr>sd_ready := sd_ready s @ [(co, None)]\<rparr>"

definition insert_timer :: "('w, 'd) timer_parked \<Rightarrow> ('w, 'd) timer_parked list \<Rightarrow> ('w, 'd) timer_parked list" where
  "insert_timer t ts = takeWhile (\<lambda>u. tm_deadline u \<le> tm_deadline t) ts @ t # dropWhile (\<lambda>u. tm_deadline u \<le> tm_deadline t) ts"

definition park :: "(('d, 'z) world, 'd) coro \<Rightarrow> nat \<Rightarrow> ('d, 'z) world \<Rightarrow> ('d, 'z) sched \<Rightarrow> ('d, 'z) sched" where
  "park co task w s =
    (case (case as_tasks w ! task of TPending p d \<Rightarrow> d | _ \<Rightarrow> None) of
       Some d \<Rightarrow> s\<lparr>sd_timers := insert_timer \<lparr>tm_deadline = d, tm_coro = co, tm_task = task\<rparr> (sd_timers s)\<rparr>
     | None \<Rightarrow> s\<lparr>sd_parked := sd_parked s @ [\<lparr>pk_coro = co, pk_task = task, pk_token = find_io_token w task\<rparr>]\<rparr>)"

text \<open>The first part of a tick: every ready coroutine runs until it awaits a task or returns.\<close>

definition resume_one ::
  "('d, 'z) sched \<times> ('d, 'z) world \<Rightarrow> (('d, 'z) world, 'd) coro \<times> 'd rt_value option \<Rightarrow> ('d, 'z) sched \<times> ('d, 'z) world" where
  "resume_one sw r = (case sw of (s, w) \<Rightarrow> (case resume (fst r) (snd r) w of
     (Awaiting task co, w1) \<Rightarrow> (park co task w1 (s\<lparr>sd_yielder := True\<rparr>), w1)
   | (Returned res, w1) \<Rightarrow> (s\<lparr>sd_results := sd_results s @ [res], sd_yielder := False\<rparr>, w1)))"

definition run_ready :: "('d, 'z) sched \<Rightarrow> ('d, 'z) world \<Rightarrow> ('d, 'z) sched \<times> ('d, 'z) world" where
  "run_ready s w = foldl resume_one (s\<lparr>sd_ready := []\<rparr>, w) (rev (sd_ready s))"

text \<open>How long the tick waits for events: until the next timer, 1 ms for combinators, 100 ms for streams.\<close>

definition poll_timeout :: "('d, 'z) sched \<Rightarrow> nat \<Rightarrow> nat option" where
  "poll_timeout s now =
    (case sd_timers s of
       t # _ \<Rightarrow> Some (tm_deadline t - now)
     | [] \<Rightarrow> (if sd_parked s = [] then None
         else if list_ex (\<lambda>p. pk_token p = None) (sd_parked s) then Some 1000000 else Some 100000000))"

text \<open>
  What the host contributes to a tick: the instant after waiting, the tokens that became ready, and the answers
  of its operations.
\<close>

record 'd moment =
  mo_now :: nat
  mo_events :: "nat list"
  mo_answers :: "'d answers"

text \<open>A task that is complete makes its coroutine ready.\<close>

definition poll_parked ::
  "'d moment \<Rightarrow> ('d, 'z) sched \<times> nat list \<times> ('d, 'z) world \<Rightarrow> (('d, 'z) world, 'd) parked \<Rightarrow> ('d, 'z) sched \<times> nat list \<times> ('d, 'z) world" where
  "poll_parked m acc p = (case acc of (s, completed, w) \<Rightarrow>
     if (case pk_token p of Some token \<Rightarrow> token \<notin> set (mo_events m) | None \<Rightarrow> False)
     then (s\<lparr>sd_parked := sd_parked s @ [p]\<rparr>, completed, w)
     else (case take_task (mo_answers m) (pk_task p) (as_tasks w) of
       (Some v, ts) \<Rightarrow> (s\<lparr>sd_ready := sd_ready s @ [(pk_coro p, Some v)]\<rparr>,
         (case pk_token p of Some token \<Rightarrow> completed @ [token] | None \<Rightarrow> completed), w\<lparr>as_tasks := ts\<rparr>)
     | (None, ts) \<Rightarrow> (s\<lparr>sd_parked := sd_parked s @ [p]\<rparr>, completed, w\<lparr>as_tasks := ts\<rparr>)))"

definition fire_timer ::
  "'d moment \<Rightarrow> ('d, 'z) sched \<times> ('d, 'z) world \<Rightarrow> (('d, 'z) world, 'd) timer_parked \<Rightarrow> ('d, 'z) sched \<times> ('d, 'z) world" where
  "fire_timer m sw t = (case sw of (s, w) \<Rightarrow>
     (case take_task (mo_answers m) (tm_task t) (as_tasks w) of
       (Some v, ts) \<Rightarrow> (s\<lparr>sd_ready := sd_ready s @ [(tm_coro t, Some v)]\<rparr>, w\<lparr>as_tasks := ts\<rparr>)
     | (None, ts) \<Rightarrow> (s\<lparr>sd_timers := insert_timer (t\<lparr>tm_deadline := mo_now m + 1000000\<rparr>) (sd_timers s)\<rparr>, w\<lparr>as_tasks := ts\<rparr>)))"

text \<open>
  The timers that are due are those at the front of the queue; one put back is due later than now, so that the loop of the
  code does not meet it again.
\<close>

definition fire_timers :: "'d moment \<Rightarrow> ('d, 'z) sched \<Rightarrow> ('d, 'z) world \<Rightarrow> ('d, 'z) sched \<times> ('d, 'z) world" where
  "fire_timers m s w = (let due = takeWhile (\<lambda>t. tm_deadline t \<le> mo_now m) (sd_timers s) in
     foldl (fire_timer m) (s\<lparr>sd_timers := drop (length due) (sd_timers s)\<rparr>, w) due)"

definition in_coroutine :: "('d, 'z) sched \<Rightarrow> bool" where
  "in_coroutine s \<longleftrightarrow> sd_yielder s"

definition has_ready :: "('d, 'z) sched \<Rightarrow> bool" where
  "has_ready s \<longleftrightarrow> sd_ready s \<noteq> []"

definition has_pending_timers :: "('d, 'z) sched \<Rightarrow> bool" where
  "has_pending_timers s \<longleftrightarrow> sd_timers s \<noteq> []"

definition has_work :: "('d, 'z) sched \<Rightarrow> bool" where
  "has_work s \<longleftrightarrow> sd_ready s \<noteq> [] \<or> sd_parked s \<noteq> [] \<or> sd_timers s \<noteq> []"

definition parked_count :: "('d, 'z) sched \<Rightarrow> nat" where
  "parked_count s = length (sd_parked s) + length (sd_timers s)"

definition tick :: "'d moment \<Rightarrow> ('d, 'z) sched \<Rightarrow> ('d, 'z) world \<Rightarrow> bool \<times> ('d, 'z) sched \<times> ('d, 'z) world" where
  "tick m s w =
    (let (s1, w1) = run_ready s w;
         (s2, completed, w2) = foldl (poll_parked m) (s1\<lparr>sd_parked := []\<rparr>, [], w1) (sd_parked s1);
         (s3, w3) = fire_timers m s2 w2;
         w4 = foldl deregister_stream w3 completed
     in (\<not> has_work s3, s3, w4))"

text \<open>\<open>run_until_complete\<close>, for a number of ticks; \<open>ms i\<close> is the moment of tick \<open>i\<close>.\<close>

primrec run_until_complete ::
  "nat \<Rightarrow> (nat \<Rightarrow> 'd moment) \<Rightarrow> nat \<Rightarrow> ('d, 'z) sched \<Rightarrow> ('d, 'z) world \<Rightarrow> (('d, 'd rt_value) outcome list \<times> ('d, 'z) sched \<times> ('d, 'z) world) option" where
  "run_until_complete 0 ms i s w = None"
| "run_until_complete (Suc n) ms i s w = (case tick (ms i) s w of (idle, s1, w1) \<Rightarrow>
     if idle then Some (sd_results s1, s1\<lparr>sd_results := [], sd_yielder := False\<rparr>, w1) else run_until_complete n ms (Suc i) s1 w1)"

section \<open>Draining the mailboxes\<close>

text \<open>The messages of the live actors, in the order of their mailboxes, which are left empty.\<close>

fun collect_mail :: "nat list \<Rightarrow> ('d, 'z) world \<Rightarrow> (nat \<times> 'd rt_value) list \<times> ('d, 'z) world" where
  "collect_mail [] w = ([], w)"
| "collect_mail (a # as) w = (case collect_mail as (w\<lparr>as_mail := (as_mail w)(a := [])\<rparr>) of
     (ps, w1) \<Rightarrow> (map (Pair a) (as_mail w a) @ ps, w1))"

text \<open>The handlers of an actor by name: the number of parameters, and the coroutine for given arguments.\<close>

record ('w, 'd) handler =
  hd_arity :: nat
  hd_body :: "'d rt_value list \<Rightarrow> ('w, 'd) coro"

type_synonym ('d, 'z) handlers = "nat \<Rightarrow> str \<Rightarrow> (('d, 'z) world, 'd) handler option"

fun spawn_pending :: "('d, 'z) handlers \<Rightarrow> (nat \<times> 'd rt_value) list \<Rightarrow> ('d, 'z) sched \<Rightarrow> 'd interp_error option \<times> ('d, 'z) sched" where
  "spawn_pending H [] s = (None, s)"
| "spawn_pending H ((a, msg) # ps) s = (case msg of
     VVariant name args \<Rightarrow> (case H a name of
         None \<Rightarrow> spawn_pending H ps s
       | Some h \<Rightarrow>
           if length args \<noteq> hd_arity h then (Some (ArityError (hd_arity h) (length args) (lit ''on '' @ name) (Some span_dummy)), s)
           else spawn_pending H ps (spawn_handler (hd_body h args) s))
   | _ \<Rightarrow> spawn_pending H ps s)"

text \<open>A bounded number of ticks, fewer when only streams are waited for.\<close>

primrec drain_ticks ::
  "nat \<Rightarrow> (nat \<Rightarrow> 'd moment) \<Rightarrow> nat \<Rightarrow> ('d, 'd rt_value) outcome list \<Rightarrow> ('d, 'z) sched \<Rightarrow> ('d, 'z) world
     \<Rightarrow> ('d, 'd rt_value) outcome list \<times> nat \<times> ('d, 'z) sched \<times> ('d, 'z) world" where
  "drain_ticks 0 ms i results s w = (results, i, s, w)"
| "drain_ticks (Suc n) ms i results s w = (case tick (ms i) s w of (idle, s1, w1) \<Rightarrow>
     (let results1 = results @ sd_results s1; s2 = s1\<lparr>sd_results := []\<rparr> in
      if idle \<or> \<not> has_ready s2 \<and> \<not> has_pending_timers s2 then (results1, Suc i, s2, w1)
      else drain_ticks n ms (Suc i) results1 s2 w1))"

primrec first_error :: "('d, 'd rt_value) outcome list \<Rightarrow> 'd interp_error option" where
  "first_error [] = None"
| "first_error (r # rs) = (case r of Err e \<Rightarrow> Some e | Ok v \<Rightarrow> first_error rs)"

text \<open>\<open>cap\<close> is \<open>TICKS_PER_YIELD\<close>: 4 in the tree-walker, 64 in the virtual machine.\<close>

definition drain_mailboxes_async ::
  "nat \<Rightarrow> ('d, 'z) handlers \<Rightarrow> (nat \<Rightarrow> 'd moment) \<Rightarrow> nat \<Rightarrow> ('d, 'z) sched \<Rightarrow> ('d, 'z) world
     \<Rightarrow> 'd interp_error option \<times> nat \<times> ('d, 'z) sched \<times> ('d, 'z) world" where
  "drain_mailboxes_async cap H ms i s w =
    (let (pending, w1) = collect_mail (as_live w) w in
     case spawn_pending H pending s of
       (Some e, s1) \<Rightarrow> (Some e, i, s1, w1)
     | (None, s1) \<Rightarrow> (case drain_ticks cap ms i [] s1 w1 of
         (results, i1, s2, w2) \<Rightarrow> (first_error results, i1, s2, w2)))"

text \<open>
  \<open>await\<close> on the stack of the program: the drain and a poll of the task, again and again. But this branch is taken
  only if no yielder is set; otherwise the code suspends the coroutine of the yielder, which is not running.
\<close>

datatype 'a awaited = Completed 'a | SuspendsParked

primrec await_top ::
  "nat \<Rightarrow> nat \<Rightarrow> ('d, 'z) handlers \<Rightarrow> (nat \<Rightarrow> 'd moment) \<Rightarrow> nat \<Rightarrow> nat \<Rightarrow> ('d, 'z) sched \<Rightarrow> ('d, 'z) world
     \<Rightarrow> (('d, 'd rt_value) outcome \<times> nat \<times> ('d, 'z) sched \<times> ('d, 'z) world) option" where
  "await_top 0 cap H ms task i s w = None"
| "await_top (Suc n) cap H ms task i s w = (case drain_mailboxes_async cap H ms i s w of
     (Some e, i1, s1, w1) \<Rightarrow> Some (Err e, i1, s1, w1)
   | (None, i1, s1, w1) \<Rightarrow> (case take_task (mo_answers (ms i1)) task (as_tasks w1) of
       (Some v, ts) \<Rightarrow> Some (Ok v, Suc i1, s1, w1\<lparr>as_tasks := ts\<rparr>)
     | (None, ts) \<Rightarrow> await_top n cap H ms task (Suc i1) s1 (w1\<lparr>as_tasks := ts\<rparr>)))"

definition await_main ::
  "nat \<Rightarrow> nat \<Rightarrow> ('d, 'z) handlers \<Rightarrow> (nat \<Rightarrow> 'd moment) \<Rightarrow> nat \<Rightarrow> nat \<Rightarrow> ('d, 'z) sched \<Rightarrow> ('d, 'z) world
     \<Rightarrow> (('d, 'd rt_value) outcome \<times> nat \<times> ('d, 'z) sched \<times> ('d, 'z) world) awaited option" where
  "await_main n cap H ms task i s w =
    (if in_coroutine s then Some SuspendsParked else map_option Completed (await_top n cap H ms task i s w))"

end
