(* ===== verification/Scheduler_Spec.thy ===== *)
theory Scheduler_Spec
  imports Scheduler
begin

text \<open>
  What a tick keeps of the coroutines, the order in which the handlers of waiting messages run, and what
  awaiting and combining tasks gives.
\<close>

section \<open>Ticks lose no coroutine\<close>

definition census :: "('d, 'z) sched \<Rightarrow> nat" where
  "census s = length (sd_ready s) + length (sd_parked s) + length (sd_timers s) + length (sd_results s)"

lemma length_insert_timer [simp]: "length (insert_timer t ts) = Suc (length ts)"
proof -
  have "length ts = length (takeWhile (\<lambda>u. tm_deadline u \<le> tm_deadline t) ts) + length (dropWhile (\<lambda>u. tm_deadline u \<le> tm_deadline t) ts)"
    by (metis length_append takeWhile_dropWhile_id)
  then show ?thesis by (simp add: insert_timer_def)
qed

lemma set_insert_timer: "set (insert_timer t ts) = insert t (set ts)"
proof -
  have "set ts = set (takeWhile (\<lambda>u. tm_deadline u \<le> tm_deadline t) ts) \<union> set (dropWhile (\<lambda>u. tm_deadline u \<le> tm_deadline t) ts)"
    by (metis set_append takeWhile_dropWhile_id)
  then show ?thesis by (auto simp: insert_timer_def)
qed

lemma sorted_insert_timer:
  assumes "sorted (map tm_deadline ts)" shows "sorted (map tm_deadline (insert_timer t ts))"
  using assms
proof (induction ts)
  case (Cons u ts)
  show ?case
  proof (cases "tm_deadline u \<le> tm_deadline t")
    case True
    then have "insert_timer t (u # ts) = u # insert_timer t ts" by (simp add: insert_timer_def)
    then show ?thesis using Cons True by (auto simp: set_insert_timer)
  next
    case False
    then have "insert_timer t (u # ts) = t # u # ts" by (simp add: insert_timer_def)
    then show ?thesis using Cons.prems False by fastforce
  qed
qed (simp add: insert_timer_def)

definition queued :: "('d, 'z) sched \<Rightarrow> bool" where
  "queued s \<longleftrightarrow> sorted (map tm_deadline (sd_timers s))"

lemma park_keeps: "census (park co task w s) = Suc (census s)" "queued s \<Longrightarrow> queued (park co task w s)"
  "sd_ready (park co task w s) = sd_ready s"
  by (auto simp: park_def census_def queued_def sorted_insert_timer split: task_state.split option.split)

lemma yielder_irrelevant [simp]:
  "queued (s\<lparr>sd_yielder := b\<rparr>) = queued s" "queued (s\<lparr>sd_results := rs\<rparr>) = queued s"
  "census (s\<lparr>sd_yielder := b\<rparr>) = census s"
  by (simp_all add: queued_def census_def)

lemma resume_one_keeps:
  "census (fst (resume_one sw r)) = Suc (census (fst sw))" "queued (fst sw) \<Longrightarrow> queued (fst (resume_one sw r))"
  "sd_ready (fst (resume_one sw r)) = sd_ready (fst sw)"
  by (auto simp: resume_one_def park_keeps split: prod.split resumed.split) (auto simp: census_def)

lemma resume_all_keeps:
  "census (fst (foldl resume_one sw rs)) = length rs + census (fst sw)
   \<and> (queued (fst sw) \<longrightarrow> queued (fst (foldl resume_one sw rs))) \<and> sd_ready (fst (foldl resume_one sw rs)) = sd_ready (fst sw)"
  by (induction rs arbitrary: sw) (simp_all add: resume_one_keeps)

lemma run_ready_keeps:
  "census (fst (run_ready s w)) = census s" "queued s \<Longrightarrow> queued (fst (run_ready s w))" "sd_ready (fst (run_ready s w)) = []"
  using resume_all_keeps [of "(s\<lparr>sd_ready := []\<rparr>, w)" "rev (sd_ready s)"]
  unfolding run_ready_def by (auto simp: census_def queued_def)

lemma poll_parked_keeps:
  "census (fst (poll_parked m acc p)) = Suc (census (fst acc))" "sd_timers (fst (poll_parked m acc p)) = sd_timers (fst acc)"
  by (cases acc, auto simp: poll_parked_def census_def split: prod.split option.split)+

lemma poll_all_parked_keeps:
  "census (fst (foldl (poll_parked m) acc ps)) = length ps + census (fst acc)
   \<and> sd_timers (fst (foldl (poll_parked m) acc ps)) = sd_timers (fst acc)"
  by (induction ps arbitrary: acc) (simp_all add: poll_parked_keeps)

text \<open>No timer is due.\<close>

definition none_due :: "nat \<Rightarrow> ('d, 'z) sched \<Rightarrow> bool" where
  "none_due now s \<longleftrightarrow> list_all (\<lambda>t. now < tm_deadline t) (sd_timers s)"

lemma fire_timer_keeps:
  "census (fst (fire_timer m sw t)) = Suc (census (fst sw))" "queued (fst sw) \<Longrightarrow> queued (fst (fire_timer m sw t))"
  "none_due (mo_now m) (fst sw) \<Longrightarrow> none_due (mo_now m) (fst (fire_timer m sw t))"
proof -
  obtain s w where sw: "sw = (s, w)" by fastforce
  obtain r ts where r: "take_task (mo_answers m) (tm_task t) (as_tasks w) = (r, ts)" by fastforce
  note f = fire_timer_def sw r
  show "census (fst (fire_timer m sw t)) = Suc (census (fst sw))"
    by (cases r) (simp_all add: f census_def)
  show "queued (fst sw) \<Longrightarrow> queued (fst (fire_timer m sw t))"
    by (cases r) (simp_all add: f queued_def sorted_insert_timer)
  show "none_due (mo_now m) (fst sw) \<Longrightarrow> none_due (mo_now m) (fst (fire_timer m sw t))"
    by (cases r) (simp_all add: f set_insert_timer none_due_def list_all_iff)
qed

lemma fire_all_keeps:
  "census (fst (foldl (fire_timer m) sw ts)) = length ts + census (fst sw)
   \<and> (queued (fst sw) \<longrightarrow> queued (fst (foldl (fire_timer m) sw ts)))
   \<and> (none_due (mo_now m) (fst sw) \<longrightarrow> none_due (mo_now m) (fst (foldl (fire_timer m) sw ts)))"
  by (induction ts arbitrary: sw) (simp_all add: fire_timer_keeps)

lemma fire_timers_keeps:
  assumes "queued s"
  shows "census (fst (fire_timers m s w)) = census s \<and> queued (fst (fire_timers m s w))
     \<and> none_due (mo_now m) (fst (fire_timers m s w))"
proof -
  let ?p = "\<lambda>t. tm_deadline t \<le> mo_now m"
  let ?due = "takeWhile ?p (sd_timers s)" and ?s = "s\<lparr>sd_timers := dropWhile ?p (sd_timers s)\<rparr>"
  have drop: "drop (length ?due) (sd_timers s) = dropWhile ?p (sd_timers s)" by (simp add: dropWhile_eq_drop)
  have late: "list_all (\<lambda>t. mo_now m < tm_deadline t) (dropWhile ?p ts)" if "sorted (map tm_deadline ts)" for ts :: "(('a, 'b) world, 'a) timer_parked list"
    using that by (induction ts) (auto simp: list_all_iff)
  have "length ?due + length (dropWhile ?p (sd_timers s)) = length (sd_timers s)"
    by (metis length_append takeWhile_dropWhile_id)
  moreover have "queued ?s"
    using assms unfolding queued_def by (simp add: dropWhile_eq_drop drop_map [symmetric] sorted_wrt_drop)
  ultimately show ?thesis
    using fire_all_keeps [of m "(?s, w)" ?due] late [of "sd_timers s"] assms
    unfolding fire_timers_def Let_def drop by (simp add: census_def queued_def none_due_def)
qed

text \<open>
  C15. A tick loses no coroutine and invents none: each is ready, parked, waiting for a timer, or has left its result.
  The timers stay in the order of their deadlines, and none is left that is due.
\<close>

theorem tick_keeps_coroutines:
  assumes "queued s"
  shows "case tick m s w of (idle, s', w') \<Rightarrow>
     census s' = census s \<and> queued s' \<and> none_due (mo_now m) s'
     \<and> (idle \<longleftrightarrow> census s' = length (sd_results s'))"
proof -
  obtain s1 w1 where r: "run_ready s w = (s1, w1)" by fastforce
  obtain s2 cs w2 where p: "foldl (poll_parked m) (s1\<lparr>sd_parked := []\<rparr>, [], w1) (sd_parked s1) = (s2, cs, w2)" by (metis surj_pair)
  obtain s3 w3 where f: "fire_timers m s2 w2 = (s3, w3)" by fastforce
  have "census s1 = census s" "queued s1" using run_ready_keeps [of s w] assms r by simp_all
  moreover have "census s2 = census s1 \<and> queued s2"
    using poll_all_parked_keeps [of m "(s1\<lparr>sd_parked := []\<rparr>, [], w1)" "sd_parked s1"] p \<open>queued s1\<close>
    by (auto simp: census_def queued_def)
  ultimately have "census s3 = census s \<and> queued s3 \<and> none_due (mo_now m) s3"
    using fire_timers_keeps [of s2 m w2] f by simp
  then show ?thesis using r p f by (auto simp: tick_def has_work_def census_def)
qed

theorem tick_keeps_coroutines_witness:
  "queued (scheduler_new\<lparr>sd_ready := [(Coro (\<lambda>_ w. (Returned (Ok VNil), w)), None)]\<rparr> :: (fixed, unit) sched)
     \<and> (case tick \<lparr>mo_now = 5, mo_events = [], mo_answers = (\<lambda>_. None)\<rparr>
            (scheduler_new\<lparr>sd_ready := [(Coro (\<lambda>_ w. (Returned (Ok VNil), w)), None)]\<rparr> :: (fixed, unit) sched)
            \<lparr>as_tasks = [], as_io = [], as_tokens = [], as_next_token = 1, as_live = [], as_mail = (\<lambda>_. []), \<dots> = ()\<rparr> of
          (idle, s', w') \<Rightarrow> census s' = 1 \<and> queued s' \<and> none_due 5 s' \<and> (idle \<longleftrightarrow> census s' = length (sd_results s')))"
proof -
  let ?s = "scheduler_new\<lparr>sd_ready := [(Coro (\<lambda>_ w. (Returned (Ok VNil), w)), None)]\<rparr> :: (fixed, unit) sched"
  let ?w = "\<lparr>as_tasks = [], as_io = [], as_tokens = [], as_next_token = 1, as_live = [], as_mail = (\<lambda>_. []), \<dots> = ()\<rparr> :: (fixed, unit) world"
  have s: "queued ?s" "census ?s = 1" by (simp_all add: queued_def census_def scheduler_new_def)
  then show ?thesis
    using tick_keeps_coroutines [of ?s "\<lparr>mo_now = 5, mo_events = [], mo_answers = (\<lambda>_. None)\<rparr>" ?w] by simp
qed

section \<open>The order of messages\<close>

text \<open>A handler that does not await: its effect on the state, all at once.\<close>

definition immediate :: "(('d, 'z) world \<Rightarrow> ('d, 'z) world) \<Rightarrow> (('d, 'z) world, 'd) coro" where
  "immediate f = Coro (\<lambda>_ w. (Returned (Ok VNil), f w))"


text \<open>Such a handler does not look at the value it is resumed with.\<close>

lemma resume_immediate:
  assumes "map fst rs = map immediate fs"
  shows "foldl resume_one (s, w) rs
     = (s\<lparr>sd_results := sd_results s @ map (\<lambda>_. Ok VNil) fs, sd_yielder := (sd_yielder s \<and> fs = [])\<rparr>, foldl (\<lambda>w f. f w) w fs)"
  using assms
proof (induction fs arbitrary: rs s w)
  case (Cons f fs)
  then obtain v rs' where "rs = (immediate f, v) # rs'" "map fst rs' = map immediate fs" by auto
  then show ?case using Cons.IH by (simp add: resume_one_def immediate_def)
qed simp

lemma spawn_mail:
  assumes "\<forall>m \<in> set msgs. H a (fst m) = Some (h m) \<and> hd_arity (h m) = length (snd m)"
  shows "spawn_pending H (map (\<lambda>m. (a, VVariant (fst m) (snd m))) msgs) s
     = (None, s\<lparr>sd_ready := sd_ready s @ map (\<lambda>m. (hd_body (h m) (snd m), None)) msgs\<rparr>)"
  using assms by (induction msgs arbitrary: s) (simp_all add: spawn_handler_def)

lemma first_error_ok [simp]: "first_error (map (\<lambda>_. Ok VNil) xs) = None"
  by (induction xs) simp_all





text \<open>
  A message with the wrong number of arguments ends the drain with an error; the messages behind it are lost, their
  mailboxes are empty.
\<close>

theorem failed_drain_loses_messages:
  assumes "as_live w = [a]" "as_mail w a = VVariant name args # rest" "H a name = Some h" "length args \<noteq> hd_arity h"
  shows "drain_mailboxes_async cap H ms i s w
     = (Some (ArityError (hd_arity h) (length args) (lit ''on '' @ name) (Some span_dummy)), i, s, w\<lparr>as_mail := (as_mail w)(a := [])\<rparr>)"
  using assms by (simp add: drain_mailboxes_async_def)

section \<open>Awaiting and combining\<close>

text \<open>The task is complete when it is polled, with a value.\<close>

definition complete :: "'d answers \<Rightarrow> 'd tasks \<Rightarrow> nat \<Rightarrow> 'd rt_value \<Rightarrow> bool" where
  "complete W ts a v \<longleftrightarrow> ts ! a = TReady v \<or> (\<exists>h d. ts ! a = TPending (PollHost h) d \<and> W h = Some v)"

lemma poll_all_complete:
  assumes "distinct as" "list_all2 (complete W ts) as vs" "0 < n"
  shows "poll_all (poll_fn n W) as rs ts = (Some (VVec (rs @ vs)), foldl (\<lambda>ts a. ts[a := TConsumed]) ts as)"
  using assms
proof (induction as arbitrary: vs rs ts)
  case (Cons a as)
  obtain v vs' where v: "vs = v # vs'" "complete W ts a v" "list_all2 (complete W ts) as vs'"
    using Cons.prems(2) by (cases vs) auto
  have host: "poll_fn n W (PollHost h) us = (W h, us)" for h us using Cons.prems(3) by (cases n) auto
  have "list_all2 (complete W (ts[a := TConsumed])) as vs'"
    using v(3)
  proof (rule list.rel_mono_strong)
    fix b x assume "b \<in> set as" "complete W ts b x"
    moreover have "ts[a := TConsumed] ! b = ts ! b" using calculation(1) Cons.prems(1) by (auto intro: nth_list_update_neq)
    ultimately show "complete W (ts[a := TConsumed]) b x" by (simp add: complete_def)
  qed
  then have "poll_all (poll_fn n W) as (rs @ [v]) (ts[a := TConsumed])
      = (Some (VVec ((rs @ [v]) @ vs')), foldl (\<lambda>ts a. ts[a := TConsumed]) (ts[a := TConsumed]) as)"
    using Cons.prems by (intro Cons.IH) auto
  then show ?case using v(1,2) host by (auto simp: complete_def)
qed simp

lemma consumed_nth: "b < length ts \<Longrightarrow> foldl (\<lambda>ts a. ts[a := TConsumed]) ts as ! b = (if b \<in> set as then TConsumed else ts ! b)"
  by (induction as arbitrary: ts) (auto simp: nth_list_update)

lemma task_refs_tasks: "task_refs name i (map VTask as) = Ok as"
  by (induction as arbitrary: i) simp_all

text \<open>
  C17. If the inputs of \<open>task_all\<close> are distinct tasks, each one with a value or an operation of the host that is done (not
  a combination itself), then the first poll gives their values in the order of the inputs, and consumes them and no
  other task.
\<close>

theorem task_all_collects:
  assumes "distinct as" "list_all2 (complete W ts) as vs" "list_all (\<lambda>a. a < length ts) as"
  shows "\<exists>t ts'. bi_task_all [VVec (map VTask as)] ts = (Ok (VTask t), ts')
     \<and> fst (take_task W t ts') = Some (VVec vs)
     \<and> (\<forall>b < length ts. snd (take_task W t ts') ! b = (if b \<in> set as then TConsumed else ts ! b))"
proof -
  let ?t = "length ts" and ?ts = "ts @ [TPending (PollAll as) None]"
  have new: "bi_task_all [VVec (map VTask as)] ts = (Ok (VTask ?t), ?ts)"
    by (simp add: bi_task_all_def combined_def one_arg_def task_refs_tasks new_task_def)
  have all: "list_all2 (complete W ?ts) as vs"
    using assms(2)
  proof (rule list.rel_mono_strong)
    fix a v assume "a \<in> set as" "complete W ts a v"
    then show "complete W ?ts a v" using assms(3) by (simp add: complete_def list_all_iff nth_append)
  qed
  have "poll_task W ?t ?ts = (Some (VVec vs), foldl (\<lambda>ts a. ts[a := TConsumed]) ?ts as)"
  proof (cases as)
    case Nil
    then show ?thesis using all by (simp add: poll_task_def)
  next
    case (Cons a as')
    then have "0 < ?t" using assms(3) by auto
    then show ?thesis using poll_all_complete [OF assms(1) all, of ?t "[]"] by (simp add: poll_task_def)
  qed
  then show ?thesis
    using assms(3) new by (auto simp: take_task_def consumed_nth nth_append list_all_iff)
qed

theorem task_all_collects_witness:
  "\<exists>t ts'. bi_task_all [VVec [VTask 1, VTask 0]] [TReady (VInt 7 :: fixed rt_value), TReady (VInt 8)] = (Ok (VTask t), ts')
     \<and> fst (take_task (\<lambda>_. None) t ts') = Some (VVec [VInt 8, VInt 7])"
proof -
  let ?ts = "[TReady (VInt 7 :: fixed rt_value), TReady (VInt 8)]"
  have "\<exists>t ts'. bi_task_all [VVec (map VTask [1, 0])] ?ts = (Ok (VTask t), ts')
      \<and> fst (take_task (\<lambda>_. None) t ts') = Some (VVec [VInt 8, VInt 7])
      \<and> (\<forall>b < length ?ts. snd (take_task (\<lambda>_. None) t ts') ! b = (if b \<in> set [1, 0] then TConsumed else ?ts ! b))"
    by (rule task_all_collects) (simp_all add: complete_def)
  then show ?thesis by auto
qed



text \<open>
  A handler that awaits once: before, it only reads the state; after, it writes the state it finds then, from what it
  read.
\<close>

definition awaiting_handler ::
  "nat \<Rightarrow> ('d rt_value list \<Rightarrow> nat) \<Rightarrow> ('d rt_value list \<Rightarrow> ('d, 'z) world \<Rightarrow> ('d, 'z) world \<Rightarrow> ('d, 'z) world) \<Rightarrow> (('d, 'z) world, 'd) handler" where
  "awaiting_handler n task wr = \<lparr>hd_arity = n, hd_body = (\<lambda>args. Coro (\<lambda>_ w. (Awaiting (task args) (immediate (wr args w)), w)))\<rparr>"

text \<open>A task without a deadline or a stream that the next poll takes.\<close>

definition awaitable :: "'d answers \<Rightarrow> ('d, 'z) world \<Rightarrow> nat \<Rightarrow> bool" where
  "awaitable W w t \<longleftrightarrow> find_io_token w t = None
     \<and> (case as_tasks w ! t of TPending f d \<Rightarrow> d = None \<and> (case f of PollHost h \<Rightarrow> W h \<noteq> None | _ \<Rightarrow> False) | _ \<Rightarrow> True)"

lemma take_awaitable:
  assumes "awaitable W w t"
  shows "\<exists>v. take_task W t (as_tasks w) = (Some v, (as_tasks w)[t := TConsumed])"
  using assms by (auto simp: awaitable_def take_task_def poll_task_def split: task_state.split_asm poller.split_asm)

lemma awaitable_consume: "awaitable W w t \<Longrightarrow> awaitable W (w\<lparr>as_tasks := (as_tasks w)[u := TConsumed]\<rparr>) t"
  by (cases "u = t"; cases "t < length (as_tasks w)") (simp_all add: awaitable_def find_io_token_def not_less list_update_beyond)

text \<open>The first halves run one after the other and are parked in that order.\<close>

lemma resume_first_halves:
  assumes "\<forall>(t, f) \<in> set cs. awaitable W w t"
  shows "foldl resume_one (s, w) (map (\<lambda>(t, f). (Coro (\<lambda>_ w. (Awaiting t (immediate (f w)), w)), None)) cs)
     = (s\<lparr>sd_parked := sd_parked s @ map (\<lambda>(t, f). \<lparr>pk_coro = immediate (f w), pk_task = t, pk_token = None\<rparr>) cs,
          sd_yielder := (sd_yielder s \<or> cs \<noteq> [])\<rparr>, w)"
  using assms
proof (induction cs arbitrary: s)
  case (Cons c cs)
  obtain t f where c: "c = (t, f)" by fastforce
  then have "park co t w s' = s'\<lparr>sd_parked := sd_parked s' @ [\<lparr>pk_coro = co, pk_task = t, pk_token = None\<rparr>]\<rparr>" for co s'
    using Cons.prems by (auto simp: park_def awaitable_def split: task_state.split)
  then show ?case using Cons c by (simp add: resume_one_def)
qed simp

text \<open>The poll takes every task and makes the second halves ready in the same order.\<close>

lemma poll_second_halves:
  assumes "\<forall>(t, f) \<in> set cs. awaitable (mo_answers m) w t"
  shows "\<exists>rs. map fst rs = map snd cs
     \<and> foldl (poll_parked m) (s, [], w) (map (\<lambda>(t, co). \<lparr>pk_coro = co, pk_task = t, pk_token = None\<rparr>) cs)
       = (s\<lparr>sd_ready := sd_ready s @ rs\<rparr>, [], w\<lparr>as_tasks := foldl (\<lambda>ts c. ts[fst c := TConsumed]) (as_tasks w) cs\<rparr>)"
  using assms
proof (induction cs arbitrary: s w)
  case (Cons c cs)
  obtain t co where c: "c = (t, co)" by fastforce
  obtain v where v: "take_task (mo_answers m) t (as_tasks w) = (Some v, (as_tasks w)[t := TConsumed])"
    using take_awaitable Cons.prems c by fastforce
  let ?w = "w\<lparr>as_tasks := (as_tasks w)[t := TConsumed]\<rparr>" and ?s = "s\<lparr>sd_ready := sd_ready s @ [(co, Some v)]\<rparr>"
  have "\<forall>(t, f) \<in> set cs. awaitable (mo_answers m) ?w t" using Cons.prems awaitable_consume by fastforce
  then obtain rs where "map fst rs = map snd cs"
    "foldl (poll_parked m) (?s, [], ?w) (map (\<lambda>(t, co). \<lparr>pk_coro = co, pk_task = t, pk_token = None\<rparr>) cs)
       = (?s\<lparr>sd_ready := sd_ready ?s @ rs\<rparr>, [], ?w\<lparr>as_tasks := foldl (\<lambda>ts c. ts[fst c := TConsumed]) (as_tasks ?w) cs\<rparr>)"
    using Cons.IH by blast
  moreover have "poll_parked m (s, [], w) \<lparr>pk_coro = co, pk_task = t, pk_token = None\<rparr> = (?s, [], ?w)"
    using v by (simp add: poll_parked_def)
  ultimately show ?case using c by (intro exI [of _ "(co, Some v) # rs"]) simp
qed simp

lemma tick_first_halves:
  assumes "\<forall>(t, f) \<in> set cs. awaitable (mo_answers m) w t" "cs \<noteq> []"
  shows "\<exists>rs. map fst rs = map immediate (map (\<lambda>c. snd c w) cs)
     \<and> tick m (scheduler_new\<lparr>sd_ready := rev (map (\<lambda>(t, f). (Coro (\<lambda>_ w. (Awaiting t (immediate (f w)), w)), None)) cs)\<rparr>) w
       = (False, scheduler_new\<lparr>sd_ready := rs, sd_yielder := True\<rparr>, w\<lparr>as_tasks := foldl (\<lambda>ts c. ts[fst c := TConsumed]) (as_tasks w) cs\<rparr>)"
proof -
  let ?cs = "map (\<lambda>(t, f). (t, immediate (f w))) cs"
  let ?s = "scheduler_new\<lparr>sd_yielder := True\<rparr>"
  have "\<forall>(t, f) \<in> set ?cs. awaitable (mo_answers m) w t" using assms(1) by auto
  from poll_second_halves [OF this, of ?s] obtain rs where rs: "map fst rs = map snd ?cs"
    "foldl (poll_parked m) (?s, [], w) (map (\<lambda>(t, co). \<lparr>pk_coro = co, pk_task = t, pk_token = None\<rparr>) ?cs)
       = (?s\<lparr>sd_ready := sd_ready ?s @ rs\<rparr>, [], w\<lparr>as_tasks := foldl (\<lambda>ts c. ts[fst c := TConsumed]) (as_tasks w) ?cs\<rparr>)"
    by blast
  have ready: "run_ready (scheduler_new\<lparr>sd_ready := rev (map (\<lambda>(t, f). (Coro (\<lambda>_ w. (Awaiting t (immediate (f w)), w)), None)) cs)\<rparr>) w
      = (?s\<lparr>sd_parked := map (\<lambda>(t, co). \<lparr>pk_coro = co, pk_task = t, pk_token = None\<rparr>) ?cs\<rparr>, w)"
    using resume_first_halves [OF assms(1), of scheduler_new] assms(2)
    by (simp add: run_ready_def scheduler_new_def comp_def case_prod_unfold)
  have "rs \<noteq> []" using rs(1) assms(2) by auto
  moreover have "?s\<lparr>sd_parked := []\<rparr> = ?s" by (simp add: scheduler_new_def)
  moreover have "map snd ?cs = map immediate (map (\<lambda>c. snd c w) cs)" by (simp add: case_prod_unfold comp_def)
  moreover have "foldl (\<lambda>ts c. ts[fst c := TConsumed]) (as_tasks w) ?cs = foldl (\<lambda>ts c. ts[fst c := TConsumed]) (as_tasks w) cs"
    by (simp add: foldl_map case_prod_unfold)
  ultimately show ?thesis
    using rs ready
    by (intro exI [of _ rs]) (simp add: tick_def fire_timers_def has_work_def scheduler_new_def del: foldl_map)
qed

lemma tick_second_halves:
  assumes "map fst rs = map immediate fs" "fs \<noteq> []"
  shows "tick m (scheduler_new\<lparr>sd_ready := rs, sd_yielder := True\<rparr>) w
     = (True, scheduler_new\<lparr>sd_results := map (\<lambda>_. Ok VNil) fs\<rparr>, foldl (\<lambda>w f. f w) w (rev fs))"
proof -
  have "map fst (rev rs) = map immediate (rev fs)" using assms(1) by (metis rev_map)
  from resume_immediate [OF this, of "scheduler_new\<lparr>sd_yielder := True\<rparr>" w] show ?thesis
    using assms(2) by (simp add: tick_def run_ready_def fire_timers_def has_work_def scheduler_new_def rev_map [symmetric] map_replicate_const)
qed

text \<open>
  C38. Handlers of one actor interleave at \<open>await\<close>. Of the messages that wait in a mailbox, whose handlers read the
  state, await a task that is complete and then write, every handler reads the state from before all of them; the
  writes follow one another in the order in which the messages arrived.
\<close>

theorem handlers_of_actor_interleave:
  assumes "as_live w = [a]" "as_mail w a = map (\<lambda>m. VVariant (fst m) (snd m)) msgs" "msgs \<noteq> []"
    and "w0 = w\<lparr>as_mail := (as_mail w)(a := [])\<rparr>"
    and "\<forall>m \<in> set msgs. H a (fst m) = Some (awaiting_handler (length (snd m)) (task (fst m)) (wr (fst m)))"
    and "\<forall>m \<in> set msgs. awaitable (mo_answers (ms i)) w (task (fst m) (snd m))"
  shows "\<exists>ts. drain_mailboxes_async (Suc (Suc cap)) H ms i scheduler_new w
     = (None, Suc (Suc i), scheduler_new, foldl (\<lambda>w' m. wr (fst m) (snd m) w0 w') (w0\<lparr>as_tasks := ts\<rparr>) msgs)"
proof -
  let ?c = "\<lambda>m. (task (fst m) (snd m), wr (fst m) (snd m))" and ?co = "\<lambda>(t, f). (Coro (\<lambda>_ w. (Awaiting t (immediate (f w)), w)), None)"
  let ?cs = "map ?c (rev msgs)" and ?fs = "map (\<lambda>m. wr (fst m) (snd m) w0) (rev msgs)"
  have mail: "collect_mail (as_live w) w = (map (\<lambda>m. (a, VVariant (fst m) (snd m))) msgs, w0)"
    using assms(1,2,4) by simp
  have spawn: "spawn_pending H (map (\<lambda>m. (a, VVariant (fst m) (snd m))) msgs) scheduler_new
      = (None, scheduler_new\<lparr>sd_ready := rev (map ?co ?cs)\<rparr>)"
    using spawn_mail [of msgs H a "\<lambda>m. awaiting_handler (length (snd m)) (task (fst m)) (wr (fst m))" scheduler_new] assms(5)
    by (simp add: scheduler_new_def awaiting_handler_def rev_map comp_def)
  have "\<forall>(t, f) \<in> set ?cs. awaitable (mo_answers (ms i)) w0 t"
    using assms(4,6) by (auto simp: awaitable_def find_io_token_def)
  then obtain rs ts where rs: "map fst rs = map immediate (map (\<lambda>c. snd c w0) ?cs)"
    "tick (ms i) (scheduler_new\<lparr>sd_ready := rev (map ?co ?cs)\<rparr>) w0 = (False, scheduler_new\<lparr>sd_ready := rs, sd_yielder := True\<rparr>, w0\<lparr>as_tasks := ts\<rparr>)"
    using tick_first_halves [of ?cs "ms i" w0] assms(3) by auto
  have fs: "map fst rs = map immediate ?fs" "?fs \<noteq> []" using rs(1) assms(3) by (simp_all add: comp_def)
  have "rs \<noteq> []" using fs by auto
  then have "drain_ticks (Suc (Suc cap)) ms i [] (scheduler_new\<lparr>sd_ready := rev (map ?co ?cs)\<rparr>) w0
      = (map (\<lambda>_. Ok VNil) ?fs, Suc (Suc i), scheduler_new, foldl (\<lambda>w f. f w) (w0\<lparr>as_tasks := ts\<rparr>) (rev ?fs))"
    using rs(2) tick_second_halves [OF fs, of "ms (Suc i)" "w0\<lparr>as_tasks := ts\<rparr>"]
    by (simp add: has_ready_def scheduler_new_def del: map_map)
  then have "drain_mailboxes_async (Suc (Suc cap)) H ms i scheduler_new w
      = (None, Suc (Suc i), scheduler_new, foldl (\<lambda>w f. f w) (w0\<lparr>as_tasks := ts\<rparr>) (rev ?fs))"
    by (simp add: drain_mailboxes_async_def mail spawn del: drain_ticks.simps map_map)
  then show ?thesis by (auto simp: rev_map foldl_map)
qed

text \<open>A handler that reads a counter, awaits task 0 and writes the successor: two messages leave the counter at 1.\<close>

definition bump_handler :: "('d, nat) handlers" where
  "bump_handler a name = Some (awaiting_handler 0 (\<lambda>_. 0) (\<lambda>_ w w'. w'\<lparr>async.more := Suc (async.more w)\<rparr>))"

definition two_bumps :: "(fixed, nat) world" where
  "two_bumps = async.extend \<lparr>as_tasks = [TReady VNil], as_io = [], as_tokens = [], as_next_token = 1, as_live = [0],
     as_mail = (\<lambda>_. [VVariant (lit ''Bump'') [], VVariant (lit ''Bump'') []])\<rparr> 0"

theorem handlers_of_actor_interleave_witness:
  "\<exists>i s w. drain_mailboxes_async 4 bump_handler (\<lambda>_. \<lparr>mo_now = 0, mo_events = [], mo_answers = (\<lambda>_. None)\<rparr>) 0 scheduler_new two_bumps
     = (None, i, s, w) \<and> \<not> has_work s \<and> async.more w = 1"
proof -
  let ?msgs = "[(lit ''Bump'', []), (lit ''Bump'', [])] :: (str \<times> fixed rt_value list) list"
  let ?ms = "\<lambda>_ :: nat. \<lparr>mo_now = 0, mo_events = [], mo_answers = (\<lambda>_. None)\<rparr> :: fixed moment"
  let ?w0 = "two_bumps\<lparr>as_mail := (as_mail two_bumps)(0 := [])\<rparr>" and ?wr = "\<lambda>_ _ w w'. w'\<lparr>async.more := Suc (async.more w)\<rparr>"
  have "\<exists>ts. drain_mailboxes_async (Suc (Suc 2)) bump_handler ?ms 0 scheduler_new two_bumps
      = (None, Suc (Suc 0), scheduler_new, foldl (\<lambda>w' m. ?wr (fst m) (snd m) ?w0 w') (?w0\<lparr>as_tasks := ts\<rparr>) ?msgs)"
    by (rule handlers_of_actor_interleave [where a = 0 and task = "\<lambda>_ _. 0", OF _ _ _ refl])
      (simp_all add: two_bumps_def async.defs bump_handler_def awaitable_def find_io_token_def)
  then show ?thesis by (auto simp: two_bumps_def async.defs has_work_def scheduler_new_def numeral_eq_Suc simp del: drain_mailboxes_async_def)
qed





text \<open>
  Whoever awaits a task after another has taken its value gets \<open>nil\<close>: of two coroutines parked on one task, the
  second is resumed without the value.
\<close>

theorem second_awaiter_gets_nil:
  assumes "sd_ready s = []" "sd_timers s = []" "sd_parked s = [\<lparr>pk_coro = c, pk_task = t, pk_token = None\<rparr>, \<lparr>pk_coro = d, pk_task = t, pk_token = None\<rparr>]"
    and "t < length (as_tasks w)" "complete (mo_answers m) (as_tasks w) t v"
  shows "sd_ready (fst (snd (tick m s w))) = [(c, Some v), (d, Some VNil)]"
  using assms
  by (auto simp: complete_def tick_def run_ready_def poll_parked_def take_task_def poll_task_def fire_timers_def)

text \<open>
  While any timer is pending, a tick waits for the next one, even when a combination of tasks that has no timer of
  its own could complete before.
\<close>

theorem timer_delays_combinators:
  assumes "sd_timers s = t # ts" "p \<in> set (sd_parked s)" "pk_token p = None"
  shows "poll_timeout s now = Some (tm_deadline t - now)"
  using assms by (simp add: poll_timeout_def)

end
