(* ===== verification/Spec2Isabelle.thy ===== *)
theory Spec2Isabelle
  imports Prelude Lexer_Spec Parser_Spec Parser_Correct Ast_Value_Spec Value_Spec Env Ops_Spec Builtins_Spec Vm_Txn_Spec
    Vm_Signal_Spec Compiler_Findings Tw_Spec Scheduler_Spec
begin

text \<open>
  A verification development for the programming language 1y: an interpreter in Rust with two engines, actors, software
  transactions and coroutines. Paths are relative to \<open>src/\<close> of the repository.

  The program. A source text goes through the lexer (\<open>src/lexer\<close>) and the parser (\<open>src/parser\<close>), which give a syntax tree
  (\<open>src/ast\<close>) and diagnostics. The tree is either compiled to bytecode (\<open>src/compiler\<close>) that the virtual machine
  (\<open>src/vm\<close>) runs, or walked by the interpreter (\<open>src/interpreter/mod.rs\<close>). Both engines share the values
  (\<open>src/value.rs\<close>), the operations on them (\<open>src/interpreter/ops.rs\<close>), the builtin functions
  (\<open>src/interpreter/builtins.rs\<close>), the errors, and the scheduler of coroutines (\<open>src/runtime/scheduler.rs\<close>).

  Conventions. Text is a list of code points; the big integers of the crate are \<open>int\<close>, machine integers are words or
  \<open>nat\<close> with their bounds written out. A struct is a record, an enum a datatype with the same constructors, a shared
  mutable cell an address in a store. A function that can fail returns \<open>Ok v\<close> or \<open>Err e\<close>; a Rust panic is a value of its
  own in the engines. Code that is not in the repository is a parameter: \<open>'d ext\<close> (theory \<open>External\<close>) has the decimals of
  the crate, with the laws that a theorem needs as named hypotheses such as \<open>decimal_laws\<close>; \<open>'d numerics\<close> has floating
  point; the host of an engine provides builtin functions, files and identifiers; a \<open>moment\<close> of the scheduler is what
  clock, sockets and timers answer during a tick. \<open>fixed_ext\<close> is a concrete instance, on fixed-point decimals, for witnesses.

  Reading. \<open>Source_Span\<close>, \<open>Token\<close> and \<open>Lexer\<close> model spans, diagnostics, token kinds and every function of the lexer.
  \<open>Lexer_Spec\<close>: the tokens tile the text, maximal munch, literals keep their value, comments and interpolations nest.
  \<open>Lexer_Text\<close>: the lexer reads back the printed form of tokens, decimals and interpolations apart. \<open>Ast\<close>, \<open>Parser_State\<close> and \<open>Parser\<close> model the tree and the
  whole parser as computations on its cursor, in the order of \<open>src/parser/mod.rs\<close>. \<open>Parser_Total\<close> and \<open>Parser_Spec\<close>: it
  returns on every text. \<open>Parser_Grammar\<close>, \<open>Parser_Reads\<close> and \<open>Parser_Correct\<close>: the precedence table at the head of the
  file as an unambiguous grammar of phrases, and the parser as an implementation of it. \<open>Ast_Value\<close> is
  \<open>src/ast/to_value.rs\<close> with the builtin \<open>ast_of\<close>; \<open>Ast_Value_Spec\<close> gives the schema of the encoded trees and shows that
  every tree follows it.

  Values. \<open>Value\<close> and \<open>Send_Value\<close> model \<open>src/value.rs\<close>: \<open>Value_Spec\<close> shows that equality is an equivalence, that the
  collections keep their keys distinct, and that data survives the way to another thread. \<open>Interp_Error\<close>, \<open>Env\<close> and \<open>Ops\<close>
  are errors, scopes and operations, with the numeric tower and the laws of lookup and update in \<open>Ops_Spec\<close>. \<open>Builtins\<close>
  and \<open>Builtins_Spec\<close> are the stateless builtin functions and the laws of those on strings.

  Bytecode. \<open>Chunk\<close> is the instruction set and the constants, with codecs for opcodes and operands. \<open>Compiler_State\<close> and
  \<open>Compiler\<close> model the compiler, \<open>Vm_State\<close> to \<open>Vm_Step\<close> the machine: captured variables, transactions, control transfer,
  patterns, calls, actors, modules, and the instruction cycle. \<open>Eval_Spec\<close> is a big-step semantics of plain expressions
  (no bindings, calls or control transfer). \<open>Compiler_Code\<close>, \<open>Compiler_Plain\<close>, \<open>Compiler_Correct\<close> and \<open>Compiler_Spec\<close>
  show that compiled code implements it on the machine; \<open>Vm_Exec\<close> runs code symbolically for this. \<open>Vm_Txn_Spec\<close>,
  \<open>Vm_Signal_Spec\<close> and \<open>Vm_Step_Spec\<close> state what transactions, exceptions and returns guarantee, and where they do not;
  \<open>Compiler_Findings\<close> has programs on which compiler and machine go wrong together.

  Tree walk. \<open>Tw_State\<close>, \<open>Tw_Eval\<close>, \<open>Tw_Call\<close> and \<open>Tw_Walk\<close> model the interpreter over the same stores. The state has the
  scopes that a \<open>RefCell\<close> borrow keeps locked (\<open>it_held\<close>: a map literal holds one while it evaluates a name), and what the
  operating system remembers between calls (\<open>it_host\<close>: native functions may change it, and the resolution and the content of
  files depend on it). \<open>Tw_Keeps\<close> proves once, for every order on states that the elementary updates respect, that each
  evaluation respects it; \<open>Tw_Grows\<close> and \<open>Tw_Isolated\<close> instantiate it: a panic only under a borrow and the panic that exists,
  balanced transactions, modules loaded once, isolation of failed transactions. The scheduler is a parameter of the walk;
  the properties of \<open>Tw_Grows\<close> and that of failed modules are about evaluations that reach neither \<open>yield\<close> nor \<open>await\<close>
  (\<open>no_scheduler\<close>). \<open>Tw_Plain\<close>: the walk implements the semantics of \<open>Eval_Spec\<close>, so both engines agree. \<open>Tw_Spec\<close>:
  mailboxes, native functions, failed modules.

  Coroutines. \<open>Task\<close> models \<open>TaskState\<close>, its polling, and the combinators; \<open>Scheduler\<close> the scheduler, the asynchronous drain of
  the mailboxes and \<open>await\<close>, over coroutines that are arbitrary resumptions. \<open>Scheduler_Spec\<close>: a tick loses no coroutine;
  the order of handlers and how they interleave, the values that awaiting and combining tasks give, and what happens after a drain.

  Bounds. The parser's bound is its depth of recursion; it needs at most \<open>(n + 2)\<^sup>2\<close> for a text of \<open>n\<close> characters
  (\<open>parse_returns\<close>). Dispatch loops of the machine and the tree walk take a bound on their steps or depth, since programs
  may run forever; a larger bound never changes an answer (\<open>dispatch_bound_irrelevant\<close>), and where the properties claim
  an answer they claim that one exists for every sufficiently large bound. The bound on nested combinators is the address of the
  task, as a combinator is newer than its inputs (\<open>poll_bound_irrelevant\<close>). The drains of the mailboxes have the bounds
  of the code.

  Not modelled. The source printer (\<open>src/printer.rs\<close>). The standard library
  (\<open>src/interpreter/stdlib\<close>) but for what the engines use of it: its modules wrap files, sockets, processes, regular
  expressions and cryptography, that is calls of the operating system and of crates. The registry and the threads
  of actors on other threads (\<open>src/runtime/registry.rs\<close>, \<open>worker.rs\<close>), which are channels of the Rust library. The command
  line (\<open>src/main.rs\<close>). A handler that drains the mailboxes itself resumes coroutines from within a coroutine;
  in the model a coroutine is a resumption that does not reach the scheduler. The thread-local pointers of the scheduler
  are modelled only as far as \<open>in_coroutine\<close> reads them.
\<close>

end
